(* ===== verification/EaPrelude.thy ===== *)
theory EaPrelude
  imports Main "HOL-Library.Word" "HOL-Library.Char_ord" "HOL-Library.List_Lexorder"
begin

text \<open>
  The prelude of the development: the lemma collections the component theories add to, the
  helpers that write out what C++ containers do (\<open>operator[]\<close> of an unordered map inserts a
  default, \<open>std::map\<close> is an association list sorted by its keys), string prefixes
  (\<open>rocksdb::Slice::starts_with\<close>), and the eight raw bytes of an \<open>int64_t\<close> that the managers
  append to their RocksDB keys.
\<close>

named_theorems handler_defs "the definitions of the state machine's request handlers"
named_theorems key_simps "facts that tell RocksDB keys of different kinds apart"
named_theorems frame_simps "what an operation leaves unchanged"

subsection \<open>Unordered maps\<close>

text \<open>\<open>m[k]\<close> of an unordered map: the value read, and the map after the access.\<close>

definition at_or :: "'v \<Rightarrow> ('k \<Rightarrow> 'v option) \<Rightarrow> 'k \<Rightarrow> 'v" where
  "at_or d m k = (case m k of None \<Rightarrow> d | Some v \<Rightarrow> v)"

definition touch :: "'v \<Rightarrow> 'k \<Rightarrow> ('k \<Rightarrow> 'v option) \<Rightarrow> ('k \<Rightarrow> 'v option)" where
  "touch d k m = (case m k of None \<Rightarrow> m(k \<mapsto> d) | Some _ \<Rightarrow> m)"

lemma at_or_Some [simp]: "m k = Some v \<Longrightarrow> at_or d m k = v"
  by (simp add: at_or_def)

lemma at_or_None [simp]: "m k = None \<Longrightarrow> at_or d m k = d"
  by (simp add: at_or_def)

lemma at_or_upd: "at_or d (m(k \<mapsto> v)) k' = (if k' = k then v else at_or d m k')"
  by (simp add: at_or_def)

lemma at_or_del: "at_or d (m(k := None)) k' = (if k' = k then d else at_or d m k')"
  by (simp add: at_or_def)

lemma at_or_empty [simp]: "at_or d Map.empty k = d"
  by (simp add: at_or_def)

lemma touch_Some [simp]: "m k = Some v \<Longrightarrow> touch d k m = m"
  by (simp add: touch_def)

lemma at_or_touch [simp]: "at_or d (touch d k m) k' = at_or d m k'"
  by (simp add: touch_def at_or_def split: option.splits)

subsection \<open>Ordered maps\<close>

text \<open>
  \<open>std::map\<close> as an association list with strictly increasing keys: \<open>find\<close> is \<open>map_of\<close>,
  \<open>begin ... end\<close> is the list, \<open>rbegin\<close> its last pair.
\<close>

fun omap_put :: "'k::linorder \<Rightarrow> 'v \<Rightarrow> ('k \<times> 'v) list \<Rightarrow> ('k \<times> 'v) list" where
  "omap_put k v [] = [(k, v)]"
| "omap_put k v ((k', v') # m) =
     (if k < k' then (k, v) # (k', v') # m
      else if k = k' then (k, v) # m
      else (k', v') # omap_put k v m)"

definition omap_erase :: "'k \<Rightarrow> ('k \<times> 'v) list \<Rightarrow> ('k \<times> 'v) list" where
  "omap_erase k m = filter (\<lambda>p. fst p \<noteq> k) m"

definition omap_ok :: "('k::linorder \<times> 'v) list \<Rightarrow> bool" where
  "omap_ok m \<longleftrightarrow> sorted_wrt (<) (map fst m)"

definition omap_upper :: "'k::linorder \<Rightarrow> ('k \<times> 'v) list \<Rightarrow> ('k \<times> 'v) list" where
  "omap_upper k m = dropWhile (\<lambda>p. fst p \<le> k) m"

lemma omap_ok_Nil [simp]: "omap_ok []"
  by (simp add: omap_ok_def)

lemma omap_ok_Cons: "omap_ok ((k, v) # m) \<longleftrightarrow> (\<forall>p \<in> set m. k < fst p) \<and> omap_ok m"
  by (auto simp: omap_ok_def)

lemma set_omap_put: "fst ` set (omap_put k v m) = insert k (fst ` set m)"
  by (induction k v m rule: omap_put.induct) auto

lemma map_of_omap_put [simp]: "map_of (omap_put k v m) = (map_of m)(k \<mapsto> v)"
  by (induction k v m rule: omap_put.induct) (auto simp: fun_eq_iff)

lemma omap_put_keys: "p \<in> set (omap_put k v m) \<Longrightarrow> fst p = k \<or> fst p \<in> fst ` set m"
  using set_omap_put [of k v m] by (metis imageI insertE)

lemma omap_ok_put: "omap_ok m \<Longrightarrow> omap_ok (omap_put k v m)"
proof (induction k v m rule: omap_put.induct)
  case (2 k v k' v' m)
  then show ?case
    by (auto simp: omap_ok_Cons dest!: omap_put_keys)
qed (simp add: omap_ok_Cons)

lemma omap_put_neq_Nil [simp]: "omap_put k v m \<noteq> []"
  by (cases "(k, v, m)" rule: omap_put.cases) auto

lemma map_of_omap_erase [simp]: "map_of (omap_erase k m) = (map_of m)(k := None)"
  unfolding omap_erase_def by (induction m) (auto simp: fun_eq_iff)

lemma omap_ok_erase: "omap_ok m \<Longrightarrow> omap_ok (omap_erase k m)"
  unfolding omap_erase_def by (induction m) (auto simp: omap_ok_Cons)

lemma omap_ok_last_max:
  "omap_ok m \<Longrightarrow> p \<in> set m \<Longrightarrow> fst p \<le> fst (last m)"
proof (induction m)
  case (Cons q m)
  then show ?case
    by (cases q) (auto simp: omap_ok_Cons less_imp_le)
qed simp

lemma omap_ok_snoc: "omap_ok m \<Longrightarrow> (\<forall>p \<in> set m. fst p < k) \<Longrightarrow> omap_put k v m = m @ [(k, v)]"
  by (induction k v m rule: omap_put.induct) (auto simp: omap_ok_Cons)

lemma set_omap_upper: "omap_ok m \<Longrightarrow> set (omap_upper k m) = {p \<in> set m. k < fst p}"
proof (induction m)
  case (Cons q m)
  then show ?case
    by (cases q) (auto simp: omap_upper_def omap_ok_Cons)
qed (simp add: omap_upper_def)

lemma omap_lookup_mem: "omap_ok m \<Longrightarrow> map_of m k = Some v \<longleftrightarrow> (k, v) \<in> set m"
proof -
  assume "omap_ok m"
  then have "distinct (map fst m)"
    by (auto simp: omap_ok_def strict_sorted_iff)
  then show ?thesis by (rule map_of_eq_Some_iff)
qed

subsection \<open>String prefixes\<close>

definition starts_with :: "string \<Rightarrow> string \<Rightarrow> bool" where
  "starts_with p k \<longleftrightarrow> take (length p) k = p"

lemma starts_with_append [simp]: "starts_with p (p @ k)"
  by (simp add: starts_with_def)

lemma starts_with_Nil [simp]: "starts_with [] k"
  by (simp add: starts_with_def)

lemma starts_with_Cons [simp]: "starts_with (c # p) (d # k) \<longleftrightarrow> c = d \<and> starts_with p k"
  by (auto simp: starts_with_def)

lemma starts_with_Cons_Nil [simp]: "\<not> starts_with (c # p) []"
  by (simp add: starts_with_def)

lemma starts_withE: "starts_with p k \<Longrightarrow> \<exists>r. k = p @ r"
  by (metis starts_with_def append_take_drop_id)

subsection \<open>The bytes of an \<open>int64_t\<close>\<close>

text \<open>
  \<open>s.append((char *) &x, sizeof(int64_t))\<close> appends the object representation of \<open>x\<close>: eight
  bytes, least significant first on the little-endian machines the server is built for.
  \<open>*(int64_t *) s.c_str()\<close> reads them back.
\<close>

definition int64_bytes :: "int \<Rightarrow> string" where
  "int64_bytes x = map (\<lambda>i. char_of (x div 256 ^ i)) [0..<8]"

definition bytes_int64 :: "string \<Rightarrow> int" where
  "bytes_int64 s =
     (let u = foldr (\<lambda>c a. of_char c + 256 * a) (take 8 s) 0
      in if u < 2 ^ 63 then u else u - 2 ^ 64)"

definition int64_range :: "int \<Rightarrow> bool" where
  "int64_range x \<longleftrightarrow> - (2 ^ 63) \<le> x \<and> x < 2 ^ 63"

lemma length_int64_bytes [simp]: "length (int64_bytes x) = 8"
  by (simp add: int64_bytes_def)

lemma bytes_fold:
  "foldr (\<lambda>c a. of_char c + 256 * a) (map (\<lambda>i. char_of (x div 256 ^ i)) [k..<k + n]) 0
     = (x div 256 ^ k) mod (256 ^ n :: int)"
proof (induction n arbitrary: k)
  case (Suc n)
  let ?f = "\<lambda>c a. of_char c + 256 * a :: int" and ?y = "x div 256 ^ k"
  let ?g = "\<lambda>i. char_of (x div 256 ^ i)"
  have upt: "[k..<k + Suc n] = k # [Suc k..<Suc k + n]"
    by (simp add: upt_conv_Cons)
  have "foldr ?f (map ?g [k..<k + Suc n]) 0
      = of_char (char_of ?y) + 256 * foldr ?f (map ?g [Suc k..<Suc k + n]) 0"
    unfolding upt by simp
  also have "\<dots> = ?y mod 256 + 256 * ((x div 256 ^ Suc k) mod 256 ^ n)"
    unfolding Suc.IH by simp
  also have "x div 256 ^ Suc k = ?y div 256"
    by (simp add: zdiv_zmult2_eq [symmetric] mult.commute)
  also have "?y mod 256 + 256 * ((?y div 256) mod 256 ^ n) = ?y mod (256 * 256 ^ n)"
    by (simp add: zmod_zmult2_eq)
  finally show ?case by simp
qed simp

lemma bytes_int64_bytes:
  assumes "int64_range x"
  shows "bytes_int64 (int64_bytes x @ r) = x"
proof -
  have u: "foldr (\<lambda>c a. of_char c + 256 * a) (take 8 (int64_bytes x @ r)) 0 = x mod 2 ^ 64"
    using bytes_fold [of x 0 8] by (simp add: int64_bytes_def)
  have "x mod 2 ^ 64 = (if 0 \<le> x then x else x + 2 ^ 64)"
  proof (cases "0 \<le> x")
    case True
    then show ?thesis using assms by (simp add: int64_range_def)
  next
    case False
    then have "(x + 2 ^ 64) mod 2 ^ 64 = x + 2 ^ 64"
      using assms by (intro mod_pos_pos_trivial) (auto simp: int64_range_def)
    then have "x mod 2 ^ 64 = x + 2 ^ 64"
      by (metis mod_add_self2)
    with False show ?thesis by simp
  qed
  then show ?thesis
    using assms unfolding bytes_int64_def u by (auto simp: int64_range_def Let_def)
qed

lemma int64_bytes_inject:
  "int64_range x \<Longrightarrow> int64_range y \<Longrightarrow> int64_bytes x = int64_bytes y \<longleftrightarrow> x = y"
  by (metis append_Nil2 bytes_int64_bytes)

lemma int64_range_id: "1 \<le> n \<Longrightarrow> n \<le> m \<Longrightarrow> m < 2 ^ 63 \<Longrightarrow> int64_range n"
  by (simp add: int64_range_def)

end
