(* ===== verification/DiscoveryProto.thy ===== *)
theory DiscoveryProto
  imports EaPrelude
begin

text \<open>
  The messages the discovery server exchanges and stores. Their protobuf schema (package
  \<open>eapi\<close>) is not part of the repository, so a message is a record of exactly the fields that
  \<open>src/ea\<close> reads or writes: an \<open>option\<close> where the code asks \<open>has_field()\<close>, a plain value
  where it only gets and sets. Serialisation (\<open>SerializeToString\<close>, \<open>ParseFromString\<close>) is a
  parameter, with the round trip as its named law \<open>pb_ok\<close>.
\<close>

subsection \<open>Error codes and operations\<close>

datatype ErrCode = SUCCESS | INPUT_PARAM_ERROR | PARSE_TO_PB_FAIL | PARSE_FROM_PB_FAIL
  | INTERNAL_ERROR | NOT_LEADER | UNKNOWN_REQ_TYPE | HAVE_NOT_INIT | RETRY_LATER | EXEC_FAIL
  | PEER_NOT_EQUAL

datatype OpType = OP_CREATE_USER | OP_DROP_USER | OP_ADD_PRIVILEGE | OP_DROP_PRIVILEGE
  | OP_CREATE_NAMESPACE | OP_DROP_NAMESPACE | OP_MODIFY_NAMESPACE
  | OP_CREATE_ZONE | OP_DROP_ZONE | OP_MODIFY_ZONE
  | OP_CREATE_SERVLET | OP_DROP_SERVLET | OP_MODIFY_SERVLET
  | OP_CREATE_CONFIG | OP_REMOVE_CONFIG
  | OP_ADD_INSTANCE | OP_DROP_INSTANCE | OP_UPDATE_INSTANCE
  | OP_MODIFY_RESOURCE_TAG | OP_UPDATE_MAIN_LOGICAL_ROOM
  | OP_ADD_ID_FOR_AUTO_INCREMENT | OP_DROP_ID_FOR_AUTO_INCREMENT
  | OP_GEN_ID_FOR_AUTO_INCREMENT | OP_UPDATE_FOR_AUTO_INCREMENT

subsection \<open>The persistent messages\<close>

record NameSpaceInfo =
  ns_name :: string
  ns_id :: int
  ns_version :: int
  ns_quota :: "int option"
  ns_resource_tag :: "string option"
  ns_byte_size_per_record :: "int option"
  ns_replica_num :: "int option"
  ns_region_split_lines :: "int option"

record ZoneInfo =
  z_namespace_name :: string
  z_zone :: string
  z_zone_id :: int
  z_namespace_id :: int
  z_version :: int
  z_quota :: "int option"
  z_resource_tag :: "string option"
  z_byte_size_per_record :: "int option"
  z_replica_num :: "int option"
  z_region_split_lines :: "int option"

record ServletInfo =
  sv_namespace_name :: string
  sv_zone :: string
  sv_servlet_name :: string
  sv_servlet_id :: int
  sv_zone_id :: int
  sv_namespace_id :: int
  sv_version :: int
  sv_resource_tag :: "string option"
  sv_replica_num :: "int option"

record ServletInstance =
  si_namespace_name :: "string option"
  si_zone_name :: "string option"
  si_servlet_name :: "string option"
  si_address :: "string option"
  si_env :: "string option"
  si_color :: "string option"
  si_status :: "int option"
  si_weight :: "int option"
  si_user :: "string option"
  si_timestamp :: "int option"
  si_namespace_id :: int
  si_zone_id :: int
  si_servlet_id :: int
  si_version :: int

record PrivilegeZone =
  pz_zone :: string
  pz_zone_id :: int
  pz_zone_rw :: "int option"
  pz_force :: bool

record PrivilegeServlet =
  ps_zone :: string
  ps_servlet_name :: string
  ps_zone_id :: int
  ps_servlet_id :: int
  ps_servlet_rw :: "int option"
  ps_force :: bool

record UserPrivilege =
  up_username :: string
  up_password :: "string option"
  up_namespace_name :: string
  up_namespace_id :: int
  up_version :: int
  up_privilege_zone :: "PrivilegeZone list"
  up_privilege_servlet :: "PrivilegeServlet list"
  up_ip :: "string list"
  up_need_auth_addr :: "bool option"
  up_resource_tag :: "string option"

record Version =
  v_major :: int
  v_minor :: int
  v_patch :: int

datatype ConfigType = CF_JSON | CF_TEXT | CF_INI | CF_YAML | CF_XML | CF_GFLAGS | CF_TOML

record ConfigInfo =
  c_name :: "string option"
  c_version :: "Version option"
  c_content :: "string option"
  c_type :: ConfigType
  c_time :: int

text \<open>A getter of an unset field returns the field's default.\<close>

definition str_field :: "string option \<Rightarrow> string" where
  "str_field f = (case f of None \<Rightarrow> [] | Some s \<Rightarrow> s)"

definition version_field :: "ConfigInfo \<Rightarrow> Version" where
  "version_field c = (case c_version c of None \<Rightarrow> \<lparr>v_major = 0, v_minor = 0, v_patch = 0\<rparr> | Some v \<Rightarrow> v)"

lemma str_field_simps [simp]: "str_field None = []" "str_field (Some s) = s"
  by (simp_all add: str_field_def)

definition empty_NameSpaceInfo :: NameSpaceInfo where
  "empty_NameSpaceInfo = \<lparr>ns_name = [], ns_id = 0, ns_version = 0, ns_quota = None,
     ns_resource_tag = None, ns_byte_size_per_record = None, ns_replica_num = None,
     ns_region_split_lines = None\<rparr>"

definition empty_ZoneInfo :: ZoneInfo where
  "empty_ZoneInfo = \<lparr>z_namespace_name = [], z_zone = [], z_zone_id = 0, z_namespace_id = 0,
     z_version = 0, z_quota = None, z_resource_tag = None, z_byte_size_per_record = None,
     z_replica_num = None, z_region_split_lines = None\<rparr>"

definition empty_ServletInfo :: ServletInfo where
  "empty_ServletInfo = \<lparr>sv_namespace_name = [], sv_zone = [], sv_servlet_name = [],
     sv_servlet_id = 0, sv_zone_id = 0, sv_namespace_id = 0, sv_version = 0,
     sv_resource_tag = None, sv_replica_num = None\<rparr>"

definition empty_ServletInstance :: ServletInstance where
  "empty_ServletInstance = \<lparr>si_namespace_name = None, si_zone_name = None,
     si_servlet_name = None, si_address = None, si_env = None, si_color = None,
     si_status = None, si_weight = None, si_user = None, si_timestamp = None, si_namespace_id = 0, si_zone_id = 0,
     si_servlet_id = 0, si_version = 0\<rparr>"

definition empty_UserPrivilege :: UserPrivilege where
  "empty_UserPrivilege = \<lparr>up_username = [], up_password = None, up_namespace_name = [],
     up_namespace_id = 0, up_version = 0, up_privilege_zone = [], up_privilege_servlet = [],
     up_ip = [], up_need_auth_addr = None, up_resource_tag = None\<rparr>"

definition empty_ConfigInfo :: ConfigInfo where
  "empty_ConfigInfo = \<lparr>c_name = None, c_version = None, c_content = None, c_type = CF_JSON,
     c_time = 0\<rparr>"

subsection \<open>Auto increment requests\<close>

record AutoIncrementInfo =
  ai_servlet_id :: int
  ai_start_id :: "64 word option"
  ai_increment_id :: "64 word option"
  ai_count :: "64 word"
  ai_force :: "bool option"

definition empty_AutoIncrementInfo :: AutoIncrementInfo where
  "empty_AutoIncrementInfo = \<lparr>ai_servlet_id = 0, ai_start_id = None, ai_increment_id = None,
     ai_count = 0, ai_force = None\<rparr>"

subsection \<open>Requests and responses\<close>

record DiscoveryManagerRequest =
  rq_op_type :: OpType
  rq_namespace_info :: "NameSpaceInfo option"
  rq_zone_info :: "ZoneInfo option"
  rq_servlet_info :: "ServletInfo option"
  rq_instance_info :: "ServletInstance option"
  rq_user_privilege :: "UserPrivilege option"
  rq_config_info :: "ConfigInfo option"
  rq_auto_increment :: "AutoIncrementInfo option"

definition empty_request :: "OpType \<Rightarrow> DiscoveryManagerRequest" where
  "empty_request op = \<lparr>rq_op_type = op, rq_namespace_info = None, rq_zone_info = None,
     rq_servlet_info = None, rq_instance_info = None, rq_user_privilege = None,
     rq_config_info = None, rq_auto_increment = None\<rparr>"

definition msg :: "'m \<Rightarrow> 'm option \<Rightarrow> 'm" where
  "msg d m = (case m of None \<Rightarrow> d | Some x \<Rightarrow> x)"

lemma msg_simps [simp]: "msg d (Some x) = x" "msg d None = d"
  by (simp_all add: msg_def)

record DiscoveryManagerResponse =
  rs_errcode :: ErrCode
  rs_errmsg :: string
  rs_op_type :: "OpType option"
  rs_leader :: string
  rs_start_id :: "64 word"
  rs_end_id :: "64 word"

definition empty_response :: DiscoveryManagerResponse where
  "empty_response = \<lparr>rs_errcode = SUCCESS, rs_errmsg = [], rs_op_type = None, rs_leader = [],
     rs_start_id = 0, rs_end_id = 0\<rparr>"

text \<open>
  The closure of a raft task: \<open>None\<close> when there is none or it holds no response (a follower
  applies the entry, or the log is replayed), else the response the client is waiting for.
\<close>

type_synonym closure = "DiscoveryManagerResponse option"

definition set_resp :: "ErrCode \<Rightarrow> string \<Rightarrow> DiscoveryManagerResponse \<Rightarrow> DiscoveryManagerResponse" where
  "set_resp e m r = r\<lparr>rs_errcode := e, rs_errmsg := m\<rparr>"

definition if_done_set_response :: "closure \<Rightarrow> ErrCode \<Rightarrow> string \<Rightarrow> closure" where
  "if_done_set_response dn e m = map_option (set_resp e m) dn"

definition error_set_response ::
  "DiscoveryManagerResponse \<Rightarrow> ErrCode \<Rightarrow> string \<Rightarrow> OpType \<Rightarrow> DiscoveryManagerResponse" where
  "error_set_response r e m op = (set_resp e m r)\<lparr>rs_op_type := Some op\<rparr>"

lemma rs_set_resp [simp]:
  "rs_errcode (set_resp e m r) = e" "rs_errmsg (set_resp e m r) = m"
  by (simp_all add: set_resp_def)

lemma if_done_None [simp]: "if_done_set_response None e m = None"
  by (simp add: if_done_set_response_def)

lemma if_done_Some [simp]: "if_done_set_response (Some r) e m = Some (set_resp e m r)"
  by (simp add: if_done_set_response_def)

text \<open>A handler that answers with an error and leaves the state \<open>s\<close>.\<close>

definition rejected :: "closure \<Rightarrow> 's \<Rightarrow> closure \<times> 's \<Rightarrow> bool" where
  "rejected dn s r \<longleftrightarrow> (\<exists>e m. e \<noteq> SUCCESS \<and> r = (if_done_set_response dn e m, s))"

lemma rejectedI [simp]: "e \<noteq> SUCCESS \<Longrightarrow> rejected dn s (if_done_set_response dn e m, s)"
  by (auto simp: rejected_def)

lemma rejected_state: "rejected dn s r \<Longrightarrow> snd r = s"
  by (auto simp: rejected_def)

lemma rejected_errcode: "rejected (Some r0) s r \<Longrightarrow> \<exists>r1. fst r = Some r1 \<and> rs_errcode r1 \<noteq> SUCCESS"
  by (auto simp: rejected_def)

subsection \<open>Versions\<close>

text \<open>
  \<open>turbo::ModuleVersion\<close>, the key of every \<open>std::map\<close> of configurations: major, minor and
  patch, compared in that order as its documentation says.
\<close>

datatype ModuleVersion = ModuleVersion (mv_major: int) (mv_minor: int) (mv_patch: int)

instantiation ModuleVersion :: linorder
begin
definition less_eq_ModuleVersion :: "ModuleVersion \<Rightarrow> ModuleVersion \<Rightarrow> bool" where
  "less_eq_ModuleVersion a b \<longleftrightarrow>
     mv_major a < mv_major b \<or> mv_major a = mv_major b \<and>
       (mv_minor a < mv_minor b \<or> mv_minor a = mv_minor b \<and> mv_patch a \<le> mv_patch b)"
definition less_ModuleVersion :: "ModuleVersion \<Rightarrow> ModuleVersion \<Rightarrow> bool" where
  "less_ModuleVersion a b \<longleftrightarrow> a \<le> b \<and> \<not> b \<le> a"
instance
  by standard (auto simp: less_eq_ModuleVersion_def less_ModuleVersion_def
      intro: ModuleVersion.expand)
end

definition to_module_version :: "Version \<Rightarrow> ModuleVersion" where
  "to_module_version v = ModuleVersion (v_major v) (v_minor v) (v_patch v)"

subsection \<open>The environment\<close>

text \<open>
  What the state machine calls but the repository does not contain. \<open>rocks_write\<close> is
  RocksDB's \<open>Write\<close> of a batch to the \<open>meta_info\<close> column family: \<open>None\<close> when the returned
  status is not ok. \<open>version_str\<close> is \<open>turbo::ModuleVersion::to_string\<close>, \<open>now_us\<close> what
  \<open>butil::gettimeofday_us\<close> returns during the call, \<open>rw_unset\<close> the default of the \<open>RW\<close> enum.
\<close>

type_synonym kv = "string \<Rightarrow> string option"

datatype wb_op = Put string string | Delete string

record 'm pb =
  pb_serialize :: "'m \<Rightarrow> string option"
  pb_parse :: "string \<Rightarrow> 'm option"

record env =
  rocks_write :: "wb_op list \<Rightarrow> kv \<Rightarrow> kv option"
  ns_pb :: "NameSpaceInfo pb"
  zone_pb :: "ZoneInfo pb"
  servlet_pb :: "ServletInfo pb"
  instance_pb :: "ServletInstance pb"
  user_pb :: "UserPrivilege pb"
  config_pb :: "ConfigInfo pb"
  version_str :: "ModuleVersion \<Rightarrow> string"
  now_us :: int
  rw_unset :: int

text \<open>Protobuf: what was serialised parses back to the same message.\<close>

definition pb_ok :: "'m pb \<Rightarrow> bool" where
  "pb_ok c \<longleftrightarrow> (\<forall>x s. pb_serialize c x = Some s \<longrightarrow> pb_parse c s = Some x)"

text \<open>RocksDB: a write whose status is ok has applied the whole batch, in order.\<close>

fun apply_op :: "wb_op \<Rightarrow> kv \<Rightarrow> kv" where
  "apply_op (Put k v) db = db(k \<mapsto> v)"
| "apply_op (Delete k) db = db(k := None)"

definition apply_batch :: "wb_op list \<Rightarrow> kv \<Rightarrow> kv" where
  "apply_batch b db = fold apply_op b db"

definition rocks_write_ok :: "(wb_op list \<Rightarrow> kv \<Rightarrow> kv option) \<Rightarrow> bool" where
  "rocks_write_ok w \<longleftrightarrow> (\<forall>b db db'. w b db = Some db' \<longrightarrow> db' = apply_batch b db)"

definition env_ok :: "env \<Rightarrow> bool" where
  "env_ok E \<longleftrightarrow> rocks_write_ok (rocks_write E) \<and> pb_ok (ns_pb E) \<and> pb_ok (zone_pb E) \<and>
     pb_ok (servlet_pb E) \<and> pb_ok (instance_pb E) \<and> pb_ok (user_pb E) \<and> pb_ok (config_pb E)"

lemma apply_batch_simps [simp]:
  "apply_batch [] db = db"
  "apply_batch (x # b) db = apply_batch b (apply_op x db)"
  by (simp_all add: apply_batch_def)

lemma pb_okD: "pb_ok c \<Longrightarrow> pb_serialize c x = Some s \<Longrightarrow> pb_parse c s = Some x"
  by (simp add: pb_ok_def)

text \<open>
  A concrete environment for the witnesses: a write that never fails, and for each kind of
  message a finite table of messages with their serialised forms.
\<close>

definition table_pb :: "('m \<times> string) list \<Rightarrow> 'm pb" where
  "table_pb t = \<lparr>pb_serialize = map_of t, pb_parse = map_of (map (\<lambda>(x, s). (s, x)) t)\<rparr>"

lemma table_pb_ok: "distinct (map snd t) \<Longrightarrow> pb_ok (table_pb t)"
  by (auto simp: pb_ok_def table_pb_def comp_def split_def intro!: map_of_is_SomeI
      dest!: map_of_SomeD) (force)

definition demo_env :: env where
  "demo_env = \<lparr>rocks_write = (\<lambda>b db. Some (apply_batch b db)),
     ns_pb = table_pb [], zone_pb = table_pb [], servlet_pb = table_pb [],
     instance_pb = table_pb [], user_pb = table_pb [], config_pb = table_pb [],
     version_str = (\<lambda>v. []), now_us = 0, rw_unset = 0\<rparr>"

lemma rocks_write_ok_demo: "rocks_write_ok (\<lambda>b db. Some (apply_batch b db))"
  by (simp add: rocks_write_ok_def)

end
