(* ===== verification/DiscoveryStore.thy ===== *)
theory DiscoveryStore
  imports DiscoveryProto
begin

text \<open>
  \<open>DiscoveryConstants\<close> (discovery_constants.cc) and \<open>DiscoveryRocksdb\<close> (discovery_rocksdb.cc):
  the one-byte tags that partition the key space of the \<open>meta_info\<close> column family, the key
  constructors of the managers, and the operations every handler persists its effect with.
  A return value below 0 means that nothing was written.
\<close>

subsection \<open>Key tags\<close>

definition SCHEMA_IDENTIFY :: string where "SCHEMA_IDENTIFY = [CHR 0x01]"
definition MAX_ID_SCHEMA_IDENTIFY :: string where "MAX_ID_SCHEMA_IDENTIFY = [CHR 0x01]"
definition NAMESPACE_SCHEMA_IDENTIFY :: string where "NAMESPACE_SCHEMA_IDENTIFY = [CHR 0x02]"
definition ZONE_SCHEMA_IDENTIFY :: string where "ZONE_SCHEMA_IDENTIFY = [CHR 0x09]"
definition SERVLET_SCHEMA_IDENTIFY :: string where "SERVLET_SCHEMA_IDENTIFY = [CHR 0x0A]"
definition PRIVILEGE_IDENTIFY :: string where "PRIVILEGE_IDENTIFY = [CHR 0x02]"
definition CONFIG_IDENTIFY :: string where "CONFIG_IDENTIFY = [CHR 0x04]"
definition DISCOVERY_IDENTIFY :: string where "DISCOVERY_IDENTIFY = [CHR 0x03]"
definition DISCOVERY_INSTANCE_IDENTIFY :: string where "DISCOVERY_INSTANCE_IDENTIFY = [CHR 0x03]"
definition MAX_IDENTIFY :: string where "MAX_IDENTIFY = [CHR 0xFF]"
definition MAX_NAMESPACE_ID_KEY :: string where "MAX_NAMESPACE_ID_KEY = ''max_namespace_id''"
definition MAX_ZONE_ID_KEY :: string where "MAX_ZONE_ID_KEY = ''max_zone_id''"
definition MAX_SERVLET_ID_KEY :: string where "MAX_SERVLET_ID_KEY = ''max_servlet_id''"

lemmas tag_defs = SCHEMA_IDENTIFY_def MAX_ID_SCHEMA_IDENTIFY_def NAMESPACE_SCHEMA_IDENTIFY_def
  ZONE_SCHEMA_IDENTIFY_def SERVLET_SCHEMA_IDENTIFY_def PRIVILEGE_IDENTIFY_def
  CONFIG_IDENTIFY_def DISCOVERY_IDENTIFY_def DISCOVERY_INSTANCE_IDENTIFY_def MAX_IDENTIFY_def
  MAX_NAMESPACE_ID_KEY_def MAX_ZONE_ID_KEY_def MAX_SERVLET_ID_KEY_def

subsection \<open>Key constructors\<close>

definition construct_namespace_key :: "int \<Rightarrow> string" where
  "construct_namespace_key i = SCHEMA_IDENTIFY @ NAMESPACE_SCHEMA_IDENTIFY @ int64_bytes i"

definition construct_max_namespace_id_key :: string where
  "construct_max_namespace_id_key =
     SCHEMA_IDENTIFY @ MAX_ID_SCHEMA_IDENTIFY @ MAX_NAMESPACE_ID_KEY"

definition construct_zone_key :: "int \<Rightarrow> string" where
  "construct_zone_key i = SCHEMA_IDENTIFY @ ZONE_SCHEMA_IDENTIFY @ int64_bytes i"

definition construct_max_zone_id_key :: string where
  "construct_max_zone_id_key = SCHEMA_IDENTIFY @ MAX_ID_SCHEMA_IDENTIFY @ MAX_ZONE_ID_KEY"

definition construct_servlet_key :: "int \<Rightarrow> string" where
  "construct_servlet_key i = SCHEMA_IDENTIFY @ SERVLET_SCHEMA_IDENTIFY @ int64_bytes i"

definition construct_max_servlet_id_key :: string where
  "construct_max_servlet_id_key = SCHEMA_IDENTIFY @ MAX_ID_SCHEMA_IDENTIFY @ MAX_SERVLET_ID_KEY"

definition construct_instance_key :: "string \<Rightarrow> string" where
  "construct_instance_key address =
     (DISCOVERY_IDENTIFY @ DISCOVERY_INSTANCE_IDENTIFY) @ address"

definition construct_privilege_key :: "string \<Rightarrow> string" where
  "construct_privilege_key username = PRIVILEGE_IDENTIFY @ username"

definition make_config_key :: "env \<Rightarrow> string \<Rightarrow> ModuleVersion \<Rightarrow> string" where
  "make_config_key E name version = (CONFIG_IDENTIFY @ name) @ version_str E version"

lemmas key_defs = construct_namespace_key_def construct_max_namespace_id_key_def
  construct_zone_key_def construct_max_zone_id_key_def construct_servlet_key_def
  construct_max_servlet_id_key_def construct_instance_key_def construct_privilege_key_def
  make_config_key_def

text \<open>Keys of different kinds differ, and ids of \<open>int64_t\<close> range determine their key.\<close>

lemma schema_keys_disjoint [key_simps]:
  "construct_namespace_key i \<noteq> construct_zone_key j"
  "construct_zone_key j \<noteq> construct_namespace_key i"
  "construct_namespace_key i \<noteq> construct_servlet_key j"
  "construct_servlet_key j \<noteq> construct_namespace_key i"
  "construct_zone_key i \<noteq> construct_servlet_key j"
  "construct_servlet_key j \<noteq> construct_zone_key i"
  "construct_namespace_key i \<noteq> construct_max_namespace_id_key"
  "construct_zone_key i \<noteq> construct_max_namespace_id_key"
  "construct_servlet_key i \<noteq> construct_max_namespace_id_key"
  "construct_namespace_key i \<noteq> construct_max_zone_id_key"
  "construct_zone_key i \<noteq> construct_max_zone_id_key"
  "construct_servlet_key i \<noteq> construct_max_zone_id_key"
  "construct_namespace_key i \<noteq> construct_max_servlet_id_key"
  "construct_zone_key i \<noteq> construct_max_servlet_id_key"
  "construct_servlet_key i \<noteq> construct_max_servlet_id_key"
  by (simp_all add: key_defs tag_defs)

lemmas max_keys_disjoint_sym [key_simps] = schema_keys_disjoint [THEN not_sym]

lemma max_keys_disjoint [key_simps]:
  "construct_max_namespace_id_key \<noteq> construct_max_zone_id_key"
  "construct_max_zone_id_key \<noteq> construct_max_namespace_id_key"
  "construct_max_namespace_id_key \<noteq> construct_max_servlet_id_key"
  "construct_max_servlet_id_key \<noteq> construct_max_namespace_id_key"
  "construct_max_zone_id_key \<noteq> construct_max_servlet_id_key"
  "construct_max_servlet_id_key \<noteq> construct_max_zone_id_key"
  by (simp_all add: key_defs tag_defs)

lemma other_keys_disjoint [key_simps]:
  "construct_instance_key a \<noteq> construct_namespace_key i"
  "construct_instance_key a \<noteq> construct_zone_key i"
  "construct_instance_key a \<noteq> construct_servlet_key i"
  "construct_privilege_key u \<noteq> construct_namespace_key i"
  "construct_privilege_key u \<noteq> construct_zone_key i"
  "construct_privilege_key u \<noteq> construct_servlet_key i"
  "construct_privilege_key u \<noteq> construct_instance_key a"
  "make_config_key E n v \<noteq> construct_namespace_key i"
  "make_config_key E n v \<noteq> construct_zone_key i"
  "make_config_key E n v \<noteq> construct_servlet_key i"
  "make_config_key E n v \<noteq> construct_instance_key a"
  "make_config_key E n v \<noteq> construct_privilege_key u"
  by (simp_all add: key_defs tag_defs)

lemma key_inject [key_simps]:
  "int64_range i \<Longrightarrow> int64_range j \<Longrightarrow> construct_namespace_key i = construct_namespace_key j \<longleftrightarrow> i = j"
  "int64_range i \<Longrightarrow> int64_range j \<Longrightarrow> construct_zone_key i = construct_zone_key j \<longleftrightarrow> i = j"
  "int64_range i \<Longrightarrow> int64_range j \<Longrightarrow> construct_servlet_key i = construct_servlet_key j \<longleftrightarrow> i = j"
  "construct_instance_key a = construct_instance_key b \<longleftrightarrow> a = b"
  "construct_privilege_key u = construct_privilege_key w \<longleftrightarrow> u = w"
  by (simp_all add: key_defs int64_bytes_inject)

text \<open>The prefixes under which the infos of one kind are stored, and which keys they match.\<close>

definition namespace_prefix :: string where
  "namespace_prefix = SCHEMA_IDENTIFY @ NAMESPACE_SCHEMA_IDENTIFY"

definition zone_prefix :: string where
  "zone_prefix = SCHEMA_IDENTIFY @ ZONE_SCHEMA_IDENTIFY"

definition servlet_prefix :: string where
  "servlet_prefix = SCHEMA_IDENTIFY @ SERVLET_SCHEMA_IDENTIFY"

definition max_id_prefix :: string where
  "max_id_prefix = SCHEMA_IDENTIFY @ MAX_ID_SCHEMA_IDENTIFY"

lemmas prefix_defs = namespace_prefix_def zone_prefix_def servlet_prefix_def max_id_prefix_def

lemma namespace_prefix_keys [key_simps]:
  "starts_with namespace_prefix (construct_namespace_key i)"
  "\<not> starts_with namespace_prefix (construct_zone_key i)"
  "\<not> starts_with namespace_prefix (construct_servlet_key i)"
  "\<not> starts_with namespace_prefix construct_max_namespace_id_key"
  "\<not> starts_with namespace_prefix construct_max_zone_id_key"
  "\<not> starts_with namespace_prefix construct_max_servlet_id_key"
  "\<not> starts_with namespace_prefix (construct_instance_key a)"
  "\<not> starts_with namespace_prefix (construct_privilege_key u)"
  "\<not> starts_with namespace_prefix (make_config_key E n v)"
  by (simp_all add: prefix_defs key_defs tag_defs)

lemma zone_prefix_keys [key_simps]:
  "starts_with zone_prefix (construct_zone_key i)"
  "\<not> starts_with zone_prefix (construct_namespace_key i)"
  "\<not> starts_with zone_prefix (construct_servlet_key i)"
  "\<not> starts_with zone_prefix construct_max_namespace_id_key"
  "\<not> starts_with zone_prefix construct_max_zone_id_key"
  "\<not> starts_with zone_prefix construct_max_servlet_id_key"
  "\<not> starts_with zone_prefix (construct_instance_key a)"
  "\<not> starts_with zone_prefix (construct_privilege_key u)"
  "\<not> starts_with zone_prefix (make_config_key E n v)"
  by (simp_all add: prefix_defs key_defs tag_defs)

lemma servlet_prefix_keys [key_simps]:
  "starts_with servlet_prefix (construct_servlet_key i)"
  "\<not> starts_with servlet_prefix (construct_namespace_key i)"
  "\<not> starts_with servlet_prefix (construct_zone_key i)"
  "\<not> starts_with servlet_prefix construct_max_namespace_id_key"
  "\<not> starts_with servlet_prefix construct_max_zone_id_key"
  "\<not> starts_with servlet_prefix construct_max_servlet_id_key"
  by (simp_all add: prefix_defs key_defs tag_defs)

subsection \<open>DiscoveryRocksdb\<close>

definition put_discovery_info ::
  "env \<Rightarrow> string \<Rightarrow> string \<Rightarrow> kv \<Rightarrow> int \<times> kv" where
  "put_discovery_info E key v db =
     (case rocks_write E [Put key v] db of None \<Rightarrow> (-1, db) | Some db' \<Rightarrow> (0, db'))"

definition put_discovery_infos ::
  "env \<Rightarrow> string list \<Rightarrow> string list \<Rightarrow> kv \<Rightarrow> int \<times> kv" where
  "put_discovery_infos E keys values db =
     (if length keys \<noteq> length values then (-1, db)
      else case rocks_write E (map (\<lambda>(k, v). Put k v) (zip keys values)) db of
          None \<Rightarrow> (-1, db) | Some db' \<Rightarrow> (0, db'))"

definition get_discovery_info :: "string \<Rightarrow> kv \<Rightarrow> int \<times> string option" where
  "get_discovery_info key db = (case db key of None \<Rightarrow> (-1, None) | Some v \<Rightarrow> (0, Some v))"

definition remove_discovery_info :: "env \<Rightarrow> string list \<Rightarrow> kv \<Rightarrow> int \<times> kv" where
  "remove_discovery_info E keys db =
     (case rocks_write E (map Delete keys) db of None \<Rightarrow> (-1, db) | Some db' \<Rightarrow> (0, db'))"

definition write_discovery_info ::
  "env \<Rightarrow> string list \<Rightarrow> string list \<Rightarrow> string list \<Rightarrow> kv \<Rightarrow> int \<times> kv" where
  "write_discovery_info E put_keys put_values delete_keys db =
     (if length put_keys \<noteq> length put_values then (-1, db)
      else case rocks_write E (map (\<lambda>(k, v). Put k v) (zip put_keys put_values) @
                               map Delete delete_keys) db of
          None \<Rightarrow> (-1, db) | Some db' \<Rightarrow> (0, db'))"

text \<open>
  The contract the handlers rely on: a call returns 0 and has changed exactly the named keys,
  or returns -1 and has changed nothing.
\<close>

lemma rocks_write_okD: "rocks_write_ok (rocks_write E) \<Longrightarrow> rocks_write E b db = Some db' \<Longrightarrow>
    db' = apply_batch b db"
  by (auto simp: rocks_write_ok_def)

lemma env_okD:
  assumes "env_ok E"
  shows "rocks_write_ok (rocks_write E)" "pb_ok (ns_pb E)" "pb_ok (zone_pb E)"
    "pb_ok (servlet_pb E)" "pb_ok (instance_pb E)" "pb_ok (user_pb E)" "pb_ok (config_pb E)"
  using assms by (auto simp: env_ok_def)

lemma put_discovery_info_cases:
  assumes "env_ok E"
  obtains "put_discovery_info E k v db = (-1, db)"
  | "put_discovery_info E k v db = (0, db(k \<mapsto> v))"
  using assms by (cases "rocks_write E [Put k v] db")
    (auto simp: put_discovery_info_def dest!: rocks_write_okD [OF env_okD(1)])

lemma put_two_cases:
  assumes "env_ok E"
  obtains "put_discovery_infos E [k1, k2] [v1, v2] db = (-1, db)"
  | "put_discovery_infos E [k1, k2] [v1, v2] db = (0, db(k1 \<mapsto> v1, k2 \<mapsto> v2))"
  using assms by (cases "rocks_write E [Put k1 v1, Put k2 v2] db")
    (auto simp: put_discovery_infos_def dest!: rocks_write_okD [OF env_okD(1)])

lemma put_one_cases:
  assumes "env_ok E"
  obtains "put_discovery_infos E [k] [v] db = (-1, db)"
  | "put_discovery_infos E [k] [v] db = (0, db(k \<mapsto> v))"
  using assms by (cases "rocks_write E [Put k v] db")
    (auto simp: put_discovery_infos_def dest!: rocks_write_okD [OF env_okD(1)])

lemma apply_deletes: "apply_batch (map Delete ks) db = (\<lambda>k. if k \<in> set ks then None else db k)"
  by (induction ks arbitrary: db) (auto simp: fun_eq_iff)

lemma remove_discovery_info_cases:
  assumes "env_ok E"
  obtains "remove_discovery_info E ks db = (-1, db)"
  | "remove_discovery_info E ks db = (0, (\<lambda>k. if k \<in> set ks then None else db k))"
  using assms by (cases "rocks_write E (map Delete ks) db")
    (auto simp: remove_discovery_info_def apply_deletes dest!: rocks_write_okD [OF env_okD(1)])

lemma remove_one:
  "(\<lambda>k. if k \<in> set [k1] then None else db k) = db(k1 := None)"
  by (simp add: fun_eq_iff)

subsection \<open>The state every manager extends\<close>

record store =
  rocks :: kv

subsection \<open>Iterating over the column family\<close>

text \<open>
  \<open>iter->Seek(prefix)\<close> with \<open>prefix_same_as_start\<close> on a column family whose prefix extractor
  is the first byte (RocksStorage::init, \<open>NewFixedPrefixTransform(1)\<close>) walks through exactly
  the keys with that byte, each once. The list of entries it yields is a parameter of the
  loading functions; this is what RocksDB documents about it.
\<close>

definition enumerates :: "(string \<times> string) list \<Rightarrow> string \<Rightarrow> kv \<Rightarrow> bool" where
  "enumerates es p db \<longleftrightarrow>
     distinct (map fst es) \<and> (\<forall>k v. (k, v) \<in> set es \<longleftrightarrow> starts_with p k \<and> db k = Some v)"

end
