(* ===== verification/IdRegistry.thy ===== *)
theory IdRegistry
  imports DiscoveryStore
begin

text \<open>
  The interface that \<open>NamespaceManager\<close>, \<open>ZoneManager\<close> and \<open>ServletManager\<close> share: a name to
  id map and an id to info map, changed only through \<open>set_info\<close> and \<open>erase_info\<close> and read
  through \<open>get_id\<close>. The locale proves what the handlers need of it once; each manager
  interprets it on its own operations.
\<close>

subsection \<open>Well-formed registries\<close>

text \<open>
  Names and ids are in bijection, an info is filed under its own name and id, and every id was
  handed out by the counter: \<open>1 \<le> id \<le> max_id\<close> (0 means "not found" to the callers).
\<close>

definition registry_ok ::
  "(string \<Rightarrow> int option) \<Rightarrow> (int \<Rightarrow> 'i option) \<Rightarrow> ('i \<Rightarrow> string) \<Rightarrow> ('i \<Rightarrow> int) \<Rightarrow> int \<Rightarrow> bool" where
  "registry_ok idm infm key_of id_of mx \<longleftrightarrow>
     0 \<le> mx \<and>
     (\<forall>k n. idm k = Some n \<longrightarrow> (\<exists>i. infm n = Some i \<and> key_of i = k)) \<and>
     (\<forall>n i. infm n = Some i \<longrightarrow> idm (key_of i) = Some n \<and> id_of i = n \<and> 1 \<le> n \<and> n \<le> mx)"

lemma registry_ok_empty: "registry_ok Map.empty Map.empty key_of id_of 0"
  by (simp add: registry_ok_def)

lemma registry_okD1:
  "registry_ok idm infm key_of id_of mx \<Longrightarrow> idm k = Some n \<Longrightarrow>
     \<exists>i. infm n = Some i \<and> key_of i = k \<and> id_of i = n \<and> 1 \<le> n \<and> n \<le> mx"
  unfolding registry_ok_def by blast

lemma registry_okD2:
  "registry_ok idm infm key_of id_of mx \<Longrightarrow> infm n = Some i \<Longrightarrow>
     idm (key_of i) = Some n \<and> id_of i = n \<and> 1 \<le> n \<and> n \<le> mx"
  by (simp add: registry_ok_def)

lemma registry_ok_inj:
  assumes "registry_ok idm infm key_of id_of mx" "idm k = Some n" "idm k' = Some n"
  shows "k = k'"
  using registry_okD1 [OF assms(1,2)] registry_okD1 [OF assms(1,3)] by auto

lemma registry_ok_insert:
  assumes "registry_ok idm infm key_of id_of mx" "idm (key_of i) = None" "id_of i = mx + 1"
  shows "registry_ok (idm(key_of i \<mapsto> mx + 1)) (infm(mx + 1 \<mapsto> i)) key_of id_of (mx + 1)"
  unfolding registry_ok_def
proof (intro conjI allI impI)
  show "0 \<le> mx + 1"
    using assms(1) by (simp add: registry_ok_def)
next
  fix k n assume "(idm(key_of i \<mapsto> mx + 1)) k = Some n"
  then show "\<exists>j. (infm(mx + 1 \<mapsto> i)) n = Some j \<and> key_of j = k"
    using registry_okD1 [OF assms(1), of k n] by (fastforce split: if_splits)
next
  fix n j assume *: "(infm(mx + 1 \<mapsto> i)) n = Some j"
  have "(idm(key_of i \<mapsto> mx + 1)) (key_of j) = Some n \<and> id_of j = n \<and> 1 \<le> n \<and> n \<le> mx + 1"
  proof (cases "n = mx + 1")
    case True
    with * assms show ?thesis by (simp add: registry_ok_def)
  next
    case False
    with * have "infm n = Some j" by simp
    from registry_okD2 [OF assms(1) this] assms(2) show ?thesis by auto
  qed
  then show "(idm(key_of i \<mapsto> mx + 1)) (key_of j) = Some n" "id_of j = n" "1 \<le> n" "n \<le> mx + 1"
    by simp_all
qed

lemma registry_ok_replace:
  assumes "registry_ok idm infm key_of id_of mx" "infm n = Some j" "key_of i = key_of j" "id_of i = n"
  shows "registry_ok (idm(key_of i \<mapsto> n)) (infm(n \<mapsto> i)) key_of id_of mx"
proof -
  have "idm(key_of i \<mapsto> n) = idm"
    using registry_okD2 [OF assms(1,2)] assms(3) by auto
  then show ?thesis
    using assms registry_okD1 [OF assms(1)] registry_okD2 [OF assms(1)]
    by (simp add: registry_ok_def) (metis option.inject)
qed

lemma registry_ok_remove:
  assumes "registry_ok idm infm key_of id_of mx" "idm k = Some n"
  shows "registry_ok (idm(k := None)) (infm(n := None)) key_of id_of mx"
  using assms registry_ok_inj [OF assms(1)] unfolding registry_ok_def
  by (auto split: if_splits)

subsection \<open>The shared interface\<close>

locale id_registry =
  fixes id_map :: "'s \<Rightarrow> string \<Rightarrow> int option"
    and info_map :: "'s \<Rightarrow> int \<Rightarrow> 'i option"
    and key_of :: "'i \<Rightarrow> string"
    and id_of :: "'i \<Rightarrow> int"
    and set_info :: "'i \<Rightarrow> 's \<Rightarrow> 's"
    and erase_info :: "string \<Rightarrow> 's \<Rightarrow> 's"
    and get_id :: "string \<Rightarrow> 's \<Rightarrow> int"
  assumes id_map_set: "id_map (set_info i s) = (id_map s)(key_of i \<mapsto> id_of i)"
    and info_map_set: "info_map (set_info i s) = (info_map s)(id_of i \<mapsto> i)"
    and id_map_erase: "id_map (erase_info k s) = (id_map s)(k := None)"
    and info_map_erase: "id_map s k = Some n \<Longrightarrow> info_map (erase_info k s) = (info_map s)(n := None)"
    and get_id_eq: "get_id k s = (case id_map s k of None \<Rightarrow> 0 | Some n \<Rightarrow> n)"
begin

lemma get_id_zero:
  "registry_ok (id_map s) (info_map s) key_of id_of mx \<Longrightarrow> get_id k s = 0 \<longleftrightarrow> id_map s k = None"
  by (auto simp: get_id_eq split: option.splits dest: registry_okD1)

lemma get_id_set: "get_id (key_of i) (set_info i s) = id_of i"
  by (simp add: get_id_eq id_map_set)

lemma get_id_set_other: "k \<noteq> key_of i \<Longrightarrow> get_id k (set_info i s) = get_id k s"
  by (simp add: get_id_eq id_map_set)

lemma get_id_erase: "get_id k (erase_info k s) = 0"
  by (simp add: get_id_eq id_map_erase)

lemma ok_insert:
  "registry_ok (id_map s) (info_map s) key_of id_of mx \<Longrightarrow> id_map s (key_of i) = None \<Longrightarrow>
     id_of i = mx + 1 \<Longrightarrow>
     registry_ok (id_map (set_info i s)) (info_map (set_info i s)) key_of id_of (mx + 1)"
  using registry_ok_insert [of "id_map s" "info_map s" key_of id_of mx i]
  by (simp add: id_map_set info_map_set)

lemma ok_replace:
  "registry_ok (id_map s) (info_map s) key_of id_of mx \<Longrightarrow> info_map s n = Some j \<Longrightarrow>
     key_of i = key_of j \<Longrightarrow> id_of i = n \<Longrightarrow>
     registry_ok (id_map (set_info i s)) (info_map (set_info i s)) key_of id_of mx"
  using registry_ok_replace [of "id_map s" "info_map s" key_of id_of mx n j i]
  by (simp add: id_map_set info_map_set)

lemma ok_remove:
  "registry_ok (id_map s) (info_map s) key_of id_of mx \<Longrightarrow> id_map s k = Some n \<Longrightarrow>
     registry_ok (id_map (erase_info k s)) (info_map (erase_info k s)) key_of id_of mx"
  using registry_ok_remove [of "id_map s" "info_map s" key_of id_of mx k n]
  by (simp add: id_map_erase info_map_erase)

lemma fresh_after_erase: "id_map (erase_info k s) k = None"
  by (simp add: id_map_erase)

end

subsection \<open>Memory mirrored in the store\<close>

text \<open>
  The entries below a key prefix are exactly the serialised infos of the id to info map, and no
  info lacks its entry. This is what lets a snapshot of the column family rebuild the maps.
\<close>

definition mirrors ::
  "string \<Rightarrow> ('k \<Rightarrow> string) \<Rightarrow> 'i pb \<Rightarrow> ('k \<Rightarrow> 'i option) \<Rightarrow> kv \<Rightarrow> bool" where
  "mirrors p keyf c infm db \<longleftrightarrow>
     (\<forall>k v. starts_with p k \<longrightarrow>
        (db k = Some v \<longleftrightarrow> (\<exists>n i. infm n = Some i \<and> k = keyf n \<and> pb_serialize c i = Some v))) \<and>
     (\<forall>n i. infm n = Some i \<longrightarrow> pb_serialize c i \<noteq> None)"

lemma mirrorsI:
  assumes "\<And>k v. starts_with p k \<Longrightarrow>
      db k = Some v \<longleftrightarrow> (\<exists>n i. infm n = Some i \<and> k = keyf n \<and> pb_serialize c i = Some v)"
    and "\<And>n i. infm n = Some i \<Longrightarrow> pb_serialize c i \<noteq> None"
  shows "mirrors p keyf c infm db"
  using assms by (simp add: mirrors_def)

lemma mirrorsD1:
  "mirrors p keyf c infm db \<Longrightarrow> starts_with p k \<Longrightarrow>
     db k = Some v \<longleftrightarrow> (\<exists>n i. infm n = Some i \<and> k = keyf n \<and> pb_serialize c i = Some v)"
  by (simp add: mirrors_def)

lemma mirrorsD2: "mirrors p keyf c infm db \<Longrightarrow> infm n = Some i \<Longrightarrow> \<exists>v. pb_serialize c i = Some v"
  by (auto simp: mirrors_def)

lemma mirrors_empty: "mirrors p keyf c Map.empty Map.empty"
  by (simp add: mirrors_def)

lemma mirrors_put:
  assumes "mirrors p keyf c infm db" "pb_serialize c i = Some v"
    and "\<And>m j. infm m = Some j \<Longrightarrow> keyf m = keyf n \<Longrightarrow> m = n"
  shows "mirrors p keyf c (infm(n \<mapsto> i)) (db(keyf n \<mapsto> v))"
proof (rule mirrorsI)
  fix k w assume p: "starts_with p k"
  show "(db(keyf n \<mapsto> v)) k = Some w \<longleftrightarrow>
     (\<exists>m j. (infm(n \<mapsto> i)) m = Some j \<and> k = keyf m \<and> pb_serialize c j = Some w)"
  proof (cases "k = keyf n")
    case True
    with assms(2,3) show ?thesis by auto
  next
    case False
    with assms(1) p show ?thesis by (auto simp: mirrors_def)
  qed
next
  fix m j assume "(infm(n \<mapsto> i)) m = Some j"
  then show "pb_serialize c j \<noteq> None"
    using assms(1,2) by (auto simp: mirrors_def split: if_splits)
qed

lemma mirrors_delete:
  assumes "mirrors p keyf c infm db"
    and "\<And>m j. infm m = Some j \<Longrightarrow> keyf m = keyf n \<Longrightarrow> m = n"
  shows "mirrors p keyf c (infm(n := None)) (db(keyf n := None))"
proof (rule mirrorsI)
  fix k w assume p: "starts_with p k"
  show "(db(keyf n := None)) k = Some w \<longleftrightarrow>
     (\<exists>m j. (infm(n := None)) m = Some j \<and> k = keyf m \<and> pb_serialize c j = Some w)"
  proof (cases "k = keyf n")
    case True
    with assms(2) show ?thesis by auto
  next
    case False
    then have "(db(keyf n := None)) k = db k" by simp
    with mirrorsD1 [OF assms(1) p, of w] False show ?thesis by auto
  qed
qed (use assms(1) in \<open>auto simp: mirrors_def split: if_splits\<close>)

lemma mirrors_other:
  "mirrors p keyf c infm db \<Longrightarrow> \<not> starts_with p k \<Longrightarrow> mirrors p keyf c infm (db(k := x))"
  by (auto simp: mirrors_def)

end
