(* ===== verification/NamespaceManager.thy ===== *)
theory NamespaceManager
  imports IdRegistry
begin

text \<open>
  \<open>NamespaceManager\<close> (namespace_manager.h, namespace_manager.cc): its maps, its accessors, and
  the handlers of \<open>OP_CREATE_NAMESPACE\<close>, \<open>OP_DROP_NAMESPACE\<close> and \<open>OP_MODIFY_NAMESPACE\<close>. Each
  handler first persists its effect and only then changes memory. The mutex is not modelled:
  handlers run one after the other on the raft apply thread.
\<close>

record namespace_manager = store +
  max_namespace_id :: int
  namespace_id_map :: "string \<Rightarrow> int option"
  namespace_info_map :: "int \<Rightarrow> NameSpaceInfo option"
  zone_ids :: "int \<Rightarrow> int set option"

subsection \<open>Accessors\<close>

definition set_max_namespace_id :: "int \<Rightarrow> 'a namespace_manager_scheme \<Rightarrow> 'a namespace_manager_scheme" where
  "set_max_namespace_id i s = s\<lparr>max_namespace_id := i\<rparr>"

definition get_max_namespace_id :: "'a namespace_manager_scheme \<Rightarrow> int" where
  "get_max_namespace_id s = max_namespace_id s"

definition set_namespace_info :: "NameSpaceInfo \<Rightarrow> 'a namespace_manager_scheme \<Rightarrow> 'a namespace_manager_scheme" where
  "set_namespace_info i s =
     s\<lparr>namespace_id_map := (namespace_id_map s)(ns_name i \<mapsto> ns_id i),
       namespace_info_map := (namespace_info_map s)(ns_id i \<mapsto> i)\<rparr>"

definition erase_namespace_info :: "string \<Rightarrow> 'a namespace_manager_scheme \<Rightarrow> 'a namespace_manager_scheme" where
  "erase_namespace_info namespace_name s =
     (let namespace_id = at_or 0 (namespace_id_map s) namespace_name
      in s\<lparr>namespace_id_map := (namespace_id_map s)(namespace_name := None),
           namespace_info_map := (namespace_info_map s)(namespace_id := None),
           zone_ids := (zone_ids s)(namespace_id := None)\<rparr>)"

definition add_zone_id :: "int \<Rightarrow> int \<Rightarrow> 'a namespace_manager_scheme \<Rightarrow> 'a namespace_manager_scheme" where
  "add_zone_id namespace_id zone_id s =
     s\<lparr>zone_ids := (zone_ids s)(namespace_id \<mapsto> insert zone_id (at_or {} (zone_ids s) namespace_id))\<rparr>"

definition delete_zone_id :: "int \<Rightarrow> int \<Rightarrow> 'a namespace_manager_scheme \<Rightarrow> 'a namespace_manager_scheme" where
  "delete_zone_id namespace_id zone_id s =
     (case zone_ids s namespace_id of None \<Rightarrow> s
      | Some zs \<Rightarrow> s\<lparr>zone_ids := (zone_ids s)(namespace_id \<mapsto> zs - {zone_id})\<rparr>)"

definition get_namespace_id :: "string \<Rightarrow> 'a namespace_manager_scheme \<Rightarrow> int" where
  "get_namespace_id namespace_name s =
     (if namespace_id_map s namespace_name = None then 0
      else at_or 0 (namespace_id_map s) namespace_name)"

definition get_resource_tag :: "int \<Rightarrow> 'a namespace_manager_scheme \<Rightarrow> string" where
  "get_resource_tag namespace_id s =
     (case namespace_info_map s namespace_id of None \<Rightarrow> [] | Some i \<Rightarrow> str_field (ns_resource_tag i))"

definition get_namespace_info :: "int \<Rightarrow> 'a namespace_manager_scheme \<Rightarrow> int \<times> NameSpaceInfo option" where
  "get_namespace_info namespace_id s =
     (case namespace_info_map s namespace_id of None \<Rightarrow> (-1, None) | Some i \<Rightarrow> (0, Some i))"

definition namespace_clear :: "'a namespace_manager_scheme \<Rightarrow> 'a namespace_manager_scheme" where
  "namespace_clear s = s\<lparr>namespace_id_map := Map.empty, namespace_info_map := Map.empty,
     zone_ids := Map.empty\<rparr>"

lemmas namespace_accessors = set_max_namespace_id_def set_namespace_info_def
  erase_namespace_info_def add_zone_id_def namespace_clear_def Let_def

subsection \<open>Handlers\<close>

definition create_namespace ::
  "env \<Rightarrow> DiscoveryManagerRequest \<Rightarrow> closure \<Rightarrow> 'a namespace_manager_scheme \<Rightarrow>
     closure \<times> 'a namespace_manager_scheme" where
  "create_namespace E request dn s =
     (let namespace_info = msg empty_NameSpaceInfo (rq_namespace_info request);
          namespace_name = ns_name namespace_info
      in if namespace_id_map s namespace_name \<noteq> None
         then (if_done_set_response dn INPUT_PARAM_ERROR ''namespace already existed'', s)
         else let tmp_namespace_id = max_namespace_id s + 1;
                  namespace_info = namespace_info\<lparr>ns_id := tmp_namespace_id, ns_version := 1\<rparr>
              in case pb_serialize (ns_pb E) namespace_info of
                   None \<Rightarrow> (if_done_set_response dn PARSE_TO_PB_FAIL ''serializeToArray fail'', s)
                 | Some namespace_value \<Rightarrow>
                     let (ret, db) = put_discovery_infos E
                           [construct_namespace_key tmp_namespace_id, construct_max_namespace_id_key]
                           [namespace_value, int64_bytes tmp_namespace_id] (rocks s);
                         s = s\<lparr>rocks := db\<rparr>
                     in if ret < 0
                        then (if_done_set_response dn INTERNAL_ERROR ''write db fail'', s)
                        else (if_done_set_response dn SUCCESS ''success'',
                              set_max_namespace_id tmp_namespace_id
                                (set_namespace_info namespace_info s)))"

definition drop_namespace ::
  "env \<Rightarrow> DiscoveryManagerRequest \<Rightarrow> closure \<Rightarrow> 'a namespace_manager_scheme \<Rightarrow>
     closure \<times> 'a namespace_manager_scheme" where
  "drop_namespace E request dn s =
     (let namespace_info = msg empty_NameSpaceInfo (rq_namespace_info request);
          namespace_name = ns_name namespace_info
      in if namespace_id_map s namespace_name = None
         then (if_done_set_response dn INPUT_PARAM_ERROR ''namespace not exist'', s)
         else let namespace_id = at_or 0 (namespace_id_map s) namespace_name;
                  s = s\<lparr>zone_ids := touch {} namespace_id (zone_ids s)\<rparr>
              in if at_or {} (zone_ids s) namespace_id \<noteq> {}
                 then (if_done_set_response dn INPUT_PARAM_ERROR ''namespace has servlet'', s)
                 else let (ret, db) = remove_discovery_info E [construct_namespace_key namespace_id] (rocks s);
                          s = s\<lparr>rocks := db\<rparr>
                      in if ret < 0
                         then (if_done_set_response dn INTERNAL_ERROR ''write db fail'', s)
                         else (if_done_set_response dn SUCCESS ''success'',
                               erase_namespace_info namespace_name s))"

text \<open>\<open>if (info.has_f()) tmp.set_f(info.f())\<close> for the five fields a request may change.\<close>

definition keep_or :: "'f option \<Rightarrow> 'f option \<Rightarrow> 'f option" where
  "keep_or new old = (case new of None \<Rightarrow> old | Some x \<Rightarrow> Some x)"

definition modified_namespace :: "NameSpaceInfo \<Rightarrow> NameSpaceInfo \<Rightarrow> NameSpaceInfo" where
  "modified_namespace info tmp =
     tmp\<lparr>ns_quota := keep_or (ns_quota info) (ns_quota tmp),
         ns_resource_tag := keep_or (ns_resource_tag info) (ns_resource_tag tmp),
         ns_byte_size_per_record := keep_or (ns_byte_size_per_record info) (ns_byte_size_per_record tmp),
         ns_replica_num := keep_or (ns_replica_num info) (ns_replica_num tmp),
         ns_region_split_lines := keep_or (ns_region_split_lines info) (ns_region_split_lines tmp),
         ns_version := ns_version tmp + 1\<rparr>"

definition modify_namespace ::
  "env \<Rightarrow> DiscoveryManagerRequest \<Rightarrow> closure \<Rightarrow> 'a namespace_manager_scheme \<Rightarrow>
     closure \<times> 'a namespace_manager_scheme" where
  "modify_namespace E request dn s =
     (let namespace_info = msg empty_NameSpaceInfo (rq_namespace_info request);
          namespace_name = ns_name namespace_info
      in if namespace_id_map s namespace_name = None
         then (if_done_set_response dn INPUT_PARAM_ERROR ''namespace not exist'', s)
         else let namespace_id = at_or 0 (namespace_id_map s) namespace_name;
                  old_info = at_or empty_NameSpaceInfo (namespace_info_map s) namespace_id;
                  s = s\<lparr>namespace_info_map := touch empty_NameSpaceInfo namespace_id (namespace_info_map s)\<rparr>;
                  tmp_info = modified_namespace namespace_info old_info
              in case pb_serialize (ns_pb E) tmp_info of
                   None \<Rightarrow> (if_done_set_response dn PARSE_TO_PB_FAIL ''serializeToArray fail'', s)
                 | Some namespace_value \<Rightarrow>
                     let (ret, db) = put_discovery_info E (construct_namespace_key namespace_id)
                           namespace_value (rocks s);
                         s = s\<lparr>rocks := db\<rparr>
                     in if ret < 0
                        then (if_done_set_response dn INTERNAL_ERROR ''write db fail'', s)
                        else (if_done_set_response dn SUCCESS ''success'',
                              set_namespace_info tmp_info s))"

definition load_namespace_snapshot ::
  "env \<Rightarrow> string \<Rightarrow> 'a namespace_manager_scheme \<Rightarrow> int \<times> 'a namespace_manager_scheme" where
  "load_namespace_snapshot E value s =
     (case pb_parse (ns_pb E) value of
        None \<Rightarrow> (-1, s) | Some namespace_pb \<Rightarrow> (0, set_namespace_info namespace_pb s))"

subsection \<open>The registry interface\<close>

interpretation nsr: id_registry namespace_id_map namespace_info_map ns_name ns_id
    set_namespace_info erase_namespace_info get_namespace_id
  by unfold_locales
    (auto simp: namespace_accessors get_namespace_id_def split: option.splits)

subsection \<open>Invariant\<close>

definition ns_registry_ok :: "'a namespace_manager_scheme \<Rightarrow> bool" where
  "ns_registry_ok s \<longleftrightarrow>
     registry_ok (namespace_id_map s) (namespace_info_map s) ns_name ns_id (max_namespace_id s)"

text \<open>
  The store holds the serialised infos and the counter. The ids in the keys are 64 bits wide,
  so this is claimed as long as the counter has not passed \<open>2^63\<close>.
\<close>

definition ns_persisted :: "env \<Rightarrow> 'a namespace_manager_scheme \<Rightarrow> bool" where
  "ns_persisted E s \<longleftrightarrow> (max_namespace_id s < 2 ^ 63 \<longrightarrow>
     mirrors namespace_prefix construct_namespace_key (ns_pb E) (namespace_info_map s) (rocks s) \<and>
     rocks s construct_max_namespace_id_key =
       (if max_namespace_id s = 0 then None else Some (int64_bytes (max_namespace_id s))))"

definition ns_created :: "NameSpaceInfo \<Rightarrow> string \<Rightarrow> 'a namespace_manager_scheme \<Rightarrow> 'a namespace_manager_scheme" where
  "ns_created i v s =
     set_max_namespace_id (ns_id i) (set_namespace_info i
       (s\<lparr>rocks := (rocks s)(construct_namespace_key (ns_id i) \<mapsto> v,
                             construct_max_namespace_id_key \<mapsto> int64_bytes (ns_id i))\<rparr>))"

text \<open>What each handler can do: fail and leave the maps alone, or succeed with this state.\<close>

lemma create_namespace_cases:
  assumes "env_ok E"
  obtains "rejected dn s (create_namespace E rq dn s)"
  | i v where "namespace_id_map s (ns_name i) = None" "ns_id i = max_namespace_id s + 1"
      "ns_name i = ns_name (msg empty_NameSpaceInfo (rq_namespace_info rq))"
      "pb_serialize (ns_pb E) i = Some v"
      "create_namespace E rq dn s = (if_done_set_response dn SUCCESS ''success'', ns_created i v s)"
proof -
  let ?i = "(msg empty_NameSpaceInfo (rq_namespace_info rq))
              \<lparr>ns_id := max_namespace_id s + 1, ns_version := 1\<rparr>"
  show thesis
  proof (cases "namespace_id_map s (ns_name ?i) = None \<and> pb_serialize (ns_pb E) ?i \<noteq> None")
    case False
    then have "rejected dn s (create_namespace E rq dn s)"
      by (auto simp: create_namespace_def Let_def)
    then show thesis by (rule that(1))
  next
    case True
    then obtain v where v: "pb_serialize (ns_pb E) ?i = Some v" by auto
    show thesis
    proof (rule put_two_cases [OF assms, of "construct_namespace_key (max_namespace_id s + 1)"
          construct_max_namespace_id_key v "int64_bytes (max_namespace_id s + 1)" "rocks s"],
        goal_cases)
      case 1
      with True v have "rejected dn s (create_namespace E rq dn s)"
        by (auto simp: create_namespace_def Let_def)
      then show thesis by (rule that(1))
    next
      case 2
      with True v show thesis
        by (intro that(2) [of ?i v]) (auto simp: create_namespace_def Let_def ns_created_def)
    qed
  qed
qed

definition ns_touched :: "int \<Rightarrow> 'a namespace_manager_scheme \<Rightarrow> 'a namespace_manager_scheme" where
  "ns_touched n s = s\<lparr>zone_ids := touch {} n (zone_ids s)\<rparr>"

lemma drop_namespace_cases:
  assumes "env_ok E"
  obtains "rejected dn s (drop_namespace E rq dn s)"
  | n where "rejected dn (ns_touched n s) (drop_namespace E rq dn s)"
  | k n where "k = ns_name (msg empty_NameSpaceInfo (rq_namespace_info rq))"
      "namespace_id_map s k = Some n" "at_or {} (zone_ids s) n = {}"
      "drop_namespace E rq dn s = (if_done_set_response dn SUCCESS ''success'',
         erase_namespace_info k ((ns_touched n s)\<lparr>rocks := (rocks s)(construct_namespace_key n := None)\<rparr>))"
proof (cases "namespace_id_map s (ns_name (msg empty_NameSpaceInfo (rq_namespace_info rq)))")
  case None
  then show thesis by (intro that(1)) (simp add: drop_namespace_def Let_def)
next
  case (Some n)
  show thesis
  proof (rule remove_discovery_info_cases [OF assms, of "[construct_namespace_key n]" "rocks s"],
      goal_cases)
    case 1
    with Some show thesis
      by (intro that(2) [of n]) (auto simp: drop_namespace_def Let_def ns_touched_def)
  next
    case 2
    show thesis
    proof (cases "at_or {} (zone_ids s) n = {}")
      case True
      with Some 2 show thesis
        by (intro that(3)) (auto simp: drop_namespace_def Let_def ns_touched_def fun_upd_def)
    next
      case False
      with Some show thesis
        by (intro that(2) [of n]) (auto simp: drop_namespace_def Let_def ns_touched_def)
    qed
  qed
qed

definition ns_modified :: "NameSpaceInfo \<Rightarrow> string \<Rightarrow> 'a namespace_manager_scheme \<Rightarrow> 'a namespace_manager_scheme" where
  "ns_modified i v s =
     set_namespace_info i (s\<lparr>rocks := (rocks s)(construct_namespace_key (ns_id i) \<mapsto> v)\<rparr>)"

lemma modified_namespace_keeps [simp]:
  "ns_name (modified_namespace i j) = ns_name j" "ns_id (modified_namespace i j) = ns_id j"
  by (simp_all add: modified_namespace_def)

lemma modify_namespace_cases:
  assumes "env_ok E" "ns_registry_ok s"
  obtains "rejected dn s (modify_namespace E rq dn s)"
  | j i v where "namespace_info_map s (ns_id i) = Some j" "ns_name i = ns_name j"
      "i = modified_namespace (msg empty_NameSpaceInfo (rq_namespace_info rq)) j"
      "pb_serialize (ns_pb E) i = Some v"
      "modify_namespace E rq dn s = (if_done_set_response dn SUCCESS ''success'', ns_modified i v s)"
proof (cases "namespace_id_map s (ns_name (msg empty_NameSpaceInfo (rq_namespace_info rq)))")
  case None
  then show thesis by (intro that(1)) (simp add: modify_namespace_def Let_def)
next
  case (Some n)
  with assms(2) obtain j where j: "namespace_info_map s n = Some j" "ns_id j = n"
    unfolding ns_registry_ok_def by (blast dest: registry_okD1)
  let ?i = "modified_namespace (msg empty_NameSpaceInfo (rq_namespace_info rq)) j"
  show thesis
  proof (cases "pb_serialize (ns_pb E) ?i")
    case None
    with Some j show thesis
      by (intro that(1)) (simp add: modify_namespace_def Let_def)
  next
    case v: (Some v)
    show thesis
    proof (rule put_discovery_info_cases [OF assms(1), of "construct_namespace_key n" v "rocks s"],
        goal_cases)
      case 1
      with Some j v show thesis
        by (intro that(1)) (simp add: modify_namespace_def Let_def)
    next
      case 2
      with Some j v show thesis
        by (intro that(2) [of ?i j v]) (simp_all add: modify_namespace_def Let_def ns_modified_def)
    qed
  qed
qed

subsection \<open>Every handler keeps the invariant\<close>

lemma ns_ids_in_range:
  "ns_registry_ok s \<Longrightarrow> max_namespace_id s < 2 ^ 63 \<Longrightarrow> namespace_info_map s n = Some i \<Longrightarrow> int64_range n"
  unfolding ns_registry_ok_def by (auto dest!: registry_okD2 intro: int64_range_id)

lemma ns_registry_ok_touched [simp]: "ns_registry_ok (ns_touched n s) = ns_registry_ok s"
  by (simp add: ns_registry_ok_def ns_touched_def)

lemma ns_persisted_touched [simp]: "ns_persisted E (ns_touched n s) = ns_persisted E s"
  by (simp add: ns_persisted_def ns_touched_def)

lemma ns_created_ok:
  assumes "ns_registry_ok s" "namespace_id_map s (ns_name i) = None" "ns_id i = max_namespace_id s + 1"
  shows "ns_registry_ok (ns_created i v s)"
  using nsr.ok_insert [of s "max_namespace_id s" i] assms
  by (simp add: ns_registry_ok_def ns_created_def namespace_accessors)

lemma ns_created_persisted:
  assumes "ns_registry_ok s" "ns_persisted E s" "ns_id i = max_namespace_id s + 1"
    "pb_serialize (ns_pb E) i = Some v"
  shows "ns_persisted E (ns_created i v s)"
  unfolding ns_persisted_def
proof (intro impI conjI)
  assume "max_namespace_id (ns_created i v s) < 2 ^ 63"
  then have m: "max_namespace_id s + 1 < 2 ^ 63"
    using assms(3) by (simp add: ns_created_def namespace_accessors)
  then have old: "mirrors namespace_prefix construct_namespace_key (ns_pb E)
      (namespace_info_map s) (rocks s)"
    using assms(2) by (simp add: ns_persisted_def)
  have r: "int64_range (ns_id i)"
    using m assms(1,3) by (simp add: ns_registry_ok_def registry_ok_def int64_range_def)
  have "mirrors namespace_prefix construct_namespace_key (ns_pb E)
      ((namespace_info_map s)(ns_id i \<mapsto> i)) ((rocks s)(construct_namespace_key (ns_id i) \<mapsto> v))"
    using ns_ids_in_range [OF assms(1)] m r by (intro mirrors_put [OF old assms(4)]) (auto simp: key_simps)
  then show "mirrors namespace_prefix construct_namespace_key (ns_pb E)
      (namespace_info_map (ns_created i v s)) (rocks (ns_created i v s))"
    by (simp add: ns_created_def namespace_accessors mirrors_other key_simps)
  show "rocks (ns_created i v s) construct_max_namespace_id_key =
      (if max_namespace_id (ns_created i v s) = 0 then None
       else Some (int64_bytes (max_namespace_id (ns_created i v s))))"
    using assms(1,3) by (simp add: ns_created_def namespace_accessors ns_registry_ok_def registry_ok_def)
qed

lemma ns_erased_ok:
  assumes "ns_registry_ok s" "namespace_id_map s k = Some n"
  shows "ns_registry_ok (erase_namespace_info k (s\<lparr>rocks := db\<rparr>))"
  using nsr.ok_remove [of s "max_namespace_id s" k n] assms
  by (simp add: ns_registry_ok_def namespace_accessors)

lemma ns_erased_persisted:
  assumes "ns_registry_ok s" "ns_persisted E s" "namespace_id_map s k = Some n"
  shows "ns_persisted E (erase_namespace_info k (s\<lparr>rocks := (rocks s)(construct_namespace_key n := None)\<rparr>))"
proof -
  have "max_namespace_id s < 2 ^ 63 \<Longrightarrow> mirrors namespace_prefix construct_namespace_key (ns_pb E)
      ((namespace_info_map s)(n := None)) ((rocks s)(construct_namespace_key n := None))"
  proof (rule mirrors_delete)
    assume m: "max_namespace_id s < 2 ^ 63"
    then show "mirrors namespace_prefix construct_namespace_key (ns_pb E) (namespace_info_map s) (rocks s)"
      using assms(2) by (simp add: ns_persisted_def)
    have "\<exists>i. namespace_info_map s n = Some i"
      using assms(1,3) unfolding ns_registry_ok_def by (blast dest: registry_okD1)
    then show "p = n" if "namespace_info_map s p = Some j" "construct_namespace_key p = construct_namespace_key n" for p j
      using that m ns_ids_in_range [OF assms(1)] by (auto simp: key_simps)
  qed
  with assms show ?thesis
    by (auto simp: ns_persisted_def namespace_accessors key_simps)
qed

lemma ns_modified_ok:
  assumes "ns_registry_ok s" "namespace_info_map s (ns_id i) = Some j" "ns_name i = ns_name j"
  shows "ns_registry_ok (ns_modified i v s)"
  using nsr.ok_replace [of s "max_namespace_id s" "ns_id i" j i] assms
  by (simp add: ns_registry_ok_def ns_modified_def namespace_accessors)

lemma ns_modified_persisted:
  assumes "ns_registry_ok s" "ns_persisted E s" "namespace_info_map s (ns_id i) = Some j"
    "pb_serialize (ns_pb E) i = Some v"
  shows "ns_persisted E (ns_modified i v s)"
proof -
  have "max_namespace_id s < 2 ^ 63 \<Longrightarrow> mirrors namespace_prefix construct_namespace_key (ns_pb E)
      ((namespace_info_map s)(ns_id i \<mapsto> i)) ((rocks s)(construct_namespace_key (ns_id i) \<mapsto> v))"
    using assms ns_ids_in_range [OF assms(1)]
    by (intro mirrors_put) (auto simp: ns_persisted_def key_simps)
  with assms show ?thesis
    by (auto simp: ns_persisted_def ns_modified_def namespace_accessors key_simps)
qed

definition ns_inv :: "env \<Rightarrow> 'a namespace_manager_scheme \<Rightarrow> bool" where
  "ns_inv E s \<longleftrightarrow> ns_registry_ok s \<and> ns_persisted E s"

lemma create_namespace_inv:
  assumes "env_ok E" "ns_inv E s"
  shows "ns_inv E (snd (create_namespace E rq dn s))"
  using assms(2) by (rule_tac create_namespace_cases [OF assms(1), of dn s rq])
    (auto simp: ns_inv_def ns_created_ok ns_created_persisted dest: rejected_state)

lemma drop_namespace_inv:
  assumes "env_ok E" "ns_inv E s"
  shows "ns_inv E (snd (drop_namespace E rq dn s))"
proof (rule drop_namespace_cases [OF assms(1), of dn s rq], goal_cases)
  case (3 k n)
  have "ns_registry_ok (ns_touched n s)" "ns_persisted E (ns_touched n s)"
    "namespace_id_map (ns_touched n s) k = Some n" "rocks (ns_touched n s) = rocks s"
    using assms(2) 3 by (auto simp: ns_inv_def) (simp_all add: ns_touched_def)
  with 3 show ?case
    using ns_erased_ok [of "ns_touched n s" k n] ns_erased_persisted [of "ns_touched n s" E k n]
    by (simp add: ns_inv_def)
qed (use assms(2) in \<open>auto simp: ns_inv_def dest!: rejected_state\<close>)

lemma modify_namespace_inv:
  assumes "env_ok E" "ns_inv E s"
  shows "ns_inv E (snd (modify_namespace E rq dn s))"
  using assms by (rule_tac modify_namespace_cases [OF assms(1), of s dn rq])
    (auto simp: ns_inv_def intro: ns_modified_ok ns_modified_persisted dest: rejected_state)

subsection \<open>What the other managers must leave alone\<close>

definition ns_same :: "'a namespace_manager_scheme \<Rightarrow> 'a namespace_manager_scheme \<Rightarrow> bool" where
  "ns_same s s' \<longleftrightarrow> namespace_id_map s' = namespace_id_map s \<and>
     namespace_info_map s' = namespace_info_map s \<and> max_namespace_id s' = max_namespace_id s \<and>
     (\<forall>k. starts_with namespace_prefix k \<or> k = construct_max_namespace_id_key \<longrightarrow>
        rocks s' k = rocks s k)"

lemma mirrors_cong:
  "mirrors p keyf c infm db \<Longrightarrow> (\<And>k. starts_with p k \<Longrightarrow> db' k = db k) \<Longrightarrow> mirrors p keyf c infm db'"
  by (simp add: mirrors_def)

lemma ns_same_refl [simp]: "ns_same s s"
  by (simp add: ns_same_def)

lemma ns_same_trans: "ns_same s s' \<Longrightarrow> ns_same s' s'' \<Longrightarrow> ns_same s s''"
  by (simp add: ns_same_def)

lemma ns_inv_same: "ns_same s s' \<Longrightarrow> ns_inv E s \<Longrightarrow> ns_inv E s'"
  by (auto simp: ns_same_def ns_inv_def ns_registry_ok_def ns_persisted_def elim: mirrors_cong)

text \<open>What the namespace handlers leave alone of the rest of the store.\<close>

definition is_ns_key :: "string \<Rightarrow> bool" where
  "is_ns_key k \<longleftrightarrow> starts_with namespace_prefix k \<or> k = construct_max_namespace_id_key"

lemma ns_key_simps [simp]:
  "is_ns_key (construct_namespace_key n)" "is_ns_key construct_max_namespace_id_key"
  by (simp_all add: is_ns_key_def key_simps)

lemma namespace_handlers_rocks:
  assumes "env_ok E" "ns_registry_ok s" "\<not> is_ns_key k"
  shows "rocks (snd (create_namespace E rq dn s)) k = rocks s k"
    "rocks (snd (drop_namespace E rq dn s)) k = rocks s k"
    "rocks (snd (modify_namespace E rq dn s)) k = rocks s k"
proof -
  have k: "k \<noteq> construct_namespace_key n" "k \<noteq> construct_max_namespace_id_key" for n
    using assms(3) by auto
  show "rocks (snd (create_namespace E rq dn s)) k = rocks s k"
    by (rule create_namespace_cases [OF assms(1), of dn s rq])
      (auto simp: ns_created_def namespace_accessors k dest: rejected_state)
  show "rocks (snd (drop_namespace E rq dn s)) k = rocks s k"
    by (rule drop_namespace_cases [OF assms(1), of dn s rq])
      (auto simp: ns_touched_def namespace_accessors k dest: rejected_state)
  show "rocks (snd (modify_namespace E rq dn s)) k = rocks s k"
    by (rule modify_namespace_cases [OF assms(1,2), of dn rq])
      (auto simp: ns_modified_def namespace_accessors k dest: rejected_state)
qed

lemma namespace_handlers_more:
  assumes "env_ok E" "ns_registry_ok s"
  shows "namespace_manager.more (snd (create_namespace E rq dn s)) = namespace_manager.more s"
    "namespace_manager.more (snd (drop_namespace E rq dn s)) = namespace_manager.more s"
    "namespace_manager.more (snd (modify_namespace E rq dn s)) = namespace_manager.more s"
proof -
  show "namespace_manager.more (snd (create_namespace E rq dn s)) = namespace_manager.more s"
    by (rule create_namespace_cases [OF assms(1), of dn s rq])
      (auto simp: ns_created_def namespace_accessors dest: rejected_state)
  show "namespace_manager.more (snd (drop_namespace E rq dn s)) = namespace_manager.more s"
    by (rule drop_namespace_cases [OF assms(1), of dn s rq])
      (auto simp: ns_touched_def namespace_accessors dest: rejected_state)
  show "namespace_manager.more (snd (modify_namespace E rq dn s)) = namespace_manager.more s"
    by (rule modify_namespace_cases [OF assms(1,2), of dn rq])
      (auto simp: ns_modified_def namespace_accessors dest: rejected_state)
qed

end
