(* ===== verification/ZoneManager.thy ===== *)
theory ZoneManager
  imports NamespaceManager
begin

text \<open>
  \<open>ZoneManager\<close> (zone_manager.h, zone_manager.cc): zones live in a namespace and are filed
  under the key \<open>namespace \001 zone\<close>. A zone handler reads the namespace manager and keeps its
  \<open>_zone_ids\<close> up to date, so the state of this theory extends the namespace manager's.
\<close>

record zone_manager = namespace_manager +
  max_zone_id :: int
  zone_id_map :: "string \<Rightarrow> int option"
  zone_info_map :: "int \<Rightarrow> ZoneInfo option"
  servlet_ids :: "int \<Rightarrow> int set option"

subsection \<open>Accessors\<close>

definition make_zone_key :: "string \<Rightarrow> string \<Rightarrow> string" where
  "make_zone_key namespace_name zone_name = namespace_name @ [CHR 0x01] @ zone_name"

definition set_max_zone_id :: "int \<Rightarrow> 'a zone_manager_scheme \<Rightarrow> 'a zone_manager_scheme" where
  "set_max_zone_id i s = s\<lparr>max_zone_id := i\<rparr>"

definition zone_info_key :: "ZoneInfo \<Rightarrow> string" where
  "zone_info_key i = make_zone_key (z_namespace_name i) (z_zone i)"

definition set_zone_info :: "ZoneInfo \<Rightarrow> 'a zone_manager_scheme \<Rightarrow> 'a zone_manager_scheme" where
  "set_zone_info i s =
     (let zone_name = make_zone_key (z_namespace_name i) (z_zone i)
      in s\<lparr>zone_id_map := (zone_id_map s)(zone_name \<mapsto> z_zone_id i),
           zone_info_map := (zone_info_map s)(z_zone_id i \<mapsto> i)\<rparr>)"

definition erase_zone_info :: "string \<Rightarrow> 'a zone_manager_scheme \<Rightarrow> 'a zone_manager_scheme" where
  "erase_zone_info zone_name s =
     (let zone_id = at_or 0 (zone_id_map s) zone_name
      in s\<lparr>zone_id_map := (zone_id_map s)(zone_name := None),
           zone_info_map := (zone_info_map s)(zone_id := None),
           servlet_ids := (servlet_ids s)(zone_id := None)\<rparr>)"

definition add_servlet_id :: "int \<Rightarrow> int \<Rightarrow> 'a zone_manager_scheme \<Rightarrow> 'a zone_manager_scheme" where
  "add_servlet_id zone_id servlet_id s =
     s\<lparr>servlet_ids := (servlet_ids s)(zone_id \<mapsto> insert servlet_id (at_or {} (servlet_ids s) zone_id))\<rparr>"

definition delete_servlet_id :: "int \<Rightarrow> int \<Rightarrow> 'a zone_manager_scheme \<Rightarrow> 'a zone_manager_scheme" where
  "delete_servlet_id zone_id servlet_id s =
     (case servlet_ids s zone_id of None \<Rightarrow> s
      | Some ss \<Rightarrow> s\<lparr>servlet_ids := (servlet_ids s)(zone_id \<mapsto> ss - {servlet_id})\<rparr>)"

definition get_zone_id :: "string \<Rightarrow> 'a zone_manager_scheme \<Rightarrow> int" where
  "get_zone_id zone_name s =
     (if zone_id_map s zone_name \<noteq> None then at_or 0 (zone_id_map s) zone_name else 0)"

definition get_zone_info :: "int \<Rightarrow> 'a zone_manager_scheme \<Rightarrow> int \<times> ZoneInfo option" where
  "get_zone_info zone_id s =
     (case zone_info_map s zone_id of None \<Rightarrow> (-1, None) | Some i \<Rightarrow> (0, Some i))"

definition get_servlet_ids :: "int \<Rightarrow> 'a zone_manager_scheme \<Rightarrow> int \<times> int set option" where
  "get_servlet_ids zone_id s =
     (case servlet_ids s zone_id of None \<Rightarrow> (-1, None) | Some ss \<Rightarrow> (0, Some ss))"

definition zone_clear :: "'a zone_manager_scheme \<Rightarrow> 'a zone_manager_scheme" where
  "zone_clear s = s\<lparr>zone_id_map := Map.empty, zone_info_map := Map.empty, servlet_ids := Map.empty\<rparr>"

lemmas zone_accessors = set_max_zone_id_def set_zone_info_def erase_zone_info_def
  add_servlet_id_def zone_clear_def zone_info_key_def add_zone_id_def Let_def

subsection \<open>Handlers\<close>

definition inherit_zone :: "NameSpaceInfo \<Rightarrow> ZoneInfo \<Rightarrow> ZoneInfo" where
  "inherit_zone ni z =
     z\<lparr>z_resource_tag := (if z_resource_tag z = None \<and> str_field (ns_resource_tag ni) \<noteq> []
                          then Some (str_field (ns_resource_tag ni)) else z_resource_tag z),
       z_byte_size_per_record := keep_or (z_byte_size_per_record z) (ns_byte_size_per_record ni),
       z_replica_num := keep_or (z_replica_num z) (ns_replica_num ni),
       z_region_split_lines := keep_or (z_region_split_lines z) (ns_region_split_lines ni)\<rparr>"

definition prepared_zone :: "'a zone_manager_scheme \<Rightarrow> int \<Rightarrow> ZoneInfo \<Rightarrow> ZoneInfo" where
  "prepared_zone s namespace_id zone_info =
     (let zone_info = zone_info\<lparr>z_zone_id := max_zone_id s + 1, z_namespace_id := namespace_id\<rparr>;
          zone_info = (case get_namespace_info namespace_id s of
              (ret, Some namespace_info) \<Rightarrow> inherit_zone namespace_info zone_info
            | (ret, None) \<Rightarrow> zone_info)
      in zone_info\<lparr>z_version := 1\<rparr>)"

definition create_zone ::
  "env \<Rightarrow> DiscoveryManagerRequest \<Rightarrow> closure \<Rightarrow> 'a zone_manager_scheme \<Rightarrow>
     closure \<times> 'a zone_manager_scheme" where
  "create_zone E request dn s =
     (let zone_info = msg empty_ZoneInfo (rq_zone_info request);
          namespace_name = z_namespace_name zone_info;
          zone_name = namespace_name @ [CHR 0x01] @ z_zone zone_info;
          namespace_id = get_namespace_id namespace_name s
      in if namespace_id = 0
         then (if_done_set_response dn INPUT_PARAM_ERROR ''namespace not exist'', s)
         else if zone_id_map s zone_name \<noteq> None
         then (if_done_set_response dn INPUT_PARAM_ERROR ''zone already exist'', s)
         else let tmp_zone_id = max_zone_id s + 1;
                  zone_info = prepared_zone s namespace_id zone_info
              in case pb_serialize (zone_pb E) zone_info of
                   None \<Rightarrow> (if_done_set_response dn PARSE_TO_PB_FAIL ''serializeToArray fail'', s)
                 | Some zone_value \<Rightarrow>
                     let (ret, db) = put_discovery_infos E
                           [construct_zone_key tmp_zone_id, construct_max_zone_id_key]
                           [zone_value, int64_bytes tmp_zone_id] (rocks s);
                         s = s\<lparr>rocks := db\<rparr>
                     in if ret < 0
                        then (if_done_set_response dn INTERNAL_ERROR ''write db fail'', s)
                        else (if_done_set_response dn SUCCESS ''success'',
                              add_zone_id namespace_id tmp_zone_id
                                (set_max_zone_id tmp_zone_id (set_zone_info zone_info s))))"

definition drop_zone ::
  "env \<Rightarrow> DiscoveryManagerRequest \<Rightarrow> closure \<Rightarrow> 'a zone_manager_scheme \<Rightarrow>
     closure \<times> 'a zone_manager_scheme" where
  "drop_zone E request dn s =
     (let zone_info = msg empty_ZoneInfo (rq_zone_info request);
          namespace_name = z_namespace_name zone_info;
          zone_name = namespace_name @ [CHR 0x01] @ z_zone zone_info;
          namespace_id = get_namespace_id namespace_name s
      in if namespace_id = 0
         then (if_done_set_response dn INPUT_PARAM_ERROR ''namespace not exist'', s)
         else if zone_id_map s zone_name = None
         then (if_done_set_response dn INPUT_PARAM_ERROR ''zone not exist'', s)
         else let zone_id = at_or 0 (zone_id_map s) zone_name;
                  s = s\<lparr>servlet_ids := touch {} zone_id (servlet_ids s)\<rparr>
              in if at_or {} (servlet_ids s) zone_id \<noteq> {}
                 then (if_done_set_response dn INPUT_PARAM_ERROR ''zone has servlet'', s)
                 else let (ret, db) = remove_discovery_info E [construct_zone_key zone_id] (rocks s);
                          s = s\<lparr>rocks := db\<rparr>
                      in if ret < 0
                         then (if_done_set_response dn INTERNAL_ERROR ''write db fail'', s)
                         else (if_done_set_response dn SUCCESS ''success'',
                               delete_zone_id namespace_id zone_id (erase_zone_info zone_name s)))"

definition modified_zone :: "ZoneInfo \<Rightarrow> ZoneInfo \<Rightarrow> ZoneInfo" where
  "modified_zone info tmp =
     tmp\<lparr>z_version := z_version tmp + 1,
         z_quota := keep_or (z_quota info) (z_quota tmp),
         z_resource_tag := keep_or (z_resource_tag info) (z_resource_tag tmp),
         z_byte_size_per_record := keep_or (z_byte_size_per_record info) (z_byte_size_per_record tmp),
         z_replica_num := keep_or (z_replica_num info) (z_replica_num tmp),
         z_region_split_lines := keep_or (z_region_split_lines info) (z_region_split_lines tmp)\<rparr>"

definition modify_zone ::
  "env \<Rightarrow> DiscoveryManagerRequest \<Rightarrow> closure \<Rightarrow> 'a zone_manager_scheme \<Rightarrow>
     closure \<times> 'a zone_manager_scheme" where
  "modify_zone E request dn s =
     (let zone_info = msg empty_ZoneInfo (rq_zone_info request);
          namespace_name = z_namespace_name zone_info;
          zone_name = namespace_name @ [CHR 0x01] @ z_zone zone_info;
          namespace_id = get_namespace_id namespace_name s
      in if namespace_id = 0
         then (if_done_set_response dn INPUT_PARAM_ERROR ''namespace not exist'', s)
         else if zone_id_map s zone_name = None
         then (if_done_set_response dn INPUT_PARAM_ERROR ''zone not exist'', s)
         else let zone_id = at_or 0 (zone_id_map s) zone_name;
                  old_info = at_or empty_ZoneInfo (zone_info_map s) zone_id;
                  s = s\<lparr>zone_info_map := touch empty_ZoneInfo zone_id (zone_info_map s)\<rparr>;
                  tmp_zone_info = modified_zone zone_info old_info
              in case pb_serialize (zone_pb E) tmp_zone_info of
                   None \<Rightarrow> (if_done_set_response dn PARSE_TO_PB_FAIL ''serializeToArray fail'', s)
                 | Some zone_value \<Rightarrow>
                     let (ret, db) = put_discovery_info E (construct_zone_key zone_id) zone_value (rocks s);
                         s = s\<lparr>rocks := db\<rparr>
                     in if ret < 0
                        then (if_done_set_response dn INTERNAL_ERROR ''write db fail'', s)
                        else (if_done_set_response dn SUCCESS ''success'', set_zone_info tmp_zone_info s))"

definition load_zone_snapshot ::
  "env \<Rightarrow> string \<Rightarrow> 'a zone_manager_scheme \<Rightarrow> int \<times> 'a zone_manager_scheme" where
  "load_zone_snapshot E value s =
     (case pb_parse (zone_pb E) value of
        None \<Rightarrow> (-1, s)
      | Some z \<Rightarrow> (0, add_zone_id (z_namespace_id z) (z_zone_id z) (set_zone_info z s)))"

subsection \<open>The registry interface\<close>

interpretation zr: id_registry zone_id_map zone_info_map zone_info_key z_zone_id
    set_zone_info erase_zone_info get_zone_id
  by unfold_locales (auto simp: zone_accessors get_zone_id_def split: option.splits)

subsection \<open>Zone keys\<close>

text \<open>
  The key determines namespace and zone when the namespace name has no \<open>\001\<close> in it; nothing in
  the server checks that it has none.
\<close>

definition clean_name :: "string \<Rightarrow> bool" where
  "clean_name k \<longleftrightarrow> CHR 0x01 \<notin> set k"

lemma append_sep_eq:
  "c \<notin> set xs \<Longrightarrow> c \<notin> set xs' \<Longrightarrow> xs @ c # ys = xs' @ c # ys' \<longleftrightarrow> xs = xs' \<and> ys = ys'"
proof (induction xs arbitrary: xs')
  case Nil
  then show ?case by (cases xs') auto
next
  case (Cons x xs)
  then show ?case by (cases xs') auto
qed

lemma make_zone_key_inject:
  "clean_name n \<Longrightarrow> clean_name n' \<Longrightarrow> make_zone_key n z = make_zone_key n' z' \<longleftrightarrow> n = n' \<and> z = z'"
  by (simp add: make_zone_key_def clean_name_def append_sep_eq)

subsection \<open>Invariant\<close>

definition zone_registry_ok :: "'a zone_manager_scheme \<Rightarrow> bool" where
  "zone_registry_ok s \<longleftrightarrow>
     registry_ok (zone_id_map s) (zone_info_map s) zone_info_key z_zone_id (max_zone_id s)"

definition zone_persisted :: "env \<Rightarrow> 'a zone_manager_scheme \<Rightarrow> bool" where
  "zone_persisted E s \<longleftrightarrow> (max_zone_id s < 2 ^ 63 \<longrightarrow>
     mirrors zone_prefix construct_zone_key (zone_pb E) (zone_info_map s) (rocks s) \<and>
     rocks s construct_max_zone_id_key =
       (if max_zone_id s = 0 then None else Some (int64_bytes (max_zone_id s))))"

text \<open>
  Referential integrity: a zone's namespace exists under the id the zone records, and
  \<open>_zone_ids\<close> lists exactly the zones of each namespace.
\<close>

definition zone_links :: "'a zone_manager_scheme \<Rightarrow> bool" where
  "zone_links s \<longleftrightarrow>
     (\<forall>n z. zone_info_map s n = Some z \<longrightarrow>
        namespace_id_map s (z_namespace_name z) = Some (z_namespace_id z)) \<and>
     (\<forall>m n. n \<in> at_or {} (zone_ids s) m \<longleftrightarrow>
        (\<exists>z. zone_info_map s n = Some z \<and> z_namespace_id z = m))"

definition clean_namespaces :: "'a namespace_manager_scheme \<Rightarrow> bool" where
  "clean_namespaces s \<longleftrightarrow> (\<forall>k \<in> dom (namespace_id_map s). clean_name k)"

lemma zone_ids_in_range:
  "zone_registry_ok s \<Longrightarrow> max_zone_id s < 2 ^ 63 \<Longrightarrow> zone_info_map s n = Some i \<Longrightarrow> int64_range n"
  unfolding zone_registry_ok_def by (auto dest!: registry_okD2 intro: int64_range_id)

lemma get_namespace_id_pos:
  "ns_registry_ok s \<Longrightarrow> get_namespace_id k s \<noteq> 0 \<Longrightarrow> namespace_id_map s k = Some (get_namespace_id k s)"
  using nsr.get_id_eq [of k s] by (auto split: option.splits)

lemma get_namespace_id_Some:
  "ns_registry_ok s \<Longrightarrow> namespace_id_map s k = Some n \<Longrightarrow> get_namespace_id k s = n \<and> n \<noteq> 0"
  unfolding ns_registry_ok_def using nsr.get_id_eq [of k s] by (auto dest: registry_okD1)


subsection \<open>What each handler can do\<close>

definition zone_created :: "ZoneInfo \<Rightarrow> string \<Rightarrow> 'a zone_manager_scheme \<Rightarrow> 'a zone_manager_scheme" where
  "zone_created i v s =
     add_zone_id (z_namespace_id i) (z_zone_id i) (set_max_zone_id (z_zone_id i) (set_zone_info i
       (s\<lparr>rocks := (rocks s)(construct_zone_key (z_zone_id i) \<mapsto> v,
                             construct_max_zone_id_key \<mapsto> int64_bytes (z_zone_id i))\<rparr>)))"

definition zone_touched :: "int \<Rightarrow> 'a zone_manager_scheme \<Rightarrow> 'a zone_manager_scheme" where
  "zone_touched n s = s\<lparr>servlet_ids := touch {} n (servlet_ids s)\<rparr>"

definition zone_modified :: "ZoneInfo \<Rightarrow> string \<Rightarrow> 'a zone_manager_scheme \<Rightarrow> 'a zone_manager_scheme" where
  "zone_modified i v s =
     set_zone_info i (s\<lparr>rocks := (rocks s)(construct_zone_key (z_zone_id i) \<mapsto> v)\<rparr>)"

lemma get_namespace_id_neq0:
  "get_namespace_id k s \<noteq> 0 \<Longrightarrow> namespace_id_map s k = Some (get_namespace_id k s)"
  using nsr.get_id_eq [of k s] by (auto split: option.splits)

lemma inherit_zone_keeps [simp]:
  "z_namespace_name (inherit_zone ni z) = z_namespace_name z" "z_zone (inherit_zone ni z) = z_zone z"
  "z_zone_id (inherit_zone ni z) = z_zone_id z" "z_namespace_id (inherit_zone ni z) = z_namespace_id z"
  by (simp_all add: inherit_zone_def)

lemma prepared_zone_keeps [simp]:
  "z_namespace_name (prepared_zone s n z) = z_namespace_name z"
  "z_zone (prepared_zone s n z) = z_zone z"
  "z_zone_id (prepared_zone s n z) = max_zone_id s + 1"
  "z_namespace_id (prepared_zone s n z) = n"
  by (simp_all add: prepared_zone_def get_namespace_info_def Let_def split: option.splits)

lemma create_zone_cases:
  assumes "env_ok E"
  obtains "rejected dn s (create_zone E rq dn s)"
  | i v where "zone_id_map s (zone_info_key i) = None" "z_zone_id i = max_zone_id s + 1"
      "namespace_id_map s (z_namespace_name i) = Some (z_namespace_id i)"
      "z_namespace_name i = z_namespace_name (msg empty_ZoneInfo (rq_zone_info rq))"
      "i = prepared_zone s (z_namespace_id i) (msg empty_ZoneInfo (rq_zone_info rq))"
      "pb_serialize (zone_pb E) i = Some v"
      "create_zone E rq dn s = (if_done_set_response dn SUCCESS ''success'', zone_created i v s)"
proof -
  let ?z = "msg empty_ZoneInfo (rq_zone_info rq)"
  let ?n = "get_namespace_id (z_namespace_name ?z) s"
  let ?i = "prepared_zone s ?n ?z"
  have key: "z_namespace_name ?z @ CHR 0x01 # z_zone ?z = zone_info_key ?i"
    by (simp add: zone_info_key_def make_zone_key_def)
  show thesis
  proof (cases "?n \<noteq> 0 \<and> zone_id_map s (zone_info_key ?i) = None \<and> pb_serialize (zone_pb E) ?i \<noteq> None")
    case False
    then have "rejected dn s (create_zone E rq dn s)"
      by (auto simp: create_zone_def Let_def key)
    then show thesis by (rule that(1))
  next
    case True
    then obtain v where v: "pb_serialize (zone_pb E) ?i = Some v" by auto
    show thesis
    proof (rule put_two_cases [OF assms, of "construct_zone_key (max_zone_id s + 1)"
          construct_max_zone_id_key v "int64_bytes (max_zone_id s + 1)" "rocks s"], goal_cases)
      case 1
      with True v have "rejected dn s (create_zone E rq dn s)"
        by (auto simp: create_zone_def Let_def key)
      then show thesis by (rule that(1))
    next
      case 2
      with True v show thesis
        by (intro that(2) [of ?i v])
          (auto simp: create_zone_def Let_def zone_created_def key get_namespace_id_neq0)
    qed
  qed
qed

lemma drop_zone_cases:
  assumes "env_ok E"
  obtains "rejected dn s (drop_zone E rq dn s)"
  | n where "rejected dn (zone_touched n s) (drop_zone E rq dn s)"
  | z m n where "z = msg empty_ZoneInfo (rq_zone_info rq)"
      "namespace_id_map s (z_namespace_name z) = Some m" "zone_id_map s (zone_info_key z) = Some n"
      "at_or {} (servlet_ids s) n = {}"
      "drop_zone E rq dn s = (if_done_set_response dn SUCCESS ''success'',
         delete_zone_id m n (erase_zone_info (zone_info_key z)
           ((zone_touched n s)\<lparr>rocks := (rocks s)(construct_zone_key n := None)\<rparr>)))"
proof -
  let ?z = "msg empty_ZoneInfo (rq_zone_info rq)"
  let ?m = "get_namespace_id (z_namespace_name ?z) s"
  have key: "z_namespace_name ?z @ CHR 0x01 # z_zone ?z = zone_info_key ?z"
    by (simp add: zone_info_key_def make_zone_key_def)
  show thesis
  proof (cases "?m \<noteq> 0 \<and> zone_id_map s (zone_info_key ?z) \<noteq> None")
    case False
    then have "rejected dn s (drop_zone E rq dn s)"
      by (auto simp: drop_zone_def Let_def key)
    then show thesis by (rule that(1))
  next
    case True
    then obtain n where n: "zone_id_map s (zone_info_key ?z) = Some n" by auto
    show thesis
    proof (rule remove_discovery_info_cases [OF assms, of "[construct_zone_key n]" "rocks s"],
        goal_cases)
      case 1
      with True n show thesis
        by (intro that(2) [of n]) (auto simp: drop_zone_def Let_def zone_touched_def key)
    next
      case 2
      show thesis
      proof (cases "at_or {} (servlet_ids s) n = {}")
        case e: True
        with True n 2 show thesis
          by (intro that(3) [of ?z ?m n])
            (auto simp: drop_zone_def Let_def zone_touched_def key fun_upd_def get_namespace_id_neq0)
      next
        case False
        with True n show thesis
          by (intro that(2) [of n]) (auto simp: drop_zone_def Let_def zone_touched_def key)
      qed
    qed
  qed
qed

lemma modified_zone_keeps [simp]:
  "z_namespace_name (modified_zone i j) = z_namespace_name j" "z_zone (modified_zone i j) = z_zone j"
  "z_zone_id (modified_zone i j) = z_zone_id j" "z_namespace_id (modified_zone i j) = z_namespace_id j"
  by (simp_all add: modified_zone_def)

lemma modify_zone_cases:
  assumes "env_ok E" "zone_registry_ok s"
  obtains "rejected dn s (modify_zone E rq dn s)"
  | j i v where "zone_info_map s (z_zone_id i) = Some j" "i = modified_zone (msg empty_ZoneInfo (rq_zone_info rq)) j"
      "pb_serialize (zone_pb E) i = Some v"
      "modify_zone E rq dn s = (if_done_set_response dn SUCCESS ''success'', zone_modified i v s)"
proof -
  let ?z = "msg empty_ZoneInfo (rq_zone_info rq)"
  have key: "z_namespace_name ?z @ CHR 0x01 # z_zone ?z = zone_info_key ?z"
    by (simp add: zone_info_key_def make_zone_key_def)
  show thesis
  proof (cases "get_namespace_id (z_namespace_name ?z) s \<noteq> 0 \<and> zone_id_map s (zone_info_key ?z) \<noteq> None")
    case False
    then have "rejected dn s (modify_zone E rq dn s)"
      by (auto simp: modify_zone_def Let_def key)
    then show thesis by (rule that(1))
  next
    case True
    then obtain n where n: "zone_id_map s (zone_info_key ?z) = Some n" by auto
    with assms(2) obtain j where j: "zone_info_map s n = Some j" "z_zone_id j = n"
      unfolding zone_registry_ok_def by (blast dest: registry_okD1)
    show thesis
    proof (cases "pb_serialize (zone_pb E) (modified_zone ?z j)")
      case None
      with True n j show thesis
        by (intro that(1)) (auto simp: modify_zone_def Let_def key)
    next
      case v: (Some v)
      show thesis
      proof (rule put_discovery_info_cases [OF assms(1), of "construct_zone_key n" v "rocks s"], goal_cases)
        case 1
        with True n j v show thesis
          by (intro that(1)) (auto simp: modify_zone_def Let_def key)
      next
        case 2
        with True n j v show thesis
          by (intro that(2) [of "modified_zone ?z j" j v])
            (auto simp: modify_zone_def Let_def zone_modified_def key)
      qed
    qed
  qed
qed

subsection \<open>Every handler keeps the zone invariant\<close>

definition zone_inv :: "env \<Rightarrow> 'a zone_manager_scheme \<Rightarrow> bool" where
  "zone_inv E s \<longleftrightarrow> zone_registry_ok s \<and> zone_persisted E s"

lemma zone_touched_simps [simp]:
  "zone_id_map (zone_touched n s) = zone_id_map s" "zone_info_map (zone_touched n s) = zone_info_map s"
  "max_zone_id (zone_touched n s) = max_zone_id s" "rocks (zone_touched n s) = rocks s"
  "zone_ids (zone_touched n s) = zone_ids s" "namespace_id_map (zone_touched n s) = namespace_id_map s"
  "namespace_info_map (zone_touched n s) = namespace_info_map s"
  "max_namespace_id (zone_touched n s) = max_namespace_id s"
  by (simp_all add: zone_touched_def)

lemma delete_zone_id_simps [simp]:
  "zone_id_map (delete_zone_id m n s) = zone_id_map s" "zone_info_map (delete_zone_id m n s) = zone_info_map s"
  "max_zone_id (delete_zone_id m n s) = max_zone_id s" "rocks (delete_zone_id m n s) = rocks s"
  "namespace_id_map (delete_zone_id m n s) = namespace_id_map s"
  "namespace_info_map (delete_zone_id m n s) = namespace_info_map s"
  "max_namespace_id (delete_zone_id m n s) = max_namespace_id s"
  by (simp_all add: delete_zone_id_def split: option.splits)

lemma at_or_delete_zone_id:
  "at_or {} (zone_ids (delete_zone_id m n s)) k = at_or {} (zone_ids s) k - (if k = m then {n} else {})"
  by (auto simp: delete_zone_id_def at_or_def split: option.splits)

lemma zone_inv_touched [simp]: "zone_inv E (zone_touched n s) = zone_inv E s"
  by (simp add: zone_inv_def zone_registry_ok_def zone_persisted_def)

lemma zone_created_inv:
  assumes "zone_inv E s" "zone_id_map s (zone_info_key i) = None" "z_zone_id i = max_zone_id s + 1"
    "pb_serialize (zone_pb E) i = Some v"
  shows "zone_inv E (zone_created i v s)"
proof -
  have ok: "zone_registry_ok s" using assms(1) by (simp add: zone_inv_def)
  have "zone_registry_ok (zone_created i v s)"
    using zr.ok_insert [of s "max_zone_id s" i] assms(2,3) ok
    by (simp add: zone_registry_ok_def zone_created_def zone_accessors)
  moreover have "zone_persisted E (zone_created i v s)"
    unfolding zone_persisted_def
  proof (intro impI conjI)
    assume "max_zone_id (zone_created i v s) < 2 ^ 63"
    then have m: "max_zone_id s + 1 < 2 ^ 63"
      using assms(3) by (simp add: zone_created_def zone_accessors)
    then have old: "mirrors zone_prefix construct_zone_key (zone_pb E) (zone_info_map s) (rocks s)"
      using assms(1) by (simp add: zone_inv_def zone_persisted_def)
    have "int64_range (z_zone_id i)"
      using m ok assms(3) by (simp add: zone_registry_ok_def registry_ok_def int64_range_def)
    then have "mirrors zone_prefix construct_zone_key (zone_pb E) ((zone_info_map s)(z_zone_id i \<mapsto> i))
        ((rocks s)(construct_zone_key (z_zone_id i) \<mapsto> v))"
      using zone_ids_in_range [OF ok] m by (intro mirrors_put [OF old assms(4)]) (auto simp: key_simps)
    then show "mirrors zone_prefix construct_zone_key (zone_pb E) (zone_info_map (zone_created i v s))
        (rocks (zone_created i v s))"
      by (simp add: zone_created_def zone_accessors mirrors_other key_simps)
    show "rocks (zone_created i v s) construct_max_zone_id_key =
        (if max_zone_id (zone_created i v s) = 0 then None
         else Some (int64_bytes (max_zone_id (zone_created i v s))))"
      using ok assms(3) by (simp add: zone_created_def zone_accessors zone_registry_ok_def registry_ok_def)
  qed
  ultimately show ?thesis by (simp add: zone_inv_def)
qed

lemma zone_erased_inv:
  assumes "zone_inv E s" "zone_id_map s k = Some n"
  shows "zone_inv E (delete_zone_id m n (erase_zone_info k
           ((zone_touched n s)\<lparr>rocks := (rocks s)(construct_zone_key n := None)\<rparr>)))"
proof -
  have ok: "zone_registry_ok s" using assms(1) by (simp add: zone_inv_def)
  obtain i where i: "zone_info_map s n = Some i"
    using ok assms(2) unfolding zone_registry_ok_def by (blast dest: registry_okD1)
  have "max_zone_id s < 2 ^ 63 \<Longrightarrow> mirrors zone_prefix construct_zone_key (zone_pb E)
      ((zone_info_map s)(n := None)) ((rocks s)(construct_zone_key n := None))"
    using assms(1) zone_ids_in_range [OF ok] i
    by (intro mirrors_delete) (auto simp: zone_inv_def zone_persisted_def key_simps)
  then show ?thesis
    using assms registry_ok_remove [of "zone_id_map s" "zone_info_map s"]
    by (auto simp: zone_inv_def zone_registry_ok_def zone_persisted_def zone_accessors key_simps)
qed

lemma zone_modified_inv:
  assumes "zone_inv E s" "zone_info_map s (z_zone_id i) = Some j" "i = modified_zone r j"
    "pb_serialize (zone_pb E) i = Some v"
  shows "zone_inv E (zone_modified i v s)"
proof -
  have ok: "zone_registry_ok s" using assms(1) by (simp add: zone_inv_def)
  have key: "zone_info_key i = zone_info_key j"
    using assms(3) by (simp add: zone_info_key_def)
  have "max_zone_id s < 2 ^ 63 \<Longrightarrow> mirrors zone_prefix construct_zone_key (zone_pb E)
      ((zone_info_map s)(z_zone_id i \<mapsto> i)) ((rocks s)(construct_zone_key (z_zone_id i) \<mapsto> v))"
    using assms(1,2,4) zone_ids_in_range [OF ok]
    by (intro mirrors_put) (auto simp: zone_inv_def zone_persisted_def key_simps)
  then show ?thesis
    using assms(1,2) zr.ok_replace [of s "max_zone_id s" "z_zone_id i" j i] key
    by (auto simp: zone_inv_def zone_registry_ok_def zone_persisted_def zone_modified_def
        zone_accessors key_simps)
qed

lemma create_zone_inv:
  assumes "env_ok E" "zone_inv E s"
  shows "zone_inv E (snd (create_zone E rq dn s))"
  by (rule create_zone_cases [OF assms(1), of dn s rq])
    (use assms(2) in \<open>auto simp: zone_created_inv dest: rejected_state\<close>)

lemma drop_zone_inv:
  assumes "env_ok E" "zone_inv E s"
  shows "zone_inv E (snd (drop_zone E rq dn s))"
  by (rule drop_zone_cases [OF assms(1), of dn s rq])
    (use assms(2) in \<open>auto simp: zone_erased_inv dest: rejected_state\<close>)

lemma modify_zone_inv:
  assumes "env_ok E" "zone_inv E s"
  shows "zone_inv E (snd (modify_zone E rq dn s))"
proof -
  have ok: "zone_registry_ok s" using assms(2) by (simp add: zone_inv_def)
  show ?thesis
    by (rule modify_zone_cases [OF assms(1) ok, of dn rq])
      (use assms(2) in \<open>auto simp: zone_modified_inv dest: rejected_state\<close>)
qed

subsection \<open>Frames\<close>

definition zone_same :: "'a zone_manager_scheme \<Rightarrow> 'a zone_manager_scheme \<Rightarrow> bool" where
  "zone_same s s' \<longleftrightarrow> zone_id_map s' = zone_id_map s \<and> zone_info_map s' = zone_info_map s \<and>
     max_zone_id s' = max_zone_id s \<and>
     (\<forall>k. starts_with zone_prefix k \<or> k = construct_max_zone_id_key \<longrightarrow> rocks s' k = rocks s k)"

lemma zone_same_refl [simp]: "zone_same s s"
  by (simp add: zone_same_def)

lemma zone_inv_same: "zone_same s s' \<Longrightarrow> zone_inv E s \<Longrightarrow> zone_inv E s'"
  by (auto simp: zone_same_def zone_inv_def zone_registry_ok_def zone_persisted_def elim: mirrors_cong)

lemma ns_same_put:
  "ns_same s (s\<lparr>rocks := (rocks s)(k := x)\<rparr>) \<longleftrightarrow> \<not> is_ns_key k \<or> rocks s k = x"
  by (auto simp: ns_same_def is_ns_key_def)

lemma not_ns_key [key_simps]:
  "\<not> is_ns_key (construct_zone_key n)" "\<not> is_ns_key construct_max_zone_id_key"
  "\<not> is_ns_key (construct_servlet_key n)" "\<not> is_ns_key construct_max_servlet_id_key"
  "\<not> is_ns_key (construct_instance_key a)" "\<not> is_ns_key (construct_privilege_key u)"
  "\<not> is_ns_key (make_config_key E c w)"
  by (simp_all add: is_ns_key_def key_simps) (simp_all add: key_defs tag_defs)

lemma ns_sameI:
  assumes "namespace_id_map s' = namespace_id_map s" "namespace_info_map s' = namespace_info_map s"
    "max_namespace_id s' = max_namespace_id s" "\<And>k. is_ns_key k \<Longrightarrow> rocks s' k = rocks s k"
  shows "ns_same s s'"
  using assms by (auto simp: ns_same_def is_ns_key_def)

lemma ns_key_neq [simp]:
  "is_ns_key k \<Longrightarrow> k \<noteq> construct_zone_key n" "is_ns_key k \<Longrightarrow> k \<noteq> construct_max_zone_id_key"
  "is_ns_key k \<Longrightarrow> k \<noteq> construct_servlet_key n" "is_ns_key k \<Longrightarrow> k \<noteq> construct_max_servlet_id_key"
  "is_ns_key k \<Longrightarrow> k \<noteq> construct_instance_key a" "is_ns_key k \<Longrightarrow> k \<noteq> construct_privilege_key u"
  "is_ns_key k \<Longrightarrow> k \<noteq> make_config_key E c w"
  using not_ns_key by auto

lemma zone_handlers_ns_same:
  assumes "env_ok E" "zone_registry_ok s"
  shows "ns_same s (snd (create_zone E rq dn s))" "ns_same s (snd (drop_zone E rq dn s))"
    "ns_same s (snd (modify_zone E rq dn s))"
proof -
  show "ns_same s (snd (create_zone E rq dn s))"
    by (rule create_zone_cases [OF assms(1), of dn s rq])
      (auto simp: zone_created_def zone_accessors intro!: ns_sameI dest: rejected_state)
  show "ns_same s (snd (drop_zone E rq dn s))"
    by (rule drop_zone_cases [OF assms(1), of dn s rq])
      (auto simp: zone_touched_def zone_accessors intro!: ns_sameI dest!: rejected_state)
  show "ns_same s (snd (modify_zone E rq dn s))"
    by (rule modify_zone_cases [OF assms, of dn rq])
      (auto simp: zone_modified_def zone_accessors intro!: ns_sameI dest: rejected_state)
qed

text \<open>
  A namespace handler never touches the zone manager: its fields are the rest of the record, and
  none of its keys is a zone key.
\<close>

definition is_zone_key :: "string \<Rightarrow> bool" where
  "is_zone_key k \<longleftrightarrow> starts_with zone_prefix k \<or> k = construct_max_zone_id_key"

lemma zone_key_ns_key: "is_zone_key k \<Longrightarrow> \<not> is_ns_key k"
  by (auto simp: is_zone_key_def is_ns_key_def key_simps) (auto simp: prefix_defs tag_defs dest!: starts_withE)

lemma zone_sameI:
  assumes "zone_id_map s' = zone_id_map s" "zone_info_map s' = zone_info_map s"
    "max_zone_id s' = max_zone_id s" "\<And>k. is_zone_key k \<Longrightarrow> rocks s' k = rocks s k"
  shows "zone_same s s'"
  using assms by (auto simp: zone_same_def is_zone_key_def)

lemma zone_key_neq [simp]:
  "is_zone_key k \<Longrightarrow> k \<noteq> construct_namespace_key n" "is_zone_key k \<Longrightarrow> k \<noteq> construct_max_namespace_id_key"
  "is_zone_key k \<Longrightarrow> k \<noteq> construct_servlet_key n" "is_zone_key k \<Longrightarrow> k \<noteq> construct_max_servlet_id_key"
  "is_zone_key k \<Longrightarrow> k \<noteq> construct_instance_key a" "is_zone_key k \<Longrightarrow> k \<noteq> construct_privilege_key u"
  "is_zone_key k \<Longrightarrow> k \<noteq> make_config_key E c w"
  by (auto simp: is_zone_key_def key_simps) (auto simp: key_defs tag_defs)

lemma zone_more:
  assumes "namespace_manager.more s' = namespace_manager.more s"
  shows "zone_id_map s' = zone_id_map s" "zone_info_map s' = zone_info_map s"
    "max_zone_id s' = max_zone_id s" "servlet_ids s' = servlet_ids s"
    "zone_manager.more s' = zone_manager.more s"
  using assms by (cases s, cases s', simp)+

lemma namespace_handlers_zone_same:
  assumes "env_ok E" "ns_registry_ok s"
  shows "zone_same s (snd (create_namespace E rq dn s))" "zone_same s (snd (drop_namespace E rq dn s))"
    "zone_same s (snd (modify_namespace E rq dn s))"
  using namespace_handlers_rocks [OF assms zone_key_ns_key]
  by (auto intro!: zone_sameI intro: zone_more namespace_handlers_more [OF assms])

subsection \<open>Every handler keeps the links\<close>

lemma zone_links_created:
  assumes "zone_links s" "zone_registry_ok s" "z_zone_id i = max_zone_id s + 1"
    "namespace_id_map s (z_namespace_name i) = Some (z_namespace_id i)"
  shows "zone_links (zone_created i v s)"
proof -
  have "zone_info_map s (max_zone_id s + 1) = None"
    using assms(2) unfolding zone_registry_ok_def by (cases "zone_info_map s (max_zone_id s + 1)") (auto dest: registry_okD2)
  with assms(1,3,4) show ?thesis
    by (auto simp: zone_links_def zone_created_def zone_accessors at_or_upd)
qed

lemma zone_links_erased:
  assumes "zone_links s" "clean_namespaces s" "zone_registry_ok s"
    "namespace_id_map s (z_namespace_name z) = Some m" "zone_id_map s (zone_info_key z) = Some n"
  shows "zone_links (delete_zone_id m n (erase_zone_info (zone_info_key z)
           ((zone_touched n s)\<lparr>rocks := db\<rparr>)))"
proof -
  obtain i where i: "zone_info_map s n = Some i" "zone_info_key i = zone_info_key z"
    using assms(3,5) unfolding zone_registry_ok_def by (blast dest: registry_okD1)
  have m: "namespace_id_map s (z_namespace_name i) = Some (z_namespace_id i)"
    using assms(1) i by (simp add: zone_links_def)
  then have "clean_name (z_namespace_name i)" "clean_name (z_namespace_name z)"
    using assms(2,4) by (auto simp: clean_namespaces_def)
  with i have "z_namespace_name i = z_namespace_name z"
    by (simp add: zone_info_key_def make_zone_key_inject)
  with m assms(4) have "z_namespace_id i = m" by simp
  with assms(1,5) i show ?thesis
    by (auto simp: zone_links_def zone_accessors at_or_delete_zone_id split: if_splits)
qed

lemma zone_links_modified:
  assumes "zone_links s" "zone_info_map s (z_zone_id i) = Some j" "i = modified_zone r j"
  shows "zone_links (zone_modified i v s)"
  using assms by (auto simp: zone_links_def zone_modified_def zone_accessors split: if_splits)

lemma zone_links_touched [simp]: "zone_links (zone_touched n s) = zone_links s"
  by (simp add: zone_links_def)

lemma zone_links_ns_touched [simp]: "zone_links (ns_touched n s) = zone_links s"
  by (simp add: zone_links_def ns_touched_def)

lemma zone_links_ns_created:
  assumes "zone_links s" "namespace_id_map s (ns_name i) = None"
  shows "zone_links (ns_created i v s)"
  using assms unfolding zone_links_def by (auto simp: ns_created_def namespace_accessors) fastforce

lemma zone_links_ns_dropped:
  assumes "zone_links s" "ns_registry_ok s" "namespace_id_map s k = Some n" "at_or {} (zone_ids s) n = {}"
  shows "zone_links (erase_namespace_info k ((ns_touched n s)\<lparr>rocks := db\<rparr>))"
proof -
  have none: "z_namespace_id z \<noteq> n" if "zone_info_map s q = Some z" for q z
    using assms(1,4) that unfolding zone_links_def by blast
  then have "z_namespace_name z \<noteq> k" if "zone_info_map s q = Some z" for q z
    using assms(1,3) that unfolding zone_links_def by fastforce
  with none assms(1,3) show ?thesis
    by (auto simp: zone_links_def namespace_accessors ns_touched_def at_or_del)
qed

lemma zone_links_ns_modified:
  assumes "zone_links s" "ns_registry_ok s" "namespace_info_map s (ns_id i) = Some j" "ns_name i = ns_name j"
  shows "zone_links (ns_modified i v s)"
proof -
  have "namespace_id_map s (ns_name i) = Some (ns_id i)"
    using assms(2-4) by (auto simp: ns_registry_ok_def dest: registry_okD2)
  then show ?thesis
    using assms(1) by (simp add: zone_links_def ns_modified_def namespace_accessors fun_upd_idem)
qed

lemma zone_handlers_links:
  assumes "env_ok E" "zone_links s" "clean_namespaces s" "zone_registry_ok s"
  shows "zone_links (snd (create_zone E rq dn s))" "zone_links (snd (drop_zone E rq dn s))"
    "zone_links (snd (modify_zone E rq dn s))"
proof -
  show "zone_links (snd (create_zone E rq dn s))"
    by (rule create_zone_cases [OF assms(1), of dn s rq])
      (use assms in \<open>auto simp: zone_links_created dest: rejected_state\<close>)
  show "zone_links (snd (drop_zone E rq dn s))"
    by (rule drop_zone_cases [OF assms(1), of dn s rq])
      (use assms in \<open>auto simp: zone_links_erased dest: rejected_state\<close>)
  show "zone_links (snd (modify_zone E rq dn s))"
    by (rule modify_zone_cases [OF assms(1,4), of dn rq])
      (use assms in \<open>auto simp: zone_links_modified dest: rejected_state\<close>)
qed

lemma namespace_handlers_links:
  assumes "env_ok E" "zone_links s" "ns_registry_ok s"
  shows "zone_links (snd (create_namespace E rq dn s))" "zone_links (snd (drop_namespace E rq dn s))"
    "zone_links (snd (modify_namespace E rq dn s))"
proof -
  show "zone_links (snd (create_namespace E rq dn s))"
    by (rule create_namespace_cases [OF assms(1), of dn s rq])
      (use assms in \<open>auto simp: zone_links_ns_created dest: rejected_state\<close>)
  show "zone_links (snd (drop_namespace E rq dn s))"
    by (rule drop_namespace_cases [OF assms(1), of dn s rq])
      (use assms in \<open>auto simp: zone_links_ns_dropped dest: rejected_state\<close>)
  show "zone_links (snd (modify_namespace E rq dn s))"
    by (rule modify_namespace_cases [OF assms(1,3), of dn rq])
      (use assms in \<open>auto simp: zone_links_ns_modified dest: rejected_state\<close>)
qed

lemma zone_links_cong:
  "zone_links s \<Longrightarrow> zone_info_map s' = zone_info_map s \<Longrightarrow> namespace_id_map s' = namespace_id_map s \<Longrightarrow>
     zone_ids s' = zone_ids s \<Longrightarrow> zone_links s'"
  by (simp add: zone_links_def)

subsection \<open>Clean namespace names\<close>

definition clean_request :: "DiscoveryManagerRequest \<Rightarrow> bool" where
  "clean_request rq \<longleftrightarrow> clean_name (ns_name (msg empty_NameSpaceInfo (rq_namespace_info rq)))"

lemma namespace_handlers_clean:
  assumes "env_ok E" "clean_namespaces s" "ns_registry_ok s" "clean_request rq"
  shows "clean_namespaces (snd (create_namespace E rq dn s))" "clean_namespaces (snd (drop_namespace E rq dn s))"
    "clean_namespaces (snd (modify_namespace E rq dn s))"
proof -
  show "clean_namespaces (snd (create_namespace E rq dn s))"
    by (rule create_namespace_cases [OF assms(1), of dn s rq])
      (use assms in \<open>auto simp: clean_namespaces_def clean_request_def ns_created_def namespace_accessors
        dest!: rejected_state\<close>)
  show "clean_namespaces (snd (drop_namespace E rq dn s))"
    by (rule drop_namespace_cases [OF assms(1), of dn s rq])
      (use assms in \<open>auto simp: clean_namespaces_def ns_touched_def namespace_accessors dest!: rejected_state\<close>)
  show "clean_namespaces (snd (modify_namespace E rq dn s))"
    by (rule modify_namespace_cases [OF assms(1,3), of dn rq])
      (use assms in \<open>auto simp: clean_namespaces_def ns_modified_def namespace_accessors ns_registry_ok_def
        dest!: rejected_state dest: registry_okD2\<close>)
qed

lemma clean_namespaces_same: "ns_same s s' \<Longrightarrow> clean_namespaces s \<Longrightarrow> clean_namespaces s'"
  by (simp add: ns_same_def clean_namespaces_def)

subsection \<open>What the zone handlers leave alone of the other managers\<close>

lemma is_zone_key_simps [simp]:
  "is_zone_key (construct_zone_key n)" "is_zone_key construct_max_zone_id_key"
  by (simp_all add: is_zone_key_def key_simps)

lemma zone_handlers_rocks:
  assumes "env_ok E" "zone_registry_ok s" "\<not> is_zone_key k"
  shows "rocks (snd (create_zone E rq dn s)) k = rocks s k"
    "rocks (snd (drop_zone E rq dn s)) k = rocks s k"
    "rocks (snd (modify_zone E rq dn s)) k = rocks s k"
proof -
  have k: "k \<noteq> construct_zone_key n" "k \<noteq> construct_max_zone_id_key" for n
    using assms(3) by auto
  show "rocks (snd (create_zone E rq dn s)) k = rocks s k"
    by (rule create_zone_cases [OF assms(1), of dn s rq])
      (auto simp: zone_created_def zone_accessors k dest: rejected_state)
  show "rocks (snd (drop_zone E rq dn s)) k = rocks s k"
    by (rule drop_zone_cases [OF assms(1), of dn s rq])
      (auto simp: zone_accessors k dest: rejected_state)
  show "rocks (snd (modify_zone E rq dn s)) k = rocks s k"
    by (rule modify_zone_cases [OF assms(1,2), of dn rq])
      (auto simp: zone_modified_def zone_accessors k dest: rejected_state)
qed

lemma delete_zone_id_more [simp]: "zone_manager.more (delete_zone_id m n s) = zone_manager.more s"
  by (simp add: delete_zone_id_def split: option.splits)

lemma zone_handlers_more:
  assumes "env_ok E" "zone_registry_ok s"
  shows "zone_manager.more (snd (create_zone E rq dn s)) = zone_manager.more s"
    "zone_manager.more (snd (drop_zone E rq dn s)) = zone_manager.more s"
    "zone_manager.more (snd (modify_zone E rq dn s)) = zone_manager.more s"
proof -
  show "zone_manager.more (snd (create_zone E rq dn s)) = zone_manager.more s"
    by (rule create_zone_cases [OF assms(1), of dn s rq])
      (auto simp: zone_created_def zone_accessors dest: rejected_state)
  show "zone_manager.more (snd (drop_zone E rq dn s)) = zone_manager.more s"
    by (rule drop_zone_cases [OF assms(1), of dn s rq])
      (auto simp: zone_touched_def zone_accessors dest!: rejected_state)
  show "zone_manager.more (snd (modify_zone E rq dn s)) = zone_manager.more s"
    by (rule modify_zone_cases [OF assms, of dn rq])
      (auto simp: zone_modified_def zone_accessors dest: rejected_state)
qed

end
