(* ===== verification/ServletManager.thy ===== *)
theory ServletManager
  imports ZoneManager
begin

text \<open>
  \<open>ServletManager\<close> (servlet_manager.h, servlet_manager.cc): servlets live in a zone and are filed
  under \<open>namespace \001 zone \001 servlet\<close>. The handlers are translated as they are written: a new
  servlet is listed under its namespace's id instead of its zone's, \<open>drop_servlet\<close> looks the
  zone's name up among the servlets, and \<open>modify_servlet\<close> edits the info filed under the zone's
  id. The lemmas state what this does.
\<close>

record servlet_manager = zone_manager +
  max_servlet_id :: int
  servlet_id_map :: "string \<Rightarrow> int option"
  servlet_info_map :: "int \<Rightarrow> ServletInfo option"

subsection \<open>Accessors\<close>

definition make_servlet_key :: "string \<Rightarrow> string \<Rightarrow> string \<Rightarrow> string" where
  "make_servlet_key namespace_name zone_name servlet_name =
     namespace_name @ [CHR 0x01] @ zone_name @ [CHR 0x01] @ servlet_name"

definition make_servlet_key_of_zone :: "string \<Rightarrow> string \<Rightarrow> string" where
  "make_servlet_key_of_zone zone_key servlet_name = zone_key @ [CHR 0x01] @ servlet_name"

definition set_max_servlet_id :: "int \<Rightarrow> 'a servlet_manager_scheme \<Rightarrow> 'a servlet_manager_scheme" where
  "set_max_servlet_id i s = s\<lparr>max_servlet_id := i\<rparr>"

definition servlet_info_key :: "ServletInfo \<Rightarrow> string" where
  "servlet_info_key i = make_servlet_key (sv_namespace_name i) (sv_zone i) (sv_servlet_name i)"

definition set_servlet_info :: "ServletInfo \<Rightarrow> 'a servlet_manager_scheme \<Rightarrow> 'a servlet_manager_scheme" where
  "set_servlet_info i s =
     (let servlet_name = make_servlet_key (sv_namespace_name i) (sv_zone i) (sv_servlet_name i)
      in s\<lparr>servlet_id_map := (servlet_id_map s)(servlet_name \<mapsto> sv_servlet_id i),
           servlet_info_map := (servlet_info_map s)(sv_servlet_id i \<mapsto> i)\<rparr>)"

definition erase_servlet_info :: "string \<Rightarrow> 'a servlet_manager_scheme \<Rightarrow> 'a servlet_manager_scheme" where
  "erase_servlet_info servlet_name s =
     (let servlet_id = at_or 0 (servlet_id_map s) servlet_name
      in s\<lparr>servlet_id_map := (servlet_id_map s)(servlet_name := None),
           servlet_info_map := (servlet_info_map s)(servlet_id := None)\<rparr>)"

definition get_servlet_id :: "string \<Rightarrow> 'a servlet_manager_scheme \<Rightarrow> int" where
  "get_servlet_id servlet_name s =
     (if servlet_id_map s servlet_name \<noteq> None then at_or 0 (servlet_id_map s) servlet_name else 0)"

definition get_servlet_info :: "int \<Rightarrow> 'a servlet_manager_scheme \<Rightarrow> int \<times> ServletInfo option" where
  "get_servlet_info servlet_id s =
     (case servlet_info_map s servlet_id of None \<Rightarrow> (-1, None) | Some i \<Rightarrow> (0, Some i))"

definition servlet_clear :: "'a servlet_manager_scheme \<Rightarrow> 'a servlet_manager_scheme" where
  "servlet_clear s = s\<lparr>servlet_id_map := Map.empty, servlet_info_map := Map.empty\<rparr>"

lemmas servlet_accessors = set_max_servlet_id_def set_servlet_info_def erase_servlet_info_def
  servlet_clear_def servlet_info_key_def Let_def

subsection \<open>Handlers\<close>

definition prepared_servlet :: "'a servlet_manager_scheme \<Rightarrow> int \<Rightarrow> int \<Rightarrow> ServletInfo \<Rightarrow> ServletInfo" where
  "prepared_servlet s namespace_id zone_id servlet_info =
     (let servlet_info = servlet_info\<lparr>sv_servlet_id := max_servlet_id s + 1, sv_zone_id := zone_id,
            sv_namespace_id := namespace_id\<rparr>;
          servlet_info = (case get_namespace_info namespace_id s of
              (ret, Some namespace_info) \<Rightarrow>
                (if sv_resource_tag servlet_info = None \<and> str_field (ns_resource_tag namespace_info) \<noteq> []
                 then servlet_info\<lparr>sv_resource_tag := Some (str_field (ns_resource_tag namespace_info))\<rparr>
                 else servlet_info)
            | (ret, None) \<Rightarrow> servlet_info)
      in servlet_info\<lparr>sv_version := 1\<rparr>)"

definition create_servlet ::
  "env \<Rightarrow> DiscoveryManagerRequest \<Rightarrow> closure \<Rightarrow> 'a servlet_manager_scheme \<Rightarrow>
     closure \<times> 'a servlet_manager_scheme" where
  "create_servlet E request dn s =
     (let servlet_info = msg empty_ServletInfo (rq_servlet_info request);
          namespace_name = sv_namespace_name servlet_info;
          zone_name = namespace_name @ [CHR 0x01] @ sv_zone servlet_info;
          servlet_name = zone_name @ [CHR 0x01] @ sv_servlet_name servlet_info;
          namespace_id = get_namespace_id namespace_name s
      in if namespace_id = 0
         then (if_done_set_response dn INPUT_PARAM_ERROR ''namespace not exist'', s)
         else let zone_id = get_zone_id zone_name s
         in if zone_id = 0
         then (if_done_set_response dn INPUT_PARAM_ERROR ''zone not exist'', s)
         else if servlet_id_map s servlet_name \<noteq> None
         then (if_done_set_response dn INPUT_PARAM_ERROR ''servlet already exist'', s)
         else let tmp_servlet_id = max_servlet_id s + 1;
                  servlet_info = prepared_servlet s namespace_id zone_id servlet_info
              in case pb_serialize (servlet_pb E) servlet_info of
                   None \<Rightarrow> (if_done_set_response dn PARSE_TO_PB_FAIL ''serializeToArray fail'', s)
                 | Some servlet_value \<Rightarrow>
                     let (ret, db) = put_discovery_infos E
                           [construct_servlet_key tmp_servlet_id, construct_max_servlet_id_key]
                           [servlet_value, int64_bytes tmp_servlet_id] (rocks s);
                         s = s\<lparr>rocks := db\<rparr>
                     in if ret < 0
                        then (if_done_set_response dn INTERNAL_ERROR ''write db fail'', s)
                        else (if_done_set_response dn SUCCESS ''success'',
                              add_servlet_id namespace_id tmp_servlet_id
                                (set_max_servlet_id tmp_servlet_id (set_servlet_info servlet_info s))))"

definition drop_servlet ::
  "env \<Rightarrow> DiscoveryManagerRequest \<Rightarrow> closure \<Rightarrow> 'a servlet_manager_scheme \<Rightarrow>
     closure \<times> 'a servlet_manager_scheme" where
  "drop_servlet E request dn s =
     (let servlet_info = msg empty_ServletInfo (rq_servlet_info request);
          namespace_name = sv_namespace_name servlet_info;
          zone_name = namespace_name @ [CHR 0x01] @ sv_zone servlet_info;
          servlet_name = zone_name @ [CHR 0x01] @ sv_servlet_name servlet_info;
          namespace_id = get_namespace_id namespace_name s
      in if namespace_id = 0
         then (if_done_set_response dn INPUT_PARAM_ERROR ''namespace not exist'', s)
         else let zone_id = get_zone_id zone_name s
         in if zone_id = 0
         then (if_done_set_response dn INPUT_PARAM_ERROR ''namespace not exist'', s)
         else if servlet_id_map s zone_name = None
         then (if_done_set_response dn INPUT_PARAM_ERROR ''zone not exist'', s)
         else let servlet_id = at_or 0 (servlet_id_map s) servlet_name;
                  s = s\<lparr>servlet_id_map := touch 0 servlet_name (servlet_id_map s)\<rparr>;
                  (ret, db) = remove_discovery_info E [construct_servlet_key zone_id] (rocks s);
                  s = s\<lparr>rocks := db\<rparr>
              in if ret < 0
                 then (if_done_set_response dn INTERNAL_ERROR ''write db fail'', s)
                 else (if_done_set_response dn SUCCESS ''success'',
                       delete_servlet_id zone_id servlet_id (erase_servlet_info servlet_name s)))"

definition modified_servlet :: "ServletInfo \<Rightarrow> ServletInfo \<Rightarrow> ServletInfo" where
  "modified_servlet info tmp =
     tmp\<lparr>sv_version := sv_version tmp + 1,
         sv_resource_tag := keep_or (sv_resource_tag info) (sv_resource_tag tmp)\<rparr>"

definition modify_servlet ::
  "env \<Rightarrow> DiscoveryManagerRequest \<Rightarrow> closure \<Rightarrow> 'a servlet_manager_scheme \<Rightarrow>
     closure \<times> 'a servlet_manager_scheme" where
  "modify_servlet E request dn s =
     (let servlet_info = msg empty_ServletInfo (rq_servlet_info request);
          namespace_name = sv_namespace_name servlet_info;
          zone_name = namespace_name @ [CHR 0x01] @ sv_zone servlet_info;
          servlet_name = zone_name @ [CHR 0x01] @ sv_servlet_name servlet_info;
          namespace_id = get_namespace_id namespace_name s
      in if namespace_id = 0
         then (if_done_set_response dn INPUT_PARAM_ERROR ''namespace not exist'', s)
         else let zone_id = get_zone_id zone_name s
         in if zone_id = 0
         then (if_done_set_response dn INPUT_PARAM_ERROR ''namespace not exist'', s)
         else if servlet_id_map s servlet_name = None
         then (if_done_set_response dn INPUT_PARAM_ERROR ''zone not exist'', s)
         else let servlet_id = at_or 0 (servlet_id_map s) servlet_name;
                  old_info = at_or empty_ServletInfo (servlet_info_map s) zone_id;
                  s = s\<lparr>servlet_info_map := touch empty_ServletInfo zone_id (servlet_info_map s)\<rparr>;
                  tmp_servlet_info = modified_servlet servlet_info old_info
              in case pb_serialize (servlet_pb E) tmp_servlet_info of
                   None \<Rightarrow> (if_done_set_response dn PARSE_TO_PB_FAIL ''serializeToArray fail'', s)
                 | Some servlet_value \<Rightarrow>
                     let (ret, db) = put_discovery_info E (construct_servlet_key servlet_id)
                           servlet_value (rocks s);
                         s = s\<lparr>rocks := db\<rparr>
                     in if ret < 0
                        then (if_done_set_response dn INTERNAL_ERROR ''write db fail'', s)
                        else (if_done_set_response dn SUCCESS ''success'',
                              set_servlet_info tmp_servlet_info s))"

definition load_servlet_snapshot ::
  "env \<Rightarrow> string \<Rightarrow> 'a servlet_manager_scheme \<Rightarrow> int \<times> 'a servlet_manager_scheme" where
  "load_servlet_snapshot E value s =
     (case pb_parse (servlet_pb E) value of
        None \<Rightarrow> (-1, s)
      | Some i \<Rightarrow> (0, add_servlet_id (sv_zone_id i) (sv_servlet_id i) (set_servlet_info i s)))"

subsection \<open>The registry interface\<close>

interpretation svr: id_registry servlet_id_map servlet_info_map servlet_info_key sv_servlet_id
    set_servlet_info erase_servlet_info get_servlet_id
  by unfold_locales (auto simp: servlet_accessors get_servlet_id_def split: option.splits)

subsection \<open>Servlet keys\<close>

lemma servlet_info_key_simp:
  "make_zone_key (sv_namespace_name i) (sv_zone i) @ CHR 0x01 # sv_servlet_name i = servlet_info_key i"
  by (simp add: servlet_info_key_def make_servlet_key_def make_zone_key_def)

lemma make_servlet_key_eq: "make_servlet_key n z v = make_servlet_key_of_zone (make_zone_key n z) v"
  by (simp add: make_servlet_key_def make_servlet_key_of_zone_def make_zone_key_def)

lemma make_servlet_key_inject:
  assumes "clean_name n" "clean_name n'" "clean_name z" "clean_name z'"
  shows "make_servlet_key n z v = make_servlet_key n' z' v' \<longleftrightarrow> n = n' \<and> z = z' \<and> v = v'"
  using assms by (simp add: make_servlet_key_def clean_name_def append_sep_eq)

text \<open>A zone key holds one separator and a servlet key two, so no clean zone key is a servlet key.\<close>

definition separators :: "string \<Rightarrow> nat" where
  "separators k = count_list k (CHR 0x01)"

lemma separators_clean: "clean_name k \<Longrightarrow> separators k = 0"
  by (simp add: separators_def clean_name_def)

lemma separators_zone_key: "clean_name n \<Longrightarrow> clean_name z \<Longrightarrow> separators (make_zone_key n z) = 1"
  using separators_clean [of n] separators_clean [of z]
  by (simp add: make_zone_key_def separators_def)

lemma separators_servlet_key: "2 \<le> separators (make_servlet_key n z v)"
  by (simp add: make_servlet_key_def separators_def)

lemma zone_key_not_servlet_key:
  "clean_name n \<Longrightarrow> clean_name z \<Longrightarrow> make_zone_key n z \<noteq> make_servlet_key n' z' v"
  by (metis separators_zone_key separators_servlet_key numeral_One
      semiring_norm(69) numeral_le_iff)

subsection \<open>Invariants\<close>

text \<open>
  The registry and its copy in the store, which \<open>create_servlet\<close> keeps, and the weaker
  invariant that every handler keeps: filed names are servlet keys and no id is above the counter.
\<close>

definition servlet_registry_ok :: "'a servlet_manager_scheme \<Rightarrow> bool" where
  "servlet_registry_ok s \<longleftrightarrow>
     registry_ok (servlet_id_map s) (servlet_info_map s) servlet_info_key sv_servlet_id (max_servlet_id s)"

definition servlet_persisted :: "env \<Rightarrow> 'a servlet_manager_scheme \<Rightarrow> bool" where
  "servlet_persisted E s \<longleftrightarrow> (max_servlet_id s < 2 ^ 63 \<longrightarrow>
     mirrors servlet_prefix construct_servlet_key (servlet_pb E) (servlet_info_map s) (rocks s) \<and>
     rocks s construct_max_servlet_id_key =
       (if max_servlet_id s = 0 then None else Some (int64_bytes (max_servlet_id s))))"

definition servlet_inv :: "env \<Rightarrow> 'a servlet_manager_scheme \<Rightarrow> bool" where
  "servlet_inv E s \<longleftrightarrow> servlet_registry_ok s \<and> servlet_persisted E s"

definition servlet_weak :: "'a servlet_manager_scheme \<Rightarrow> bool" where
  "servlet_weak s \<longleftrightarrow> 0 \<le> max_servlet_id s \<and>
     (\<forall>k n. servlet_id_map s k = Some n \<longrightarrow> n \<le> max_servlet_id s \<and> (\<exists>i. k = servlet_info_key i)) \<and>
     (\<forall>n i. servlet_info_map s n = Some i \<longrightarrow> sv_servlet_id i \<le> max_servlet_id s)"

text \<open>
  What the store holds of the servlets all the same: values that parse, and the counter. A
  snapshot load needs that much not to fail.
\<close>

definition servlet_stored :: "env \<Rightarrow> 'a servlet_manager_scheme \<Rightarrow> bool" where
  "servlet_stored E s \<longleftrightarrow>
     (\<forall>k v. starts_with servlet_prefix k \<longrightarrow> rocks s k = Some v \<longrightarrow> pb_parse (servlet_pb E) v \<noteq> None) \<and>
     rocks s construct_max_servlet_id_key =
       (if max_servlet_id s = 0 then None else Some (int64_bytes (max_servlet_id s)))"

lemma servlet_ids_in_range:
  "servlet_registry_ok s \<Longrightarrow> max_servlet_id s < 2 ^ 63 \<Longrightarrow> servlet_info_map s n = Some i \<Longrightarrow> int64_range n"
  unfolding servlet_registry_ok_def by (auto dest!: registry_okD2 intro: int64_range_id)

subsection \<open>What each handler can do\<close>

definition servlet_created :: "ServletInfo \<Rightarrow> string \<Rightarrow> 'a servlet_manager_scheme \<Rightarrow> 'a servlet_manager_scheme" where
  "servlet_created i v s =
     add_servlet_id (sv_namespace_id i) (sv_servlet_id i) (set_max_servlet_id (sv_servlet_id i)
       (set_servlet_info i
         (s\<lparr>rocks := (rocks s)(construct_servlet_key (sv_servlet_id i) \<mapsto> v,
                               construct_max_servlet_id_key \<mapsto> int64_bytes (sv_servlet_id i))\<rparr>)))"

lemma get_zone_id_neq0: "get_zone_id k s \<noteq> 0 \<Longrightarrow> zone_id_map s k = Some (get_zone_id k s)"
  using zr.get_id_eq [of k s] by (auto split: option.splits)

lemma prepared_servlet_keeps [simp]:
  "servlet_info_key (prepared_servlet s n z i) = servlet_info_key i"
  "sv_namespace_name (prepared_servlet s n z i) = sv_namespace_name i"
  "sv_zone (prepared_servlet s n z i) = sv_zone i"
  "sv_servlet_name (prepared_servlet s n z i) = sv_servlet_name i"
  "sv_servlet_id (prepared_servlet s n z i) = max_servlet_id s + 1"
  "sv_zone_id (prepared_servlet s n z i) = z" "sv_namespace_id (prepared_servlet s n z i) = n"
  by (simp_all add: prepared_servlet_def get_namespace_info_def Let_def servlet_info_key_def
      split: option.splits)

lemma create_servlet_cases:
  assumes "env_ok E"
  obtains "rejected dn s (create_servlet E rq dn s)"
  | i v where "servlet_id_map s (servlet_info_key i) = None" "sv_servlet_id i = max_servlet_id s + 1"
      "namespace_id_map s (sv_namespace_name i) = Some (sv_namespace_id i)"
      "zone_id_map s (make_zone_key (sv_namespace_name i) (sv_zone i)) = Some (sv_zone_id i)"
      "i = prepared_servlet s (sv_namespace_id i) (sv_zone_id i) (msg empty_ServletInfo (rq_servlet_info rq))"
      "pb_serialize (servlet_pb E) i = Some v"
      "create_servlet E rq dn s = (if_done_set_response dn SUCCESS ''success'', servlet_created i v s)"
proof -
  let ?r = "msg empty_ServletInfo (rq_servlet_info rq)"
  let ?n = "get_namespace_id (sv_namespace_name ?r) s"
  let ?z = "get_zone_id (make_zone_key (sv_namespace_name ?r) (sv_zone ?r)) s"
  let ?i = "prepared_servlet s ?n ?z ?r"
  have key: "sv_namespace_name ?r @ CHR 0x01 # sv_zone ?r = make_zone_key (sv_namespace_name ?r) (sv_zone ?r)"
    by (simp add: make_zone_key_def)
  show thesis
  proof (cases "?n \<noteq> 0 \<and> ?z \<noteq> 0 \<and> servlet_id_map s (servlet_info_key ?r) = None \<and>
      pb_serialize (servlet_pb E) ?i \<noteq> None")
    case False
    then have "rejected dn s (create_servlet E rq dn s)"
      by (auto simp: create_servlet_def Let_def key servlet_info_key_simp)
    then show thesis by (rule that(1))
  next
    case True
    then obtain v where v: "pb_serialize (servlet_pb E) ?i = Some v" by auto
    show thesis
    proof (rule put_two_cases [OF assms, of "construct_servlet_key (max_servlet_id s + 1)"
          construct_max_servlet_id_key v "int64_bytes (max_servlet_id s + 1)" "rocks s"], goal_cases)
      case 1
      with True v have "rejected dn s (create_servlet E rq dn s)"
        by (auto simp: create_servlet_def Let_def key servlet_info_key_simp)
      then show thesis by (rule that(1))
    next
      case 2
      with True v show thesis
        by (intro that(2) [of ?i v])
          (auto simp: create_servlet_def Let_def servlet_created_def key servlet_info_key_simp
            get_namespace_id_neq0 get_zone_id_neq0)
    qed
  qed
qed

definition servlet_modified :: "int \<Rightarrow> int \<Rightarrow> ServletInfo \<Rightarrow> string \<Rightarrow> 'a servlet_manager_scheme \<Rightarrow> 'a servlet_manager_scheme" where
  "servlet_modified zone_id servlet_id i v s =
     set_servlet_info i (s\<lparr>servlet_info_map := touch empty_ServletInfo zone_id (servlet_info_map s),
       rocks := (rocks s)(construct_servlet_key servlet_id \<mapsto> v)\<rparr>)"

lemma modify_servlet_cases:
  assumes "env_ok E"
  obtains "rejected dn s (modify_servlet E rq dn s)"
  | m where "rejected dn (s\<lparr>servlet_info_map := touch empty_ServletInfo m (servlet_info_map s)\<rparr>)
        (modify_servlet E rq dn s)"
  | r m n i v where "r = msg empty_ServletInfo (rq_servlet_info rq)"
      "zone_id_map s (make_zone_key (sv_namespace_name r) (sv_zone r)) = Some m"
      "servlet_id_map s (servlet_info_key r) = Some n"
      "i = modified_servlet r (at_or empty_ServletInfo (servlet_info_map s) m)"
      "pb_serialize (servlet_pb E) i = Some v"
      "modify_servlet E rq dn s =
         (if_done_set_response dn SUCCESS ''success'', servlet_modified m n i v s)"
proof -
  let ?r = "msg empty_ServletInfo (rq_servlet_info rq)"
  let ?z = "get_zone_id (make_zone_key (sv_namespace_name ?r) (sv_zone ?r)) s"
  let ?i = "modified_servlet ?r (at_or empty_ServletInfo (servlet_info_map s) ?z)"
  have key: "sv_namespace_name ?r @ CHR 0x01 # sv_zone ?r = make_zone_key (sv_namespace_name ?r) (sv_zone ?r)"
    by (simp add: make_zone_key_def)
  show thesis
  proof (cases "get_namespace_id (sv_namespace_name ?r) s \<noteq> 0 \<and> ?z \<noteq> 0 \<and>
      servlet_id_map s (servlet_info_key ?r) \<noteq> None")
    case False
    then have "rejected dn s (modify_servlet E rq dn s)"
      by (auto simp: modify_servlet_def Let_def key servlet_info_key_simp)
    then show thesis by (rule that(1))
  next
    case True
    then obtain n where n: "servlet_id_map s (servlet_info_key ?r) = Some n" by auto
    show thesis
    proof (cases "pb_serialize (servlet_pb E) ?i")
      case None
      with True n show thesis
        by (intro that(2) [of ?z]) (auto simp: modify_servlet_def Let_def key servlet_info_key_simp)
    next
      case v: (Some v)
      show thesis
      proof (rule put_discovery_info_cases [OF assms, of "construct_servlet_key n" v "rocks s"], goal_cases)
        case 1
        with True n v show thesis
          by (intro that(2) [of ?z]) (auto simp: modify_servlet_def Let_def key servlet_info_key_simp)
      next
        case 2
        with True n v show thesis
          by (intro that(3) [of ?r ?z n ?i v])
            (auto simp: modify_servlet_def Let_def servlet_modified_def key servlet_info_key_simp
              get_zone_id_neq0)
      qed
    qed
  qed
qed

lemma drop_servlet_cases:
  assumes "env_ok E"
  obtains "rejected dn s (drop_servlet E rq dn s)"
  | i where "rejected dn (s\<lparr>servlet_id_map := touch 0 (servlet_info_key i) (servlet_id_map s)\<rparr>)
        (drop_servlet E rq dn s)"
  | i m n where "drop_servlet E rq dn s = (if_done_set_response dn SUCCESS ''success'',
        delete_servlet_id m n (erase_servlet_info (servlet_info_key i)
          (s\<lparr>servlet_id_map := touch 0 (servlet_info_key i) (servlet_id_map s),
             rocks := (rocks s)(construct_servlet_key m := None)\<rparr>)))"
proof -
  let ?r = "msg empty_ServletInfo (rq_servlet_info rq)"
  let ?zk = "make_zone_key (sv_namespace_name ?r) (sv_zone ?r)"
  let ?z = "get_zone_id ?zk s"
  have key: "sv_namespace_name ?r @ CHR 0x01 # sv_zone ?r = ?zk"
    by (simp add: make_zone_key_def)
  show thesis
  proof (cases "get_namespace_id (sv_namespace_name ?r) s \<noteq> 0 \<and> ?z \<noteq> 0 \<and> servlet_id_map s ?zk \<noteq> None")
    case False
    then have "rejected dn s (drop_servlet E rq dn s)"
      by (auto simp: drop_servlet_def Let_def key servlet_info_key_simp)
    then show thesis by (rule that(1))
  next
    case True
    show thesis
    proof (rule remove_discovery_info_cases [OF assms, of "[construct_servlet_key ?z]" "rocks s"],
        goal_cases)
      case 1
      with True show thesis
        by (intro that(2) [of ?r]) (auto simp: drop_servlet_def Let_def key servlet_info_key_simp)
    next
      case 2
      with True show thesis
        by (intro that(3) [of ?z "at_or 0 (servlet_id_map s) (servlet_info_key ?r)" ?r])
          (auto simp: drop_servlet_def Let_def key servlet_info_key_simp fun_upd_def)
    qed
  qed
qed

text \<open>
  \<open>drop_servlet\<close> searches the servlets for the zone's key. No servlet is filed under one, so
  with clean names it always answers that the zone does not exist.
\<close>

lemma zone_key_absent:
  assumes "servlet_weak s" "clean_name n" "clean_name z"
  shows "servlet_id_map s (make_zone_key n z) = None"
  using assms zone_key_not_servlet_key [of n z]
  unfolding servlet_weak_def servlet_info_key_def by (metis not_Some_eq)

subsection \<open>Every handler keeps the invariants\<close>

lemma servlet_created_inv:
  assumes "servlet_inv E s" "servlet_id_map s (servlet_info_key i) = None"
    "sv_servlet_id i = max_servlet_id s + 1" "pb_serialize (servlet_pb E) i = Some v"
  shows "servlet_inv E (servlet_created i v s)"
proof -
  have ok: "servlet_registry_ok s" using assms(1) by (simp add: servlet_inv_def)
  have "servlet_registry_ok (servlet_created i v s)"
    using svr.ok_insert [of s "max_servlet_id s" i] assms(2,3) ok
    by (simp add: servlet_registry_ok_def servlet_created_def servlet_accessors zone_accessors)
  moreover have "servlet_persisted E (servlet_created i v s)"
    unfolding servlet_persisted_def
  proof (intro impI conjI)
    assume "max_servlet_id (servlet_created i v s) < 2 ^ 63"
    then have m: "max_servlet_id s + 1 < 2 ^ 63"
      using assms(3) by (simp add: servlet_created_def servlet_accessors zone_accessors)
    then have old: "mirrors servlet_prefix construct_servlet_key (servlet_pb E) (servlet_info_map s) (rocks s)"
      using assms(1) by (simp add: servlet_inv_def servlet_persisted_def)
    have "int64_range (sv_servlet_id i)"
      using m ok assms(3) by (simp add: servlet_registry_ok_def registry_ok_def int64_range_def)
    then have "mirrors servlet_prefix construct_servlet_key (servlet_pb E)
        ((servlet_info_map s)(sv_servlet_id i \<mapsto> i)) ((rocks s)(construct_servlet_key (sv_servlet_id i) \<mapsto> v))"
      using servlet_ids_in_range [OF ok] m by (intro mirrors_put [OF old assms(4)]) (auto simp: key_simps)
    then show "mirrors servlet_prefix construct_servlet_key (servlet_pb E)
        (servlet_info_map (servlet_created i v s)) (rocks (servlet_created i v s))"
      by (simp add: servlet_created_def servlet_accessors zone_accessors mirrors_other key_simps)
    show "rocks (servlet_created i v s) construct_max_servlet_id_key =
        (if max_servlet_id (servlet_created i v s) = 0 then None
         else Some (int64_bytes (max_servlet_id (servlet_created i v s))))"
      using ok assms(3) by (simp add: servlet_created_def servlet_accessors zone_accessors
          servlet_registry_ok_def registry_ok_def)
  qed
  ultimately show ?thesis by (simp add: servlet_inv_def)
qed

lemma create_servlet_inv:
  assumes "env_ok E" "servlet_inv E s"
  shows "servlet_inv E (snd (create_servlet E rq dn s))"
  by (rule create_servlet_cases [OF assms(1), of dn s rq])
    (use assms(2) in \<open>auto simp: servlet_created_inv simp del: prepared_servlet_keeps dest: rejected_state\<close>)

lemma delete_servlet_id_simps [simp]:
  "servlet_manager.more (delete_servlet_id m n s) = servlet_manager.more s"
  "servlet_id_map (delete_servlet_id m n s) = servlet_id_map s"
  "servlet_info_map (delete_servlet_id m n s) = servlet_info_map s"
  "max_servlet_id (delete_servlet_id m n s) = max_servlet_id s"
  "zone_id_map (delete_servlet_id m n s) = zone_id_map s"
  "zone_info_map (delete_servlet_id m n s) = zone_info_map s"
  "max_zone_id (delete_servlet_id m n s) = max_zone_id s"
  "zone_ids (delete_servlet_id m n s) = zone_ids s"
  "namespace_id_map (delete_servlet_id m n s) = namespace_id_map s"
  "namespace_info_map (delete_servlet_id m n s) = namespace_info_map s"
  "max_namespace_id (delete_servlet_id m n s) = max_namespace_id s"
  "rocks (delete_servlet_id m n s) = rocks s"
  by (simp_all add: delete_servlet_id_def split: option.splits)

lemma modified_servlet_id [simp]:
  "sv_servlet_id (modified_servlet r i) = sv_servlet_id i"
  "servlet_info_key (modified_servlet r i) = servlet_info_key i"
  by (simp_all add: modified_servlet_def servlet_info_key_def)

lemma servlet_weak_created:
  assumes "servlet_weak s" "sv_servlet_id i = max_servlet_id s + 1"
  shows "servlet_weak (servlet_created i v s)"
  using assms by (auto simp: servlet_weak_def servlet_created_def servlet_accessors zone_accessors
      servlet_info_key_def split: if_splits) force+

lemma servlet_weak_touch:
  assumes "servlet_weak s"
  shows "servlet_weak (s\<lparr>servlet_info_map := touch empty_ServletInfo m (servlet_info_map s)\<rparr>)"
  using assms by (auto simp: servlet_weak_def touch_def empty_ServletInfo_def split: option.splits if_splits)

lemma servlet_weak_set:
  assumes "servlet_weak s" "sv_servlet_id i \<le> max_servlet_id s"
  shows "servlet_weak (set_servlet_info i s)"
  using assms by (auto simp: servlet_weak_def servlet_accessors split: if_splits)

lemma servlet_weak_rocks: "servlet_weak (s\<lparr>rocks := db\<rparr>) = servlet_weak s"
  by (simp add: servlet_weak_def)

lemma servlet_weak_modified:
  assumes "servlet_weak s" "i = modified_servlet r (at_or empty_ServletInfo (servlet_info_map s) m)"
  shows "servlet_weak (servlet_modified m n i v s)"
proof -
  have "sv_servlet_id i \<le> max_servlet_id s"
    using assms by (auto simp: servlet_weak_def at_or_def empty_ServletInfo_def split: option.splits)
  then show ?thesis
    using servlet_weak_touch [OF assms(1), of m]
    by (auto simp: servlet_modified_def servlet_weak_rocks intro!: servlet_weak_set
        elim: servlet_weak_rocks [THEN iffD2])
qed

lemma create_servlet_weak:
  assumes "env_ok E" "servlet_weak s"
  shows "servlet_weak (snd (create_servlet E rq dn s))"
  by (rule create_servlet_cases [OF assms(1), of dn s rq])
    (use assms(2) in \<open>auto simp: servlet_weak_created simp del: prepared_servlet_keeps dest: rejected_state\<close>)

lemma modify_servlet_weak:
  assumes "env_ok E" "servlet_weak s"
  shows "servlet_weak (snd (modify_servlet E rq dn s))"
  by (rule modify_servlet_cases [OF assms(1), of dn s rq])
    (use assms(2) in \<open>auto simp: servlet_weak_modified servlet_weak_touch dest!: rejected_state\<close>)

lemma drop_servlet_weak:
  assumes "env_ok E" "servlet_weak s"
  shows "servlet_weak (snd (drop_servlet E rq dn s))"
  by (rule drop_servlet_cases [OF assms(1), of dn s rq])
    (use assms(2) in \<open>auto simp: servlet_weak_def servlet_accessors touch_def dest!: rejected_state
      split: option.splits if_splits\<close>)

lemma servlet_handlers_stored:
  assumes "env_ok E" "servlet_weak s" "servlet_stored E s"
  shows "servlet_stored E (snd (create_servlet E rq dn s))"
    "servlet_stored E (snd (drop_servlet E rq dn s))"
    "servlet_stored E (snd (modify_servlet E rq dn s))"
proof -
  have pb: "pb_ok (servlet_pb E)" using assms(1) by (simp add: env_ok_def)
  show "servlet_stored E (snd (create_servlet E rq dn s))"
    by (rule create_servlet_cases [OF assms(1), of dn s rq])
      (use assms(2,3) pb in \<open>auto simp: servlet_stored_def servlet_created_def servlet_accessors
        zone_accessors servlet_weak_def key_simps simp del: prepared_servlet_keeps dest: rejected_state pb_okD\<close>)
  show "servlet_stored E (snd (drop_servlet E rq dn s))"
    by (rule drop_servlet_cases [OF assms(1), of dn s rq])
      (use assms(3) in \<open>auto simp: servlet_stored_def servlet_accessors key_simps dest!: rejected_state\<close>)
  show "servlet_stored E (snd (modify_servlet E rq dn s))"
    by (rule modify_servlet_cases [OF assms(1), of dn s rq])
      (use assms(3) pb in \<open>auto simp: servlet_stored_def servlet_modified_def servlet_accessors key_simps
        dest: pb_okD dest!: rejected_state\<close>)
qed

subsection \<open>Frames\<close>

definition is_servlet_key :: "string \<Rightarrow> bool" where
  "is_servlet_key k \<longleftrightarrow> starts_with servlet_prefix k \<or> k = construct_max_servlet_id_key"

lemma servlet_key_is [simp]:
  "is_servlet_key (construct_servlet_key n)" "is_servlet_key construct_max_servlet_id_key"
  by (simp_all add: is_servlet_key_def key_simps)

definition servlet_frame :: "'a servlet_manager_scheme \<Rightarrow> 'a servlet_manager_scheme \<Rightarrow> bool" where
  "servlet_frame s s' \<longleftrightarrow>
     namespace_id_map s' = namespace_id_map s \<and> namespace_info_map s' = namespace_info_map s \<and>
     max_namespace_id s' = max_namespace_id s \<and> zone_ids s' = zone_ids s \<and>
     zone_id_map s' = zone_id_map s \<and> zone_info_map s' = zone_info_map s \<and>
     max_zone_id s' = max_zone_id s \<and> servlet_manager.more s' = servlet_manager.more s \<and>
     (\<forall>k. \<not> is_servlet_key k \<longrightarrow> rocks s' k = rocks s k)"

lemma servlet_handlers_frame:
  assumes "env_ok E"
  shows "servlet_frame s (snd (create_servlet E rq dn s))"
    "servlet_frame s (snd (drop_servlet E rq dn s))"
    "servlet_frame s (snd (modify_servlet E rq dn s))"
proof -
  show "servlet_frame s (snd (create_servlet E rq dn s))"
    by (rule create_servlet_cases [OF assms, of dn s rq])
      (auto simp: servlet_frame_def servlet_created_def servlet_accessors zone_accessors dest!: rejected_state)
  show "servlet_frame s (snd (drop_servlet E rq dn s))"
    by (rule drop_servlet_cases [OF assms, of dn s rq])
      (auto simp: servlet_frame_def servlet_accessors dest!: rejected_state)
  show "servlet_frame s (snd (modify_servlet E rq dn s))"
    by (rule modify_servlet_cases [OF assms, of dn s rq])
      (auto simp: servlet_frame_def servlet_modified_def servlet_accessors dest!: rejected_state)
qed

lemma other_keys_not_servlet [key_simps]:
  "is_ns_key k \<Longrightarrow> \<not> is_servlet_key k" "is_zone_key k \<Longrightarrow> \<not> is_servlet_key k"
  by (auto simp: is_ns_key_def is_zone_key_def is_servlet_key_def key_simps)
    (auto simp: prefix_defs tag_defs key_defs dest!: starts_withE)

lemma servlet_frame_keeps:
  assumes "servlet_frame s s'"
  shows "ns_same s s'" "zone_same s s'" "zone_links s \<Longrightarrow> zone_links s'"
    "clean_namespaces s \<Longrightarrow> clean_namespaces s'"
  using assms by (auto simp: servlet_frame_def key_simps zone_links_def clean_namespaces_def
      intro!: ns_sameI zone_sameI)

text \<open>And what the namespace and zone handlers leave alone of the servlet manager.\<close>

definition servlet_same :: "'a servlet_manager_scheme \<Rightarrow> 'a servlet_manager_scheme \<Rightarrow> bool" where
  "servlet_same s s' \<longleftrightarrow> servlet_id_map s' = servlet_id_map s \<and>
     servlet_info_map s' = servlet_info_map s \<and> max_servlet_id s' = max_servlet_id s \<and>
     (\<forall>k. is_servlet_key k \<longrightarrow> rocks s' k = rocks s k)"

lemma servlet_same_keeps:
  assumes "servlet_same s s'"
  shows "servlet_inv E s \<Longrightarrow> servlet_inv E s'" "servlet_weak s \<Longrightarrow> servlet_weak s'"
    "servlet_stored E s \<Longrightarrow> servlet_stored E s'"
  using assms by (auto simp: servlet_same_def servlet_inv_def servlet_registry_ok_def
      servlet_persisted_def servlet_weak_def servlet_stored_def is_servlet_key_def elim: mirrors_cong)

lemma servlet_more:
  assumes "zone_manager.more s' = zone_manager.more s"
  shows "servlet_id_map s' = servlet_id_map s" "servlet_info_map s' = servlet_info_map s"
    "max_servlet_id s' = max_servlet_id s" "servlet_manager.more s' = servlet_manager.more s"
  using assms by (cases s, cases s', simp)+

lemma servlet_key_other: "is_servlet_key k \<Longrightarrow> \<not> is_ns_key k" "is_servlet_key k \<Longrightarrow> \<not> is_zone_key k"
  using other_keys_not_servlet by blast+

lemma servlet_sameI:
  assumes "zone_manager.more s' = zone_manager.more s" "\<And>k. is_servlet_key k \<Longrightarrow> rocks s' k = rocks s k"
  shows "servlet_same s s'"
  using assms servlet_more [OF assms(1)] by (simp add: servlet_same_def)

lemma schema_handlers_servlet_same:
  assumes "env_ok E" "ns_registry_ok s" "zone_registry_ok s"
  shows "servlet_same s (snd (create_namespace E rq dn s))" "servlet_same s (snd (drop_namespace E rq dn s))"
    "servlet_same s (snd (modify_namespace E rq dn s))"
    "servlet_same s (snd (create_zone E rq dn s))" "servlet_same s (snd (drop_zone E rq dn s))"
    "servlet_same s (snd (modify_zone E rq dn s))"
  using assms servlet_key_other
  by (simp_all add: servlet_sameI zone_handlers_more zone_handlers_rocks namespace_handlers_rocks
      zone_more(5) [OF namespace_handlers_more(1)] zone_more(5) [OF namespace_handlers_more(2)]
      zone_more(5) [OF namespace_handlers_more(3)])

end
