(* ===== verification/SchemaChecks.thy ===== *)
theory SchemaChecks
  imports ServletManager
begin

text \<open>
  \<open>SchemaManager::check_and_get_for_privilege\<close> and \<open>check_and_get_for_instance\<close>
  (schema_manager.cc): resolve the names in a request to ids. They edit the message in place, so
  each returns the code's result and the message as the call leaves it, also on failure.
\<close>

fun check_privilege_zones :: "'a zone_manager_scheme \<Rightarrow> string \<Rightarrow> PrivilegeZone list \<Rightarrow> int \<times> PrivilegeZone list" where
  "check_privilege_zones s namespace_name [] = (0, [])"
| "check_privilege_zones s namespace_name (pri_zone # rest) =
     (let base_name = make_zone_key namespace_name (pz_zone pri_zone);
          zone_id = get_zone_id base_name s
      in if zone_id = 0 then (-1, pri_zone # rest)
         else let (ret, rest') = check_privilege_zones s namespace_name rest
              in (ret, pri_zone\<lparr>pz_zone_id := zone_id\<rparr> # rest'))"

fun check_privilege_servlets ::
  "'a servlet_manager_scheme \<Rightarrow> string \<Rightarrow> PrivilegeServlet list \<Rightarrow> int \<times> PrivilegeServlet list" where
  "check_privilege_servlets s namespace_name [] = (0, [])"
| "check_privilege_servlets s namespace_name (pri_servlet # rest) =
     (let base_name = make_zone_key namespace_name (ps_zone pri_servlet);
          servlet_name = make_servlet_key_of_zone base_name (ps_servlet_name pri_servlet);
          zone_id = get_zone_id base_name s
      in if zone_id = 0 then (-1, pri_servlet # rest)
         else let servlet_id = get_servlet_id servlet_name s
         in if servlet_id = 0 then (-1, pri_servlet # rest)
         else let (ret, rest') = check_privilege_servlets s namespace_name rest
              in (ret, pri_servlet\<lparr>ps_zone_id := zone_id, ps_servlet_id := servlet_id\<rparr> # rest'))"

definition check_and_get_for_privilege ::
  "UserPrivilege \<Rightarrow> 'a servlet_manager_scheme \<Rightarrow> int \<times> UserPrivilege" where
  "check_and_get_for_privilege user_privilege s =
     (let namespace_name = up_namespace_name user_privilege;
          namespace_id = get_namespace_id namespace_name s
      in if namespace_id = 0 then (-1, user_privilege)
         else let user_privilege = user_privilege\<lparr>up_namespace_id := namespace_id\<rparr>;
                  (ret, zones) = check_privilege_zones s namespace_name (up_privilege_zone user_privilege);
                  user_privilege = user_privilege\<lparr>up_privilege_zone := zones\<rparr>
         in if ret \<noteq> 0 then (-1, user_privilege)
         else let (ret, servlets) = check_privilege_servlets s namespace_name
                    (up_privilege_servlet user_privilege);
                  user_privilege = user_privilege\<lparr>up_privilege_servlet := servlets\<rparr>
         in if ret \<noteq> 0 then (-1, user_privilege) else (0, user_privilege))"

definition check_and_get_for_instance ::
  "ServletInstance \<Rightarrow> 'a servlet_manager_scheme \<Rightarrow> int \<times> ServletInstance" where
  "check_and_get_for_instance ins s =
     (let namespace_name = str_field (si_namespace_name ins);
          namespace_id = get_namespace_id namespace_name s
      in if namespace_id = 0 then (-1, ins)
         else let ins = ins\<lparr>si_namespace_id := namespace_id\<rparr>;
                  base_name = make_zone_key namespace_name (str_field (si_zone_name ins));
                  zone_id = get_zone_id base_name s
         in if zone_id = 0 then (-1, ins)
         else let ins = ins\<lparr>si_zone_id := zone_id\<rparr>;
                  servlet_name = make_servlet_key_of_zone base_name (str_field (si_servlet_name ins));
                  servlet_id = get_servlet_id servlet_name s
         in if servlet_id = 0 then (-1, ins)
         else (0, ins\<lparr>si_zone_id := zone_id, si_servlet_id := servlet_id\<rparr>))"

text \<open>A check that passes has found every name and recorded its id, and changed nothing else.\<close>

definition zone_resolved :: "'a zone_manager_scheme \<Rightarrow> string \<Rightarrow> PrivilegeZone \<Rightarrow> bool" where
  "zone_resolved s namespace_name p \<longleftrightarrow>
     zone_id_map s (make_zone_key namespace_name (pz_zone p)) = Some (pz_zone_id p) \<and> pz_zone_id p \<noteq> 0"

definition servlet_resolved :: "'a servlet_manager_scheme \<Rightarrow> string \<Rightarrow> PrivilegeServlet \<Rightarrow> bool" where
  "servlet_resolved s namespace_name p \<longleftrightarrow>
     zone_id_map s (make_zone_key namespace_name (ps_zone p)) = Some (ps_zone_id p) \<and>
     servlet_id_map s (make_servlet_key namespace_name (ps_zone p) (ps_servlet_name p))
       = Some (ps_servlet_id p) \<and> ps_zone_id p \<noteq> 0 \<and> ps_servlet_id p \<noteq> 0"

lemma get_servlet_id_neq0: "get_servlet_id k s \<noteq> 0 \<Longrightarrow> servlet_id_map s k = Some (get_servlet_id k s)"
  using svr.get_id_eq [of k s] by (auto split: option.splits)

lemma check_privilege_zones_ok:
  "check_privilege_zones s n ps = (0, ps') \<Longrightarrow>
     list_all (zone_resolved s n) ps' \<and>
     map (\<lambda>p. p\<lparr>pz_zone_id := 0\<rparr>) ps' = map (\<lambda>p. p\<lparr>pz_zone_id := 0\<rparr>) ps"
  by (induction s n ps arbitrary: ps' rule: check_privilege_zones.induct)
    (auto simp: Let_def zone_resolved_def get_zone_id_neq0 split: if_splits prod.splits)

lemma check_privilege_servlets_ok:
  "check_privilege_servlets s n ps = (0, ps') \<Longrightarrow>
     list_all (servlet_resolved s n) ps' \<and>
     map (\<lambda>p. p\<lparr>ps_zone_id := 0, ps_servlet_id := 0\<rparr>) ps' =
     map (\<lambda>p. p\<lparr>ps_zone_id := 0, ps_servlet_id := 0\<rparr>) ps"
  by (induction s n ps arbitrary: ps' rule: check_privilege_servlets.induct)
    (auto simp: Let_def servlet_resolved_def get_zone_id_neq0 get_servlet_id_neq0 make_servlet_key_eq
      split: if_splits prod.splits)

lemma check_privilege_zones_length [simp]: "length (snd (check_privilege_zones s n ps)) = length ps"
  by (induction s n ps rule: check_privilege_zones.induct) (auto simp: Let_def split: prod.splits)

lemma check_and_get_for_privilege_ok:
  assumes "check_and_get_for_privilege u s = (0, u')"
  shows "namespace_id_map s (up_namespace_name u) = Some (up_namespace_id u')"
    "list_all (zone_resolved s (up_namespace_name u)) (up_privilege_zone u')"
    "list_all (servlet_resolved s (up_namespace_name u)) (up_privilege_servlet u')"
    "u' = u\<lparr>up_namespace_id := up_namespace_id u', up_privilege_zone := up_privilege_zone u',
            up_privilege_servlet := up_privilege_servlet u'\<rparr>"
  using assms check_privilege_zones_ok [of s "up_namespace_name u" "up_privilege_zone u"]
    check_privilege_servlets_ok [of s "up_namespace_name u" "up_privilege_servlet u"]
  by (auto simp: check_and_get_for_privilege_def Let_def get_namespace_id_neq0 split: if_splits prod.splits)

lemma check_and_get_for_instance_ok:
  assumes "check_and_get_for_instance i s = (0, j)"
  shows "namespace_id_map s (str_field (si_namespace_name i)) = Some (si_namespace_id j)"
    "zone_id_map s (make_zone_key (str_field (si_namespace_name i)) (str_field (si_zone_name i))) = Some (si_zone_id j)"
    "servlet_id_map s (make_servlet_key (str_field (si_namespace_name i)) (str_field (si_zone_name i))
       (str_field (si_servlet_name i))) = Some (si_servlet_id j)"
    "j = i\<lparr>si_namespace_id := si_namespace_id j, si_zone_id := si_zone_id j, si_servlet_id := si_servlet_id j\<rparr>"
  using assms
  by (auto simp: check_and_get_for_instance_def Let_def get_namespace_id_neq0 get_zone_id_neq0
      get_servlet_id_neq0 make_servlet_key_eq split: if_splits)

lemma check_and_get_for_instance_fields:
  "check_and_get_for_instance i s = (r, j) \<Longrightarrow>
     si_address j = si_address i \<and> si_namespace_name j = si_namespace_name i \<and>
     si_zone_name j = si_zone_name i \<and> si_servlet_name j = si_servlet_name i"
  by (auto simp: check_and_get_for_instance_def Let_def split: if_splits)

end
