(* ===== verification/TimeCost.thy ===== *)
theory TimeCost
  imports EaPrelude "HOL-Library.Signed_Division"
begin

text \<open>
  \<open>EA::TimeCost\<close> (ea/base/time_cast.h): a stop watch over \<open>butil::gettimeofday_us\<close>. The clock
  is an argument of each call, since it is read anew by each; division of \<open>int64_t\<close> truncates.
\<close>

type_synonym TimeCost = int

definition TimeCost_new :: "int \<Rightarrow> TimeCost" where
  "TimeCost_new now = now"

definition TimeCost_reset :: "int \<Rightarrow> TimeCost \<Rightarrow> TimeCost" where
  "TimeCost_reset now start = now"

definition get_time :: "int \<Rightarrow> TimeCost \<Rightarrow> int" where
  "get_time now start = now - start"

definition get_time_s :: "int \<Rightarrow> TimeCost \<Rightarrow> int" where
  "get_time_s now start = (now - start) sdiv 1000000"

lemma get_time_s_less:
  assumes "0 < n"
  shows "get_time_s now start < n \<longleftrightarrow> now - start < n * 1000000"
proof (cases "0 \<le> now - start")
  case True
  then have "get_time_s now start = (now - start) div 1000000"
    by (auto simp: get_time_s_def signed_divide_int_def sgn_if)
  then show ?thesis
    using assms by linarith
next
  case False
  then have "get_time_s now start \<le> 0"
    by (auto simp: get_time_s_def signed_divide_int_def sgn_if pos_imp_zdiv_nonneg_iff)
  with assms False show ?thesis by (smt (verit) mult_pos_pos)
qed

end
