(* ===== verification/InstanceManager.thy ===== *)
theory InstanceManager
  imports SchemaChecks TimeCost
begin

text \<open>
  \<open>InstanceManager\<close> (instance_manager.h, instance_manager.cc): the service instances by address,
  the addresses dropped lately with the time of the drop, and three indexes from a namespace, a
  zone and a servlet to the addresses in it. The clock is read while the raft log is applied
  (\<open>now_us\<close> of the environment), as the code does.
\<close>

record instance_manager = servlet_manager +
  instance_info :: "string \<Rightarrow> ServletInstance option"
  removed_instance :: "string \<Rightarrow> TimeCost option"
  namespace_instance :: "string \<Rightarrow> string set option"
  zone_instance :: "string \<Rightarrow> string set option"
  servlet_instance :: "string \<Rightarrow> string set option"

subsection \<open>Memory\<close>

definition index_insert :: "string \<Rightarrow> string \<Rightarrow> (string \<Rightarrow> string set option) \<Rightarrow> (string \<Rightarrow> string set option)" where
  "index_insert k address m =
     (let m = (if m k = None then m(k \<mapsto> {}) else m) in m(k \<mapsto> insert address (at_or {} m k)))"

definition instance_ns_key :: "ServletInstance \<Rightarrow> string" where
  "instance_ns_key i = str_field (si_namespace_name i)"

definition instance_zone_key :: "ServletInstance \<Rightarrow> string" where
  "instance_zone_key i = make_zone_key (str_field (si_namespace_name i)) (str_field (si_zone_name i))"

definition instance_servlet_key :: "ServletInstance \<Rightarrow> string" where
  "instance_servlet_key i = make_servlet_key_of_zone (instance_zone_key i) (str_field (si_servlet_name i))"

definition set_instance_info :: "ServletInstance \<Rightarrow> 'a instance_manager_scheme \<Rightarrow> 'a instance_manager_scheme" where
  "set_instance_info i s =
     (let address = str_field (si_address i);
          zone_key = make_zone_key (str_field (si_namespace_name i)) (str_field (si_zone_name i));
          servlet_key = make_servlet_key_of_zone zone_key (str_field (si_servlet_name i))
      in s\<lparr>instance_info := (instance_info s)(address \<mapsto> i),
           removed_instance := (removed_instance s)(address := None),
           namespace_instance := index_insert (str_field (si_namespace_name i)) address (namespace_instance s),
           zone_instance := index_insert zone_key address (zone_instance s),
           servlet_instance := index_insert servlet_key address (servlet_instance s)\<rparr>)"

definition remove_instance_info :: "env \<Rightarrow> string \<Rightarrow> 'a instance_manager_scheme \<Rightarrow> 'a instance_manager_scheme" where
  "remove_instance_info E address s =
     (let info = at_or empty_ServletInstance (instance_info s) address;
          zone_key = make_zone_key (str_field (si_namespace_name info)) (str_field (si_zone_name info));
          servlet_key = make_servlet_key_of_zone zone_key (str_field (si_servlet_name info))
      in s\<lparr>removed_instance := (removed_instance s)(address \<mapsto> TimeCost_new (now_us E)),
           namespace_instance := (namespace_instance s)(str_field (si_namespace_name info) := None),
           zone_instance := (zone_instance s)(zone_key := None),
           servlet_instance := (servlet_instance s)(servlet_key := None),
           instance_info := (instance_info s)(address := None)\<rparr>)"

definition instance_clear :: "'a instance_manager_scheme \<Rightarrow> 'a instance_manager_scheme" where
  "instance_clear s = s\<lparr>instance_info := Map.empty, removed_instance := Map.empty,
     namespace_instance := Map.empty, zone_instance := Map.empty, servlet_instance := Map.empty\<rparr>"

lemmas instance_accessors = set_instance_info_def remove_instance_info_def instance_clear_def
  instance_ns_key_def instance_zone_key_def instance_servlet_key_def Let_def

subsection \<open>Handlers\<close>

definition add_instance ::
  "env \<Rightarrow> DiscoveryManagerRequest \<Rightarrow> closure \<Rightarrow> 'a instance_manager_scheme \<Rightarrow>
     closure \<times> 'a instance_manager_scheme" where
  "add_instance E request dn s =
     (let ins = msg empty_ServletInstance (rq_instance_info request);
          address = str_field (si_address ins);
          (ret, ins) = check_and_get_for_instance ins s
      in if ret < 0
         then (if_done_set_response dn INPUT_PARAM_ERROR ''request invalid'', s)
         else if instance_info s address \<noteq> None
         then (if_done_set_response dn INPUT_PARAM_ERROR ''instance already existed'', s)
         else if (case removed_instance s address of None \<Rightarrow> False
                  | Some start \<Rightarrow> get_time_s (now_us E) start < 3600)
         then (if_done_set_response dn INPUT_PARAM_ERROR ''removed in 1 hour'', s)
         else let ins = ins\<lparr>si_version := 1\<rparr>
              in case pb_serialize (instance_pb E) ins of
                   None \<Rightarrow> (if_done_set_response dn PARSE_TO_PB_FAIL ''serializeToArray fail'', s)
                 | Some instance_value \<Rightarrow>
                     let (ret, db) = put_discovery_infos E [construct_instance_key address]
                           [instance_value] (rocks s);
                         s = s\<lparr>rocks := db\<rparr>
                     in if ret < 0
                        then (if_done_set_response dn INTERNAL_ERROR ''write db fail'', s)
                        else (if_done_set_response dn SUCCESS ''success'', set_instance_info ins s))"

definition drop_instance ::
  "env \<Rightarrow> DiscoveryManagerRequest \<Rightarrow> closure \<Rightarrow> 'a instance_manager_scheme \<Rightarrow>
     closure \<times> 'a instance_manager_scheme" where
  "drop_instance E request dn s =
     (let ins = msg empty_ServletInstance (rq_instance_info request);
          address = str_field (si_address ins)
      in if instance_info s address = None
         then (if_done_set_response dn INPUT_PARAM_ERROR ''address not exist'', s)
         else let instance_key = construct_instance_key address;
                  (ret, db) = remove_discovery_info E [instance_key] (rocks s);
                  s = s\<lparr>rocks := db\<rparr>
              in if ret < 0
                 then (if_done_set_response dn INTERNAL_ERROR ''write db fail'', s)
                 else (if_done_set_response dn SUCCESS ''success'', remove_instance_info E address s))"

definition updated_instance :: "ServletInstance \<Rightarrow> ServletInstance \<Rightarrow> ServletInstance" where
  "updated_instance info tmp =
     tmp\<lparr>si_status := keep_or (si_status info) (si_status tmp),
         si_color := keep_or (si_color info) (si_color tmp),
         si_env := keep_or (si_env info) (si_env tmp),
         si_weight := keep_or (si_weight info) (si_weight tmp),
         si_version := si_version tmp + 1\<rparr>"

definition update_instance ::
  "env \<Rightarrow> DiscoveryManagerRequest \<Rightarrow> closure \<Rightarrow> 'a instance_manager_scheme \<Rightarrow>
     closure \<times> 'a instance_manager_scheme" where
  "update_instance E request dn s =
     (let ins = msg empty_ServletInstance (rq_instance_info request);
          address = str_field (si_address ins)
      in if instance_info s address = None
         then (if_done_set_response dn INPUT_PARAM_ERROR ''address not exist'', s)
         else let tmp = updated_instance ins (at_or empty_ServletInstance (instance_info s) address);
                  instance_key = construct_instance_key address
              in case pb_serialize (instance_pb E) tmp of
                   None \<Rightarrow> (if_done_set_response dn PARSE_TO_PB_FAIL ''serializeToArray fail'', s)
                 | Some instance_value \<Rightarrow>
                     let (ret, db) = put_discovery_info E instance_key instance_value (rocks s);
                         s = s\<lparr>rocks := db\<rparr>
                     in if ret < 0
                        then (if_done_set_response dn INTERNAL_ERROR ''write db fail'', s)
                        else (if_done_set_response dn SUCCESS ''success'', set_instance_info tmp s))"

definition load_instance_snapshot ::
  "env \<Rightarrow> string \<Rightarrow> 'a instance_manager_scheme \<Rightarrow> int \<times> 'a instance_manager_scheme" where
  "load_instance_snapshot E value s =
     (case pb_parse (instance_pb E) value of
        None \<Rightarrow> (-1, s) | Some i \<Rightarrow> (0, set_instance_info i s))"

text \<open>The loop over the iterator: it stops at the first value that does not parse.\<close>

fun load_instances :: "env \<Rightarrow> (string \<times> string) list \<Rightarrow> 'a instance_manager_scheme \<Rightarrow> int \<times> 'a instance_manager_scheme" where
  "load_instances E [] s = (0, s)"
| "load_instances E ((k, v) # es) s =
     (let (ret, s) = load_instance_snapshot E v s
      in if ret \<noteq> 0 then (-1, s) else load_instances E es s)"

definition instance_load_snapshot ::
  "env \<Rightarrow> (string \<times> string) list \<Rightarrow> 'a instance_manager_scheme \<Rightarrow> int \<times> 'a instance_manager_scheme" where
  "instance_load_snapshot E es s = load_instances E es (instance_clear s)"

subsection \<open>Invariants\<close>

text \<open>
  An instance is filed under its own address; an address is listed only in the index sets of its
  own namespace, zone and servlet; a dropped address has no info; and the store mirrors memory.
\<close>

definition index_sound ::
  "(string \<Rightarrow> ServletInstance option) \<Rightarrow> (ServletInstance \<Rightarrow> string) \<Rightarrow> (string \<Rightarrow> string set option) \<Rightarrow> bool" where
  "index_sound infos key_of idx \<longleftrightarrow>
     (\<forall>k. \<forall>a \<in> at_or {} idx k. \<exists>i. infos a = Some i \<and> key_of i = k)"

definition instance_prefix :: string where
  "instance_prefix = DISCOVERY_IDENTIFY"

definition instance_ok :: "'a instance_manager_scheme \<Rightarrow> bool" where
  "instance_ok s \<longleftrightarrow>
     (\<forall>a i. instance_info s a = Some i \<longrightarrow> str_field (si_address i) = a \<and> removed_instance s a = None) \<and>
     index_sound (instance_info s) instance_ns_key (namespace_instance s) \<and>
     index_sound (instance_info s) instance_zone_key (zone_instance s) \<and>
     index_sound (instance_info s) instance_servlet_key (servlet_instance s)"

definition instance_persisted :: "env \<Rightarrow> 'a instance_manager_scheme \<Rightarrow> bool" where
  "instance_persisted E s \<longleftrightarrow>
     mirrors instance_prefix construct_instance_key (instance_pb E) (instance_info s) (rocks s)"

definition instance_inv :: "env \<Rightarrow> 'a instance_manager_scheme \<Rightarrow> bool" where
  "instance_inv E s \<longleftrightarrow> instance_ok s \<and> instance_persisted E s"

lemma at_or_index_insert:
  "at_or {} (index_insert k a m) k' = (if k' = k then insert a (at_or {} m k) else at_or {} m k')"
  by (auto simp: index_insert_def at_or_def Let_def split: option.splits)

lemma index_sound_insert:
  assumes "index_sound infos key_of idx" "\<And>j. infos a = Some j \<Longrightarrow> key_of j = key_of i"
  shows "index_sound (infos(a \<mapsto> i)) key_of (index_insert (key_of i) a idx)"
  using assms unfolding index_sound_def
  by (auto simp: at_or_index_insert) metis+

lemma index_sound_remove:
  assumes "index_sound infos key_of idx" "infos a = Some i"
  shows "index_sound (infos(a := None)) key_of (idx(key_of i := None))"
  unfolding index_sound_def
proof (intro allI ballI)
  fix k b assume "b \<in> at_or {} (idx(key_of i := None)) k"
  then have k: "k \<noteq> key_of i" "b \<in> at_or {} idx k"
    by (auto simp: at_or_del split: if_splits)
  then obtain j where "infos b = Some j" "key_of j = k"
    using assms(1) unfolding index_sound_def by blast
  with k assms(2) show "\<exists>j. (infos(a := None)) b = Some j \<and> key_of j = k"
    by (intro exI [of _ j]) auto
qed

subsection \<open>What each handler can do\<close>

lemma construct_instance_key_prefix [key_simps]:
  "starts_with instance_prefix (construct_instance_key a)"
  by (simp add: instance_prefix_def construct_instance_key_def tag_defs)

lemma add_instance_cases:
  assumes "env_ok E"
  obtains "rejected dn s (add_instance E rq dn s)"
  | i j v where "check_and_get_for_instance (msg empty_ServletInstance (rq_instance_info rq)) s = (0, j)"
      "i = j\<lparr>si_version := 1\<rparr>" "instance_info s (str_field (si_address i)) = None"
      "pb_serialize (instance_pb E) i = Some v"
      "add_instance E rq dn s = (if_done_set_response dn SUCCESS ''success'',
         set_instance_info i (s\<lparr>rocks := (rocks s)(construct_instance_key (str_field (si_address i)) \<mapsto> v)\<rparr>))"
proof -
  let ?i = "msg empty_ServletInstance (rq_instance_info rq)"
  obtain r j where rj: "check_and_get_for_instance ?i s = (r, j)" by fastforce
  have r: "r = 0 \<or> r = -1"
    using rj by (auto simp: check_and_get_for_instance_def Let_def split: if_splits)
  have a: "si_address j = si_address ?i"
    using check_and_get_for_instance_fields [OF rj] by simp
  show thesis
  proof (cases "rejected dn s (add_instance E rq dn s)")
    case True
    then show thesis by (rule that(1))
  next
    case False
    then obtain v where *: "r = 0" "instance_info s (str_field (si_address ?i)) = None"
        "\<not> (case removed_instance s (str_field (si_address ?i)) of None \<Rightarrow> False
            | Some start \<Rightarrow> get_time_s (now_us E) start < 3600)"
        "pb_serialize (instance_pb E) (j\<lparr>si_version := 1\<rparr>) = Some v"
      using rj r by (cases "pb_serialize (instance_pb E) (j\<lparr>si_version := 1\<rparr>)")
        (auto simp: add_instance_def Let_def split: option.splits if_splits)
    show thesis
    proof (rule put_one_cases [OF assms, of "construct_instance_key (str_field (si_address ?i))" v "rocks s"],
        goal_cases)
      case 1
      with rj * have "rejected dn s (add_instance E rq dn s)"
        by (simp add: add_instance_def Let_def)
      with False show thesis by simp
    next
      case 2
      with rj * a show thesis
        by (intro that(2) [of j "j\<lparr>si_version := 1\<rparr>" v]) (simp_all add: add_instance_def Let_def)
    qed
  qed
qed

lemma drop_instance_cases:
  assumes "env_ok E"
  obtains "rejected dn s (drop_instance E rq dn s)"
  | a i where "a = str_field (si_address (msg empty_ServletInstance (rq_instance_info rq)))"
      "instance_info s a = Some i"
      "drop_instance E rq dn s = (if_done_set_response dn SUCCESS ''success'',
         remove_instance_info E a (s\<lparr>rocks := (rocks s)(construct_instance_key a := None)\<rparr>))"
proof -
  let ?a = "str_field (si_address (msg empty_ServletInstance (rq_instance_info rq)))"
  show thesis
  proof (cases "instance_info s ?a")
    case None
    then show thesis by (intro that(1)) (simp add: drop_instance_def Let_def)
  next
    case (Some i)
    show thesis
    proof (rule remove_discovery_info_cases [OF assms, of "[construct_instance_key ?a]" "rocks s"],
        goal_cases)
      case 1
      with Some show thesis by (intro that(1)) (auto simp: drop_instance_def Let_def)
    next
      case 2
      with Some show thesis
        by (intro that(2) [of ?a i]) (auto simp: drop_instance_def Let_def fun_upd_def)
    qed
  qed
qed

lemma update_instance_cases:
  assumes "env_ok E"
  obtains "rejected dn s (update_instance E rq dn s)"
  | r a i j v where "r = msg empty_ServletInstance (rq_instance_info rq)"
      "a = str_field (si_address r)" "instance_info s a = Some j"
      "i = updated_instance r j" "pb_serialize (instance_pb E) i = Some v"
      "update_instance E rq dn s = (if_done_set_response dn SUCCESS ''success'',
         set_instance_info i (s\<lparr>rocks := (rocks s)(construct_instance_key a \<mapsto> v)\<rparr>))"
proof -
  let ?r = "msg empty_ServletInstance (rq_instance_info rq)"
  show thesis
  proof (cases "instance_info s (str_field (si_address ?r))")
    case None
    then show thesis by (intro that(1)) (simp add: update_instance_def Let_def)
  next
    case j: (Some j)
    show thesis
    proof (cases "pb_serialize (instance_pb E) (updated_instance ?r j)")
      case None
      with j show thesis by (intro that(1)) (simp add: update_instance_def Let_def)
    next
      case v: (Some v)
      show thesis
      proof (rule put_discovery_info_cases [OF assms, of
            "construct_instance_key (str_field (si_address ?r))" v "rocks s"], goal_cases)
        case 1
        with j v show thesis by (intro that(1)) (simp add: update_instance_def Let_def)
      next
        case 2
        with j v show thesis
          by (intro that(2) [of ?r "str_field (si_address ?r)" j "updated_instance ?r j" v])
            (simp_all add: update_instance_def Let_def)
      qed
    qed
  qed
qed

subsection \<open>Every handler keeps the invariant\<close>

lemma updated_instance_keeps [simp]:
  "si_address (updated_instance r j) = si_address j"
  "instance_ns_key (updated_instance r j) = instance_ns_key j"
  "instance_zone_key (updated_instance r j) = instance_zone_key j"
  "instance_servlet_key (updated_instance r j) = instance_servlet_key j"
  by (simp_all add: updated_instance_def instance_ns_key_def instance_zone_key_def instance_servlet_key_def)

lemma set_instance_info_maps:
  "instance_info (set_instance_info i s) = (instance_info s)(str_field (si_address i) \<mapsto> i)"
  "removed_instance (set_instance_info i s) = (removed_instance s)(str_field (si_address i) := None)"
  "namespace_instance (set_instance_info i s)
     = index_insert (instance_ns_key i) (str_field (si_address i)) (namespace_instance s)"
  "zone_instance (set_instance_info i s)
     = index_insert (instance_zone_key i) (str_field (si_address i)) (zone_instance s)"
  "servlet_instance (set_instance_info i s)
     = index_insert (instance_servlet_key i) (str_field (si_address i)) (servlet_instance s)"
  "rocks (set_instance_info i s) = rocks s"
  by (simp_all add: instance_accessors)

lemma set_instance_info_ok:
  assumes "instance_ok s"
    and "\<And>j. instance_info s (str_field (si_address i)) = Some j \<Longrightarrow>
       instance_servlet_key j = instance_servlet_key i \<and> instance_zone_key j = instance_zone_key i \<and>
       instance_ns_key j = instance_ns_key i"
  shows "instance_ok (set_instance_info i (s\<lparr>rocks := db\<rparr>))"
  using assms unfolding instance_ok_def set_instance_info_maps
  by (auto intro!: index_sound_insert)

lemma remove_instance_info_ok:
  assumes "instance_ok s" "instance_info s a = Some i"
  shows "instance_ok (remove_instance_info E a (s\<lparr>rocks := db\<rparr>))"
  using assms index_sound_remove [of "instance_info s" instance_ns_key "namespace_instance s" a i]
    index_sound_remove [of "instance_info s" instance_zone_key "zone_instance s" a i]
    index_sound_remove [of "instance_info s" instance_servlet_key "servlet_instance s" a i]
  by (simp add: instance_ok_def remove_instance_info_def instance_ns_key_def instance_zone_key_def
      instance_servlet_key_def Let_def)

lemma instance_persisted_put:
  assumes "instance_persisted E s" "pb_serialize (instance_pb E) i = Some v" "a = str_field (si_address i)"
  shows "instance_persisted E (set_instance_info i (s\<lparr>rocks := (rocks s)(construct_instance_key a \<mapsto> v)\<rparr>))"
  using assms mirrors_put [of instance_prefix construct_instance_key "instance_pb E" "instance_info s" "rocks s" i v a]
  by (simp add: instance_persisted_def set_instance_info_maps key_simps)

lemma instance_persisted_remove:
  assumes "instance_persisted E s"
  shows "instance_persisted E (remove_instance_info E' a (s\<lparr>rocks := (rocks s)(construct_instance_key a := None)\<rparr>))"
  using assms mirrors_delete [of instance_prefix construct_instance_key "instance_pb E" "instance_info s" "rocks s" a]
  by (simp add: instance_persisted_def remove_instance_info_def key_simps Let_def)

lemma add_instance_inv:
  assumes "env_ok E" "instance_inv E s"
  shows "instance_inv E (snd (add_instance E rq dn s))"
  by (rule add_instance_cases [OF assms(1), of dn s rq])
    (use assms(2) in \<open>auto simp: instance_inv_def intro!: set_instance_info_ok instance_persisted_put
      dest: rejected_state\<close>)

lemma drop_instance_inv:
  assumes "env_ok E" "instance_inv E s"
  shows "instance_inv E (snd (drop_instance E rq dn s))"
  by (rule drop_instance_cases [OF assms(1), of dn s rq])
    (use assms(2) in \<open>auto simp: instance_inv_def intro!: remove_instance_info_ok
      instance_persisted_remove dest: rejected_state\<close>)

lemma update_instance_inv:
  assumes "env_ok E" "instance_inv E s"
  shows "instance_inv E (snd (update_instance E rq dn s))"
proof (rule update_instance_cases [OF assms(1), of dn s rq], goal_cases)
  case 1
  with assms(2) show ?case by (auto dest: rejected_state)
next
  case (2 r a i j v)
  with assms(2) have "str_field (si_address i) = a"
    by (auto simp: instance_inv_def instance_ok_def)
  with 2 assms(2) show ?case
    by (auto simp: instance_inv_def intro!: set_instance_info_ok instance_persisted_put)
qed

subsection \<open>What the instance handlers leave alone\<close>

definition schema_same :: "'a servlet_manager_scheme \<Rightarrow> 'a servlet_manager_scheme \<Rightarrow> bool" where
  "schema_same s s' \<longleftrightarrow>
     servlet_manager.truncate (s'\<lparr>rocks := Map.empty\<rparr>) = servlet_manager.truncate (s\<lparr>rocks := Map.empty\<rparr>) \<and>
     (\<forall>k. starts_with SCHEMA_IDENTIFY k \<longrightarrow> rocks s' k = rocks s k)"

lemma schema_same_refl [simp]: "schema_same s s"
  by (simp add: schema_same_def)

lemma schema_same_fields:
  assumes "schema_same s s'"
  shows "max_namespace_id s' = max_namespace_id s" "namespace_id_map s' = namespace_id_map s"
    "namespace_info_map s' = namespace_info_map s" "zone_ids s' = zone_ids s"
    "max_zone_id s' = max_zone_id s" "zone_id_map s' = zone_id_map s" "zone_info_map s' = zone_info_map s"
    "servlet_ids s' = servlet_ids s" "max_servlet_id s' = max_servlet_id s"
    "servlet_id_map s' = servlet_id_map s" "servlet_info_map s' = servlet_info_map s"
  using assms by (cases s, cases s', simp add: schema_same_def servlet_manager.defs)+

lemma managed_keys_schema:
  "is_ns_key k \<Longrightarrow> starts_with SCHEMA_IDENTIFY k" "is_zone_key k \<Longrightarrow> starts_with SCHEMA_IDENTIFY k"
  "is_servlet_key k \<Longrightarrow> starts_with SCHEMA_IDENTIFY k"
  by (auto simp: is_ns_key_def is_zone_key_def is_servlet_key_def prefix_defs key_defs tag_defs
      dest!: starts_withE)

lemma schema_same_keeps:
  assumes "schema_same s s'"
  shows "ns_same s s'" "zone_same s s'" "servlet_same s s'" "zone_links s \<Longrightarrow> zone_links s'"
    "clean_namespaces s \<Longrightarrow> clean_namespaces s'"
  using assms schema_same_fields [OF assms] managed_keys_schema
  by (auto simp: schema_same_def servlet_same_def zone_links_def clean_namespaces_def
      intro!: ns_sameI zone_sameI)

lemma schema_sameI:
  assumes "servlet_manager.truncate (s'\<lparr>rocks := Map.empty\<rparr>) = servlet_manager.truncate (s\<lparr>rocks := Map.empty\<rparr>)"
    "\<And>k. starts_with SCHEMA_IDENTIFY k \<Longrightarrow> rocks s' k = rocks s k"
  shows "schema_same s s'"
  using assms by (simp add: schema_same_def)

definition instance_frame :: "'a instance_manager_scheme \<Rightarrow> 'a instance_manager_scheme \<Rightarrow> bool" where
  "instance_frame s s' \<longleftrightarrow> schema_same s s' \<and> instance_manager.more s' = instance_manager.more s \<and>
     (\<forall>k. \<not> starts_with instance_prefix k \<longrightarrow> rocks s' k = rocks s k)"

lemma instance_frame_refl [simp]: "instance_frame s s"
  by (simp add: instance_frame_def)

lemma not_schema_instance_key [simp]:
  "starts_with SCHEMA_IDENTIFY k \<Longrightarrow> k \<noteq> construct_instance_key a"
  "\<not> starts_with instance_prefix k \<Longrightarrow> k \<noteq> construct_instance_key a"
  using construct_instance_key_prefix by (auto simp: construct_instance_key_def tag_defs)

lemma instance_frame_put:
  "instance_frame s (set_instance_info i (s\<lparr>rocks := (rocks s)(construct_instance_key a := x)\<rparr>))"
  by (auto simp: instance_frame_def instance_accessors servlet_manager.defs intro!: schema_sameI)

lemma instance_frame_remove:
  "instance_frame s (remove_instance_info E b (s\<lparr>rocks := (rocks s)(construct_instance_key a := x)\<rparr>))"
  by (auto simp: instance_frame_def instance_accessors servlet_manager.defs intro!: schema_sameI)

lemma instance_handlers_frame:
  assumes "env_ok E"
  shows "instance_frame s (snd (add_instance E rq dn s))" "instance_frame s (snd (drop_instance E rq dn s))"
    "instance_frame s (snd (update_instance E rq dn s))"
proof -
  show "instance_frame s (snd (add_instance E rq dn s))"
    by (rule add_instance_cases [OF assms, of dn s rq])
      (auto simp: instance_frame_put dest: rejected_state)
  show "instance_frame s (snd (drop_instance E rq dn s))"
    by (rule drop_instance_cases [OF assms, of dn s rq])
      (auto simp: instance_frame_remove dest: rejected_state)
  show "instance_frame s (snd (update_instance E rq dn s))"
    by (rule update_instance_cases [OF assms, of dn s rq])
      (auto simp: instance_frame_put dest: rejected_state)
qed

definition instance_same :: "'a instance_manager_scheme \<Rightarrow> 'a instance_manager_scheme \<Rightarrow> bool" where
  "instance_same s s' \<longleftrightarrow> instance_info s' = instance_info s \<and> removed_instance s' = removed_instance s \<and>
     namespace_instance s' = namespace_instance s \<and> zone_instance s' = zone_instance s \<and>
     servlet_instance s' = servlet_instance s \<and>
     (\<forall>k. starts_with instance_prefix k \<longrightarrow> rocks s' k = rocks s k)"

lemma instance_same_keeps: "instance_same s s' \<Longrightarrow> instance_inv E s \<Longrightarrow> instance_inv E s'"
  by (auto simp: instance_same_def instance_inv_def instance_ok_def instance_persisted_def elim: mirrors_cong)

lemma instance_more:
  assumes "servlet_manager.more s' = servlet_manager.more s"
  shows "instance_info s' = instance_info s" "removed_instance s' = removed_instance s"
    "namespace_instance s' = namespace_instance s" "zone_instance s' = zone_instance s"
    "servlet_instance s' = servlet_instance s" "instance_manager.more s' = instance_manager.more s"
  using assms by (cases s, cases s', simp)+

lemma instance_sameI:
  assumes "servlet_manager.more s' = servlet_manager.more s"
    "\<And>k. starts_with instance_prefix k \<Longrightarrow> rocks s' k = rocks s k"
  shows "instance_same s s'"
  using assms instance_more [OF assms(1)] by (simp add: instance_same_def)

lemma instance_key_other:
  "starts_with instance_prefix k \<Longrightarrow> \<not> is_ns_key k" "starts_with instance_prefix k \<Longrightarrow> \<not> is_zone_key k"
  "starts_with instance_prefix k \<Longrightarrow> \<not> is_servlet_key k"
  by (auto dest!: managed_keys_schema starts_withE simp: instance_prefix_def tag_defs)

lemma schema_handlers_instance_same:
  fixes s :: "'a instance_manager_scheme"
  assumes "env_ok E" "ns_registry_ok s" "zone_registry_ok s"
  shows "instance_same s (snd (create_namespace E rq dn s))" "instance_same s (snd (drop_namespace E rq dn s))"
    "instance_same s (snd (modify_namespace E rq dn s))"
    "instance_same s (snd (create_zone E rq dn s))" "instance_same s (snd (drop_zone E rq dn s))"
    "instance_same s (snd (modify_zone E rq dn s))"
    "instance_same s (snd (create_servlet E rq dn s))" "instance_same s (snd (drop_servlet E rq dn s))"
    "instance_same s (snd (modify_servlet E rq dn s))"
proof -
  show "instance_same s (snd (create_namespace E rq dn s))"
    by (rule instance_sameI [OF servlet_more(4) [OF zone_more(5) [OF namespace_handlers_more(1) [OF assms(1,2)]]]
          namespace_handlers_rocks(1) [OF assms(1,2) instance_key_other(1)]])
  show "instance_same s (snd (drop_namespace E rq dn s))"
    by (rule instance_sameI [OF servlet_more(4) [OF zone_more(5) [OF namespace_handlers_more(2) [OF assms(1,2)]]]
          namespace_handlers_rocks(2) [OF assms(1,2) instance_key_other(1)]])
  show "instance_same s (snd (modify_namespace E rq dn s))"
    by (rule instance_sameI [OF servlet_more(4) [OF zone_more(5) [OF namespace_handlers_more(3) [OF assms(1,2)]]]
          namespace_handlers_rocks(3) [OF assms(1,2) instance_key_other(1)]])
  show "instance_same s (snd (create_zone E rq dn s))"
    by (rule instance_sameI [OF servlet_more(4) [OF zone_handlers_more(1) [OF assms(1,3)]]
          zone_handlers_rocks(1) [OF assms(1,3) instance_key_other(2)]])
  show "instance_same s (snd (drop_zone E rq dn s))"
    by (rule instance_sameI [OF servlet_more(4) [OF zone_handlers_more(2) [OF assms(1,3)]]
          zone_handlers_rocks(2) [OF assms(1,3) instance_key_other(2)]])
  show "instance_same s (snd (modify_zone E rq dn s))"
    by (rule instance_sameI [OF servlet_more(4) [OF zone_handlers_more(3) [OF assms(1,3)]]
          zone_handlers_rocks(3) [OF assms(1,3) instance_key_other(2)]])
  have sv: "instance_same s s'" if "servlet_frame s s'" for s' :: "'a instance_manager_scheme"
    using that instance_key_other(3) by (auto simp: servlet_frame_def intro!: instance_sameI)
  show "instance_same s (snd (create_servlet E rq dn s))" "instance_same s (snd (drop_servlet E rq dn s))"
    "instance_same s (snd (modify_servlet E rq dn s))"
    by (rule sv [OF servlet_handlers_frame(1) [OF assms(1)]] sv [OF servlet_handlers_frame(2) [OF assms(1)]]
        sv [OF servlet_handlers_frame(3) [OF assms(1)]])+
qed

end
