(* ===== verification/PrivilegeManager.thy ===== *)
theory PrivilegeManager
  imports InstanceManager
begin

text \<open>
  \<open>PrivilegeManager\<close> (privilege_manager.h, privilege_manager.cc): the users with the zones,
  servlets and addresses each may use. A request names privileges; \<open>add_privilege\<close> merges them
  into the user's lists, \<open>drop_privilege\<close> takes them out or lowers them. The merge on zones and
  on servlets is the same algorithm over different records; the locale \<open>grants\<close> states what it
  promises and proves its consequences once.
\<close>

record privilege_manager = instance_manager +
  user_privilege :: "string \<Rightarrow> UserPrivilege option"

subsection \<open>Merging privileges\<close>

text \<open>The getter of an unset \<open>RW\<close> field returns the enum's default, \<open>rw_unset\<close>.\<close>

definition zone_rw :: "env \<Rightarrow> PrivilegeZone \<Rightarrow> int" where
  "zone_rw E p = msg (rw_unset E) (pz_zone_rw p)"

definition servlet_rw :: "env \<Rightarrow> PrivilegeServlet \<Rightarrow> int" where
  "servlet_rw E p = msg (rw_unset E) (ps_servlet_rw p)"

fun insert_zone_privilege :: "env \<Rightarrow> PrivilegeZone \<Rightarrow> PrivilegeZone list \<Rightarrow> PrivilegeZone list" where
  "insert_zone_privilege E p [] = [p]"
| "insert_zone_privilege E p (mem_zone # rest) =
     (if pz_zone_id mem_zone = pz_zone_id p
      then (if pz_force p then mem_zone\<lparr>pz_zone_rw := Some (zone_rw E p)\<rparr>
            else if zone_rw E p > zone_rw E mem_zone then mem_zone\<lparr>pz_zone_rw := Some (zone_rw E p)\<rparr>
            else mem_zone) # rest
      else mem_zone # insert_zone_privilege E p rest)"

fun insert_servlet_privilege :: "env \<Rightarrow> PrivilegeServlet \<Rightarrow> PrivilegeServlet list \<Rightarrow> PrivilegeServlet list" where
  "insert_servlet_privilege E p [] = [p]"
| "insert_servlet_privilege E p (mem # rest) =
     (if ps_zone_id mem = ps_zone_id p \<and> ps_servlet_id mem = ps_servlet_id p
      then (if ps_force p then mem\<lparr>ps_servlet_rw := Some (servlet_rw E p)\<rparr>
            else if servlet_rw E p > servlet_rw E mem then mem\<lparr>ps_servlet_rw := Some (servlet_rw E p)\<rparr>
            else mem) # rest
      else mem # insert_servlet_privilege E p rest)"

definition insert_ip :: "string \<Rightarrow> string list \<Rightarrow> string list" where
  "insert_ip ip ips = (if ip \<in> set ips then ips else ips @ [ip])"

fun delete_zone_privilege :: "env \<Rightarrow> PrivilegeZone \<Rightarrow> PrivilegeZone list \<Rightarrow> PrivilegeZone list" where
  "delete_zone_privilege E p [] = []"
| "delete_zone_privilege E p (copy_zone # rest) =
     (if pz_zone_id copy_zone = pz_zone_id p
      then (if pz_zone_rw p \<noteq> None \<and> zone_rw E p < zone_rw E copy_zone
            then p # delete_zone_privilege E p rest else delete_zone_privilege E p rest)
      else copy_zone # delete_zone_privilege E p rest)"

fun delete_servlet_privilege :: "env \<Rightarrow> PrivilegeServlet \<Rightarrow> PrivilegeServlet list \<Rightarrow> PrivilegeServlet list" where
  "delete_servlet_privilege E p [] = []"
| "delete_servlet_privilege E p (copy # rest) =
     (if ps_zone_id p = ps_zone_id copy \<and> ps_servlet_id p = ps_servlet_id copy
      then (if ps_servlet_rw p \<noteq> None \<and> servlet_rw E p < servlet_rw E copy
            then p # delete_servlet_privilege E p rest else delete_servlet_privilege E p rest)
      else copy # delete_servlet_privilege E p rest)"

definition delete_ip :: "string \<Rightarrow> string list \<Rightarrow> string list" where
  "delete_ip ip ips = filter (\<lambda>copy_ip. copy_ip \<noteq> ip) ips"

subsection \<open>What merging promises\<close>

definition granted :: "('p \<Rightarrow> 'k) \<Rightarrow> ('p \<Rightarrow> int) \<Rightarrow> 'p list \<Rightarrow> 'k \<Rightarrow> int option" where
  "granted target rw ps = map_of (map (\<lambda>p. (target p, rw p)) ps)"

locale grants =
  fixes target :: "'p \<Rightarrow> 'k" and rw :: "'p \<Rightarrow> int" and force :: "'p \<Rightarrow> bool" and has_rw :: "'p \<Rightarrow> bool"
    and ins :: "'p \<Rightarrow> 'p list \<Rightarrow> 'p list" and del :: "'p \<Rightarrow> 'p list \<Rightarrow> 'p list"
  assumes ins_Nil: "ins p [] = [p]"
    and ins_same: "target q = target p \<Longrightarrow>
      \<exists>q'. ins p (q # qs) = q' # qs \<and> target q' = target p \<and>
           rw q' = (if force p then rw p else max (rw p) (rw q))"
    and ins_other: "target q \<noteq> target p \<Longrightarrow> ins p (q # qs) = q # ins p qs"
    and del_Nil: "del p [] = []"
    and del_same: "target q = target p \<Longrightarrow>
      del p (q # qs) = (if has_rw p \<and> rw p < rw q then p # del p qs else del p qs)"
    and del_other: "target q \<noteq> target p \<Longrightarrow> del p (q # qs) = q # del p qs"
begin

lemma granted_insert:
  "granted target rw (ins p ps) = (granted target rw ps)
     (target p \<mapsto> (case granted target rw ps (target p) of None \<Rightarrow> rw p
                  | Some r \<Rightarrow> if force p then rw p else max (rw p) r))"
proof (induction ps)
  case Nil
  then show ?case by (simp add: ins_Nil granted_def)
next
  case (Cons q qs)
  show ?case
  proof (cases "target q = target p")
    case True
    from ins_same [OF True, of qs] show ?thesis
      using True by (auto simp: granted_def fun_eq_iff)
  next
    case False
    with Cons show ?thesis
      by (auto simp: granted_def ins_other fun_eq_iff)
  qed
qed

lemma targets_insert: "target ` set (ins p ps) = insert (target p) (target ` set ps)"
proof (induction ps)
  case (Cons q qs)
  then show ?case
    using ins_same [of q p qs] ins_other [of q p qs] by (cases "target q = target p") auto
qed (simp add: ins_Nil)

lemma distinct_insert: "distinct (map target ps) \<Longrightarrow> distinct (map target (ins p ps))"
proof (induction ps)
  case (Cons q qs)
  then show ?case
    using ins_same [of q p qs] ins_other [of q p qs] targets_insert [of p qs]
    by (cases "target q = target p") auto
qed (simp add: ins_Nil)

lemma delete_absent: "target p \<notin> target ` set ps \<Longrightarrow> del p ps = ps"
  by (induction ps) (auto simp: del_Nil del_other)

lemma granted_delete:
  assumes "distinct (map target ps)"
  shows "granted target rw (del p ps) = (granted target rw ps)
     (target p := (case granted target rw ps (target p) of None \<Rightarrow> None
                   | Some r \<Rightarrow> if has_rw p \<and> rw p < r then Some (rw p) else None))"
  using assms
proof (induction ps)
  case (Cons q qs)
  show ?case
  proof (cases "target q = target p")
    case True
    with Cons have "target p \<notin> target ` set qs" by auto
    moreover from this have "map_of (map (\<lambda>p. (target p, rw p)) qs) (target p) = None"
      by (auto simp: map_of_eq_None_iff)
    ultimately show ?thesis
      using True by (auto simp: granted_def del_same delete_absent fun_eq_iff)
  next
    case False
    with Cons show ?thesis by (auto simp: granted_def del_other fun_eq_iff)
  qed
qed (simp add: del_Nil granted_def fun_eq_iff)

lemma targets_delete: "target ` set (del p ps) \<subseteq> target ` set ps"
proof (induction ps)
  case (Cons q qs)
  then show ?case by (cases "target q = target p") (auto simp: del_same del_other)
qed (simp add: del_Nil)

lemma distinct_delete: "distinct (map target ps) \<Longrightarrow> distinct (map target (del p ps))"
proof (induction ps)
  case (Cons q qs)
  then show ?case
    using targets_delete [of p qs]
    by (cases "target q = target p") (auto simp: del_same del_other delete_absent)
qed (simp add: del_Nil)

lemma distinct_insert_all: "distinct (map target ps) \<Longrightarrow> distinct (map target (fold ins new ps))"
  by (induction new arbitrary: ps) (auto intro: distinct_insert)

lemma distinct_delete_all: "distinct (map target ps) \<Longrightarrow> distinct (map target (fold del old ps))"
  by (induction old arbitrary: ps) (auto intro: distinct_delete)

end

definition servlet_target :: "PrivilegeServlet \<Rightarrow> int \<times> int" where
  "servlet_target p = (ps_zone_id p, ps_servlet_id p)"

interpretation zg: grants pz_zone_id "zone_rw E" pz_force "\<lambda>p. pz_zone_rw p \<noteq> None"
    "insert_zone_privilege E" "delete_zone_privilege E" for E
  by unfold_locales (auto simp: zone_rw_def)

interpretation sg: grants servlet_target "servlet_rw E" ps_force "\<lambda>p. ps_servlet_rw p \<noteq> None"
    "insert_servlet_privilege E" "delete_servlet_privilege E" for E
  by unfold_locales (auto simp: servlet_rw_def servlet_target_def)

lemma set_insert_ip: "set (insert_ip ip ips) = insert ip (set ips)"
  by (auto simp: insert_ip_def)

lemma distinct_insert_ip: "distinct ips \<Longrightarrow> distinct (insert_ip ip ips)"
  by (simp add: insert_ip_def)

lemma distinct_delete_ip: "distinct ips \<Longrightarrow> distinct (delete_ip ip ips)"
  by (simp add: delete_ip_def)

lemma distinct_insert_ips: "distinct ips \<Longrightarrow> distinct (fold insert_ip new ips)"
  by (induction new arbitrary: ips) (auto intro: distinct_insert_ip)

lemma distinct_delete_ips: "distinct ips \<Longrightarrow> distinct (fold delete_ip old ips)"
  by (induction old arbitrary: ips) (auto intro: distinct_delete_ip)

subsection \<open>Handlers\<close>

definition create_user ::
  "env \<Rightarrow> DiscoveryManagerRequest \<Rightarrow> closure \<Rightarrow> 'a privilege_manager_scheme \<Rightarrow>
     closure \<times> 'a privilege_manager_scheme" where
  "create_user E request dn s =
     (let u = msg empty_UserPrivilege (rq_user_privilege request);
          username = up_username u
      in if user_privilege s username \<noteq> None
         then (if_done_set_response dn INPUT_PARAM_ERROR ''username has been repeated'', s)
         else let (ret, u) = check_and_get_for_privilege u s
         in if ret < 0
         then (if_done_set_response dn INPUT_PARAM_ERROR ''request invalid'', s)
         else let u = u\<lparr>up_version := 1\<rparr>
              in case pb_serialize (user_pb E) u of
                   None \<Rightarrow> (if_done_set_response dn PARSE_TO_PB_FAIL ''serializeToArray fail'', s)
                 | Some value \<Rightarrow>
                     let (ret, db) = put_discovery_info E (construct_privilege_key username) value (rocks s);
                         s = s\<lparr>rocks := db\<rparr>
                     in if ret < 0
                        then (if_done_set_response dn INTERNAL_ERROR ''write db fail'', s)
                        else (if_done_set_response dn SUCCESS ''success'',
                              s\<lparr>user_privilege := (user_privilege s)(username \<mapsto> u)\<rparr>))"

definition drop_user ::
  "env \<Rightarrow> DiscoveryManagerRequest \<Rightarrow> closure \<Rightarrow> 'a privilege_manager_scheme \<Rightarrow>
     closure \<times> 'a privilege_manager_scheme" where
  "drop_user E request dn s =
     (let username = up_username (msg empty_UserPrivilege (rq_user_privilege request))
      in if user_privilege s username = None
         then (if_done_set_response dn INPUT_PARAM_ERROR ''username not exist'', s)
         else let (ret, db) = remove_discovery_info E [construct_privilege_key username] (rocks s);
                  s = s\<lparr>rocks := db\<rparr>
              in if ret < 0
                 then (if_done_set_response dn INTERNAL_ERROR ''delete from db fail'', s)
                 else (if_done_set_response dn SUCCESS ''success'',
                       s\<lparr>user_privilege := (user_privilege s)(username := None)\<rparr>))"

text \<open>The three loops of \<open>add_privilege\<close> and the optional fields, on the copy of the user.\<close>

definition merged_privilege :: "env \<Rightarrow> UserPrivilege \<Rightarrow> UserPrivilege \<Rightarrow> UserPrivilege" where
  "merged_privilege E u tmp =
     tmp\<lparr>up_privilege_zone := fold (insert_zone_privilege E) (up_privilege_zone u) (up_privilege_zone tmp),
         up_privilege_servlet :=
           fold (insert_servlet_privilege E) (up_privilege_servlet u) (up_privilege_servlet tmp),
         up_ip := fold insert_ip (up_ip u) (up_ip tmp),
         up_need_auth_addr := keep_or (up_need_auth_addr u) (up_need_auth_addr tmp),
         up_resource_tag := keep_or (up_resource_tag u) (up_resource_tag tmp),
         up_version := up_version tmp + 1\<rparr>"

definition reduced_privilege :: "env \<Rightarrow> UserPrivilege \<Rightarrow> UserPrivilege \<Rightarrow> UserPrivilege" where
  "reduced_privilege E u tmp =
     tmp\<lparr>up_privilege_zone := fold (delete_zone_privilege E) (up_privilege_zone u) (up_privilege_zone tmp),
         up_privilege_servlet :=
           fold (delete_servlet_privilege E) (up_privilege_servlet u) (up_privilege_servlet tmp),
         up_ip := fold delete_ip (up_ip u) (up_ip tmp),
         up_need_auth_addr := keep_or (up_need_auth_addr u) (up_need_auth_addr tmp),
         up_resource_tag := (if up_resource_tag u \<noteq> None \<and> up_resource_tag tmp \<noteq> None \<and>
             str_field (up_resource_tag u) = str_field (up_resource_tag tmp)
           then None else up_resource_tag tmp),
         up_version := up_version tmp + 1\<rparr>"

definition change_privilege ::
  "(UserPrivilege \<Rightarrow> UserPrivilege \<Rightarrow> UserPrivilege) \<Rightarrow> env \<Rightarrow> DiscoveryManagerRequest \<Rightarrow> closure \<Rightarrow>
     'a privilege_manager_scheme \<Rightarrow> closure \<times> 'a privilege_manager_scheme" where
  "change_privilege change E request dn s =
     (let u = msg empty_UserPrivilege (rq_user_privilege request);
          username = up_username u
      in if user_privilege s username = None
         then (if_done_set_response dn INPUT_PARAM_ERROR ''username not exist'', s)
         else let (ret, u) = check_and_get_for_privilege u s
         in if ret < 0
         then (if_done_set_response dn INPUT_PARAM_ERROR ''request invalid'', s)
         else let tmp_mem_privilege = change u (at_or empty_UserPrivilege (user_privilege s) username)
              in case pb_serialize (user_pb E) tmp_mem_privilege of
                   None \<Rightarrow> (if_done_set_response dn PARSE_TO_PB_FAIL ''serializeToArray fail'', s)
                 | Some value \<Rightarrow>
                     let (ret, db) = put_discovery_info E (construct_privilege_key username) value (rocks s);
                         s = s\<lparr>rocks := db\<rparr>
                     in if ret < 0
                        then (if_done_set_response dn INTERNAL_ERROR ''write db fail'', s)
                        else (if_done_set_response dn SUCCESS ''success'',
                              s\<lparr>user_privilege := (user_privilege s)(username \<mapsto> tmp_mem_privilege)\<rparr>))"

definition add_privilege ::
  "env \<Rightarrow> DiscoveryManagerRequest \<Rightarrow> closure \<Rightarrow> 'a privilege_manager_scheme \<Rightarrow>
     closure \<times> 'a privilege_manager_scheme" where
  "add_privilege E = change_privilege (merged_privilege E) E"

definition drop_privilege ::
  "env \<Rightarrow> DiscoveryManagerRequest \<Rightarrow> closure \<Rightarrow> 'a privilege_manager_scheme \<Rightarrow>
     closure \<times> 'a privilege_manager_scheme" where
  "drop_privilege E = change_privilege (reduced_privilege E) E"

fun load_users :: "env \<Rightarrow> (string \<times> string) list \<Rightarrow> 'a privilege_manager_scheme \<Rightarrow> int \<times> 'a privilege_manager_scheme" where
  "load_users E [] s = (0, s)"
| "load_users E ((key, value) # es) s =
     (let username = drop (length PRIVILEGE_IDENTIFY) key
      in case pb_parse (user_pb E) value of
           None \<Rightarrow> (-1, s)
         | Some u \<Rightarrow> load_users E es (s\<lparr>user_privilege := (user_privilege s)(username \<mapsto> u)\<rparr>))"

definition privilege_load_snapshot ::
  "env \<Rightarrow> (string \<times> string) list \<Rightarrow> 'a privilege_manager_scheme \<Rightarrow> int \<times> 'a privilege_manager_scheme" where
  "privilege_load_snapshot E es s = load_users E es (s\<lparr>user_privilege := Map.empty\<rparr>)"

subsection \<open>What each handler can do\<close>

definition user_set :: "string \<Rightarrow> UserPrivilege option \<Rightarrow> string option \<Rightarrow> 'a privilege_manager_scheme \<Rightarrow> 'a privilege_manager_scheme" where
  "user_set k u v s = s\<lparr>rocks := (rocks s)(construct_privilege_key k := v),
     user_privilege := (user_privilege s)(k := u)\<rparr>"

lemma check_and_get_for_privilege_ret:
  "check_and_get_for_privilege u s = (r, u') \<Longrightarrow> r = 0 \<or> r = -1"
  by (auto simp: check_and_get_for_privilege_def Let_def split: if_splits prod.splits)

lemma create_user_cases:
  assumes "env_ok E"
  obtains "rejected dn s (create_user E rq dn s)"
  | u v where "check_and_get_for_privilege (msg empty_UserPrivilege (rq_user_privilege rq)) s = (0, u)"
      "user_privilege s (up_username u) = None" "pb_serialize (user_pb E) (u\<lparr>up_version := 1\<rparr>) = Some v"
      "create_user E rq dn s = (if_done_set_response dn SUCCESS ''success'',
         user_set (up_username u) (Some (u\<lparr>up_version := 1\<rparr>)) (Some v) s)"
proof -
  let ?u = "msg empty_UserPrivilege (rq_user_privilege rq)"
  obtain r u where ru: "check_and_get_for_privilege ?u s = (r, u)" by fastforce
  show thesis
  proof (cases "user_privilege s (up_username ?u) = None \<and> r = 0 \<and>
      pb_serialize (user_pb E) (u\<lparr>up_version := 1\<rparr>) \<noteq> None")
    case False
    then have "rejected dn s (create_user E rq dn s)"
      using ru check_and_get_for_privilege_ret [OF ru] by (auto simp: create_user_def Let_def)
    then show thesis by (rule that(1))
  next
    case True
    then have name: "up_username u = up_username ?u"
      using check_and_get_for_privilege_ok(4) [of ?u s u] ru by (metis (no_types) UserPrivilege.select_convs(1)
          UserPrivilege.surjective UserPrivilege.update_convs(4,6,7))
    obtain v where v: "pb_serialize (user_pb E) (u\<lparr>up_version := 1\<rparr>) = Some v"
      using True by auto
    show thesis
    proof (rule put_discovery_info_cases [OF assms, of "construct_privilege_key (up_username ?u)" v "rocks s"],
        goal_cases)
      case 1
      with True ru v have "rejected dn s (create_user E rq dn s)"
        by (simp add: create_user_def Let_def)
      then show thesis by (rule that(1))
    next
      case 2
      with True ru v name show thesis
        by (intro that(2) [of u v]) (simp_all add: create_user_def Let_def user_set_def)
    qed
  qed
qed

lemma drop_user_cases:
  assumes "env_ok E"
  obtains "rejected dn s (drop_user E rq dn s)"
  | k u where "k = up_username (msg empty_UserPrivilege (rq_user_privilege rq))" "user_privilege s k = Some u"
      "drop_user E rq dn s = (if_done_set_response dn SUCCESS ''success'', user_set k None None s)"
proof -
  let ?k = "up_username (msg empty_UserPrivilege (rq_user_privilege rq))"
  show thesis
  proof (cases "user_privilege s ?k")
    case None
    then show thesis by (intro that(1)) (simp add: drop_user_def Let_def)
  next
    case (Some u)
    show thesis
    proof (rule remove_discovery_info_cases [OF assms, of "[construct_privilege_key ?k]" "rocks s"],
        goal_cases)
      case 1
      with Some show thesis by (intro that(1)) (auto simp: drop_user_def Let_def)
    next
      case 2
      with Some show thesis
        by (intro that(2) [of ?k u]) (auto simp: drop_user_def Let_def user_set_def fun_upd_def)
    qed
  qed
qed

lemma change_privilege_cases:
  assumes "env_ok E"
  obtains "rejected dn s (change_privilege change E rq dn s)"
  | r u m v where "r = msg empty_UserPrivilege (rq_user_privilege rq)"
      "check_and_get_for_privilege r s = (0, u)"
      "user_privilege s (up_username r) = Some m" "pb_serialize (user_pb E) (change u m) = Some v"
      "change_privilege change E rq dn s = (if_done_set_response dn SUCCESS ''success'',
         user_set (up_username r) (Some (change u m)) (Some v) s)"
proof -
  let ?u = "msg empty_UserPrivilege (rq_user_privilege rq)"
  obtain r u where ru: "check_and_get_for_privilege ?u s = (r, u)" by fastforce
  show thesis
  proof (cases "user_privilege s (up_username ?u)")
    case None
    then show thesis by (intro that(1)) (simp add: change_privilege_def Let_def)
  next
    case m: (Some m)
    show thesis
    proof (cases "r = 0 \<and> pb_serialize (user_pb E) (change u m) \<noteq> None")
      case False
      then have "rejected dn s (change_privilege change E rq dn s)"
        using ru m check_and_get_for_privilege_ret [OF ru] by (auto simp: change_privilege_def Let_def)
      then show thesis by (rule that(1))
    next
      case True
      then obtain v where v: "pb_serialize (user_pb E) (change u m) = Some v" by auto
      show thesis
      proof (rule put_discovery_info_cases [OF assms, of "construct_privilege_key (up_username ?u)" v "rocks s"],
          goal_cases)
        case 1
        with True ru v m have "rejected dn s (change_privilege change E rq dn s)"
          by (simp add: change_privilege_def Let_def)
        then show thesis by (rule that(1))
      next
        case 2
        with True ru v m show thesis
          by (intro that(2) [of ?u u m v]) (simp_all add: change_privilege_def Let_def user_set_def)
      qed
    qed
  qed
qed

subsection \<open>Invariant\<close>

text \<open>
  A user is filed under the own name and mirrored in the store. The merges keep at most one entry
  per zone, servlet and address; \<open>create_user\<close> stores the lists of the request as they come.
\<close>

definition privilege_prefix :: string where
  "privilege_prefix = PRIVILEGE_IDENTIFY"

definition user_inv :: "env \<Rightarrow> 'a privilege_manager_scheme \<Rightarrow> bool" where
  "user_inv E s \<longleftrightarrow>
     (\<forall>k u. user_privilege s k = Some u \<longrightarrow> up_username u = k) \<and>
     mirrors privilege_prefix construct_privilege_key (user_pb E) (user_privilege s) (rocks s)"

definition unique_grants :: "UserPrivilege \<Rightarrow> bool" where
  "unique_grants u \<longleftrightarrow> distinct (map pz_zone_id (up_privilege_zone u)) \<and>
     distinct (map servlet_target (up_privilege_servlet u)) \<and> distinct (up_ip u)"

lemma merged_unique: "unique_grants m \<Longrightarrow> unique_grants (merged_privilege E u m)"
  by (simp add: unique_grants_def merged_privilege_def zg.distinct_insert_all sg.distinct_insert_all
      distinct_insert_ips)

lemma reduced_unique: "unique_grants m \<Longrightarrow> unique_grants (reduced_privilege E u m)"
  by (simp add: unique_grants_def reduced_privilege_def zg.distinct_delete_all sg.distinct_delete_all
      distinct_delete_ips)

lemma changed_username [simp]:
  "up_username (merged_privilege E u m) = up_username m"
  "up_username (reduced_privilege E u m) = up_username m"
  by (simp_all add: merged_privilege_def reduced_privilege_def)

lemma construct_privilege_key_prefix [key_simps]:
  "starts_with privilege_prefix (construct_privilege_key k)"
  by (simp add: privilege_prefix_def construct_privilege_key_def)

lemma user_set_inv:
  assumes "user_inv E s"
    and "case u of None \<Rightarrow> v = None | Some i \<Rightarrow> up_username i = k \<and> pb_serialize (user_pb E) i = v \<and> v \<noteq> None"
  shows "user_inv E (user_set k u v s)"
proof (cases u)
  case None
  with assms mirrors_delete [of privilege_prefix construct_privilege_key "user_pb E" "user_privilege s" "rocks s" k]
  show ?thesis by (auto simp: user_inv_def user_set_def key_simps split: if_splits)
next
  case (Some i)
  with assms(2) obtain w where "pb_serialize (user_pb E) i = Some w" "v = Some w" by auto
  with Some assms mirrors_put [of privilege_prefix construct_privilege_key "user_pb E" "user_privilege s" "rocks s" i w k]
  show ?thesis by (auto simp: user_inv_def user_set_def key_simps split: if_splits)
qed

lemma checked_username: "check_and_get_for_privilege r s = (n, u) \<Longrightarrow> up_username u = up_username r"
  by (auto simp: check_and_get_for_privilege_def Let_def split: if_splits prod.splits)

lemma create_user_inv:
  assumes "env_ok E" "user_inv E s"
  shows "user_inv E (snd (create_user E rq dn s))"
  by (rule create_user_cases [OF assms(1), of dn s rq])
    (use assms(2) in \<open>auto intro!: user_set_inv dest: rejected_state\<close>)

lemma drop_user_inv:
  assumes "env_ok E" "user_inv E s"
  shows "user_inv E (snd (drop_user E rq dn s))"
  by (rule drop_user_cases [OF assms(1), of dn s rq])
    (use assms(2) in \<open>auto intro!: user_set_inv dest: rejected_state\<close>)

lemma change_privilege_inv:
  assumes "env_ok E" "user_inv E s" "\<And>u m. up_username (change u m) = up_username m"
  shows "user_inv E (snd (change_privilege change E rq dn s))"
proof (rule change_privilege_cases [OF assms(1), of dn s change rq], goal_cases)
  case 1
  with assms(2) show ?case by (auto dest: rejected_state)
next
  case (2 r u m v)
  with assms(2) have "up_username m = up_username r" by (auto simp: user_inv_def)
  with 2 assms(2,3) show ?case by (auto intro!: user_set_inv)
qed

lemma add_privilege_inv: "env_ok E \<Longrightarrow> user_inv E s \<Longrightarrow> user_inv E (snd (add_privilege E rq dn s))"
  by (simp add: add_privilege_def change_privilege_inv)

lemma drop_privilege_inv: "env_ok E \<Longrightarrow> user_inv E s \<Longrightarrow> user_inv E (snd (drop_privilege E rq dn s))"
  by (simp add: drop_privilege_def change_privilege_inv)

subsection \<open>What the user handlers leave alone\<close>

definition user_frame :: "'a privilege_manager_scheme \<Rightarrow> 'a privilege_manager_scheme \<Rightarrow> bool" where
  "user_frame s s' \<longleftrightarrow> schema_same s s' \<and> instance_same s s' \<and>
     privilege_manager.more s' = privilege_manager.more s \<and>
     (\<forall>k. \<not> starts_with privilege_prefix k \<longrightarrow> rocks s' k = rocks s k)"

lemma instance_same_refl [simp]: "instance_same s s"
  by (simp add: instance_same_def)

lemma user_frame_refl [simp]: "user_frame s s"
  by (simp add: user_frame_def)

lemma privilege_key_other [simp]:
  "starts_with SCHEMA_IDENTIFY k \<Longrightarrow> k \<noteq> construct_privilege_key u"
  "starts_with instance_prefix k \<Longrightarrow> k \<noteq> construct_privilege_key u"
  "\<not> starts_with privilege_prefix k \<Longrightarrow> k \<noteq> construct_privilege_key u"
  using construct_privilege_key_prefix
  by (auto simp: construct_privilege_key_def instance_prefix_def tag_defs)

lemma user_set_frame: "user_frame s (user_set k u v s)"
  by (auto simp: user_frame_def user_set_def instance_same_def servlet_manager.defs intro!: schema_sameI)

lemma user_handlers_frame:
  assumes "env_ok E"
  shows "user_frame s (snd (create_user E rq dn s))" "user_frame s (snd (drop_user E rq dn s))"
    "user_frame s (snd (add_privilege E rq dn s))" "user_frame s (snd (drop_privilege E rq dn s))"
proof -
  show "user_frame s (snd (create_user E rq dn s))"
    by (rule create_user_cases [OF assms, of dn s rq]) (auto simp: user_set_frame dest: rejected_state)
  show "user_frame s (snd (drop_user E rq dn s))"
    by (rule drop_user_cases [OF assms, of dn s rq]) (auto simp: user_set_frame dest: rejected_state)
  show "user_frame s (snd (add_privilege E rq dn s))" unfolding add_privilege_def
    by (rule change_privilege_cases [OF assms, of dn s "merged_privilege E" rq])
      (auto simp: user_set_frame dest: rejected_state)
  show "user_frame s (snd (drop_privilege E rq dn s))" unfolding drop_privilege_def
    by (rule change_privilege_cases [OF assms, of dn s "reduced_privilege E" rq])
      (auto simp: user_set_frame dest: rejected_state)
qed

definition user_same :: "'a privilege_manager_scheme \<Rightarrow> 'a privilege_manager_scheme \<Rightarrow> bool" where
  "user_same s s' \<longleftrightarrow> user_privilege s' = user_privilege s \<and>
     (\<forall>k. starts_with privilege_prefix k \<longrightarrow> rocks s' k = rocks s k)"

lemma user_same_keeps: "user_same s s' \<Longrightarrow> user_inv E s \<Longrightarrow> user_inv E s'"
  by (auto simp: user_same_def user_inv_def elim: mirrors_cong)

lemma user_more:
  assumes "instance_manager.more s' = instance_manager.more s"
  shows "user_privilege s' = user_privilege s" "privilege_manager.more s' = privilege_manager.more s"
  using assms by (cases s, cases s', simp)+

lemma user_sameI:
  assumes "instance_manager.more s' = instance_manager.more s"
    "\<And>k. starts_with privilege_prefix k \<Longrightarrow> rocks s' k = rocks s k"
  shows "user_same s s'"
  using assms user_more [OF assms(1)] by (simp add: user_same_def)

lemma privilege_keys_other:
  "starts_with privilege_prefix k \<Longrightarrow> \<not> is_ns_key k" "starts_with privilege_prefix k \<Longrightarrow> \<not> is_zone_key k"
  "starts_with privilege_prefix k \<Longrightarrow> \<not> is_servlet_key k"
  "starts_with privilege_prefix k \<Longrightarrow> \<not> starts_with instance_prefix k"
  by (auto dest!: managed_keys_schema starts_withE simp: instance_prefix_def privilege_prefix_def tag_defs)

end
