(* ===== verification/ConfigManager.thy ===== *)
theory ConfigManager
  imports PrivilegeManager
begin

text \<open>
  \<open>ConfigManager\<close> (config_manager.h, config_manager.cc): the configurations by name, each with
  its versions in a \<open>std::map\<close>. A name's versions only grow: a create must be above the latest.
  The handlers are translated as written, with what follows from it: a refused create can leave a
  name with no version behind, and removing a version that does not exist answers success.
\<close>

record config_manager = privilege_manager +
  configs :: "string \<Rightarrow> (ModuleVersion \<times> ConfigInfo) list option"

subsection \<open>Handlers\<close>

definition kDefaultVersion :: ModuleVersion where
  "kDefaultVersion = ModuleVersion 0 0 1"

definition request_version :: "ConfigInfo \<Rightarrow> ModuleVersion" where
  "request_version c =
     (case c_version c of None \<Rightarrow> kDefaultVersion | Some v \<Rightarrow> to_module_version v)"

text \<open>\<open>if (_configs.find(name) == _configs.end()) _configs[name] = std::map<...>();\<close>\<close>

definition config_opened :: "string \<Rightarrow> 'a config_manager_scheme \<Rightarrow> 'a config_manager_scheme" where
  "config_opened name s = (if configs s name = None then s\<lparr>configs := (configs s)(name \<mapsto> [])\<rparr> else s)"

definition create_config ::
  "env \<Rightarrow> DiscoveryManagerRequest \<Rightarrow> closure \<Rightarrow> 'a config_manager_scheme \<Rightarrow>
     closure \<times> 'a config_manager_scheme" where
  "create_config E request dn s =
     (let create_request = msg empty_ConfigInfo (rq_config_info request);
          name = str_field (c_name create_request);
          version = request_version create_request;
          s = config_opened name s;
          it = at_or [] (configs s) name
      in if map_of it version \<noteq> None
         then (if_done_set_response dn INPUT_PARAM_ERROR ''config already exist'', s)
         else if it \<noteq> [] \<and> fst (last it) \<ge> version
         then (if_done_set_response dn INPUT_PARAM_ERROR
                 ''Version numbers must increase monotonically'', s)
         else let rocks_key = make_config_key E name version
              in case pb_serialize (config_pb E) create_request of
                   None \<Rightarrow> (if_done_set_response dn PARSE_TO_PB_FAIL ''serializeToArray fail'', s)
                 | Some rocks_value \<Rightarrow>
                     let (ret, db) = put_discovery_info E rocks_key rocks_value (rocks s);
                         s = s\<lparr>rocks := db\<rparr>
                     in if ret < 0
                        then (if_done_set_response dn INTERNAL_ERROR ''write db fail'', s)
                        else (if_done_set_response dn SUCCESS ''success'',
                              s\<lparr>configs := (configs s)(name \<mapsto> omap_put version create_request it)\<rparr>))"

definition remove_config_all ::
  "env \<Rightarrow> DiscoveryManagerRequest \<Rightarrow> closure \<Rightarrow> 'a config_manager_scheme \<Rightarrow>
     closure \<times> 'a config_manager_scheme" where
  "remove_config_all E request dn s =
     (let remove_request = msg empty_ConfigInfo (rq_config_info request);
          name = str_field (c_name remove_request)
      in case configs s name of
           None \<Rightarrow> (if_done_set_response dn PARSE_TO_PB_FAIL ''config not exist'', s)
         | Some it \<Rightarrow>
             let del_keys = map (\<lambda>vit. make_config_key E name (fst vit)) it;
                 (ret, db) = remove_discovery_info E del_keys (rocks s);
                 s = s\<lparr>rocks := db\<rparr>
             in if ret < 0
                then (if_done_set_response dn INTERNAL_ERROR ''delete from db fail'', s)
                else (if_done_set_response dn SUCCESS ''success'',
                      s\<lparr>configs := (configs s)(name := None)\<rparr>))"

definition remove_config ::
  "env \<Rightarrow> DiscoveryManagerRequest \<Rightarrow> closure \<Rightarrow> 'a config_manager_scheme \<Rightarrow>
     closure \<times> 'a config_manager_scheme" where
  "remove_config E request dn s =
     (let remove_request = msg empty_ConfigInfo (rq_config_info request);
          name = str_field (c_name remove_request)
      in if c_version remove_request = None then remove_config_all E request dn s
         else case configs s name of
           None \<Rightarrow> (if_done_set_response dn PARSE_TO_PB_FAIL ''config not exist'', s)
         | Some it \<Rightarrow>
             let version = to_module_version (version_field remove_request);
                 dn = (if map_of it version = None
                       then if_done_set_response dn INPUT_PARAM_ERROR ''config not exist'' else dn);
                 (ret, db) = remove_discovery_info E [make_config_key E name version] (rocks s);
                 s = s\<lparr>rocks := db\<rparr>
             in if ret < 0
                then (if_done_set_response dn INTERNAL_ERROR ''delete from db fail'', s)
                else let it = omap_erase version it
                     in (if_done_set_response dn SUCCESS ''success'',
                         s\<lparr>configs := (if it = [] then (configs s)(name := None)
                                      else (configs s)(name \<mapsto> it))\<rparr>))"

definition load_config_snapshot ::
  "env \<Rightarrow> string \<Rightarrow> 'a config_manager_scheme \<Rightarrow> int \<times> 'a config_manager_scheme" where
  "load_config_snapshot E value s =
     (case pb_parse (config_pb E) value of
        None \<Rightarrow> (-1, s)
      | Some c \<Rightarrow>
          let name = str_field (c_name c);
              s = config_opened name s;
              it = at_or [] (configs s) name;
              version = to_module_version (version_field c)
          in (0, s\<lparr>configs := (configs s)(name \<mapsto> omap_put version c it)\<rparr>))"

fun load_configs :: "env \<Rightarrow> (string \<times> string) list \<Rightarrow> 'a config_manager_scheme \<Rightarrow> int \<times> 'a config_manager_scheme" where
  "load_configs E [] s = (0, s)"
| "load_configs E ((k, v) # es) s =
     (let (ret, s) = load_config_snapshot E v s
      in if ret \<noteq> 0 then (-1, s) else load_configs E es s)"

definition config_load_snapshot ::
  "env \<Rightarrow> (string \<times> string) list \<Rightarrow> 'a config_manager_scheme \<Rightarrow> int \<times> 'a config_manager_scheme" where
  "config_load_snapshot E es s = load_configs E es (s\<lparr>configs := Map.empty\<rparr>)"

subsection \<open>Invariant\<close>

text \<open>
  Every version list is ordered, and a configuration is filed under its own name and under the
  version its message carries (the default when it carries none).
\<close>

definition config_inv :: "'a config_manager_scheme \<Rightarrow> bool" where
  "config_inv s \<longleftrightarrow>
     (\<forall>name m. configs s name = Some m \<longrightarrow> omap_ok m) \<and>
     (\<forall>name m v c. configs s name = Some m \<longrightarrow> (v, c) \<in> set m \<longrightarrow>
        str_field (c_name c) = name \<and> v = request_version c)"

definition versions_of :: "'a config_manager_scheme \<Rightarrow> string \<Rightarrow> (ModuleVersion \<times> ConfigInfo) list" where
  "versions_of s name = at_or [] (configs s) name"

lemma config_opened_simps [simp]:
  "at_or [] (configs (config_opened name s)) k = at_or [] (configs s) k"
  "rocks (config_opened name s) = rocks s"
  "(config_opened name s)\<lparr>rocks := rocks s\<rparr> = config_opened name s"
  by (auto simp: config_opened_def at_or_def)

lemma config_opened_upd [simp]:
  "(configs (config_opened name s))(name := x) = (configs s)(name := x)"
  by (simp add: config_opened_def)

lemma config_opened_over [simp]:
  "(config_opened name s)\<lparr>rocks := db, configs := m\<rparr> = s\<lparr>rocks := db, configs := m\<rparr>"
  by (simp add: config_opened_def)

lemma create_config_cases:
  assumes "env_ok E"
  obtains c name where "c = msg empty_ConfigInfo (rq_config_info rq)" "name = str_field (c_name c)"
      "rejected dn (config_opened name s) (create_config E rq dn s)"
  | c name v where "c = msg empty_ConfigInfo (rq_config_info rq)" "name = str_field (c_name c)"
      "map_of (versions_of s name) (request_version c) = None"
      "versions_of s name = [] \<or> fst (last (versions_of s name)) < request_version c"
      "pb_serialize (config_pb E) c = Some v"
      "create_config E rq dn s = (if_done_set_response dn SUCCESS ''success'',
         s\<lparr>rocks := (rocks s)(make_config_key E name (request_version c) \<mapsto> v),
           configs := (configs s)(name \<mapsto> omap_put (request_version c) c (versions_of s name))\<rparr>)"
proof -
  let ?c = "msg empty_ConfigInfo (rq_config_info rq)"
  let ?n = "str_field (c_name ?c)" and ?v = "request_version ?c"
  show thesis
  proof (cases "map_of (versions_of s ?n) ?v = None \<and>
      (versions_of s ?n = [] \<or> fst (last (versions_of s ?n)) < ?v) \<and> pb_serialize (config_pb E) ?c \<noteq> None")
    case False
    then have "rejected dn (config_opened ?n s) (create_config E rq dn s)"
      by (auto simp: create_config_def Let_def versions_of_def not_less)
    then show thesis by (rule that(1) [OF refl refl])
  next
    case True
    then obtain v where v: "pb_serialize (config_pb E) ?c = Some v" by auto
    show thesis
    proof (rule put_discovery_info_cases [OF assms, of "make_config_key E ?n ?v" v "rocks s"], goal_cases)
      case 1
      with True v have "rejected dn (config_opened ?n s) (create_config E rq dn s)"
        by (auto simp: create_config_def Let_def versions_of_def not_le [symmetric])
      then show thesis by (rule that(1) [OF refl refl])
    next
      case 2
      with True v show thesis
        by (intro that(2) [of ?c ?n v])
          (auto simp: create_config_def Let_def versions_of_def not_le [symmetric])
    qed
  qed
qed

lemma remove_config_all_cases:
  assumes "env_ok E"
  obtains "rejected dn s (remove_config_all E rq dn s)"
  | name m db where "name = str_field (c_name (msg empty_ConfigInfo (rq_config_info rq)))"
      "configs s name = Some m"
      "db = (\<lambda>k. if k \<in> (\<lambda>vit. make_config_key E name (fst vit)) ` set m then None else rocks s k)"
      "remove_config_all E rq dn s = (if_done_set_response dn SUCCESS ''success'',
         s\<lparr>rocks := db, configs := (configs s)(name := None)\<rparr>)"
proof -
  let ?n = "str_field (c_name (msg empty_ConfigInfo (rq_config_info rq)))"
  show thesis
  proof (cases "configs s ?n")
    case None
    then show thesis by (intro that(1)) (simp add: remove_config_all_def Let_def)
  next
    case (Some m)
    show thesis
    proof (rule remove_discovery_info_cases [OF assms, of
          "map (\<lambda>vit. make_config_key E ?n (fst vit)) m" "rocks s"], goal_cases)
      case 1
      with Some show thesis by (intro that(1)) (simp add: remove_config_all_def Let_def)
    next
      case 2
      with Some show thesis by (intro that(2) [of ?n m]) (auto simp: remove_config_all_def Let_def)
    qed
  qed
qed

lemma remove_config_cases:
  assumes "env_ok E" "c_version (msg empty_ConfigInfo (rq_config_info rq)) \<noteq> None"
  obtains "rejected dn s (remove_config E rq dn s)"
  | name m v where "name = str_field (c_name (msg empty_ConfigInfo (rq_config_info rq)))"
      "configs s name = Some m" "v = request_version (msg empty_ConfigInfo (rq_config_info rq))"
      "remove_config E rq dn s = (if_done_set_response dn SUCCESS ''success'',
         s\<lparr>rocks := (rocks s)(make_config_key E name v := None),
           configs := (configs s)(name := (if omap_erase v m = [] then None else Some (omap_erase v m)))\<rparr>)"
proof -
  let ?c = "msg empty_ConfigInfo (rq_config_info rq)"
  let ?n = "str_field (c_name ?c)" and ?v = "request_version ?c"
  obtain w where w: "c_version ?c = Some w" using assms(2) by auto
  then have v: "to_module_version (version_field ?c) = ?v"
    by (auto simp: version_field_def request_version_def)
  have twice: "if_done_set_response (if_done_set_response dn e m) e' m' = if_done_set_response dn e' m'" for e m e' m'
    by (cases dn) (simp_all add: set_resp_def)
  show thesis
  proof (cases "configs s ?n")
    case None
    with w show thesis by (intro that(1)) (simp add: remove_config_def Let_def)
  next
    case (Some m)
    show thesis
    proof (rule remove_discovery_info_cases [OF assms(1), of "[make_config_key E ?n ?v]" "rocks s"], goal_cases)
      case 1
      with Some w v show thesis
        by (intro that(1)) (simp add: remove_config_def Let_def twice)
    next
      case 2
      with Some w v show thesis
        by (intro that(2) [of ?n m ?v]) (simp_all add: remove_config_def Let_def twice fun_upd_def)
    qed
  qed
qed

subsection \<open>Every handler keeps the invariant\<close>

lemma config_inv_opened: "config_inv s \<Longrightarrow> config_inv (config_opened name s)"
  by (auto simp: config_inv_def config_opened_def split: if_splits)

lemma set_omap_put_cases: "(k', v') \<in> set (omap_put k v m) \<Longrightarrow> (k', v') = (k, v) \<or> (k', v') \<in> set m"
  by (induction k v m rule: omap_put.induct) (auto split: if_splits)

lemma set_omap_erase: "p \<in> set (omap_erase k m) \<Longrightarrow> p \<in> set m"
  by (simp add: omap_erase_def)

lemma config_inv_put:
  assumes "config_inv s"
  shows "config_inv (s\<lparr>rocks := db, configs := (configs s)
    (str_field (c_name c) \<mapsto> omap_put (request_version c) c (versions_of s (str_field (c_name c))))\<rparr>)"
proof -
  have "omap_ok (versions_of s n)"
    "(v, c) \<in> set (versions_of s n) \<Longrightarrow> str_field (c_name c) = n \<and> v = request_version c" for n v c
    using assms by (cases "configs s n"; auto simp: config_inv_def versions_of_def)+
  then show ?thesis
    using assms by (auto simp: config_inv_def omap_ok_put dest!: set_omap_put_cases)
qed

lemma create_config_inv:
  assumes "env_ok E" "config_inv s"
  shows "config_inv (snd (create_config E rq dn s))"
  by (rule create_config_cases [OF assms(1), of rq dn s])
    (use assms(2) in \<open>auto simp: config_inv_opened config_inv_put dest!: rejected_state\<close>)

lemma remove_config_all_inv:
  assumes "env_ok E" "config_inv s"
  shows "config_inv (snd (remove_config_all E rq dn s))"
  by (rule remove_config_all_cases [OF assms(1), of dn s rq])
    (use assms(2) in \<open>auto simp: config_inv_def dest!: rejected_state split: if_splits\<close>)

lemma remove_config_inv:
  assumes "env_ok E" "config_inv s"
  shows "config_inv (snd (remove_config E rq dn s))"
proof (cases "c_version (msg empty_ConfigInfo (rq_config_info rq))")
  case None
  then show ?thesis
    using remove_config_all_inv [OF assms] by (simp add: remove_config_def Let_def)
next
  case (Some v)
  then have "c_version (msg empty_ConfigInfo (rq_config_info rq)) \<noteq> None" by simp
  then show ?thesis
  proof (rule remove_config_cases [OF assms(1), of rq dn s], goal_cases)
    case 1
    with assms(2) show ?case by (auto dest: rejected_state)
  next
    case (2 name m v)
    with assms(2) show ?case
      by (auto simp: config_inv_def omap_ok_erase split: if_splits dest!: set_omap_erase)
  qed
qed

subsection \<open>The copy in the store\<close>

text \<open>
  \<open>make_config_key\<close> puts no separator between the name and the version, so two configurations can
  share a key (a name that ends in a digit). On a set \<open>N\<close> of names where this cannot happen the
  store holds exactly the configurations of memory.
\<close>

definition config_prefix :: string where
  "config_prefix = CONFIG_IDENTIFY"

definition config_keys_inj :: "env \<Rightarrow> string set \<Rightarrow> bool" where
  "config_keys_inj E N \<longleftrightarrow> inj_on (\<lambda>(n, v). make_config_key E n v) (N \<times> UNIV)"

definition config_at :: "'a config_manager_scheme \<Rightarrow> string \<times> ModuleVersion \<Rightarrow> ConfigInfo option" where
  "config_at s nv = map_of (versions_of s (fst nv)) (snd nv)"

definition config_persisted :: "env \<Rightarrow> string set \<Rightarrow> 'a config_manager_scheme \<Rightarrow> bool" where
  "config_persisted E N s \<longleftrightarrow> dom (configs s) \<subseteq> N \<and>
     mirrors config_prefix (\<lambda>(n, v). make_config_key E n v) (config_pb E) (config_at s) (rocks s)"

text \<open>Names that end in neither a digit nor a dot are safe.\<close>

definition version_char :: "char \<Rightarrow> bool" where
  "version_char c \<longleftrightarrow> c = CHR ''.'' \<or> (CHR ''0'' \<le> c \<and> c \<le> CHR ''9'')"

definition version_str_ok :: "env \<Rightarrow> bool" where
  "version_str_ok E \<longleftrightarrow> inj (version_str E) \<and> (\<forall>v. list_all version_char (version_str E v))"

definition safe_config_name :: "string \<Rightarrow> bool" where
  "safe_config_name n \<longleftrightarrow> n = [] \<or> \<not> version_char (last n)"

lemma safe_config_name_split:
  assumes "safe_config_name n" "list_all version_char v"
  shows "takeWhile version_char (rev (n @ v)) = rev v"
proof -
  have "takeWhile version_char (rev v @ rev n) = rev v @ takeWhile version_char (rev n)"
    using assms(2) by (intro takeWhile_append2) (auto simp: list_all_iff)
  moreover have "takeWhile version_char (rev n) = []"
    using assms(1) by (cases n rule: rev_cases) (auto simp: safe_config_name_def)
  ultimately show ?thesis by simp
qed

lemma safe_config_names_inj:
  assumes "version_str_ok E"
  shows "config_keys_inj E {n. safe_config_name n}"
  unfolding config_keys_inj_def
proof (rule inj_onI, clarsimp)
  fix n v n' v'
  assume safe: "safe_config_name n" "safe_config_name n'"
    and "make_config_key E n v = make_config_key E n' v'"
  then have eq: "n @ version_str E v = n' @ version_str E v'"
    by (simp add: make_config_key_def)
  have vs: "list_all version_char (version_str E w)" for w
    using assms by (simp add: version_str_ok_def)
  have "rev (version_str E v) = rev (version_str E v')"
    using safe_config_name_split [OF safe(1) vs [of v]] safe_config_name_split [OF safe(2) vs [of v']] eq
    by metis
  with eq assms show "n = n' \<and> v = v'"
    by (auto simp: version_str_ok_def dest: injD)
qed

lemma mirrors_delete_set:
  assumes "mirrors p keyf c infm db" "\<And>m j. infm m = Some j \<Longrightarrow> keyf m \<in> keyf ` K \<Longrightarrow> m \<in> K"
  shows "mirrors p keyf c (\<lambda>m. if m \<in> K then None else infm m) (\<lambda>k. if k \<in> keyf ` K then None else db k)"
proof (rule mirrorsI)
  fix k v assume p: "starts_with p k"
  show "(if k \<in> keyf ` K then None else db k) = Some v \<longleftrightarrow>
     (\<exists>n i. (if n \<in> K then None else infm n) = Some i \<and> k = keyf n \<and> pb_serialize c i = Some v)"
  proof (cases "k \<in> keyf ` K")
    case True
    have "n \<in> K" if "infm n = Some i" "k = keyf n" for n i
      using assms(2) [OF that(1)] True that(2) by simp
    with True show ?thesis by auto
  next
    case False
    with mirrorsD1 [OF assms(1) p] show ?thesis by (auto split: if_splits)
  qed
qed (use assms(1) in \<open>auto simp: mirrors_def split: if_splits\<close>)

lemma make_config_key_prefix [key_simps]: "starts_with config_prefix (make_config_key E n v)"
  by (simp add: config_prefix_def make_config_key_def)

lemma config_at_names: "config_at s nv = Some c \<Longrightarrow> fst nv \<in> dom (configs s)"
  by (cases "configs s (fst nv)") (auto simp: config_at_def versions_of_def)

lemma config_at_opened [simp]: "config_at (config_opened name s) = config_at s"
  by (simp add: config_at_def versions_of_def fun_eq_iff)

lemma config_persisted_opened:
  assumes "config_persisted E N s" "name \<in> N"
  shows "config_persisted E N (config_opened name s)"
proof -
  have "dom (configs (config_opened name s)) \<subseteq> N"
    using assms by (auto simp: config_persisted_def config_opened_def)
  with assms show ?thesis by (simp add: config_persisted_def)
qed

lemma config_keys_injD:
  "config_keys_inj E N \<Longrightarrow> n \<in> N \<Longrightarrow> n' \<in> N \<Longrightarrow> make_config_key E n v = make_config_key E n' v' \<Longrightarrow>
     n = n' \<and> v = v'"
  unfolding config_keys_inj_def
  using inj_onD [of "\<lambda>(n, v). make_config_key E n v" "N \<times> UNIV" "(n, v)" "(n', v')"] by simp

lemma config_at_upd:
  "config_at (s\<lparr>rocks := db, configs := (configs s)(n := x)\<rparr>) =
     (\<lambda>nv. if fst nv = n then map_of (msg [] x) (snd nv) else config_at s nv)"
  by (auto simp: config_at_def versions_of_def at_or_def msg_def fun_eq_iff)

lemma config_at_put:
  "config_at (s\<lparr>rocks := db, configs := (configs s)(n \<mapsto> omap_put v c (versions_of s n))\<rparr>) =
     (config_at s)((n, v) \<mapsto> c)"
  by (auto simp: config_at_upd config_at_def fun_eq_iff)

lemma config_at_erase:
  assumes "configs s n = Some m"
  shows "config_at (s\<lparr>rocks := db,
      configs := (configs s)(n := (if omap_erase v m = [] then None else Some (omap_erase v m)))\<rparr>) =
    (config_at s)((n, v) := None)"
proof -
  have eq: "msg [] (if omap_erase v m = [] then None else Some (omap_erase v m)) = omap_erase v m"
    by (simp add: msg_def)
  show ?thesis
    unfolding config_at_upd eq using assms by (auto simp: config_at_def versions_of_def fun_eq_iff)
qed

lemma create_config_persisted:
  assumes "env_ok E" "config_keys_inj E N" "config_persisted E N s"
    "str_field (c_name (msg empty_ConfigInfo (rq_config_info rq))) \<in> N"
  shows "config_persisted E N (snd (create_config E rq dn s))"
proof (rule create_config_cases [OF assms(1), of rq dn s], goal_cases)
  case (1 c name)
  with assms(3,4) show ?case by (auto simp: config_persisted_opened dest!: rejected_state)
next
  case (2 c name v)
  have "mirrors config_prefix (\<lambda>(n, v). make_config_key E n v) (config_pb E)
      ((config_at s)((name, request_version c) \<mapsto> c))
      ((rocks s)((\<lambda>(n, v). make_config_key E n v) (name, request_version c) \<mapsto> v))"
  proof (rule mirrors_put [OF _ 2(5)])
    show "mirrors config_prefix (\<lambda>(n, v). make_config_key E n v) (config_pb E) (config_at s) (rocks s)"
      using assms(3) by (simp add: config_persisted_def)
    fix m j assume "config_at s m = Some j"
      "(\<lambda>(n, v). make_config_key E n v) m = (\<lambda>(n, v). make_config_key E n v) (name, request_version c)"
    then show "m = (name, request_version c)"
      using assms(3,4) 2(1,2) config_keys_injD [OF assms(2), of "fst m" name "snd m" "request_version c"]
        config_at_names [of s m j]
      by (auto simp: config_persisted_def split: prod.splits)
  qed
  with 2 assms(3,4) show ?case
    by (auto simp: config_persisted_def config_at_put)
qed

lemma remove_config_all_persisted:
  assumes "env_ok E" "config_keys_inj E N" "config_persisted E N s"
  shows "config_persisted E N (snd (remove_config_all E rq dn s))"
proof (rule remove_config_all_cases [OF assms(1), of dn s rq], goal_cases)
  case 1
  with assms(3) show ?case by (auto dest: rejected_state)
next
  case (2 name m db)
  let ?key = "\<lambda>(n, v). make_config_key E n v" and ?K = "{name} \<times> fst ` set m"
  have N: "name \<in> N" "dom (configs s) \<subseteq> N"
    using assms(3) 2(2) by (auto simp: config_persisted_def)
  have "mirrors config_prefix ?key (config_pb E) (\<lambda>nv. if nv \<in> ?K then None else config_at s nv)
      (\<lambda>k. if k \<in> ?key ` ?K then None else rocks s k)"
  proof (rule mirrors_delete_set)
    show "mirrors config_prefix ?key (config_pb E) (config_at s) (rocks s)"
      using assms(3) by (simp add: config_persisted_def)
    fix nv j assume a: "config_at s nv = Some j" and "?key nv \<in> ?key ` ?K"
    then obtain v where v: "v \<in> fst ` set m" "make_config_key E (fst nv) (snd nv) = make_config_key E name v"
      by (cases nv) auto
    have "fst nv \<in> N" using config_at_names [OF a] N by auto
    with v N have "fst nv = name \<and> snd nv = v"
      by (intro config_keys_injD [OF assms(2)]) auto
    with v show "nv \<in> ?K" by (cases nv) auto
  qed
  moreover have "(\<lambda>nv. if nv \<in> ?K then None else config_at s nv) = (\<lambda>nv. if fst nv = name then None else config_at s nv)"
    using 2(2) by (auto simp: fun_eq_iff config_at_def versions_of_def map_of_eq_None_iff)
  moreover have "?key ` ?K = (\<lambda>vit. make_config_key E name (fst vit)) ` set m"
    by force
  ultimately have "mirrors config_prefix ?key (config_pb E)
      (\<lambda>nv. if fst nv = name then None else config_at s nv) db"
    unfolding 2(3) by simp
  moreover have "config_at (s\<lparr>rocks := db, configs := (configs s)(name := None)\<rparr>) =
      (\<lambda>nv. if fst nv = name then None else config_at s nv)"
    by (simp add: config_at_upd cong: if_cong)
  ultimately show ?case
    using N unfolding 2(4) snd_conv config_persisted_def by auto
qed

lemma remove_config_persisted:
  assumes "env_ok E" "config_keys_inj E N" "config_persisted E N s"
  shows "config_persisted E N (snd (remove_config E rq dn s))"
proof (cases "c_version (msg empty_ConfigInfo (rq_config_info rq))")
  case None
  then show ?thesis
    using remove_config_all_persisted [OF assms] by (simp add: remove_config_def Let_def)
next
  case (Some w)
  then have "c_version (msg empty_ConfigInfo (rq_config_info rq)) \<noteq> None" by simp
  then show ?thesis
  proof (rule remove_config_cases [OF assms(1), of rq dn s], goal_cases)
    case 1
    with assms(3) show ?case by (auto dest: rejected_state)
  next
    case (2 name m v)
    let ?key = "\<lambda>(n, v). make_config_key E n v"
    have N: "name \<in> N" "dom (configs s) \<subseteq> N"
      using assms(3) 2(2) by (auto simp: config_persisted_def)
    have "mirrors config_prefix ?key (config_pb E) ((config_at s)((name, v) := None))
        ((rocks s)(?key (name, v) := None))"
    proof (rule mirrors_delete)
      show "mirrors config_prefix ?key (config_pb E) (config_at s) (rocks s)"
        using assms(3) by (simp add: config_persisted_def)
      fix nv j assume "config_at s nv = Some j" "?key nv = ?key (name, v)"
      then show "nv = (name, v)"
        using N config_at_names [of s nv j] config_keys_injD [OF assms(2), of "fst nv" name "snd nv" v]
        by (cases nv) auto
    qed
    moreover have "config_at (snd (remove_config E rq dn s)) = (config_at s)((name, v) := None)"
      by (simp only: 2(4) snd_conv config_at_erase [OF 2(2)])
    ultimately show ?case
      using 2 N by (auto simp: config_persisted_def split: if_splits)
  qed
qed

subsection \<open>What the configuration handlers leave alone\<close>

definition config_frame :: "'a config_manager_scheme \<Rightarrow> 'a config_manager_scheme \<Rightarrow> bool" where
  "config_frame s s' \<longleftrightarrow> schema_same s s' \<and> instance_same s s' \<and> user_same s s' \<and>
     config_manager.more s' = config_manager.more s \<and>
     (\<forall>k. \<not> starts_with config_prefix k \<longrightarrow> rocks s' k = rocks s k)"

lemma config_frameI:
  assumes "\<And>k. \<not> starts_with config_prefix k \<Longrightarrow> db k = rocks s k"
  shows "config_frame s (s\<lparr>rocks := db, configs := m\<rparr>)"
proof -
  have "starts_with SCHEMA_IDENTIFY k \<Longrightarrow> \<not> starts_with config_prefix k"
    "starts_with instance_prefix k \<Longrightarrow> \<not> starts_with config_prefix k"
    "starts_with privilege_prefix k \<Longrightarrow> \<not> starts_with config_prefix k" for k
    by (auto dest!: starts_withE simp: config_prefix_def instance_prefix_def privilege_prefix_def tag_defs)
  with assms show ?thesis
    by (auto simp: config_frame_def instance_same_def user_same_def servlet_manager.defs intro!: schema_sameI)
qed

lemma config_frame_opened: "config_frame s (config_opened name s)"
  using config_frameI [of "rocks s" s "(configs s)(name \<mapsto> [])"] config_frameI [of "rocks s" s "configs s"]
  by (simp add: config_opened_def)

lemma config_handlers_frame:
  assumes "env_ok E"
  shows "config_frame s (snd (create_config E rq dn s))" "config_frame s (snd (remove_config E rq dn s))"
proof -
  have key: "\<not> starts_with config_prefix k \<Longrightarrow> k \<noteq> make_config_key E n v" for k n v
    using make_config_key_prefix by auto
  show "config_frame s (snd (create_config E rq dn s))"
    by (rule create_config_cases [OF assms, of rq dn s])
      (auto simp: config_frame_opened key intro!: config_frameI dest!: rejected_state)
  have all: "config_frame s (snd (remove_config_all E rq dn s))"
    by (rule remove_config_all_cases [OF assms, of dn s rq])
      (use config_frameI [of "rocks s" s "configs s"] in
        \<open>auto simp: key make_config_key_prefix intro!: config_frameI dest!: rejected_state\<close>)
  show "config_frame s (snd (remove_config E rq dn s))"
  proof (cases "c_version (msg empty_ConfigInfo (rq_config_info rq)) = None")
    case True
    with all show ?thesis by (simp add: remove_config_def Let_def)
  next
    case False
    show ?thesis
      by (rule remove_config_cases [OF assms False, of dn s])
        (use config_frameI [of "rocks s" s "configs s"] in
          \<open>auto simp: key intro!: config_frameI dest!: rejected_state\<close>)
  qed
qed

definition config_same :: "'a config_manager_scheme \<Rightarrow> 'a config_manager_scheme \<Rightarrow> bool" where
  "config_same s s' \<longleftrightarrow> configs s' = configs s \<and>
     (\<forall>k. starts_with config_prefix k \<longrightarrow> rocks s' k = rocks s k)"

lemma config_same_keeps:
  assumes "config_same s s'"
  shows "config_inv s \<Longrightarrow> config_inv s'" "config_persisted E N s \<Longrightarrow> config_persisted E N s'"
proof -
  have "config_at s' = config_at s"
    using assms unfolding config_same_def config_at_def versions_of_def by (intro ext) simp
  then show "config_inv s \<Longrightarrow> config_inv s'" "config_persisted E N s \<Longrightarrow> config_persisted E N s'"
    using assms by (auto simp: config_same_def config_inv_def config_persisted_def elim: mirrors_cong)
qed

lemma config_more:
  assumes "privilege_manager.more s' = privilege_manager.more s"
  shows "configs s' = configs s" "config_manager.more s' = config_manager.more s"
  using assms by (cases s, cases s', simp)+

lemma config_sameI:
  assumes "privilege_manager.more s' = privilege_manager.more s"
    "\<And>k. starts_with config_prefix k \<Longrightarrow> rocks s' k = rocks s k"
  shows "config_same s s'"
  using assms config_more [OF assms(1)] by (simp add: config_same_def)

lemma config_keys_other:
  "starts_with config_prefix k \<Longrightarrow> \<not> is_ns_key k" "starts_with config_prefix k \<Longrightarrow> \<not> is_zone_key k"
  "starts_with config_prefix k \<Longrightarrow> \<not> is_servlet_key k"
  "starts_with config_prefix k \<Longrightarrow> \<not> starts_with instance_prefix k"
  "starts_with config_prefix k \<Longrightarrow> \<not> starts_with privilege_prefix k"
  by (auto dest!: managed_keys_schema starts_withE
      simp: instance_prefix_def privilege_prefix_def config_prefix_def tag_defs)

end
