(* ===== verification/RaftMachine.thy ===== *)
theory RaftMachine
  imports EaPrelude
begin

text \<open>
  What the three raft state machines of the server share: braft hands committed log entries to
  \<open>on_apply\<close> in order and in batches of its choice, with a closure on the leader and none on a
  follower or during replay. The locale states what makes replication work (the new state does
  not depend on the closure) and proves that replicas and batches agree.
\<close>

fun apply_log :: "('e \<Rightarrow> 's \<Rightarrow> 'c \<times> 's) \<Rightarrow> 'e list \<Rightarrow> 's \<Rightarrow> 'c list \<times> 's" where
  "apply_log step [] s = ([], s)"
| "apply_log step (e # es) s =
     (let (c, s) = step e s; (cs, s) = apply_log step es s in (c # cs, s))"

lemma apply_log_Cons_state [simp]:
  "snd (apply_log step (e # es) s) = snd (apply_log step es (snd (step e s)))"
  by (simp add: split_def Let_def)

lemma apply_log_append:
  "snd (apply_log step (es @ fs) s) = snd (apply_log step fs (snd (apply_log step es s)))"
  by (induction es arbitrary: s) (simp_all del: apply_log.simps(2))

lemma apply_log_length: "length (fst (apply_log step es s)) = length es"
  by (induction es arbitrary: s) (simp_all add: split_def Let_def)

lemma apply_log_invariant:
  assumes "\<And>e s. P e \<Longrightarrow> I s \<Longrightarrow> I (snd (step e s))" "list_all P es" "I s"
  shows "I (snd (apply_log step es s))"
  using assms(2,3) by (induction es arbitrary: s) (auto intro: assms(1) simp del: apply_log.simps(2))

locale raft_fsm =
  fixes step :: "'e \<Rightarrow> 's \<Rightarrow> 'c \<times> 's" and strip :: "'e \<Rightarrow> 'e"
  assumes step_strip: "snd (step (strip e) s) = snd (step e s)"
begin

lemma replicas_agree: "snd (apply_log step (map strip es) s) = snd (apply_log step es s)"
  by (induction es arbitrary: s) (simp_all add: step_strip del: apply_log.simps(2))

lemma same_log_same_state:
  "map strip es = map strip fs \<Longrightarrow> snd (apply_log step es s) = snd (apply_log step fs s)"
  using replicas_agree [of es s] replicas_agree [of fs s] by simp

text \<open>A follower that restarts from a state the log prefix led to catches up by the rest.\<close>

lemma catch_up:
  "map strip log = map strip (done_part @ rest) \<Longrightarrow> s1 = snd (apply_log step done_part s) \<Longrightarrow>
     snd (apply_log step (map strip rest) s1) = snd (apply_log step log s)"
  using same_log_same_state [of log "done_part @ rest" s]
  by (simp add: replicas_agree apply_log_append)

lemma batches_agree: "snd (apply_log step (concat bs) s) = fold (\<lambda>b s. snd (apply_log step b s)) bs s"
  by (induction bs arbitrary: s) (simp_all add: apply_log_append)

end

end
