(* ===== verification/DiscoveryStateMachine.thy ===== *)
theory DiscoveryStateMachine
  imports ConfigManager RaftMachine
begin

text \<open>
  \<open>DiscoveryStateMachine\<close> (discovery_state_machine.cc) over the six managers: the dispatch of a
  committed request, the loop of \<open>on_apply\<close> and the leadership flag. An entry carries what the
  replica sees while it applies it: the bytes, the closure if this replica proposed it, the
  outcome of RocksDB writes and the clock.
\<close>

record discovery_state_machine = config_manager +
  applied_index :: int
  is_leader :: bool
  have_data :: bool

definition init_state :: discovery_state_machine where
  "init_state = \<lparr>rocks = Map.empty,
     max_namespace_id = 0, namespace_id_map = Map.empty, namespace_info_map = Map.empty, zone_ids = Map.empty,
     max_zone_id = 0, zone_id_map = Map.empty, zone_info_map = Map.empty, servlet_ids = Map.empty,
     max_servlet_id = 0, servlet_id_map = Map.empty, servlet_info_map = Map.empty,
     instance_info = Map.empty, removed_instance = Map.empty, namespace_instance = Map.empty,
     zone_instance = Map.empty, servlet_instance = Map.empty,
     user_privilege = Map.empty, configs = Map.empty,
     applied_index = 0, is_leader = False, have_data = False\<rparr>"

definition apply_request ::
  "env \<Rightarrow> DiscoveryManagerRequest \<Rightarrow> closure \<Rightarrow> discovery_state_machine \<Rightarrow>
     closure \<times> discovery_state_machine" where
  "apply_request E request dn s =
     (case rq_op_type request of
        OP_CREATE_USER \<Rightarrow> create_user E request dn s
      | OP_DROP_USER \<Rightarrow> drop_user E request dn s
      | OP_ADD_PRIVILEGE \<Rightarrow> add_privilege E request dn s
      | OP_DROP_PRIVILEGE \<Rightarrow> drop_privilege E request dn s
      | OP_CREATE_NAMESPACE \<Rightarrow> create_namespace E request dn s
      | OP_DROP_NAMESPACE \<Rightarrow> drop_namespace E request dn s
      | OP_MODIFY_NAMESPACE \<Rightarrow> modify_namespace E request dn s
      | OP_CREATE_ZONE \<Rightarrow> create_zone E request dn s
      | OP_DROP_ZONE \<Rightarrow> drop_zone E request dn s
      | OP_MODIFY_ZONE \<Rightarrow> modify_zone E request dn s
      | OP_CREATE_SERVLET \<Rightarrow> create_servlet E request dn s
      | OP_DROP_SERVLET \<Rightarrow> drop_servlet E request dn s
      | OP_MODIFY_SERVLET \<Rightarrow> modify_servlet E request dn s
      | OP_CREATE_CONFIG \<Rightarrow> create_config E request dn s
      | OP_REMOVE_CONFIG \<Rightarrow> remove_config E request dn s
      | OP_ADD_INSTANCE \<Rightarrow> add_instance E request dn s
      | OP_DROP_INSTANCE \<Rightarrow> drop_instance E request dn s
      | OP_UPDATE_INSTANCE \<Rightarrow> update_instance E request dn s
      | _ \<Rightarrow> (if_done_set_response dn UNKNOWN_REQ_TYPE ''unknown request type'', s))"

record raft_entry =
  e_index :: int
  e_data :: string
  e_done :: closure
  e_write :: "wb_op list \<Rightarrow> kv \<Rightarrow> kv option"
  e_now :: int

definition entry_env :: "env \<Rightarrow> raft_entry \<Rightarrow> env" where
  "entry_env E e = E\<lparr>rocks_write := e_write e, now_us := e_now e\<rparr>"

definition apply_entry ::
  "env \<Rightarrow> (string \<Rightarrow> DiscoveryManagerRequest option) \<Rightarrow> raft_entry \<Rightarrow> discovery_state_machine \<Rightarrow>
     closure \<times> discovery_state_machine" where
  "apply_entry E parse e s =
     (let dn = e_done e
      in case parse (e_data e) of
           None \<Rightarrow> (if_done_set_response dn PARSE_FROM_PB_FAIL ''parse from protobuf fail'', s)
         | Some request \<Rightarrow>
             let dn = map_option (\<lambda>r. r\<lparr>rs_op_type := Some (rq_op_type request)\<rparr>) dn;
                 (dn, s) = apply_request (entry_env E e) request dn s
             in (dn, s\<lparr>applied_index := e_index e\<rparr>))"

definition on_apply ::
  "env \<Rightarrow> (string \<Rightarrow> DiscoveryManagerRequest option) \<Rightarrow> raft_entry list \<Rightarrow> discovery_state_machine \<Rightarrow>
     closure list \<times> discovery_state_machine" where
  "on_apply E parse = apply_log (apply_entry E parse)"

definition on_leader_start :: "discovery_state_machine \<Rightarrow> discovery_state_machine" where
  "on_leader_start s = s\<lparr>is_leader := True\<rparr>"

definition on_leader_stop :: "discovery_state_machine \<Rightarrow> discovery_state_machine" where
  "on_leader_stop s = s\<lparr>is_leader := False\<rparr>"

subsection \<open>The state does not depend on the closure\<close>

lemma namespace_handlers_done:
  "snd (create_namespace E rq dn s) = snd (create_namespace E rq None s)"
  "snd (drop_namespace E rq dn s) = snd (drop_namespace E rq None s)"
  "snd (modify_namespace E rq dn s) = snd (modify_namespace E rq None s)"
  by (simp_all add: create_namespace_def drop_namespace_def modify_namespace_def Let_def split_def
      split: option.split)

lemma zone_handlers_done:
  "snd (create_zone E rq dn s) = snd (create_zone E rq None s)"
  "snd (drop_zone E rq dn s) = snd (drop_zone E rq None s)"
  "snd (modify_zone E rq dn s) = snd (modify_zone E rq None s)"
  by (simp_all add: create_zone_def drop_zone_def modify_zone_def Let_def split_def
      split: option.split)

lemma servlet_handlers_done:
  "snd (create_servlet E rq dn s) = snd (create_servlet E rq None s)"
  "snd (drop_servlet E rq dn s) = snd (drop_servlet E rq None s)"
  "snd (modify_servlet E rq dn s) = snd (modify_servlet E rq None s)"
  by (simp_all add: create_servlet_def drop_servlet_def modify_servlet_def Let_def split_def
      split: option.split)

lemma instance_handlers_done:
  "snd (add_instance E rq dn s) = snd (add_instance E rq None s)"
  "snd (drop_instance E rq dn s) = snd (drop_instance E rq None s)"
  "snd (update_instance E rq dn s) = snd (update_instance E rq None s)"
  by (simp_all add: add_instance_def drop_instance_def update_instance_def Let_def split_def
      split: option.split)

lemma user_handlers_done:
  "snd (create_user E rq dn s) = snd (create_user E rq None s)"
  "snd (drop_user E rq dn s) = snd (drop_user E rq None s)"
  "snd (add_privilege E rq dn s) = snd (add_privilege E rq None s)"
  "snd (drop_privilege E rq dn s) = snd (drop_privilege E rq None s)"
  by (simp_all add: create_user_def drop_user_def add_privilege_def drop_privilege_def
      change_privilege_def Let_def split_def split: option.split)

lemma config_handlers_done:
  "snd (create_config E rq dn s) = snd (create_config E rq None s)"
  "snd (remove_config E rq dn s) = snd (remove_config E rq None s)"
  by (simp_all add: create_config_def remove_config_def remove_config_all_def Let_def split_def
      split: option.split)

lemma apply_request_done: "snd (apply_request E rq dn s) = snd (apply_request E rq None s)"
proof -
  note d = namespace_handlers_done [of E rq dn s] zone_handlers_done [of E rq dn s]
    servlet_handlers_done [of E rq dn s] instance_handlers_done [of E rq dn s]
    user_handlers_done [of E rq dn s] config_handlers_done [of E rq dn s]
  show ?thesis
    by (cases "rq_op_type rq") (simp_all add: apply_request_def d)
qed

definition strip_done :: "raft_entry \<Rightarrow> raft_entry" where
  "strip_done e = e\<lparr>e_done := None\<rparr>"

lemma strip_done_simps [simp]:
  "e_index (strip_done e) = e_index e" "e_data (strip_done e) = e_data e" "e_done (strip_done e) = None"
  "e_write (strip_done e) = e_write e" "e_now (strip_done e) = e_now e"
  "entry_env E (strip_done e) = entry_env E e"
  by (simp_all add: strip_done_def entry_env_def)

lemma apply_entry_strip: "snd (apply_entry E parse (strip_done e) s) = snd (apply_entry E parse e s)"
proof (cases "parse (e_data e)")
  case None
  then show ?thesis by (simp add: apply_entry_def)
next
  case (Some rq)
  then show ?thesis
    using apply_request_done [of "entry_env E e" rq "map_option (\<lambda>r. r\<lparr>rs_op_type := Some (rq_op_type rq)\<rparr>) (e_done e)" s]
    by (simp add: apply_entry_def split_def Let_def)
qed

interpretation dsm: raft_fsm "apply_entry E parse" strip_done for E parse
  by unfold_locales (rule apply_entry_strip)

subsection \<open>The invariant of the whole state machine\<close>

text \<open>
  Everything the component theories prove their handlers keep, together. The store is compared
  with the parsers of \<open>E\<close>; an entry's environment has the same ones.
\<close>

definition dsm_inv :: "env \<Rightarrow> 'a config_manager_scheme \<Rightarrow> bool" where
  "dsm_inv E s \<longleftrightarrow> ns_inv E s \<and> zone_inv E s \<and> zone_links s \<and> clean_namespaces s \<and>
     servlet_weak s \<and> servlet_stored E s \<and> instance_inv E s \<and> user_inv E s \<and> config_inv s"

lemma dsm_inv_init: "dsm_inv E init_state"
  by (simp add: dsm_inv_def ns_inv_def ns_registry_ok_def ns_persisted_def zone_inv_def
      zone_registry_ok_def zone_persisted_def zone_links_def clean_namespaces_def servlet_weak_def
      servlet_stored_def instance_inv_def instance_ok_def index_sound_def instance_persisted_def user_inv_def
      config_inv_def init_state_def registry_ok_empty mirrors_empty)

lemma servlet_frame_user_config:
  assumes "servlet_manager.more s' = servlet_manager.more s"
    "\<And>k. starts_with privilege_prefix k \<or> starts_with config_prefix k \<Longrightarrow> rocks s' k = rocks s k"
  shows "user_same s s'" "config_same s s'"
  using assms by (auto intro!: user_sameI config_sameI instance_more(6) user_more(2))

lemma schema_step_keeps:
  assumes "dsm_inv E s" "servlet_manager.more s' = servlet_manager.more s"
    "\<And>k. starts_with privilege_prefix k \<or> starts_with config_prefix k \<or> starts_with instance_prefix k \<Longrightarrow>
       rocks s' k = rocks s k"
    "ns_inv E s'" "zone_inv E s'" "zone_links s'" "clean_namespaces s'" "servlet_weak s'"
    "servlet_stored E s'"
  shows "dsm_inv E s'"
proof -
  have "instance_same s s'" "user_same s s'" "config_same s s'"
    using assms(2,3) by (auto intro!: instance_sameI servlet_frame_user_config)
  with assms show ?thesis
    unfolding dsm_inv_def
    using instance_same_keeps user_same_keeps config_same_keeps(1) by blast
qed

lemma other_keys:
  assumes "starts_with privilege_prefix k \<or> starts_with config_prefix k \<or> starts_with instance_prefix k"
  shows "\<not> is_ns_key k" "\<not> is_zone_key k" "\<not> is_servlet_key k"
  using assms instance_key_other privilege_keys_other config_keys_other by blast+

text \<open>\<open>dsm_inv\<close> opened up, for the handler lemmas.\<close>

lemma dsm_invD:
  assumes "dsm_inv E s"
  shows "ns_inv E s" "zone_inv E s" "zone_links s" "clean_namespaces s" "servlet_weak s"
    "instance_inv E s" "user_inv E s" "config_inv s" "ns_registry_ok s" "zone_registry_ok s"
    "servlet_stored E s"
  using assms by (simp_all add: dsm_inv_def ns_inv_def zone_inv_def)

lemma namespace_handlers_dsm_inv:
  assumes "env_ok E" "dsm_inv E s" "clean_request rq"
  shows "dsm_inv E (snd (create_namespace E rq dn s))" "dsm_inv E (snd (drop_namespace E rq dn s))"
    "dsm_inv E (snd (modify_namespace E rq dn s))"
proof -
  note inv = dsm_invD [OF assms(2)]
  note more = servlet_more(4) [OF zone_more(5)]
  note same = namespace_handlers_zone_same [OF assms(1) inv(9), of rq dn]
    schema_handlers_servlet_same [OF assms(1) inv(9,10), of rq dn]
  show "dsm_inv E (snd (create_namespace E rq dn s))"
    by (rule schema_step_keeps [OF assms(2) more [OF namespace_handlers_more(1) [OF assms(1) inv(9)]]
          namespace_handlers_rocks(1) [OF assms(1) inv(9) other_keys(1)]
          create_namespace_inv [OF assms(1) inv(1)] zone_inv_same [OF same(1) inv(2)]
          namespace_handlers_links(1) [OF assms(1) inv(3,9)]
          namespace_handlers_clean(1) [OF assms(1) inv(4,9) assms(3)]
          servlet_same_keeps(2) [OF same(4) inv(5)]
          servlet_same_keeps(3) [OF same(4) inv(11)]])
  show "dsm_inv E (snd (drop_namespace E rq dn s))"
    by (rule schema_step_keeps [OF assms(2) more [OF namespace_handlers_more(2) [OF assms(1) inv(9)]]
          namespace_handlers_rocks(2) [OF assms(1) inv(9) other_keys(1)]
          drop_namespace_inv [OF assms(1) inv(1)] zone_inv_same [OF same(2) inv(2)]
          namespace_handlers_links(2) [OF assms(1) inv(3,9)]
          namespace_handlers_clean(2) [OF assms(1) inv(4,9) assms(3)]
          servlet_same_keeps(2) [OF same(5) inv(5)]
          servlet_same_keeps(3) [OF same(5) inv(11)]])
  show "dsm_inv E (snd (modify_namespace E rq dn s))"
    by (rule schema_step_keeps [OF assms(2) more [OF namespace_handlers_more(3) [OF assms(1) inv(9)]]
          namespace_handlers_rocks(3) [OF assms(1) inv(9) other_keys(1)]
          modify_namespace_inv [OF assms(1) inv(1)] zone_inv_same [OF same(3) inv(2)]
          namespace_handlers_links(3) [OF assms(1) inv(3,9)]
          namespace_handlers_clean(3) [OF assms(1) inv(4,9) assms(3)]
          servlet_same_keeps(2) [OF same(6) inv(5)]
          servlet_same_keeps(3) [OF same(6) inv(11)]])
qed

lemma zone_handlers_dsm_inv:
  assumes "env_ok E" "dsm_inv E s"
  shows "dsm_inv E (snd (create_zone E rq dn s))" "dsm_inv E (snd (drop_zone E rq dn s))"
    "dsm_inv E (snd (modify_zone E rq dn s))"
proof -
  note inv = dsm_invD [OF assms(2)]
  note ns = zone_handlers_ns_same [OF assms(1) inv(10), of rq dn]
  note same = schema_handlers_servlet_same [OF assms(1) inv(9,10), of rq dn]
  show "dsm_inv E (snd (create_zone E rq dn s))"
    by (rule schema_step_keeps [OF assms(2) servlet_more(4) [OF zone_handlers_more(1) [OF assms(1) inv(10)]]
          zone_handlers_rocks(1) [OF assms(1) inv(10) other_keys(2)]
          ns_inv_same [OF ns(1) inv(1)] create_zone_inv [OF assms(1) inv(2)]
          zone_handlers_links(1) [OF assms(1) inv(3,4,10)] clean_namespaces_same [OF ns(1) inv(4)]
          servlet_same_keeps(2) [OF same(4) inv(5)]
          servlet_same_keeps(3) [OF same(4) inv(11)]])
  show "dsm_inv E (snd (drop_zone E rq dn s))"
    by (rule schema_step_keeps [OF assms(2) servlet_more(4) [OF zone_handlers_more(2) [OF assms(1) inv(10)]]
          zone_handlers_rocks(2) [OF assms(1) inv(10) other_keys(2)]
          ns_inv_same [OF ns(2) inv(1)] drop_zone_inv [OF assms(1) inv(2)]
          zone_handlers_links(2) [OF assms(1) inv(3,4,10)] clean_namespaces_same [OF ns(2) inv(4)]
          servlet_same_keeps(2) [OF same(5) inv(5)]
          servlet_same_keeps(3) [OF same(5) inv(11)]])
  show "dsm_inv E (snd (modify_zone E rq dn s))"
    by (rule schema_step_keeps [OF assms(2) servlet_more(4) [OF zone_handlers_more(3) [OF assms(1) inv(10)]]
          zone_handlers_rocks(3) [OF assms(1) inv(10) other_keys(2)]
          ns_inv_same [OF ns(3) inv(1)] modify_zone_inv [OF assms(1) inv(2)]
          zone_handlers_links(3) [OF assms(1) inv(3,4,10)] clean_namespaces_same [OF ns(3) inv(4)]
          servlet_same_keeps(2) [OF same(6) inv(5)]
          servlet_same_keeps(3) [OF same(6) inv(11)]])
qed

lemma servlet_handlers_dsm_inv:
  assumes "env_ok E" "dsm_inv E s"
  shows "dsm_inv E (snd (create_servlet E rq dn s))" "dsm_inv E (snd (drop_servlet E rq dn s))"
    "dsm_inv E (snd (modify_servlet E rq dn s))"
proof -
  note inv = dsm_invD [OF assms(2)]
  have keep: "dsm_inv E s'" if f: "servlet_frame s s'" and w: "servlet_weak s'" "servlet_stored E s'" for s'
    by (rule schema_step_keeps [OF assms(2) _ _ ns_inv_same [OF servlet_frame_keeps(1) [OF f] inv(1)]
          zone_inv_same [OF servlet_frame_keeps(2) [OF f] inv(2)] servlet_frame_keeps(3) [OF f inv(3)]
          servlet_frame_keeps(4) [OF f inv(4)] w])
      (use f other_keys in \<open>auto simp: servlet_frame_def\<close>)
  show "dsm_inv E (snd (create_servlet E rq dn s))" "dsm_inv E (snd (drop_servlet E rq dn s))"
    "dsm_inv E (snd (modify_servlet E rq dn s))"
    using servlet_handlers_frame [OF assms(1), of s rq dn] create_servlet_weak [OF assms(1) inv(5)]
      drop_servlet_weak [OF assms(1) inv(5)] modify_servlet_weak [OF assms(1) inv(5)]
      servlet_handlers_stored [OF assms(1) inv(5,11)]
    by (auto intro: keep)
qed

lemma schema_same_dsm_inv:
  assumes "dsm_inv E s" "schema_same s s'" "instance_inv E s'" "user_inv E s'" "config_inv s'"
  shows "dsm_inv E s'"
  using assms schema_same_keeps [OF assms(2)] ns_inv_same zone_inv_same servlet_same_keeps(2,3)
  unfolding dsm_inv_def by blast

lemma instance_handlers_dsm_inv:
  assumes "env_ok E" "dsm_inv E s"
  shows "dsm_inv E (snd (add_instance E rq dn s))" "dsm_inv E (snd (drop_instance E rq dn s))"
    "dsm_inv E (snd (update_instance E rq dn s))"
proof -
  note inv = dsm_invD [OF assms(2)]
  have keep: "dsm_inv E s'" if f: "instance_frame s s'" and i: "instance_inv E s'" for s'
  proof (rule schema_same_dsm_inv [OF assms(2) _ i])
    have "user_same s s'" "config_same s s'"
      using f privilege_keys_other(4) config_keys_other(4)
      by (auto simp: instance_frame_def intro!: user_sameI config_sameI intro: user_more(2))
    then show "user_inv E s'" "config_inv s'"
      using inv(7,8) user_same_keeps config_same_keeps(1) by blast+
    show "schema_same s s'" using f by (simp add: instance_frame_def)
  qed
  show "dsm_inv E (snd (add_instance E rq dn s))" "dsm_inv E (snd (drop_instance E rq dn s))"
    "dsm_inv E (snd (update_instance E rq dn s))"
    using instance_handlers_frame [OF assms(1), of s rq dn] add_instance_inv [OF assms(1) inv(6)]
      drop_instance_inv [OF assms(1) inv(6)] update_instance_inv [OF assms(1) inv(6)]
    by (auto intro: keep)
qed

lemma user_handlers_dsm_inv:
  assumes "env_ok E" "dsm_inv E s"
  shows "dsm_inv E (snd (create_user E rq dn s))" "dsm_inv E (snd (drop_user E rq dn s))"
    "dsm_inv E (snd (add_privilege E rq dn s))" "dsm_inv E (snd (drop_privilege E rq dn s))"
proof -
  note inv = dsm_invD [OF assms(2)]
  have keep: "dsm_inv E s'" if f: "user_frame s s'" and i: "user_inv E s'" for s'
  proof (rule schema_same_dsm_inv [OF assms(2) _ _ i])
    have "config_same s s'"
      using f config_keys_other(5) by (auto simp: user_frame_def intro!: config_sameI)
    then show "config_inv s'" using inv(8) config_same_keeps(1) by blast
    show "schema_same s s'" "instance_inv E s'"
      using f inv(6) instance_same_keeps by (auto simp: user_frame_def)
  qed
  show "dsm_inv E (snd (create_user E rq dn s))" "dsm_inv E (snd (drop_user E rq dn s))"
    "dsm_inv E (snd (add_privilege E rq dn s))" "dsm_inv E (snd (drop_privilege E rq dn s))"
    using user_handlers_frame [OF assms(1), of s rq dn] create_user_inv [OF assms(1) inv(7)]
      drop_user_inv [OF assms(1) inv(7)] add_privilege_inv [OF assms(1) inv(7)]
      drop_privilege_inv [OF assms(1) inv(7)]
    by (auto intro: keep)
qed

lemma config_handlers_dsm_inv:
  assumes "env_ok E" "dsm_inv E s"
  shows "dsm_inv E (snd (create_config E rq dn s))" "dsm_inv E (snd (remove_config E rq dn s))"
proof -
  note inv = dsm_invD [OF assms(2)]
  have keep: "dsm_inv E s'" if f: "config_frame s s'" and i: "config_inv s'" for s'
    by (rule schema_same_dsm_inv [OF assms(2) _ _ _ i])
      (use f inv(6,7) instance_same_keeps user_same_keeps in \<open>auto simp: config_frame_def\<close>)
  show "dsm_inv E (snd (create_config E rq dn s))" "dsm_inv E (snd (remove_config E rq dn s))"
    using config_handlers_frame [OF assms(1), of s rq dn] create_config_inv [OF assms(1) inv(8)]
      remove_config_inv [OF assms(1) inv(8)]
    by (auto intro: keep)
qed

lemma apply_request_inv:
  assumes "env_ok E" "dsm_inv E s" "clean_request rq"
  shows "dsm_inv E (snd (apply_request E rq dn s))"
proof -
  note h = namespace_handlers_dsm_inv [OF assms] zone_handlers_dsm_inv [OF assms(1,2)]
    servlet_handlers_dsm_inv [OF assms(1,2)] instance_handlers_dsm_inv [OF assms(1,2)]
    user_handlers_dsm_inv [OF assms(1,2)] config_handlers_dsm_inv [OF assms(1,2)]
  show ?thesis
    by (cases "rq_op_type rq") (simp_all add: apply_request_def h assms(2))
qed

subsection \<open>Entries\<close>

definition entry_ok :: "(string \<Rightarrow> DiscoveryManagerRequest option) \<Rightarrow> raft_entry \<Rightarrow> bool" where
  "entry_ok parse e \<longleftrightarrow> rocks_write_ok (e_write e) \<and>
     (case parse (e_data e) of None \<Rightarrow> True | Some rq \<Rightarrow> clean_request rq)"

lemma dsm_inv_entry_env [simp]: "dsm_inv (entry_env E e) s = dsm_inv E s"
  by (simp add: dsm_inv_def entry_env_def ns_inv_def ns_persisted_def zone_inv_def zone_persisted_def
      servlet_stored_def instance_inv_def instance_persisted_def user_inv_def)

lemma env_ok_entry_env: "env_ok E \<Longrightarrow> rocks_write_ok (e_write e) \<Longrightarrow> env_ok (entry_env E e)"
  by (simp add: env_ok_def entry_env_def)

lemma dsm_inv_applied_index [simp]: "dsm_inv E (s\<lparr>applied_index := i\<rparr>) = dsm_inv E s"
  by (simp add: dsm_inv_def ns_inv_def ns_registry_ok_def ns_persisted_def zone_inv_def
      zone_registry_ok_def zone_persisted_def zone_links_def clean_namespaces_def servlet_weak_def
      servlet_stored_def instance_inv_def instance_ok_def instance_persisted_def user_inv_def config_inv_def)

lemma apply_entry_inv:
  assumes "env_ok E" "entry_ok parse e" "dsm_inv E s"
  shows "dsm_inv E (snd (apply_entry E parse e s))"
proof (cases "parse (e_data e)")
  case None
  with assms(3) show ?thesis by (simp add: apply_entry_def)
next
  case (Some rq)
  have "env_ok (entry_env E e)" "clean_request rq"
    using assms(1,2) Some by (auto simp: entry_ok_def env_ok_entry_env)
  from apply_request_inv [OF this(1) _ this(2)] Some assms(3) show ?thesis
    by (simp add: apply_entry_def Let_def split_def)
qed

lemma on_apply_inv:
  assumes "env_ok E" "list_all (entry_ok parse) es" "dsm_inv E s"
  shows "dsm_inv E (snd (on_apply E parse es s))"
  unfolding on_apply_def
  by (rule apply_log_invariant [where P = "entry_ok parse"]) (auto intro: apply_entry_inv assms)

end
