(* ===== verification/DemoWorld.thy ===== *)
theory DemoWorld
  imports DiscoveryStateMachine
begin

text \<open>
  A concrete run of the state machine for the witnesses: messages, their serialised forms, a log
  that creates a namespace, a zone, a servlet, an instance, a user and a configuration, and the
  states it goes through.
\<close>

definition demo_ns :: NameSpaceInfo where
  "demo_ns = empty_NameSpaceInfo\<lparr>ns_name := ''n'', ns_id := 1, ns_version := 1\<rparr>"

definition demo_zone :: ZoneInfo where
  "demo_zone = empty_ZoneInfo\<lparr>z_namespace_name := ''n'', z_zone := ''z'', z_zone_id := 1,
     z_namespace_id := 1, z_version := 1\<rparr>"

definition demo_servlet :: ServletInfo where
  "demo_servlet = empty_ServletInfo\<lparr>sv_namespace_name := ''n'', sv_zone := ''z'',
     sv_servlet_name := ''s'', sv_servlet_id := 1, sv_zone_id := 1, sv_namespace_id := 1,
     sv_version := 1\<rparr>"

definition demo_instance :: ServletInstance where
  "demo_instance = empty_ServletInstance\<lparr>si_namespace_name := Some ''n'', si_zone_name := Some ''z'',
     si_servlet_name := Some ''s'', si_address := Some ''a'', si_env := Some ''e'',
     si_namespace_id := 1, si_zone_id := 1, si_servlet_id := 1, si_version := 1\<rparr>"

definition demo_user :: UserPrivilege where
  "demo_user = empty_UserPrivilege\<lparr>up_username := ''u'', up_password := Some ''p'',
     up_namespace_name := ''n'', up_namespace_id := 1, up_version := 1\<rparr>"

definition demo_config :: ConfigInfo where
  "demo_config = empty_ConfigInfo\<lparr>c_name := Some ''c'',
     c_version := Some \<lparr>v_major = 1, v_minor = 0, v_patch = 0\<rparr>\<rparr>"

lemmas demo_msgs = demo_ns_def demo_zone_def demo_servlet_def demo_instance_def demo_user_def
  demo_config_def

definition demo_E :: env where
  "demo_E = demo_env\<lparr>ns_pb := table_pb [(demo_ns, ''N'')], zone_pb := table_pb [(demo_zone, ''Z'')],
     servlet_pb := table_pb [(demo_servlet, ''S'')], instance_pb := table_pb [(demo_instance, ''I'')],
     user_pb := table_pb [(demo_user, ''U'')], config_pb := table_pb [(demo_config, ''C'')],
     version_str := (\<lambda>v. ''1.0.0'')\<rparr>"

lemma demo_E_ok: "env_ok demo_E"
  by (simp add: env_ok_def demo_E_def demo_env_def rocks_write_ok_demo table_pb_ok)

definition demo_request :: "string \<Rightarrow> DiscoveryManagerRequest option" where
  "demo_request = map_of
     [(''n'', (empty_request OP_CREATE_NAMESPACE)\<lparr>rq_namespace_info := Some demo_ns\<rparr>),
      (''z'', (empty_request OP_CREATE_ZONE)\<lparr>rq_zone_info := Some demo_zone\<rparr>),
      (''s'', (empty_request OP_CREATE_SERVLET)\<lparr>rq_servlet_info := Some demo_servlet\<rparr>),
      (''i'', (empty_request OP_ADD_INSTANCE)\<lparr>rq_instance_info := Some demo_instance\<rparr>),
      (''u'', (empty_request OP_CREATE_USER)\<lparr>rq_user_privilege := Some demo_user\<rparr>),
      (''c'', (empty_request OP_CREATE_CONFIG)\<lparr>rq_config_info := Some demo_config\<rparr>)]"

definition demo_entry :: "int \<Rightarrow> string \<Rightarrow> raft_entry" where
  "demo_entry i d = \<lparr>e_index = i, e_data = d, e_done = Some empty_response,
     e_write = (\<lambda>b db. Some (apply_batch b db)), e_now = 0\<rparr>"

definition demo_log :: "raft_entry list" where
  "demo_log = [demo_entry 1 ''n'', demo_entry 2 ''z'', demo_entry 3 ''s'', demo_entry 4 ''i'',
     demo_entry 5 ''u'', demo_entry 6 ''c'']"

lemma demo_log_ok: "list_all (entry_ok demo_request) demo_log"
  by (simp add: demo_log_def demo_entry_def entry_ok_def demo_request_def rocks_write_ok_demo
      clean_request_def clean_name_def demo_msgs empty_request_def empty_NameSpaceInfo_def)

lemmas demo_simps = demo_E_def demo_env_def table_pb_def demo_request_def demo_entry_def
  entry_env_def apply_entry_def apply_request_def Let_def empty_request_def
  put_discovery_info_def put_discovery_infos_def remove_discovery_info_def
  get_namespace_id_def get_namespace_info_def get_zone_id_def get_servlet_id_def
  at_or_def touch_def empty_NameSpaceInfo_def empty_ZoneInfo_def empty_ServletInfo_def
  empty_ServletInstance_def empty_UserPrivilege_def empty_ConfigInfo_def

definition demo_state1 :: discovery_state_machine where
  "demo_state1 = ns_created demo_ns ''N'' init_state\<lparr>applied_index := 1\<rparr>"

lemma demo_step1: "snd (apply_entry demo_E demo_request (demo_entry 1 ''n'') init_state) = demo_state1"
  by (simp add: demo_state1_def demo_simps create_namespace_def ns_created_def namespace_accessors
      demo_ns_def init_state_def)

definition demo_state2 :: discovery_state_machine where
  "demo_state2 = zone_created demo_zone ''Z'' (demo_state1\<lparr>applied_index := 2\<rparr>)"

definition demo_state3 :: discovery_state_machine where
  "demo_state3 = servlet_created demo_servlet ''S'' (demo_state2\<lparr>applied_index := 3\<rparr>)"

definition demo_state4 :: discovery_state_machine where
  "demo_state4 = set_instance_info demo_instance (demo_state3\<lparr>applied_index := 4,
     rocks := (rocks demo_state3)(construct_instance_key ''a'' \<mapsto> ''I'')\<rparr>)"

definition demo_state5 :: discovery_state_machine where
  "demo_state5 = user_set ''u'' (Some demo_user) (Some ''U'') (demo_state4\<lparr>applied_index := 5\<rparr>)"

definition demo_state6 :: discovery_state_machine where
  "demo_state6 = demo_state5\<lparr>applied_index := 6,
     rocks := (rocks demo_state5)(make_config_key demo_E ''c'' (ModuleVersion 1 0 0) \<mapsto> ''C''),
     configs := [''c'' \<mapsto> [(ModuleVersion 1 0 0, demo_config)]]\<rparr>"

lemma demo_state1_maps [simp]:
  "max_namespace_id demo_state1 = 1" "namespace_id_map demo_state1 = [''n'' \<mapsto> 1]"
  "namespace_info_map demo_state1 = [1 \<mapsto> demo_ns]" "zone_ids demo_state1 = Map.empty"
  "max_zone_id demo_state1 = 0" "zone_id_map demo_state1 = Map.empty" "zone_info_map demo_state1 = Map.empty"
  by (simp_all add: demo_state1_def ns_created_def namespace_accessors init_state_def demo_ns_def)

lemma demo_state1_rest [simp]:
  "servlet_ids demo_state1 = Map.empty" "max_servlet_id demo_state1 = 0"
  "servlet_id_map demo_state1 = Map.empty" "servlet_info_map demo_state1 = Map.empty"
  "instance_info demo_state1 = Map.empty" "removed_instance demo_state1 = Map.empty"
  "namespace_instance demo_state1 = Map.empty" "zone_instance demo_state1 = Map.empty"
  "servlet_instance demo_state1 = Map.empty" "user_privilege demo_state1 = Map.empty"
  "configs demo_state1 = Map.empty" "applied_index demo_state1 = 1"
  by (simp_all add: demo_state1_def ns_created_def namespace_accessors init_state_def)

lemma demo_step2: "snd (apply_entry demo_E demo_request (demo_entry 2 ''z'') demo_state1) = demo_state2"
  by (simp add: demo_state2_def demo_simps create_zone_def zone_created_def zone_accessors
      prepared_zone_def inherit_zone_def keep_or_def make_zone_key_def demo_zone_def demo_ns_def)

lemma demo_state2_maps [simp]:
  "max_namespace_id demo_state2 = 1" "namespace_id_map demo_state2 = [''n'' \<mapsto> 1]"
  "namespace_info_map demo_state2 = [1 \<mapsto> demo_ns]" "zone_ids demo_state2 = [1 \<mapsto> {1}]"
  "max_zone_id demo_state2 = 1" "zone_id_map demo_state2 = [make_zone_key ''n'' ''z'' \<mapsto> 1]"
  "zone_info_map demo_state2 = [1 \<mapsto> demo_zone]"
  "servlet_ids demo_state2 = Map.empty" "max_servlet_id demo_state2 = 0"
  "servlet_id_map demo_state2 = Map.empty" "servlet_info_map demo_state2 = Map.empty"
  "instance_info demo_state2 = Map.empty" "removed_instance demo_state2 = Map.empty"
  "namespace_instance demo_state2 = Map.empty" "zone_instance demo_state2 = Map.empty"
  "servlet_instance demo_state2 = Map.empty" "user_privilege demo_state2 = Map.empty"
  "configs demo_state2 = Map.empty" "applied_index demo_state2 = 2"
  by (simp_all add: demo_state2_def zone_created_def zone_accessors demo_zone_def empty_ZoneInfo_def)

lemma demo_step3: "snd (apply_entry demo_E demo_request (demo_entry 3 ''s'') demo_state2) = demo_state3"
  by (simp add: demo_state3_def demo_simps create_servlet_def servlet_created_def servlet_accessors
      zone_accessors prepared_servlet_def make_zone_key_def make_servlet_key_def demo_servlet_def demo_ns_def)

lemma demo_state3_maps [simp]:
  "max_namespace_id demo_state3 = 1" "namespace_id_map demo_state3 = [''n'' \<mapsto> 1]"
  "namespace_info_map demo_state3 = [1 \<mapsto> demo_ns]" "zone_ids demo_state3 = [1 \<mapsto> {1}]"
  "max_zone_id demo_state3 = 1" "zone_id_map demo_state3 = [make_zone_key ''n'' ''z'' \<mapsto> 1]"
  "zone_info_map demo_state3 = [1 \<mapsto> demo_zone]"
  "servlet_ids demo_state3 = [1 \<mapsto> {1}]" "max_servlet_id demo_state3 = 1"
  "servlet_id_map demo_state3 = [make_servlet_key ''n'' ''z'' ''s'' \<mapsto> 1]"
  "servlet_info_map demo_state3 = [1 \<mapsto> demo_servlet]"
  "instance_info demo_state3 = Map.empty" "removed_instance demo_state3 = Map.empty"
  "namespace_instance demo_state3 = Map.empty" "zone_instance demo_state3 = Map.empty"
  "servlet_instance demo_state3 = Map.empty" "user_privilege demo_state3 = Map.empty"
  "configs demo_state3 = Map.empty" "applied_index demo_state3 = 3"
  by (simp_all add: demo_state3_def servlet_created_def servlet_accessors zone_accessors demo_servlet_def
      empty_ServletInfo_def)

lemma demo_step4: "snd (apply_entry demo_E demo_request (demo_entry 4 ''i'') demo_state3) = demo_state4"
  by (simp add: demo_state4_def demo_simps add_instance_def check_and_get_for_instance_def
      make_servlet_key_eq demo_instance_def set_instance_info_def)

lemma demo_state4_maps [simp]:
  "max_namespace_id demo_state4 = 1" "namespace_id_map demo_state4 = [''n'' \<mapsto> 1]"
  "namespace_info_map demo_state4 = [1 \<mapsto> demo_ns]" "zone_ids demo_state4 = [1 \<mapsto> {1}]"
  "max_zone_id demo_state4 = 1" "zone_id_map demo_state4 = [make_zone_key ''n'' ''z'' \<mapsto> 1]"
  "zone_info_map demo_state4 = [1 \<mapsto> demo_zone]"
  "servlet_ids demo_state4 = [1 \<mapsto> {1}]" "max_servlet_id demo_state4 = 1"
  "servlet_id_map demo_state4 = [make_servlet_key ''n'' ''z'' ''s'' \<mapsto> 1]"
  "servlet_info_map demo_state4 = [1 \<mapsto> demo_servlet]"
  "instance_info demo_state4 = [''a'' \<mapsto> demo_instance]" "removed_instance demo_state4 = Map.empty"
  "namespace_instance demo_state4 = [''n'' \<mapsto> {''a''}]"
  "zone_instance demo_state4 = [make_zone_key ''n'' ''z'' \<mapsto> {''a''}]"
  "servlet_instance demo_state4 = [make_servlet_key ''n'' ''z'' ''s'' \<mapsto> {''a''}]"
  "user_privilege demo_state4 = Map.empty" "configs demo_state4 = Map.empty" "applied_index demo_state4 = 4"
  by (simp_all add: demo_state4_def set_instance_info_def Let_def index_insert_def demo_instance_def
      empty_ServletInstance_def make_servlet_key_eq)

lemma demo_step5: "snd (apply_entry demo_E demo_request (demo_entry 5 ''u'') demo_state4) = demo_state5"
  by (simp add: demo_state5_def demo_simps create_user_def check_and_get_for_privilege_def user_set_def
      demo_user_def)

lemma demo_state5_maps [simp]:
  "user_privilege demo_state5 = [''u'' \<mapsto> demo_user]" "configs demo_state5 = Map.empty"
  by (simp_all add: demo_state5_def user_set_def)

lemma demo_step6: "snd (apply_entry demo_E demo_request (demo_entry 6 ''c'') demo_state5) = demo_state6"
  by (simp add: demo_state6_def demo_simps create_config_def config_opened_def request_version_def
      to_module_version_def demo_config_def make_config_key_def)

lemma demo_run: "snd (on_apply demo_E demo_request demo_log init_state) = demo_state6"
  by (simp add: on_apply_def demo_log_def demo_step1 demo_step2 demo_step3 demo_step4 demo_step5 demo_step6
      del: apply_log.simps(2))

end
