(* ===== verification/SchemaProperties.thy ===== *)
theory SchemaProperties
  imports DemoWorld
begin

text \<open>
  What the namespace, zone, servlet and instance handlers do, branch by branch, and the places
  where the servlet and instance handlers do not do what they mean to.
\<close>

subsection \<open>Namespaces\<close>

text \<open>
  C25: \<open>create_namespace\<close> on every branch. It succeeds exactly when the name is free, the message
  serialises and the write succeeds; then the name resolves to the next id, the info with that id
  and version 1 is filed, and no other name, info or id changes. Otherwise the state is untouched
  and the error code says which check failed.
\<close>

theorem create_namespace_spec:
  assumes "env_ok E" "create_namespace E rq (Some r0) s = (Some r1, s')"
    "info = (msg empty_NameSpaceInfo (rq_namespace_info rq))\<lparr>ns_id := max_namespace_id s + 1, ns_version := 1\<rparr>"
  shows "(rs_errcode r1 = SUCCESS \<and> namespace_id_map s (ns_name info) = None \<and>
      namespace_id_map s' = (namespace_id_map s)(ns_name info \<mapsto> ns_id info) \<and>
      namespace_info_map s' = (namespace_info_map s)(ns_id info \<mapsto> info) \<and>
      max_namespace_id s' = ns_id info \<and> zone_ids s' = zone_ids s \<and>
      (\<exists>v. pb_serialize (ns_pb E) info = Some v \<and> rocks s' = (rocks s)
         (construct_namespace_key (ns_id info) \<mapsto> v, construct_max_namespace_id_key \<mapsto> int64_bytes (ns_id info)))) \<or>
    (s' = s \<and> rs_errcode r1 =
      (if namespace_id_map s (ns_name info) \<noteq> None then INPUT_PARAM_ERROR
       else if pb_serialize (ns_pb E) info = None then PARSE_TO_PB_FAIL else INTERNAL_ERROR))"
proof (cases "namespace_id_map s (ns_name info) = None \<and> pb_serialize (ns_pb E) info \<noteq> None")
  case False
  then show ?thesis
    using assms(2,3) by (auto simp: create_namespace_def Let_def split: option.splits if_splits)
next
  case True
  then obtain v where v: "pb_serialize (ns_pb E) info = Some v" by auto
  show ?thesis
    by (rule put_two_cases [OF assms(1), of "construct_namespace_key (max_namespace_id s + 1)"
          construct_max_namespace_id_key v "int64_bytes (max_namespace_id s + 1)" "rocks s"])
      (use assms(2,3) True v in \<open>auto simp: create_namespace_def Let_def namespace_accessors\<close>)
qed

theorem create_namespace_spec_witness:
  "\<exists>r1 s'. create_namespace demo_E ((empty_request OP_CREATE_NAMESPACE)\<lparr>rq_namespace_info := Some demo_ns\<rparr>)
      (Some empty_response) init_state = (Some r1, s') \<and>
     rs_errcode r1 = SUCCESS \<and> namespace_id_map s' ''n'' = Some 1"
proof -
  let ?rq = "(empty_request OP_CREATE_NAMESPACE)\<lparr>rq_namespace_info := Some demo_ns\<rparr>"
  obtain r1 s' where c: "create_namespace demo_E ?rq (Some empty_response) init_state = (Some r1, s')"
    "rs_errcode r1 = SUCCESS"
    by (simp add: create_namespace_def demo_simps init_state_def namespace_accessors demo_ns_def)
  from create_namespace_spec [OF demo_E_ok c(1) refl] c(2)
  have "namespace_id_map s' = (namespace_id_map init_state)(''n'' \<mapsto> 1)"
    by (simp add: empty_request_def demo_ns_def init_state_def split: if_splits)
  with c show ?thesis by simp
qed

text \<open>
  A namespace that still has a zone cannot be dropped: the request is answered
  \<open>INPUT_PARAM_ERROR\<close>, and the registry, the zones and the store are as before.
\<close>

lemma drop_namespace_guarded:
  assumes "zone_links s" "zone_info_map s n = Some z"
    "ns_name (msg empty_NameSpaceInfo (rq_namespace_info rq)) = z_namespace_name z"
    "drop_namespace E rq (Some r0) s = (Some r1, s')"
  shows "rs_errcode r1 = INPUT_PARAM_ERROR \<and> namespace_id_map s' = namespace_id_map s \<and>
    namespace_info_map s' = namespace_info_map s \<and> zone_info_map s' = zone_info_map s \<and> rocks s' = rocks s"
proof -
  have id: "namespace_id_map s (z_namespace_name z) = Some (z_namespace_id z)"
    and "n \<in> at_or {} (zone_ids s) (z_namespace_id z)"
    using assms(1,2) unfolding zone_links_def by blast+
  then have "at_or {} (zone_ids s) (z_namespace_id z) \<noteq> {}" by auto
  with id assms(3,4) show ?thesis
    by (auto simp: drop_namespace_def Let_def)
qed

lemma drop_namespace_guarded_witness:
  "\<exists>r1 s'. drop_namespace demo_E ((empty_request OP_DROP_NAMESPACE)\<lparr>rq_namespace_info := Some demo_ns\<rparr>)
      (Some empty_response) demo_state2 = (Some r1, s') \<and> rs_errcode r1 = INPUT_PARAM_ERROR \<and>
     namespace_id_map s' = namespace_id_map demo_state2"
proof -
  let ?rq = "(empty_request OP_DROP_NAMESPACE)\<lparr>rq_namespace_info := Some demo_ns\<rparr>"
  obtain r1 s' where c: "drop_namespace demo_E ?rq (Some empty_response) demo_state2 = (Some r1, s')"
    by (simp add: drop_namespace_def demo_simps demo_ns_def)
  have "zone_links demo_state2"
    by (auto simp: zone_links_def at_or_def demo_zone_def split: if_splits option.splits)
  from drop_namespace_guarded [OF this, of 1 demo_zone ?rq demo_E empty_response r1 s'] c show ?thesis
    by (simp add: empty_request_def demo_ns_def demo_zone_def)
qed

subsection \<open>Zones\<close>

lemma zone_info_key_simp: "z_namespace_name z @ CHR 0x01 # z_zone z = zone_info_key z"
  by (simp add: zone_info_key_def make_zone_key_def)



subsection \<open>Ids\<close>

text \<open>No step of the machine brings back an id that a counter has passed.\<close>

definition ids_grow :: "'a servlet_manager_scheme \<Rightarrow> 'a servlet_manager_scheme \<Rightarrow> bool" where
  "ids_grow s s' \<longleftrightarrow> max_namespace_id s \<le> max_namespace_id s' \<and> max_zone_id s \<le> max_zone_id s' \<and>
     (\<forall>n. n \<le> max_namespace_id s \<longrightarrow> namespace_info_map s n = None \<longrightarrow> namespace_info_map s' n = None) \<and>
     (\<forall>n. n \<le> max_zone_id s \<longrightarrow> zone_info_map s n = None \<longrightarrow> zone_info_map s' n = None)"

lemma ids_grow_refl [simp]: "ids_grow s s"
  by (simp add: ids_grow_def)

lemma ids_grow_trans: "ids_grow s s' \<Longrightarrow> ids_grow s' s'' \<Longrightarrow> ids_grow s s''"
  unfolding ids_grow_def by (meson order_trans)

lemma ids_grow_same: "ns_same s s' \<Longrightarrow> zone_same s s' \<Longrightarrow> ids_grow s s'"
  by (simp add: ids_grow_def ns_same_def zone_same_def)

lemma ids_grow_namespace:
  assumes "env_ok E" "ns_registry_ok s"
  shows "ids_grow s (snd (create_namespace E rq dn s))" "ids_grow s (snd (drop_namespace E rq dn s))"
    "ids_grow s (snd (modify_namespace E rq dn s))"
proof -
  have z: "zone_same s (snd (create_namespace E rq dn s))" "zone_same s (snd (drop_namespace E rq dn s))"
    "zone_same s (snd (modify_namespace E rq dn s))"
    using namespace_handlers_zone_same [OF assms] by blast+
  show "ids_grow s (snd (create_namespace E rq dn s))"
    by (rule create_namespace_cases [OF assms(1), of dn s rq])
      (use z(1) in \<open>auto simp: ids_grow_def zone_same_def ns_created_def namespace_accessors dest!: rejected_state\<close>)
  show "ids_grow s (snd (drop_namespace E rq dn s))"
    by (rule drop_namespace_cases [OF assms(1), of dn s rq])
      (use z(2) in \<open>auto simp: ids_grow_def zone_same_def ns_touched_def namespace_accessors dest!: rejected_state\<close>)
  show "ids_grow s (snd (modify_namespace E rq dn s))"
    by (rule modify_namespace_cases [OF assms, of dn rq])
      (use z(3) in \<open>auto simp: ids_grow_def zone_same_def ns_modified_def namespace_accessors dest!: rejected_state\<close>)
qed

lemma ids_grow_zone:
  assumes "env_ok E" "zone_registry_ok s"
  shows "ids_grow s (snd (create_zone E rq dn s))" "ids_grow s (snd (drop_zone E rq dn s))"
    "ids_grow s (snd (modify_zone E rq dn s))"
proof -
  note n = zone_handlers_ns_same [OF assms, of rq dn]
  show "ids_grow s (snd (create_zone E rq dn s))"
    by (rule create_zone_cases [OF assms(1), of dn s rq])
      (use n(1) in \<open>auto simp: ids_grow_def ns_same_def zone_created_def zone_accessors
        simp del: prepared_zone_keeps dest!: rejected_state\<close>)
  show "ids_grow s (snd (drop_zone E rq dn s))"
    by (rule drop_zone_cases [OF assms(1), of dn s rq])
      (use n(2) in \<open>auto simp: ids_grow_def ns_same_def zone_touched_def zone_accessors dest!: rejected_state\<close>)
  show "ids_grow s (snd (modify_zone E rq dn s))"
    by (rule modify_zone_cases [OF assms, of dn rq])
      (use n(3) in \<open>auto simp: ids_grow_def ns_same_def zone_modified_def zone_accessors dest!: rejected_state\<close>)
qed

lemma ids_grow_other:
  assumes "env_ok E"
  shows "ids_grow s (snd (create_servlet E rq dn s))" "ids_grow s (snd (drop_servlet E rq dn s))"
    "ids_grow s (snd (modify_servlet E rq dn s))"
  using servlet_handlers_frame [OF assms, of s rq dn]
  by (auto intro: ids_grow_same servlet_frame_keeps)

lemma ids_grow_schema_same: "schema_same s s' \<Longrightarrow> ids_grow s s'"
  by (blast intro: ids_grow_same schema_same_keeps)

lemma apply_request_ids_grow:
  assumes "env_ok E" "dsm_inv E s"
  shows "ids_grow s (snd (apply_request E rq dn s))"
proof -
  have reg: "ns_registry_ok s" "zone_registry_ok s" using dsm_invD [OF assms(2)] by simp_all
  note h = ids_grow_namespace [OF assms(1) reg(1), of rq dn] ids_grow_zone [OF assms(1) reg(2), of rq dn]
    ids_grow_other [OF assms(1), of s rq dn]
  have i: "schema_same s (snd (add_instance E rq dn s))" "schema_same s (snd (drop_instance E rq dn s))"
    "schema_same s (snd (update_instance E rq dn s))"
    using instance_handlers_frame [OF assms(1), of s rq dn] by (simp_all add: instance_frame_def)
  have u: "schema_same s (snd (create_user E rq dn s))" "schema_same s (snd (drop_user E rq dn s))"
    "schema_same s (snd (add_privilege E rq dn s))" "schema_same s (snd (drop_privilege E rq dn s))"
    using user_handlers_frame [OF assms(1), of s rq dn] by (simp_all add: user_frame_def)
  have c: "schema_same s (snd (create_config E rq dn s))" "schema_same s (snd (remove_config E rq dn s))"
    using config_handlers_frame [OF assms(1), of s rq dn] by (simp_all add: config_frame_def)
  show ?thesis
    by (cases "rq_op_type rq") (simp_all add: apply_request_def h i u c ids_grow_schema_same)
qed

lemma apply_entry_ids_grow:
  assumes "env_ok E" "entry_ok parse e" "dsm_inv E s"
  shows "ids_grow s (snd (apply_entry E parse e s))"
proof (cases "parse (e_data e)")
  case None
  then show ?thesis by (simp add: apply_entry_def)
next
  case (Some rq)
  have "env_ok (entry_env E e)" using assms(1,2) by (auto simp: entry_ok_def env_ok_entry_env)
  from apply_request_ids_grow [OF this, of s rq] assms(3) Some show ?thesis
    by (simp add: apply_entry_def Let_def split_def ids_grow_def)
qed

text \<open>
  C24: ids are never reused: once a namespace or zone id is at or below its counter and free, no
  log, whatever it creates, drops or fails to write, gives that id to a namespace or zone again.
\<close>

theorem ids_never_reused:
  assumes "env_ok E" "list_all (entry_ok parse) es" "dsm_inv E s"
    "n \<le> max_namespace_id s" "namespace_info_map s n = None"
    "m \<le> max_zone_id s" "zone_info_map s m = None"
  shows "namespace_info_map (snd (on_apply E parse es s)) n = None \<and>
    zone_info_map (snd (on_apply E parse es s)) m = None"
proof -
  have "dsm_inv E (snd (apply_log (apply_entry E parse) es s)) \<and>
      ids_grow s (snd (apply_log (apply_entry E parse) es s))"
    by (rule apply_log_invariant [where P = "entry_ok parse" and I = "\<lambda>t. dsm_inv E t \<and> ids_grow s t"])
      (use assms(1-3) in \<open>auto intro: apply_entry_inv ids_grow_trans apply_entry_ids_grow\<close>)
  with assms(4-7) show ?thesis
    unfolding on_apply_def ids_grow_def by blast
qed

theorem ids_never_reused_witness:
  "zone_info_map demo_state2 1 = Some demo_zone \<and>
   (let s = snd (drop_zone demo_E ((empty_request OP_DROP_ZONE)\<lparr>rq_zone_info := Some demo_zone\<rparr>) None demo_state2)
    in zone_info_map s 1 = None \<and>
       zone_info_map (snd (on_apply demo_E demo_request [demo_entry 3 ''z''] s)) 1 = None)"
proof -
  let ?s = "snd (drop_zone demo_E ((empty_request OP_DROP_ZONE)\<lparr>rq_zone_info := Some demo_zone\<rparr>) None demo_state2)"
  have "dsm_inv demo_E (snd (on_apply demo_E demo_request (take 2 demo_log) init_state))"
    using demo_log_ok by (intro on_apply_inv [OF demo_E_ok _ dsm_inv_init]) (simp add: demo_log_def)
  then have "dsm_inv demo_E demo_state2"
    by (simp add: on_apply_def demo_log_def demo_step1 demo_step2 del: apply_log.simps(2))
  then have inv: "dsm_inv demo_E ?s"
    using zone_handlers_dsm_inv(2) [OF demo_E_ok] by blast
  have fields: "zone_info_map ?s 1 = None" "max_zone_id ?s = 1"
    "max_namespace_id ?s = 1" "namespace_info_map ?s = [1 \<mapsto> demo_ns]"
    by (simp_all add: drop_zone_def demo_simps zone_accessors delete_zone_id_def demo_zone_def make_zone_key_def)
  have "list_all (entry_ok demo_request) [demo_entry 3 ''z'']"
    using demo_log_ok by (simp add: demo_log_def demo_entry_def entry_ok_def)
  from ids_never_reused [OF demo_E_ok this inv, of 0 1] fields show ?thesis by simp
qed

end
