(* ===== verification/Queries.thy ===== *)
theory Queries
  imports ConfigManager
begin

text \<open>
  The read-only side of the server: \<open>QueryConfigManager\<close>, \<open>QueryInstanceManager\<close>,
  \<open>QueryNamespaceManager\<close>, \<open>QueryZoneManager\<close>, \<open>QueryServletManager\<close> and
  \<open>QueryPrivilegeManager\<close> (query_*.cc). A query fills a response; where the code reads with
  \<open>operator[]\<close> the state is returned too, since that can insert. The order in which an unordered
  container is walked is an argument.
\<close>

datatype QueryOpType = QUERY_USER_PRIVILEGE | QUERY_NAMESPACE | QUERY_ZONE | QUERY_SERVLET
  | QUERY_PRIVILEGE_FLATTEN | QUERY_GET_CONFIG | QUERY_LIST_CONFIG | QUERY_LIST_CONFIG_VERSION
  | QUERY_INSTANCE | QUERY_INSTANCE_FLATTEN | QUERY_OTHER

record DiscoveryQueryRequest =
  dq_op_type :: QueryOpType
  dq_namespace_name :: "string option"
  dq_zone :: "string option"
  dq_servlet :: "string option"
  dq_user_name :: "string option"
  dq_config_name :: "string option"
  dq_config_version :: "Version option"
  dq_instance_address :: "string option"

record QueryInstance =
  qi_namespace_name :: string
  qi_zone_name :: string
  qi_servlet_name :: string
  qi_env :: string
  qi_color :: string
  qi_version :: int
  qi_status :: int
  qi_address :: string

record QueryUserPrivilege =
  qp_username :: string
  qp_namespace_name :: string
  qp_servlet_rw :: int
  qp_privilege :: string

record DiscoveryQueryResponse =
  dr_errcode :: ErrCode
  dr_errmsg :: string
  dr_op_type :: "QueryOpType option"
  dr_config_infos :: "ConfigInfo list"
  dr_instance :: "ServletInstance list"
  dr_flatten_instances :: "QueryInstance list"
  dr_namespace_infos :: "NameSpaceInfo list"
  dr_zone_infos :: "ZoneInfo list"
  dr_servlet_infos :: "ServletInfo list"
  dr_user_privilege :: "UserPrivilege list"
  dr_flatten_privileges :: "QueryUserPrivilege list"

definition empty_query_response :: DiscoveryQueryResponse where
  "empty_query_response = \<lparr>dr_errcode = SUCCESS, dr_errmsg = [], dr_op_type = None,
     dr_config_infos = [], dr_instance = [], dr_flatten_instances = [], dr_namespace_infos = [],
     dr_zone_infos = [], dr_servlet_infos = [], dr_user_privilege = [], dr_flatten_privileges = []\<rparr>"

definition empty_query :: "QueryOpType \<Rightarrow> DiscoveryQueryRequest" where
  "empty_query op = \<lparr>dq_op_type = op, dq_namespace_name = None, dq_zone = None, dq_servlet = None,
     dq_user_name = None, dq_config_name = None, dq_config_version = None, dq_instance_address = None\<rparr>"

definition query_answer :: "ErrCode \<Rightarrow> string \<Rightarrow> DiscoveryQueryResponse \<Rightarrow> DiscoveryQueryResponse" where
  "query_answer e m r = r\<lparr>dr_errcode := e, dr_errmsg := m\<rparr>"

lemma query_answer_simps [simp]:
  "dr_errcode (query_answer e m r) = e" "dr_errmsg (query_answer e m r) = m"
  "dr_config_infos (query_answer e m r) = dr_config_infos r"
  "dr_instance (query_answer e m r) = dr_instance r"
  "dr_flatten_instances (query_answer e m r) = dr_flatten_instances r"
  by (simp_all add: query_answer_def)

subsection \<open>Configurations\<close>

definition query_get_config ::
  "DiscoveryQueryRequest \<Rightarrow> 'a config_manager_scheme \<Rightarrow> DiscoveryQueryResponse \<Rightarrow> DiscoveryQueryResponse" where
  "query_get_config request s response =
     (case dq_config_name request of
        None \<Rightarrow> query_answer INPUT_PARAM_ERROR ''config name not set'' response
      | Some name \<Rightarrow>
          (case configs s name of
             None \<Rightarrow> query_answer INPUT_PARAM_ERROR ''config not exist'' response
           | Some it \<Rightarrow>
               if it = [] then query_answer INPUT_PARAM_ERROR ''config not exist'' response
               else (case dq_config_version request of
                   None \<Rightarrow> query_answer SUCCESS ''success''
                     (response\<lparr>dr_config_infos := dr_config_infos response @ [snd (last it)]\<rparr>)
                 | Some version \<Rightarrow>
                     (case map_of it (to_module_version version) of
                        None \<Rightarrow> query_answer INPUT_PARAM_ERROR ''config not exist'' response
                      | Some c \<Rightarrow> query_answer SUCCESS ''success''
                          (response\<lparr>dr_config_infos := dr_config_infos response @ [c]\<rparr>)))))"

definition query_list_config ::
  "(string \<times> (ModuleVersion \<times> ConfigInfo) list) list \<Rightarrow> DiscoveryQueryResponse \<Rightarrow> DiscoveryQueryResponse" where
  "query_list_config walk response =
     query_answer SUCCESS ''success'' (response\<lparr>dr_config_infos := dr_config_infos response @
       map (\<lambda>it. empty_ConfigInfo\<lparr>c_name := Some (fst it)\<rparr>) walk\<rparr>)"

definition query_list_config_version ::
  "DiscoveryQueryRequest \<Rightarrow> 'a config_manager_scheme \<Rightarrow> DiscoveryQueryResponse \<Rightarrow> DiscoveryQueryResponse" where
  "query_list_config_version request s response =
     (case dq_config_name request of
        None \<Rightarrow> query_answer INPUT_PARAM_ERROR ''config name not set'' response
      | Some name \<Rightarrow>
          (case configs s name of
             None \<Rightarrow> query_answer INPUT_PARAM_ERROR ''config not exist'' response
           | Some it \<Rightarrow> query_answer SUCCESS ''success''
               (response\<lparr>dr_config_infos := dr_config_infos response @ map snd it\<rparr>)))"

subsection \<open>Namespaces, zones and servlets\<close>

definition query_namespace_info ::
  "(int \<times> NameSpaceInfo) list \<Rightarrow> DiscoveryQueryRequest \<Rightarrow> 'a namespace_manager_scheme \<Rightarrow>
     DiscoveryQueryResponse \<Rightarrow> DiscoveryQueryResponse \<times> 'a namespace_manager_scheme" where
  "query_namespace_info walk request s response =
     (case dq_namespace_name request of
        None \<Rightarrow> (response\<lparr>dr_namespace_infos := dr_namespace_infos response @ map snd walk\<rparr>, s)
      | Some namespace_name \<Rightarrow>
          (case namespace_id_map s namespace_name of
             None \<Rightarrow> (query_answer INPUT_PARAM_ERROR ''namespace not exist'' response, s)
           | Some i \<Rightarrow>
               (response\<lparr>dr_namespace_infos := dr_namespace_infos response @
                   [at_or empty_NameSpaceInfo (namespace_info_map s) i]\<rparr>,
                s\<lparr>namespace_info_map := touch empty_NameSpaceInfo i (namespace_info_map s)\<rparr>)))"

definition query_zone_info ::
  "(int \<times> ZoneInfo) list \<Rightarrow> DiscoveryQueryRequest \<Rightarrow> 'a zone_manager_scheme \<Rightarrow>
     DiscoveryQueryResponse \<Rightarrow> DiscoveryQueryResponse \<times> 'a zone_manager_scheme" where
  "query_zone_info walk request s response =
     (case dq_zone request of
        None \<Rightarrow> (response\<lparr>dr_zone_infos := dr_zone_infos response @ map snd walk\<rparr>, s)
      | Some z \<Rightarrow>
          let zone = str_field (dq_namespace_name request) @ [CHR 0x01] @ z
          in case zone_id_map s zone of
               None \<Rightarrow> (query_answer INPUT_PARAM_ERROR ''zone not exist'' response, s)
             | Some i \<Rightarrow>
                 (response\<lparr>dr_zone_infos := dr_zone_infos response @
                     [at_or empty_ZoneInfo (zone_info_map s) i]\<rparr>,
                  s\<lparr>zone_info_map := touch empty_ZoneInfo i (zone_info_map s)\<rparr>))"

definition query_servlet_info ::
  "(int \<times> ServletInfo) list \<Rightarrow> DiscoveryQueryRequest \<Rightarrow> 'a servlet_manager_scheme \<Rightarrow>
     DiscoveryQueryResponse \<Rightarrow> DiscoveryQueryResponse \<times> 'a servlet_manager_scheme" where
  "query_servlet_info walk request s response =
     (case dq_servlet request of
        None \<Rightarrow> (response\<lparr>dr_servlet_infos := dr_servlet_infos response @ map snd walk\<rparr>, s)
      | Some v \<Rightarrow>
          let zone = str_field (dq_namespace_name request) @ [CHR 0x01] @ str_field (dq_zone request);
              servlet = zone @ [CHR 0x01] @ v
          in case servlet_id_map s servlet of
               None \<Rightarrow> (query_answer INPUT_PARAM_ERROR ''servlet not exist'' response, s)
             | Some i \<Rightarrow>
                 (response\<lparr>dr_servlet_infos := dr_servlet_infos response @
                     [at_or empty_ServletInfo (servlet_info_map s) i]\<rparr>,
                  s\<lparr>servlet_info_map := touch empty_ServletInfo i (servlet_info_map s)\<rparr>))"

subsection \<open>Instances\<close>

text \<open>
  The order in which a hash set is walked, \<open>turbo::Trim\<close>, \<open>turbo::Format\<close> and the default of the
  status enum come from outside the repository.
\<close>

record query_env =
  set_order :: "string set \<Rightarrow> string list"
  trim :: "string \<Rightarrow> string"
  fmt :: "string \<Rightarrow> string list \<Rightarrow> string"
  status_unset :: int

definition query_env_ok :: "query_env \<Rightarrow> bool" where
  "query_env_ok Q \<longleftrightarrow> (\<forall>A. finite A \<longrightarrow> set (set_order Q A) = A \<and> distinct (set_order Q A))"

definition instance_info_to_query :: "query_env \<Rightarrow> ServletInstance \<Rightarrow> QueryInstance" where
  "instance_info_to_query Q i =
     \<lparr>qi_namespace_name = str_field (si_namespace_name i), qi_zone_name = str_field (si_zone_name i),
      qi_servlet_name = str_field (si_servlet_name i), qi_env = str_field (si_env i),
      qi_color = str_field (si_color i), qi_version = si_version i,
      qi_status = msg (status_unset Q) (si_status i), qi_address = str_field (si_address i)\<rparr>"

definition query_instance ::
  "DiscoveryQueryRequest \<Rightarrow> 'a instance_manager_scheme \<Rightarrow> DiscoveryQueryResponse \<Rightarrow> DiscoveryQueryResponse" where
  "query_instance request s response =
     (case dq_instance_address request of
        None \<Rightarrow> query_answer INPUT_PARAM_ERROR ''no instance address'' response
      | Some address \<Rightarrow>
          (case instance_info s address of
             None \<Rightarrow> query_answer INPUT_PARAM_ERROR ''instance not exists'' response
           | Some i \<Rightarrow> query_answer SUCCESS ''success''
               (response\<lparr>dr_instance := dr_instance response @ [i]\<rparr>)))"

text \<open>The loop over the addresses of an index set.\<close>

fun collect_instances ::
  "query_env \<Rightarrow> string list \<Rightarrow> 'a instance_manager_scheme \<Rightarrow> DiscoveryQueryResponse \<Rightarrow>
     DiscoveryQueryResponse \<times> 'a instance_manager_scheme" where
  "collect_instances Q [] s response = (query_answer SUCCESS ''success'' response, s)"
| "collect_instances Q (address # rest) s response =
     (let info = at_or empty_ServletInstance (instance_info s) address;
          s = s\<lparr>instance_info := touch empty_ServletInstance address (instance_info s)\<rparr>
      in collect_instances Q rest s (response\<lparr>dr_flatten_instances :=
           dr_flatten_instances response @ [instance_info_to_query Q info]\<rparr>))"

definition query_instance_flatten ::
  "query_env \<Rightarrow> (string \<times> ServletInstance) list \<Rightarrow> DiscoveryQueryRequest \<Rightarrow> 'a instance_manager_scheme \<Rightarrow>
     DiscoveryQueryResponse \<Rightarrow> DiscoveryQueryResponse \<times> 'a instance_manager_scheme" where
  "query_instance_flatten Q walk request s response =
     (let n = str_field (dq_namespace_name request); z = str_field (dq_zone request);
          v = str_field (dq_servlet request)
      in if n = [] then
           (query_answer SUCCESS ''success'' (response\<lparr>dr_flatten_instances :=
              dr_flatten_instances response @ map (\<lambda>it. instance_info_to_query Q (snd it)) walk\<rparr>), s)
         else if z = [] then
           (case namespace_instance s n of
              None \<Rightarrow> (query_answer INPUT_PARAM_ERROR (fmt Q ''no instance in namespace {}'' [n]) response, s)
            | Some addrs \<Rightarrow> collect_instances Q (set_order Q addrs) s response)
         else if v = [] then
           (case zone_instance s (make_zone_key n z) of
              None \<Rightarrow> (query_answer INPUT_PARAM_ERROR (fmt Q ''no instance in namespace {}.{}'' [n, z]) response, s)
            | Some addrs \<Rightarrow> collect_instances Q (set_order Q addrs) s response)
         else
           (case servlet_instance s (make_servlet_key n z v) of
              None \<Rightarrow> (query_answer INPUT_PARAM_ERROR (fmt Q ''no instance in {}.{}.{}'' [n, z, v]) response, s)
            | Some addrs \<Rightarrow> collect_instances Q (set_order Q addrs) s response))"

subsection \<open>Users\<close>

definition query_user_info ::
  "(string \<times> UserPrivilege) list \<Rightarrow> DiscoveryQueryRequest \<Rightarrow> 'a privilege_manager_scheme \<Rightarrow>
     DiscoveryQueryResponse \<Rightarrow> DiscoveryQueryResponse" where
  "query_user_info walk request s response =
     (case dq_user_name request of
        None \<Rightarrow> response\<lparr>dr_user_privilege := dr_user_privilege response @ map snd walk\<rparr>
      | Some user_name \<Rightarrow>
          (case user_privilege s user_name of
             None \<Rightarrow> query_answer INPUT_PARAM_ERROR ''username not exist'' response
           | Some u \<Rightarrow> response\<lparr>dr_user_privilege := dr_user_privilege response @ [u]\<rparr>))"

text \<open>\<open>std::multimap::insert\<close>: after the entries with an equal key.\<close>

definition multimap_insert :: "'k::linorder \<Rightarrow> 'v \<Rightarrow> ('k \<times> 'v) list \<Rightarrow> ('k \<times> 'v) list" where
  "multimap_insert k v m = takeWhile (\<lambda>p. fst p \<le> k) m @ (k, v) # dropWhile (\<lambda>p. fst p \<le> k) m"

type_synonym flat_privileges = "(string \<times> (string \<times> QueryUserPrivilege) list) list"

definition add_flat :: "string \<Rightarrow> string \<Rightarrow> QueryUserPrivilege \<Rightarrow> flat_privileges \<Rightarrow> flat_privileges" where
  "add_flat namespace_name username q m =
     omap_put namespace_name (multimap_insert username q (msg [] (map_of m namespace_name))) m"

definition construct_query_response_for_servlet_privilege ::
  "env \<Rightarrow> UserPrivilege \<Rightarrow> flat_privileges \<Rightarrow> flat_privileges" where
  "construct_query_response_for_servlet_privilege E u m =
     (let namespace_name = up_namespace_name u; username = up_username u;
          m = fold (\<lambda>p. add_flat namespace_name username
                \<lparr>qp_username = username, qp_namespace_name = namespace_name,
                 qp_servlet_rw = zone_rw E p, qp_privilege = pz_zone p @ ''.*''\<rparr>) (up_privilege_zone u) m
      in fold (\<lambda>p. add_flat namespace_name username
                \<lparr>qp_username = username, qp_namespace_name = namespace_name,
                 qp_servlet_rw = servlet_rw E p,
                 qp_privilege = ps_zone p @ ''.'' @ ps_servlet_name p\<rparr>) (up_privilege_servlet u) m)"

definition query_flatten_servlet_privilege ::
  "env \<Rightarrow> query_env \<Rightarrow> (string \<times> UserPrivilege) list \<Rightarrow> DiscoveryQueryRequest \<Rightarrow>
     'a privilege_manager_scheme \<Rightarrow> DiscoveryQueryResponse \<Rightarrow> DiscoveryQueryResponse" where
  "query_flatten_servlet_privilege E Q walk request s response =
     (let user_name = trim Q (str_field (dq_user_name request));
          namespace_name = trim Q (str_field (dq_namespace_name request));
          m = [];
          m = (if user_name = [] \<and> namespace_name = []
               then fold (\<lambda>p. construct_query_response_for_servlet_privilege E (snd p)) walk m else m);
          m = (case user_privilege s user_name of
                 Some u \<Rightarrow> (if user_name \<noteq> [] then construct_query_response_for_servlet_privilege E u m else m)
               | None \<Rightarrow> m);
          m = (if namespace_name \<noteq> []
               then fold (\<lambda>p m. if up_namespace_name (snd p) \<noteq> namespace_name then m
                               else construct_query_response_for_servlet_privilege E (snd p) m) walk m
               else m)
      in response\<lparr>dr_flatten_privileges := dr_flatten_privileges response @
           concat (map (\<lambda>p. map snd (snd p)) m)\<rparr>)"

subsection \<open>What the queries find\<close>

lemma query_namespace_reads_only:
  assumes "ns_registry_ok s"
  shows "snd (query_namespace_info walk rq s r) = s"
proof -
  have "touch empty_NameSpaceInfo i (namespace_info_map s) = namespace_info_map s"
    if "namespace_id_map s k = Some i" for k i
    using assms that unfolding ns_registry_ok_def by (auto dest: registry_okD1)
  then show ?thesis
    by (auto simp: query_namespace_info_def split: option.splits)
qed

lemma query_zone_reads_only:
  assumes "zone_registry_ok s"
  shows "snd (query_zone_info walk rq s r) = s"
proof -
  have "touch empty_ZoneInfo i (zone_info_map s) = zone_info_map s"
    if "zone_id_map s k = Some i" for k i
    using assms that unfolding zone_registry_ok_def by (auto dest: registry_okD1)
  then show ?thesis
    by (auto simp: query_zone_info_def Let_def split: option.splits)
qed

lemma collect_instances_ok:
  assumes "\<forall>a \<in> set as. \<exists>i. instance_info s a = Some i"
  shows "collect_instances Q as s r =
    (query_answer SUCCESS ''success'' (r\<lparr>dr_flatten_instances := dr_flatten_instances r @
       map (\<lambda>a. instance_info_to_query Q (the (instance_info s a))) as\<rparr>), s)"
  using assms by (induction as arbitrary: r) (auto simp: Let_def)

lemma query_latest_config:
  assumes "configs s name = Some it" "it \<noteq> []" "dq_config_name rq = Some name" "dq_config_version rq = None"
  shows "query_get_config rq s r = query_answer SUCCESS ''success''
    (r\<lparr>dr_config_infos := dr_config_infos r @ [snd (last it)]\<rparr>)"
  using assms by (simp add: query_get_config_def)

end
