(* ===== verification/ServletProperties.thy ===== *)
theory ServletProperties
  imports DemoWorld Queries
begin

text \<open>
  What the servlet and instance handlers do, including where they do not do what they mean to:
  \<open>create_servlet\<close> lists the servlet under its namespace's id, \<open>modify_servlet\<close> edits the entry of
  the zone's id, and \<open>drop_instance\<close> forgets the siblings of the instance it drops.
\<close>

subsection \<open>Servlets\<close>

text \<open>
  A created servlet resolves under its name to the next servlet id, with its namespace's and
  zone's ids, but it is listed under the id of its namespace. When that differs from the zone's id,
  the zone's own list is unchanged, so a zone that had no servlet still counts as empty: dropping it
  succeeds and leaves the servlet behind.
\<close>

lemma created_servlet_is_orphaned:
  assumes "env_ok E" "create_servlet E rq (Some r0) s = (Some r1, s')" "rs_errcode r1 = SUCCESS"
    "r = msg empty_ServletInfo (rq_servlet_info rq)"
    "zone_id_map s (make_zone_key (sv_namespace_name r) (sv_zone r)) = Some z"
    "namespace_id_map s (sv_namespace_name r) = Some m" "m \<noteq> 0" "z \<noteq> 0" "z \<noteq> m" "at_or {} (servlet_ids s) z = {}"
    "drop_zone E' (rq'\<lparr>rq_zone_info := Some (zi\<lparr>z_namespace_name := sv_namespace_name r, z_zone := sv_zone r\<rparr>)\<rparr>)
       (Some r0) s' = (Some r2, s'')"
    "rocks_write E' [Delete (construct_zone_key z)] (rocks s') \<noteq> None"
  shows "servlet_id_map s' (servlet_info_key r) = Some (max_servlet_id s + 1) \<and>
    max_servlet_id s + 1 \<in> at_or {} (servlet_ids s') m \<and> at_or {} (servlet_ids s') z = {} \<and>
    rs_errcode r2 = SUCCESS \<and> zone_info_map s'' z = None \<and>
    (\<exists>i. servlet_info_map s'' (max_servlet_id s + 1) = Some i \<and> sv_zone_id i = z)"
proof -
  obtain i v where i: "sv_servlet_id i = max_servlet_id s + 1" "sv_namespace_id i = m" "sv_zone_id i = z"
    "servlet_info_key i = servlet_info_key r" "s' = servlet_created i v s"
  proof (rule create_servlet_cases [OF assms(1), of "Some r0" s rq], goal_cases)
    case 1
    then show ?case using assms(2,3) by (auto simp: rejected_def)
  next
    case (2 i v)
    have n: "sv_namespace_name i = sv_namespace_name r" "sv_zone i = sv_zone r"
      "servlet_info_key i = servlet_info_key r"
      using 2(6) assms(4) by (metis prepared_servlet_keeps(1-3))+
    then have "sv_namespace_id i = m" "sv_zone_id i = z"
      using 2(4,5) assms(5,6) by simp_all
    moreover have "s' = servlet_created i v s" using 2(8) assms(2) by simp
    ultimately show ?case using that [of i v] 2(3) n(3) by blast
  qed
  have z': "zone_id_map s' (make_zone_key (sv_namespace_name r) (sv_zone r)) = Some z"
    "get_namespace_id (sv_namespace_name r) s' = m"
    using assms(5,6) i(5) by (simp_all add: servlet_created_def servlet_accessors zone_accessors get_namespace_id_def)
  have lists: "at_or {} (servlet_ids s') m = insert (max_servlet_id s + 1) (at_or {} (servlet_ids s) m)"
    "at_or {} (servlet_ids s') z = {}"
    using assms(9,10) i(1,2,5)
    by (auto simp: servlet_created_def zone_accessors servlet_accessors at_or_def split: option.splits)
  have maps: "servlet_id_map s' (servlet_info_key r) = Some (max_servlet_id s + 1)"
    "servlet_info_map s' (max_servlet_id s + 1) = Some i"
    using i(1,4,5) by (simp_all add: servlet_created_def servlet_accessors zone_accessors)
  show ?thesis
    using assms(7,8,11,12) z' lists maps i(3)
    by (auto simp: drop_zone_def Let_def make_zone_key_def remove_discovery_info_def delete_zone_id_def
        zone_accessors split: option.splits)
qed

definition orphan_state :: discovery_state_machine where
  "orphan_state = demo_state2\<lparr>max_zone_id := 2,
     zone_id_map := [make_zone_key ''n'' ''z'' \<mapsto> 2],
     zone_info_map := [2 \<mapsto> demo_zone\<lparr>z_zone_id := 2\<rparr>], zone_ids := [1 \<mapsto> {2}]\<rparr>"

definition orphan_servlet :: ServletInfo where
  "orphan_servlet = demo_servlet\<lparr>sv_zone_id := 2\<rparr>"

definition orphan_env :: env where
  "orphan_env = demo_E\<lparr>servlet_pb := table_pb [(orphan_servlet, ''S'')]\<rparr>"

lemma created_servlet_is_orphaned_witness:
  "\<exists>r1 s' r2 s''.
     create_servlet orphan_env ((empty_request OP_CREATE_SERVLET)\<lparr>rq_servlet_info := Some demo_servlet\<rparr>)
       (Some empty_response) orphan_state = (Some r1, s') \<and>
     drop_zone demo_E ((empty_request OP_DROP_ZONE)\<lparr>rq_zone_info := Some demo_zone\<rparr>) (Some empty_response) s'
       = (Some r2, s'') \<and>
     rs_errcode r2 = SUCCESS \<and> zone_info_map s'' 2 = None \<and>
     (\<exists>i. servlet_info_map s'' 1 = Some i \<and> sv_zone_id i = 2)"
proof -
  let ?rq = "(empty_request OP_CREATE_SERVLET)\<lparr>rq_servlet_info := Some demo_servlet\<rparr>"
  let ?rq' = "(empty_request OP_DROP_ZONE)
     \<lparr>rq_zone_info := Some (demo_zone\<lparr>z_namespace_name := ''n'', z_zone := ''z''\<rparr>)\<rparr>"
  have zone: "demo_zone\<lparr>z_namespace_name := ''n'', z_zone := ''z''\<rparr> = demo_zone"
    by (simp add: demo_zone_def)
  have ok: "env_ok orphan_env"
    using demo_E_ok by (simp add: env_ok_def orphan_env_def table_pb_ok)
  have r: "msg empty_ServletInfo (rq_servlet_info ?rq) = demo_servlet" "sv_namespace_name demo_servlet = ''n''"
    "sv_zone demo_servlet = ''z''"
    by (simp_all add: empty_request_def demo_servlet_def)
  have st: "zone_id_map orphan_state (make_zone_key ''n'' ''z'') = Some 2" "namespace_id_map orphan_state ''n'' = Some 1"
    "at_or {} (servlet_ids orphan_state) 2 = {}" "max_servlet_id orphan_state = 0"
    by (simp_all add: orphan_state_def)
  obtain r1 s' where c: "create_servlet orphan_env ?rq (Some empty_response) orphan_state = (Some r1, s')"
    "rs_errcode r1 = SUCCESS"
    by (simp add: create_servlet_def demo_simps orphan_env_def orphan_servlet_def orphan_state_def demo_servlet_def
        servlet_accessors zone_accessors prepared_servlet_def make_zone_key_def demo_ns_def)
  obtain r2 s'' where d: "drop_zone demo_E ?rq' (Some empty_response) s' = (Some r2, s'')"
    by (cases "drop_zone demo_E ?rq' (Some empty_response) s'")
      (auto simp: drop_zone_def Let_def split_def split: if_splits)
  have w: "rocks_write demo_E [Delete (construct_zone_key 2)] (rocks s') \<noteq> None"
    by (simp add: demo_E_def demo_env_def)
  show ?thesis
    using created_servlet_is_orphaned [OF ok c r(1) [symmetric], unfolded r(2,3), OF st(1,2) _ _ _ st(3) d w] c d
    by (auto simp: st(4) zone)
qed

text \<open>
  C39: \<open>drop_servlet\<close> never succeeds on names without the separator byte: it looks for the zone's key
  among the servlets, answers that the zone does not exist and changes nothing.
\<close>

theorem drop_servlet_never_succeeds:
  assumes "servlet_weak s" "clean_name (sv_namespace_name (msg empty_ServletInfo (rq_servlet_info rq)))"
    "clean_name (sv_zone (msg empty_ServletInfo (rq_servlet_info rq)))"
    "drop_servlet E rq (Some r0) s = (Some r1, s')"
  shows "rs_errcode r1 = INPUT_PARAM_ERROR \<and> s' = s"
  using zone_key_absent [OF assms(1-3)] assms(4)
  by (auto simp: drop_servlet_def Let_def make_zone_key_def split: if_splits)

theorem drop_servlet_never_succeeds_witness:
  "\<exists>r1. drop_servlet demo_E ((empty_request OP_DROP_SERVLET)\<lparr>rq_servlet_info := Some demo_servlet\<rparr>)
      (Some empty_response) demo_state3 = (Some r1, demo_state3) \<and> rs_errcode r1 = INPUT_PARAM_ERROR \<and>
     servlet_id_map demo_state3 (make_servlet_key ''n'' ''z'' ''s'') = Some 1"
proof -
  let ?rq = "(empty_request OP_DROP_SERVLET)\<lparr>rq_servlet_info := Some demo_servlet\<rparr>"
  have weak: "servlet_weak demo_state3"
    by (auto simp: servlet_weak_def demo_servlet_def servlet_info_key_def split: if_splits
        intro!: exI [of _ demo_servlet])
  obtain r1 s' where d: "drop_servlet demo_E ?rq (Some empty_response) demo_state3 = (Some r1, s')"
    by (cases "drop_servlet demo_E ?rq (Some empty_response) demo_state3")
      (auto simp: drop_servlet_def Let_def split_def split: if_splits)
  from drop_servlet_never_succeeds [OF weak _ _ d] d show ?thesis
    by (simp add: empty_request_def demo_servlet_def clean_name_def)
qed

text \<open>
  A successful \<open>modify_servlet\<close> does not edit the servlet it names. It takes the in-memory entry
  stored under the id of the zone, raises that entry's version and tag, files it under that entry's
  own id, and overwrites the stored entry of the named servlet with it.
\<close>

lemma modify_servlet_edits_zone_entry:
  assumes "env_ok E" "modify_servlet E rq (Some r0) s = (Some r1, s')" "rs_errcode r1 = SUCCESS"
    "r = msg empty_ServletInfo (rq_servlet_info rq)"
    "zone_id_map s (make_zone_key (sv_namespace_name r) (sv_zone r)) = Some z"
    "servlet_id_map s (servlet_info_key r) = Some n"
    "old = at_or empty_ServletInfo (servlet_info_map s) z" "n \<noteq> z" "n \<noteq> sv_servlet_id old"
  shows "servlet_info_map s' n = servlet_info_map s n \<and>
    servlet_info_map s' (sv_servlet_id old) = Some (modified_servlet r old) \<and>
    rocks s' (construct_servlet_key n) = pb_serialize (servlet_pb E) (modified_servlet r old)"
proof (rule modify_servlet_cases [OF assms(1), of "Some r0" s rq], goal_cases)
  case 1
  then show ?case using assms(2,3) by (auto simp: rejected_def)
next
  case (2 m)
  then show ?case using assms(2,3) by (auto simp: rejected_def)
next
  case (3 r' m n' i v)
  then have "r' = r" "m = z" "n' = n" "i = modified_servlet r old" "s' = servlet_modified z n i v s"
    using assms(2,4-7) by auto
  moreover have "sv_servlet_id (modified_servlet r old) = sv_servlet_id old"
    by (simp add: modified_servlet_def)
  ultimately show ?case
    using assms(8,9) 3(5) by (simp add: servlet_modified_def servlet_accessors touch_def split: option.split)
qed

definition servlet_t :: ServletInfo where
  "servlet_t = demo_servlet\<lparr>sv_servlet_name := ''t''\<rparr>"

definition two_servlets :: discovery_state_machine where
  "two_servlets = demo_state3\<lparr>max_servlet_id := 2,
     servlet_id_map := [make_servlet_key ''n'' ''z'' ''t'' \<mapsto> 1, make_servlet_key ''n'' ''z'' ''s'' \<mapsto> 2],
     servlet_info_map := [1 \<mapsto> servlet_t, 2 \<mapsto> demo_servlet\<lparr>sv_servlet_id := 2\<rparr>]\<rparr>"

definition tagged_env :: env where
  "tagged_env = demo_E\<lparr>servlet_pb := table_pb [(servlet_t\<lparr>sv_version := 2, sv_resource_tag := Some ''x''\<rparr>, ''M'')]\<rparr>"

lemma modify_servlet_edits_zone_entry_witness:
  "\<exists>r1 s'. modify_servlet tagged_env ((empty_request OP_MODIFY_SERVLET)
       \<lparr>rq_servlet_info := Some (demo_servlet\<lparr>sv_resource_tag := Some ''x''\<rparr>)\<rparr>)
       (Some empty_response) two_servlets = (Some r1, s') \<and> rs_errcode r1 = SUCCESS \<and>
     servlet_info_map s' 2 = servlet_info_map two_servlets 2 \<and>
     servlet_info_map s' 1 = Some (servlet_t\<lparr>sv_version := 2, sv_resource_tag := Some ''x''\<rparr>)"
proof -
  let ?rq = "(empty_request OP_MODIFY_SERVLET)
       \<lparr>rq_servlet_info := Some (demo_servlet\<lparr>sv_resource_tag := Some ''x''\<rparr>)\<rparr>"
  let ?r = "demo_servlet\<lparr>sv_resource_tag := Some ''x''\<rparr>"
  have ok: "env_ok tagged_env"
    using demo_E_ok by (simp add: env_ok_def tagged_env_def table_pb_ok)
  have st: "zone_id_map two_servlets (make_zone_key (sv_namespace_name ?r) (sv_zone ?r)) = Some 1"
    "servlet_id_map two_servlets (servlet_info_key ?r) = Some 2"
    "at_or empty_ServletInfo (servlet_info_map two_servlets) 1 = servlet_t" "sv_servlet_id servlet_t = 1"
    by (simp_all add: two_servlets_def demo_servlet_def servlet_info_key_def servlet_t_def)
  obtain r1 s' where c: "modify_servlet tagged_env ?rq (Some empty_response) two_servlets = (Some r1, s')"
    "rs_errcode r1 = SUCCESS"
    by (simp add: modify_servlet_def demo_simps tagged_env_def two_servlets_def servlet_t_def demo_servlet_def
        make_zone_key_def make_servlet_key_def modified_servlet_def keep_or_def)
  have m: "modified_servlet ?r servlet_t = servlet_t\<lparr>sv_version := 2, sv_resource_tag := Some ''x''\<rparr>"
    by (simp add: modified_servlet_def servlet_t_def demo_servlet_def empty_ServletInfo_def keep_or_def)
  have r: "?r = msg empty_ServletInfo (rq_servlet_info ?rq)"
    by (simp add: empty_request_def)
  from modify_servlet_edits_zone_entry [OF ok c r st(1,2) st(3) [symmetric]] c show ?thesis
    by (auto simp: st(4) m)
qed

subsection \<open>Instances\<close>


definition sibling_state :: discovery_state_machine where
  "sibling_state = set_instance_info (demo_instance\<lparr>si_address := Some ''b''\<rparr>) demo_state4"

definition drop_a :: DiscoveryManagerRequest where
  "drop_a = (empty_request OP_DROP_INSTANCE)\<lparr>rq_instance_info := Some demo_instance\<rparr>"

definition demo_query_env :: query_env where
  "demo_query_env = \<lparr>set_order = (\<lambda>A. []), trim = (\<lambda>s. s), fmt = (\<lambda>f args. f), status_unset = 0\<rparr>"


text \<open>
  C38: for an hour after an instance was dropped its address cannot be added again, whatever the
  request says, and the refused request changes nothing; the hour is measured with the clock of the
  machine that applies the entry. From then on an otherwise valid request succeeds.
\<close>

theorem dropped_address_banned:
  assumes "env_ok E" "drop_instance E rq (Some r0) s = (Some r1, s')" "rs_errcode r1 = SUCCESS"
    "str_field (si_address (msg empty_ServletInstance (rq_instance_info rq'))) =
     str_field (si_address (msg empty_ServletInstance (rq_instance_info rq)))"
    "add_instance E' rq' (Some r0') s' = (Some r2, s'')"
    "check_and_get_for_instance (msg empty_ServletInstance (rq_instance_info rq')) s' = (0, i)"
    "pb_serialize (instance_pb E') (i\<lparr>si_version := 1\<rparr>) = Some v"
    "rocks_write E' [Put (construct_instance_key (str_field (si_address i))) v] (rocks s') = Some db"
  shows "if now_us E' - now_us E < 3600 * 1000000
    then rs_errcode r2 = INPUT_PARAM_ERROR \<and> s'' = s'
    else rs_errcode r2 = SUCCESS \<and> instance_info s'' (str_field (si_address i)) = Some (i\<lparr>si_version := 1\<rparr>)"
proof (rule drop_instance_cases [OF assms(1), of "Some r0" s rq], goal_cases)
  case 1
  then show ?case using assms(2,3) by (auto simp: rejected_def)
next
  case (2 a j)
  then have s': "s' = remove_instance_info E a (s\<lparr>rocks := (rocks s)(construct_instance_key a := None)\<rparr>)"
    and a: "str_field (si_address (msg empty_ServletInstance (rq_instance_info rq'))) = a"
    using assms(2,4) by simp_all
  have maps: "instance_info s' a = None" "removed_instance s' a = Some (TimeCost_new (now_us E))"
    by (simp_all add: s' instance_accessors)
  have addr: "str_field (si_address i) = a"
    using check_and_get_for_instance_fields [OF assms(6)] a by simp
  have time: "get_time_s (now_us E') (TimeCost_new (now_us E)) < 3600 \<longleftrightarrow> now_us E' - now_us E < 3600 * 1000000"
    by (simp add: get_time_s_less TimeCost_new_def)
  show ?case
    using assms(5-8) maps a addr time
    by (auto simp: add_instance_def Let_def put_discovery_infos_def instance_accessors)
qed

theorem dropped_address_banned_witness:
  "\<exists>r1 s' r2 r3 s3. drop_instance demo_E drop_a (Some empty_response) demo_state4 = (Some r1, s') \<and>
     add_instance (demo_E\<lparr>now_us := 5\<rparr>) (the (demo_request ''i'')) (Some empty_response) s' = (Some r2, s') \<and>
     rs_errcode r2 = INPUT_PARAM_ERROR \<and>
     add_instance (demo_E\<lparr>now_us := 3600000000\<rparr>) (the (demo_request ''i'')) (Some empty_response) s' = (Some r3, s3) \<and>
     rs_errcode r3 = SUCCESS"
proof -
  let ?rq = "the (demo_request ''i'')"
  obtain r1 s' where c: "drop_instance demo_E drop_a (Some empty_response) demo_state4 = (Some r1, s')"
    "rs_errcode r1 = SUCCESS"
    by (simp add: drop_instance_def drop_a_def demo_simps demo_instance_def)
  have rq: "msg empty_ServletInstance (rq_instance_info ?rq) = demo_instance"
    "msg empty_ServletInstance (rq_instance_info drop_a) = demo_instance"
    by (simp_all add: demo_request_def empty_request_def drop_a_def)
  have s': "s' = remove_instance_info demo_E ''a''
      (demo_state4\<lparr>rocks := (rocks demo_state4)(construct_instance_key ''a'' := None)\<rparr>)"
    using c(1) by (simp add: drop_instance_def Let_def rq(2) remove_discovery_info_def demo_E_def demo_env_def
        demo_instance_def)
  have chk: "check_and_get_for_instance (msg empty_ServletInstance (rq_instance_info ?rq)) s' = (0, demo_instance)"
    unfolding rq(1)
    by (simp add: s' remove_instance_info_def Let_def check_and_get_for_instance_def get_namespace_id_def
        get_zone_id_def get_servlet_id_def demo_instance_def make_servlet_key_eq empty_ServletInstance_def)
  have ser: "pb_serialize (instance_pb (demo_E\<lparr>now_us := t\<rparr>)) (demo_instance\<lparr>si_version := 1\<rparr>) = Some ''I''" for t
    by (simp add: demo_E_def table_pb_def demo_instance_def)
  have w: "rocks_write (demo_E\<lparr>now_us := t\<rparr>) b db = Some (apply_batch b db)" for t b db
    by (simp add: demo_E_def demo_env_def)
  have addr: "str_field (si_address (msg empty_ServletInstance (rq_instance_info ?rq))) =
      str_field (si_address (msg empty_ServletInstance (rq_instance_info drop_a)))"
    by (simp add: rq)
  have some: "\<exists>r t'. add_instance (demo_E\<lparr>now_us := t\<rparr>) ?rq (Some empty_response) s' = (Some r, t')" for t
    using chk by (auto simp: add_instance_def Let_def ser put_discovery_infos_def w split: option.split)
  obtain r2 s2 where a2: "add_instance (demo_E\<lparr>now_us := 5\<rparr>) ?rq (Some empty_response) s' = (Some r2, s2)"
    using some by blast
  obtain r3 s3 where a3: "add_instance (demo_E\<lparr>now_us := 3600000000\<rparr>) ?rq (Some empty_response) s' = (Some r3, s3)"
    using some by blast
  have now: "now_us demo_E = 0" by (simp add: demo_E_def demo_env_def)
  show ?thesis
    using dropped_address_banned [OF demo_E_ok c addr a2 chk ser w] dropped_address_banned [OF demo_E_ok c addr a3 chk ser w]
      c a2 a3 now by simp
qed

definition clock_request :: "string \<Rightarrow> DiscoveryManagerRequest option" where
  "clock_request = demo_request(''d'' \<mapsto> drop_a)"

text \<open>
  Replicas that apply the same log can end in different states: whether an address may be added
  again depends on the clock of the replica that applies the entry, so a log that drops an instance
  and adds it back is accepted where the clock shows an hour later and refused where it does not.
\<close>

lemma replicas_diverge_by_clock:
  "\<exists>log log'. map (\<lambda>e. e\<lparr>e_now := 0\<rparr>) log = map (\<lambda>e. e\<lparr>e_now := 0\<rparr>) log' \<and>
     snd (on_apply demo_E clock_request log init_state) \<noteq> snd (on_apply demo_E clock_request log' init_state)"
proof -
  let ?base = "[demo_entry 1 ''n'', demo_entry 2 ''z'', demo_entry 3 ''s'', demo_entry 4 ''i'', demo_entry 5 ''d'']"
  let ?add = "\<lambda>t. (demo_entry 6 ''i'')\<lparr>e_now := t\<rparr>"
  let ?run = "\<lambda>t. snd (on_apply demo_E clock_request (?base @ [?add t]) init_state)"
  have same: "apply_entry demo_E clock_request (demo_entry i d) = apply_entry demo_E demo_request (demo_entry i d)"
    if "d \<noteq> ''d''" for i d
    using that by (simp add: fun_eq_iff apply_entry_def clock_request_def demo_entry_def)
  let ?s5 = "snd (apply_entry demo_E clock_request (demo_entry 5 ''d'') demo_state4)"
  have run: "?run t = snd (apply_entry demo_E clock_request (?add t) ?s5)" for t
    by (simp add: on_apply_def apply_log_append same demo_step1 demo_step2 demo_step3 demo_step4
        del: apply_log.simps(2))
  have s5: "?s5 = (remove_instance_info demo_E ''a''
      (demo_state4\<lparr>rocks := (rocks demo_state4)(construct_instance_key ''a'' := None)\<rparr>))\<lparr>applied_index := 5\<rparr>"
    by (simp add: apply_entry_def clock_request_def drop_a_def demo_entry_def empty_request_def apply_request_def
        drop_instance_def Let_def remove_discovery_info_def entry_env_def demo_instance_def demo_E_def demo_env_def
        remove_instance_info_def)
  have "instance_info (?run t) ''a'' = (if t < 3600000000 then None else Some demo_instance)" for t
    unfolding run s5
    by (simp add: apply_entry_def clock_request_def demo_request_def demo_entry_def empty_request_def apply_request_def
        add_instance_def Let_def put_discovery_infos_def entry_env_def demo_E_def demo_env_def table_pb_def
        remove_instance_info_def check_and_get_for_instance_def get_namespace_id_def get_zone_id_def
        get_servlet_id_def demo_instance_def make_servlet_key_eq empty_ServletInstance_def get_time_s_less
        TimeCost_new_def set_instance_info_maps)
  from this [of 0] this [of 3600000000] have "?run 0 \<noteq> ?run 3600000000" by auto
  then show ?thesis
    by (intro exI [of _ "?base @ [?add 0]"] exI [of _ "?base @ [?add 3600000000]"]) simp
qed

end
