(* ===== verification/Decimal.thy ===== *)
theory Decimal
  imports EaPrelude
begin

text \<open>
  Decimal notation: \<open>std::to_string\<close> of an integer and the reading of it back, which the
  auto increment snapshot and the snapshot path parser rely on.
\<close>

fun nat_to_string :: "nat \<Rightarrow> string" where
  "nat_to_string n =
     (if n < 10 then [char_of (48 + n)] else nat_to_string (n div 10) @ [char_of (48 + n mod 10)])"

declare nat_to_string.simps [simp del]

definition int_to_string :: "int \<Rightarrow> string" where
  "int_to_string i = (if i < 0 then CHR ''-'' # nat_to_string (nat (- i)) else nat_to_string (nat i))"

definition is_digit :: "char \<Rightarrow> bool" where
  "is_digit c \<longleftrightarrow> 48 \<le> (of_char c :: nat) \<and> (of_char c :: nat) \<le> 57"

definition digits_value :: "string \<Rightarrow> nat" where
  "digits_value ds = foldl (\<lambda>a c. 10 * a + (of_char c - 48)) 0 ds"

definition string_to_nat :: "string \<Rightarrow> nat option" where
  "string_to_nat ds = (if ds \<noteq> [] \<and> list_all is_digit ds then Some (digits_value ds) else None)"

fun string_to_int :: "string \<Rightarrow> int option" where
  "string_to_int [] = None"
| "string_to_int (c # cs) =
     (if c = CHR ''-'' then map_option (\<lambda>n. - int n) (string_to_nat cs)
      else map_option int (string_to_nat (c # cs)))"

lemma of_char_digit: "d < 10 \<Longrightarrow> (of_char (char_of (48 + d) :: char) :: nat) = 48 + d"
  by simp

lemma is_digit_char: "d < 10 \<Longrightarrow> is_digit (char_of (48 + d :: nat))"
  by (simp add: is_digit_def)

lemma nat_to_string_digits: "nat_to_string n \<noteq> [] \<and> list_all is_digit (nat_to_string n)"
proof (induction n rule: nat_to_string.induct)
  case (1 n)
  show ?case
  proof (cases "n < 10")
    case True
    then show ?thesis by (simp add: nat_to_string.simps [of n] is_digit_char)
  next
    case False
    then show ?thesis using 1 by (simp add: nat_to_string.simps [of n] is_digit_char)
  qed
qed

lemma digits_value_snoc: "digits_value (ds @ [c]) = 10 * digits_value ds + (of_char c - 48)"
  by (simp add: digits_value_def)

lemma digits_value_to_string: "digits_value (nat_to_string n) = n"
proof (induction n rule: nat_to_string.induct)
  case (1 n)
  show ?case
  proof (cases "n < 10")
    case True
    then show ?thesis by (simp add: nat_to_string.simps [of n] digits_value_def)
  next
    case False
    then have "digits_value (nat_to_string n) = 10 * (n div 10) + n mod 10"
      using 1 by (simp add: nat_to_string.simps [of n] digits_value_snoc)
    then show ?thesis by simp
  qed
qed

lemma string_to_nat_to_string [simp]: "string_to_nat (nat_to_string n) = Some n"
  using nat_to_string_digits [of n] by (simp add: string_to_nat_def digits_value_to_string)

lemma string_to_int_to_string [simp]: "string_to_int (int_to_string i) = Some i"
proof (cases "i < 0")
  case True
  then show ?thesis by (simp add: int_to_string_def)
next
  case False
  obtain c cs where c: "nat_to_string (nat i) = c # cs" "is_digit c"
    using nat_to_string_digits [of "nat i"] by (cases "nat_to_string (nat i)") auto
  then have "c \<noteq> CHR ''-''" by (auto simp: is_digit_def)
  moreover have "string_to_nat (c # cs) = Some (nat i)"
    using string_to_nat_to_string [of "nat i"] c by simp
  ultimately show ?thesis
    using False c by (simp add: int_to_string_def)
qed

lemma int_to_string_inject: "int_to_string i = int_to_string j \<longleftrightarrow> i = j"
  by (metis string_to_int_to_string option.inject)

end
