(* ===== verification/Tso.thy ===== *)
theory Tso
  imports DiscoveryProto RaftMachine Decimal
begin

text \<open>
  \<open>TSOStateMachine\<close> (tso_state_machine.h, tso_state_machine.cc): the timestamp oracle. A
  timestamp is a physical part in milliseconds and an 18 bit logical part. \<open>gen_tso\<close> runs outside
  raft on the leader's memory; the physical part and its save point only move by committed
  requests, which the timer (\<open>update_timestamp\<close>) and a new leader (\<open>on_leader_start\<close>) propose.
  The clock, the outcome of a raft proposal and what other threads do while \<open>gen_tso\<close> sleeps are
  arguments. \<open>int64_t\<close> values are unbounded here; the claims stay far from the bounds.
\<close>

subsection \<open>Constants and messages\<close>

definition update_timestamp_interval_ms :: int where "update_timestamp_interval_ms = 50"
definition update_timestamp_guard_ms :: int where "update_timestamp_guard_ms = 1"
definition save_interval_ms :: int where "save_interval_ms = 3000"
definition base_timestamp_ms :: int where "base_timestamp_ms = 1577808000000"
definition logical_bits :: nat where "logical_bits = 18"
definition max_logical :: int where "max_logical = 2 ^ logical_bits"

definition get_timestamp_internal :: "int \<Rightarrow> int" where
  "get_timestamp_internal offset = (((offset div 2 ^ 18) + base_timestamp_ms) div 1000) mod 2 ^ 32"

lemmas tso_constants = update_timestamp_interval_ms_def update_timestamp_guard_ms_def
  save_interval_ms_def logical_bits_def max_logical_def

record TsoTimestamp =
  physical :: int
  logical :: int

record TsoObj =
  current_timestamp :: TsoTimestamp
  last_save_physical :: int

record tso_state = TsoObj +
  is_healty :: bool
  tso_is_leader :: bool
  timer_running :: bool
  tso_have_data :: bool

datatype TsoOp = OP_GEN_TSO | OP_RESET_TSO | OP_UPDATE_TSO | OP_QUERY_TSO_INFO | OP_TSO_OTHER

record TsoRequest =
  tq_op_type :: TsoOp
  tq_count :: int
  tq_current_timestamp :: "TsoTimestamp option"
  tq_save_physical :: "int option"
  tq_force :: bool

record TsoResponse =
  ts_errcode :: ErrCode
  ts_errmsg :: string
  ts_op_type :: "TsoOp option"
  ts_start_timestamp :: "TsoTimestamp option"
  ts_count :: int
  ts_save_physical :: int
  ts_system_time :: int
  ts_leader :: string

definition zero_timestamp :: TsoTimestamp where
  "zero_timestamp = \<lparr>physical = 0, logical = 0\<rparr>"

definition empty_TsoResponse :: TsoResponse where
  "empty_TsoResponse = \<lparr>ts_errcode = SUCCESS, ts_errmsg = [], ts_op_type = None,
     ts_start_timestamp = None, ts_count = 0, ts_save_physical = 0, ts_system_time = 0, ts_leader = []\<rparr>"

definition tso_init :: tso_state where
  "tso_init = \<lparr>current_timestamp = zero_timestamp, last_save_physical = 0, is_healty = True,
     tso_is_leader = False, timer_running = False, tso_have_data = False\<rparr>"

type_synonym tso_closure = "TsoResponse option"

definition tso_answer :: "ErrCode \<Rightarrow> string \<Rightarrow> TsoResponse \<Rightarrow> TsoResponse" where
  "tso_answer e m r = r\<lparr>ts_errcode := e, ts_errmsg := m\<rparr>"

subsection \<open>gen_tso\<close>

text \<open>One pass of the loop under the lock: the timestamp taken, or that another try is needed.\<close>

definition gen_attempt :: "int \<Rightarrow> 'a TsoObj_scheme \<Rightarrow> TsoTimestamp option \<times> 'a TsoObj_scheme" where
  "gen_attempt count s =
     (if physical (current_timestamp s) \<noteq> 0
      then let new_logical = logical (current_timestamp s) + count
           in if new_logical < max_logical
              then (Some (current_timestamp s),
                    s\<lparr>current_timestamp := (current_timestamp s)\<lparr>logical := new_logical\<rparr>\<rparr>)
              else (None, s)
      else (None, s))"

text \<open>\<open>others i\<close> is what the other threads do to the state during the \<open>i\<close>-th sleep.\<close>

fun gen_loop ::
  "nat \<Rightarrow> nat \<Rightarrow> (nat \<Rightarrow> 'a TsoObj_scheme \<Rightarrow> 'a TsoObj_scheme) \<Rightarrow> int \<Rightarrow> 'a TsoObj_scheme \<Rightarrow>
     TsoTimestamp option \<times> 'a TsoObj_scheme" where
  "gen_loop 0 i others count s = (None, s)"
| "gen_loop (Suc n) i others count s =
     (case gen_attempt count s of
        (Some current, s) \<Rightarrow> (Some current, s)
      | (None, s) \<Rightarrow> gen_loop n (Suc i) others count (others i s))"

definition gen_tso ::
  "(nat \<Rightarrow> tso_state \<Rightarrow> tso_state) \<Rightarrow> TsoRequest \<Rightarrow> TsoResponse \<Rightarrow> tso_state \<Rightarrow> TsoResponse \<times> tso_state" where
  "gen_tso others request response s =
     (let count = tq_count request;
          response = response\<lparr>ts_op_type := Some (tq_op_type request)\<rparr>
      in if count = 0
         then (tso_answer INPUT_PARAM_ERROR ''tso count should be positive'' response, s)
         else if \<not> is_healty s
         then (tso_answer RETRY_LATER ''timestamp not ok, retry later'' response, s)
         else case gen_loop 50 0 others count s of
             (None, s) \<Rightarrow> (tso_answer EXEC_FAIL ''gen tso failed'' response, s)
           | (Some current, s) \<Rightarrow>
               (response\<lparr>ts_start_timestamp := Some current, ts_count := count, ts_errcode := SUCCESS\<rparr>, s))"

subsection \<open>Committed requests\<close>

definition reset_tso :: "TsoRequest \<Rightarrow> tso_closure \<Rightarrow> tso_state \<Rightarrow> tso_closure \<times> tso_state" where
  "reset_tso request dn s =
     (case (tq_current_timestamp request, tq_save_physical request) of
        (Some current, Some phys) \<Rightarrow>
          if (phys < last_save_physical s \<or> physical current < physical (current_timestamp s)) \<and>
             \<not> tq_force request
          then (map_option (\<lambda>r. (tso_answer INTERNAL_ERROR ''time can't fallback'' r)
                  \<lparr>ts_start_timestamp := Some (current_timestamp s),
                   ts_save_physical := last_save_physical s\<rparr>) dn, s)
          else (map_option (\<lambda>r. tso_answer SUCCESS ''SUCCESS''
                  (r\<lparr>ts_save_physical := phys, ts_start_timestamp := Some current\<rparr>)) dn,
                s\<lparr>is_healty := True, last_save_physical := phys, current_timestamp := current\<rparr>)
      | _ \<Rightarrow> (dn, s))"

definition update_tso :: "TsoRequest \<Rightarrow> tso_closure \<Rightarrow> tso_state \<Rightarrow> tso_closure \<times> tso_state" where
  "update_tso request dn s =
     (let phys = msg 0 (tq_save_physical request);
          current = msg zero_timestamp (tq_current_timestamp request)
      in if phys < last_save_physical s \<or> physical current < physical (current_timestamp s)
         then (map_option (tso_answer INTERNAL_ERROR ''time can't fallback'') dn, s)
         else (map_option (tso_answer SUCCESS ''SUCCESS'') dn,
               s\<lparr>last_save_physical := phys, current_timestamp := current\<rparr>))"

definition tso_apply_entry ::
  "(string \<Rightarrow> TsoRequest option) \<Rightarrow> string \<times> tso_closure \<Rightarrow> tso_state \<Rightarrow> tso_closure \<times> tso_state" where
  "tso_apply_entry parse e s =
     (let (data, dn) = e
      in case parse data of
           None \<Rightarrow> (map_option (tso_answer PARSE_FROM_PB_FAIL ''parse from protobuf fail'') dn, s)
         | Some request \<Rightarrow>
             let dn = map_option (\<lambda>r. r\<lparr>ts_op_type := Some (tq_op_type request)\<rparr>) dn
             in case tq_op_type request of
                  OP_RESET_TSO \<Rightarrow> reset_tso request dn s
                | OP_UPDATE_TSO \<Rightarrow> update_tso request dn s
                | _ \<Rightarrow> (map_option (tso_answer UNKNOWN_REQ_TYPE ''unsupport request type'') dn, s))"

definition tso_on_apply ::
  "(string \<Rightarrow> TsoRequest option) \<Rightarrow> (string \<times> tso_closure) list \<Rightarrow> tso_state \<Rightarrow> tso_closure list \<times> tso_state" where
  "tso_on_apply parse = apply_log (tso_apply_entry parse)"

lemma tso_handlers_done:
  "snd (reset_tso rq dn s) = snd (reset_tso rq None s)"
  "snd (update_tso rq dn s) = snd (update_tso rq None s)"
  by (simp_all add: reset_tso_def update_tso_def Let_def split: option.split)

interpretation tso: raft_fsm "tso_apply_entry parse" "\<lambda>e. (fst e, None)" for parse
proof unfold_locales
  fix e :: "string \<times> tso_closure" and s
  obtain data dn where e: "e = (data, dn)" by fastforce
  show "snd (tso_apply_entry parse (fst e, None) s) = snd (tso_apply_entry parse e s)"
  proof (cases "parse data")
    case (Some rq)
    then show ?thesis
      using tso_handlers_done [of rq "map_option (\<lambda>r. r\<lparr>ts_op_type := Some (tq_op_type rq)\<rparr>) dn" s]
      by (cases "tq_op_type rq") (simp_all add: tso_apply_entry_def e)
  qed (simp add: tso_apply_entry_def e)
qed

subsection \<open>Proposals\<close>

text \<open>
  \<open>sync_timestamp\<close> proposes an update and waits for its closure. braft either fails the task, and
  the closure reports \<open>NOT_LEADER\<close>, or commits it, and the entry has been applied.
\<close>

datatype raft_outcome = Failed | Committed

definition update_request :: "TsoTimestamp \<Rightarrow> int \<Rightarrow> TsoRequest" where
  "update_request current save_physical =
     \<lparr>tq_op_type = OP_UPDATE_TSO, tq_count = 0, tq_current_timestamp = Some current,
      tq_save_physical = Some save_physical, tq_force = False\<rparr>"

definition sync_timestamp ::
  "TsoRequest pb \<Rightarrow> raft_outcome \<Rightarrow> TsoTimestamp \<Rightarrow> int \<Rightarrow> tso_state \<Rightarrow> int \<times> tso_state" where
  "sync_timestamp P outcome current save_physical s =
     (case pb_serialize P (update_request current save_physical) of
        None \<Rightarrow> (-1, s)
      | Some data \<Rightarrow>
          (case outcome of
             Failed \<Rightarrow> (-1, s)
           | Committed \<Rightarrow>
               let (response, s) = tso_apply_entry (pb_parse P) (data, Some empty_TsoResponse) s
               in if ts_errcode (msg empty_TsoResponse response) \<noteq> SUCCESS then (-1, s) else (0, s)))"

definition update_timestamp_proposal :: "int \<Rightarrow> 'a TsoObj_scheme \<Rightarrow> (TsoTimestamp \<times> int) option" where
  "update_timestamp_proposal now s =
     (let prev_physical = physical (current_timestamp s);
          prev_logical = logical (current_timestamp s);
          last_save = last_save_physical s;
          delta = now - prev_physical;
          go = (\<lambda>next. let save = last_save;
                           save = (if save - next \<le> update_timestamp_guard_ms then next + save_interval_ms
                                   else save)
                       in Some (\<lparr>physical = next, logical = 0\<rparr>, save))
      in if delta > update_timestamp_guard_ms then go now
         else if prev_logical > max_logical div 2 then go (now + update_timestamp_guard_ms)
         else None)"

definition update_timestamp :: "TsoRequest pb \<Rightarrow> raft_outcome \<Rightarrow> int \<Rightarrow> tso_state \<Rightarrow> tso_state" where
  "update_timestamp P outcome now s =
     (if \<not> tso_is_leader s then s
      else case update_timestamp_proposal now s of
             None \<Rightarrow> s | Some (tp, save) \<Rightarrow> snd (sync_timestamp P outcome tp save s))"

definition leader_proposal :: "int \<Rightarrow> 'a TsoObj_scheme \<Rightarrow> TsoTimestamp \<times> int" where
  "leader_proposal now s =
     (let current = \<lparr>physical = now, logical = 0\<rparr>;
          last_save = last_save_physical s
      in if last_save - now < update_timestamp_interval_ms
         then (current\<lparr>physical := last_save + update_timestamp_guard_ms\<rparr>, now + save_interval_ms)
         else (current, last_save))"

definition tso_on_leader_start :: "TsoRequest pb \<Rightarrow> raft_outcome \<Rightarrow> int \<Rightarrow> tso_state \<Rightarrow> tso_state" where
  "tso_on_leader_start P outcome now s =
     (let (current, last_save) = leader_proposal now s;
          (ret, s) = sync_timestamp P outcome current last_save s;
          s = (if ret < 0 then s\<lparr>is_healty := False\<rparr> else s)
      in s\<lparr>tso_is_leader := True, timer_running := True\<rparr>)"

definition tso_on_leader_stop :: "tso_state \<Rightarrow> tso_state" where
  "tso_on_leader_stop s = s\<lparr>timer_running := False, tso_is_leader := False\<rparr>"

text \<open>The RPC entry point: an answer, a failed call, or a task for raft.\<close>

datatype tso_reply = Answer TsoResponse | CallFailed | Proposed string

definition tso_process ::
  "TsoRequest pb \<Rightarrow> (nat \<Rightarrow> tso_state \<Rightarrow> tso_state) \<Rightarrow> int \<Rightarrow> string \<Rightarrow> TsoRequest \<Rightarrow> TsoResponse \<Rightarrow>
     tso_state \<Rightarrow> tso_reply \<times> tso_state" where
  "tso_process P others now leader request response s =
     (if tq_op_type request = OP_QUERY_TSO_INFO
      then (Answer ((tso_answer SUCCESS ''success'' response)
              \<lparr>ts_op_type := Some (tq_op_type request), ts_leader := leader, ts_system_time := now,
               ts_save_physical := last_save_physical s,
               ts_start_timestamp := Some (current_timestamp s)\<rparr>), s)
      else if \<not> tso_is_leader s
      then (Answer ((tso_answer NOT_LEADER ''not leader'' response)
              \<lparr>ts_op_type := Some (tq_op_type request), ts_leader := leader\<rparr>), s)
      else if tq_op_type request = OP_GEN_TSO
      then let (response, s) = gen_tso others request response s in (Answer response, s)
      else case pb_serialize P request of None \<Rightarrow> (CallFailed, s) | Some data \<Rightarrow> (Proposed data, s))"

subsection \<open>Snapshots\<close>

text \<open>\<open>std::stol\<close>: white space, a sign, digits; what follows them is ignored.\<close>

definition is_space :: "char \<Rightarrow> bool" where
  "is_space c \<longleftrightarrow> (of_char c :: nat) = 32 \<or> (9 \<le> (of_char c :: nat) \<and> (of_char c :: nat) \<le> 13)"

definition stol :: "string \<Rightarrow> string + int" where
  "stol s =
     (let s = dropWhile is_space s;
          neg = (s \<noteq> [] \<and> hd s = CHR ''-'');
          s = (if s \<noteq> [] \<and> (hd s = CHR ''-'' \<or> hd s = CHR ''+'') then tl s else s);
          ds = takeWhile is_digit s;
          x = (if neg then - int (digits_value ds) else int (digits_value ds))
      in if ds = [] then Inl ''invalid_argument''
         else if \<not> int64_range x then Inl ''out_of_range'' else Inr x)"

definition SNAPSHOT_TSO_FILE_WITH_SLASH :: string where
  "SNAPSHOT_TSO_FILE_WITH_SLASH = ''/tso.file''"

definition tso_on_snapshot_save :: "bool \<Rightarrow> tso_state \<Rightarrow> string + (string \<times> string) list" where
  "tso_on_snapshot_save add_file_ok s =
     (let sto_str = int_to_string (last_save_physical s)
      in if add_file_ok then Inr [(SNAPSHOT_TSO_FILE_WITH_SLASH, sto_str)] else Inl ''Fail to add file'')"

definition load_tso :: "string \<Rightarrow> tso_state \<Rightarrow> int \<times> tso_state" where
  "load_tso extra s =
     (case stol extra of Inl e \<Rightarrow> (-1, s) | Inr x \<Rightarrow> (0, s\<lparr>last_save_physical := x\<rparr>))"

definition tso_on_snapshot_load :: "(string \<times> string) list \<Rightarrow> tso_state \<Rightarrow> int \<times> tso_state" where
  "tso_on_snapshot_load files s =
     (case find (\<lambda>f. fst f = SNAPSHOT_TSO_FILE_WITH_SLASH) files of
        None \<Rightarrow> (0, s\<lparr>tso_have_data := True\<rparr>)
      | Some f \<Rightarrow> let (ret, s) = load_tso (snd f) s
                  in if ret \<noteq> 0 then (-1, s) else (0, s\<lparr>tso_have_data := True\<rparr>))"

subsection \<open>What gen_tso hands out\<close>

lemma gen_attempt_Some:
  "gen_attempt count s = (Some t, s') \<Longrightarrow>
     t = current_timestamp s \<and> physical t \<noteq> 0 \<and> logical t + count < max_logical \<and>
     s' = s\<lparr>current_timestamp := t\<lparr>logical := logical t + count\<rparr>\<rparr>"
  by (auto simp: gen_attempt_def Let_def split: if_splits)

lemma gen_attempt_None: "gen_attempt count s = (None, s') \<Longrightarrow> s' = s"
  by (auto simp: gen_attempt_def Let_def split: if_splits)

lemma gen_loop_quiet:
  "gen_attempt count s = (Some t, s') \<Longrightarrow> gen_loop (Suc n) i others count s = (Some t, s')"
  by simp

lemma gen_loop_invariant:
  assumes "\<And>s. I s \<Longrightarrow> I (snd (gen_attempt count s))" "\<And>i s. I s \<Longrightarrow> I (others i s)" "I s"
  shows "I (snd (gen_loop n i others count s))"
  using assms(3)
proof (induction n arbitrary: i s)
  case (Suc n)
  obtain t s' where ts: "gen_attempt count s = (t, s')" by fastforce
  with assms(1) Suc.prems have "I s'" by (metis snd_conv)
  with ts Suc.IH assms(2) show ?case by (cases t) auto
qed simp

text \<open>With nobody else at work one attempt decides: the 49 others see the same state.\<close>

lemma gen_loop_idle:
  assumes "n \<noteq> 0"
  shows "gen_loop n i (\<lambda>i s. s) count s = gen_attempt count s"
proof -
  have none: "gen_attempt count s = (None, s) \<Longrightarrow> gen_loop n i (\<lambda>i s. s) count s = (None, s)" for n i
    by (induction n arbitrary: i) auto
  obtain m where n: "n = Suc m" using assms by (cases n) auto
  obtain t s' where ts: "gen_attempt count s = (t, s')" by fastforce
  show ?thesis
  proof (cases t)
    case None
    then show ?thesis using ts gen_attempt_None [of count s s'] none by simp
  next
    case (Some c)
    with ts n show ?thesis by simp
  qed
qed

lemma gen_tso_idle:
  "gen_tso (\<lambda>i s. s) rq r s =
     (if tq_count rq = 0
      then (tso_answer INPUT_PARAM_ERROR ''tso count should be positive'' (r\<lparr>ts_op_type := Some (tq_op_type rq)\<rparr>), s)
      else if \<not> is_healty s
      then (tso_answer RETRY_LATER ''timestamp not ok, retry later'' (r\<lparr>ts_op_type := Some (tq_op_type rq)\<rparr>), s)
      else case gen_attempt (tq_count rq) s of
             (None, s) \<Rightarrow> (tso_answer EXEC_FAIL ''gen tso failed'' (r\<lparr>ts_op_type := Some (tq_op_type rq)\<rparr>), s)
           | (Some current, s) \<Rightarrow>
               (r\<lparr>ts_op_type := Some (tq_op_type rq), ts_start_timestamp := Some current,
                  ts_count := tq_count rq, ts_errcode := SUCCESS\<rparr>, s))"
  by (simp add: gen_tso_def Let_def gen_loop_idle split: prod.split option.split)

text \<open>Every later timestamp lies behind the whole range of an earlier one.\<close>

definition ts_before :: "TsoTimestamp \<times> int \<Rightarrow> TsoTimestamp \<times> int \<Rightarrow> bool" where
  "ts_before a b \<longleftrightarrow> physical (fst a) < physical (fst b) \<or>
     physical (fst a) = physical (fst b) \<and> logical (fst a) + snd a \<le> logical (fst b)"

subsection \<open>The physical part stays below the save point\<close>

definition tso_safe :: "'a TsoObj_scheme \<Rightarrow> bool" where
  "tso_safe s \<longleftrightarrow> physical (current_timestamp s) = 0 \<or> physical (current_timestamp s) < last_save_physical s"

lemma update_proposal_safe:
  "update_timestamp_proposal now s = Some (tp, save) \<Longrightarrow>
     physical tp + update_timestamp_guard_ms < save \<and> last_save_physical s \<le> save \<and> logical tp = 0"
  by (auto simp: update_timestamp_proposal_def Let_def tso_constants split: if_splits)

lemma leader_proposal_safe:
  "leader_proposal now s = (tp, save) \<Longrightarrow> physical tp < save \<and> logical tp = 0"
  by (auto simp: leader_proposal_def Let_def tso_constants split: if_splits)

lemma sync_timestamp_cases:
  assumes "pb_ok P"
  obtains "sync_timestamp P outcome tp save s = (-1, s)"
  | "last_save_physical s \<le> save" "physical (current_timestamp s) \<le> physical tp"
    "sync_timestamp P outcome tp save s = (0, s\<lparr>last_save_physical := save, current_timestamp := tp\<rparr>)"
proof (cases "pb_serialize P (update_request tp save)")
  case None
  then show thesis by (intro that(1)) (simp add: sync_timestamp_def)
next
  case (Some data)
  with assms have parse: "pb_parse P data = Some (update_request tp save)" by (auto dest: pb_okD)
  show thesis
  proof (cases outcome)
    case Failed
    with Some show thesis by (intro that(1)) (simp add: sync_timestamp_def)
  next
    case Committed
    show thesis
    proof (cases "save < last_save_physical s \<or> physical tp < physical (current_timestamp s)")
      case True
      with Some parse Committed show thesis
        by (intro that(1)) (auto simp: sync_timestamp_def tso_apply_entry_def update_request_def
            update_tso_def tso_answer_def)
    next
      case False
      with Some parse Committed show thesis
        by (intro that(2)) (auto simp: sync_timestamp_def tso_apply_entry_def update_request_def
            update_tso_def tso_answer_def)
    qed
  qed
qed

lemma sync_timestamp_committed:
  assumes "pb_ok P" "pb_serialize P (update_request tp save) \<noteq> None"
    "last_save_physical s \<le> save" "physical (current_timestamp s) \<le> physical tp"
  shows "sync_timestamp P Committed tp save s =
    (0, s\<lparr>last_save_physical := save, current_timestamp := tp\<rparr>)"
proof -
  obtain data where d: "pb_serialize P (update_request tp save) = Some data" using assms(2) by auto
  with assms(1) have "pb_parse P data = Some (update_request tp save)" by (auto dest: pb_okD)
  with d assms(3,4) show ?thesis
    by (auto simp: sync_timestamp_def tso_apply_entry_def update_request_def update_tso_def tso_answer_def)
qed

lemma update_timestamp_safe:
  assumes "pb_ok P" "tso_safe s"
  shows "tso_safe (update_timestamp P outcome now s)"
proof (cases "update_timestamp_proposal now s")
  case None
  with assms(2) show ?thesis by (simp add: update_timestamp_def)
next
  case (Some p)
  obtain tp save where p: "p = (tp, save)" by fastforce
  from Some p have "physical tp < save"
    using update_proposal_safe [of now s tp save] by (simp add: tso_constants)
  with Some p assms(2) show ?thesis
    by (rule_tac sync_timestamp_cases [OF assms(1), of outcome tp save s])
      (auto simp: update_timestamp_def tso_safe_def)
qed

lemma on_leader_start_safe:
  assumes "pb_ok P" "tso_safe s"
  shows "tso_safe (tso_on_leader_start P outcome now s)"
proof -
  obtain tp save where p: "leader_proposal now s = (tp, save)" by fastforce
  then have "physical tp < save" using leader_proposal_safe [OF p] by simp
  with p assms(2) show ?thesis
    by (rule_tac sync_timestamp_cases [OF assms(1), of outcome tp save s])
      (auto simp: tso_on_leader_start_def tso_safe_def)
qed

lemma gen_attempt_safe: "tso_safe s \<Longrightarrow> tso_safe (snd (gen_attempt count s))"
  by (auto simp: gen_attempt_def tso_safe_def Let_def)

lemma gen_tso_safe:
  assumes "tso_safe s" "\<And>i s. tso_safe s \<Longrightarrow> tso_safe (others i s)"
  shows "tso_safe (snd (gen_tso others rq r s))"
  using gen_loop_invariant [of tso_safe "tq_count rq" others s 50 0, OF gen_attempt_safe assms(2,1)] assms(1)
  by (auto simp: gen_tso_def Let_def split: prod.splits option.splits)

lemma tso_on_leader_stop_safe: "tso_safe s \<Longrightarrow> tso_safe (tso_on_leader_stop s)"
  by (simp add: tso_on_leader_stop_def tso_safe_def)

text \<open>Everything the server itself does to the oracle, with any clock and any raft outcome.\<close>

datatype tso_action = Serve TsoRequest | Tick int raft_outcome | LeaderStart int raft_outcome | LeaderStop

fun tso_do :: "TsoRequest pb \<Rightarrow> tso_action \<Rightarrow> tso_state \<Rightarrow> tso_state" where
  "tso_do P (Serve rq) s = snd (gen_tso (\<lambda>i s. s) rq empty_TsoResponse s)"
| "tso_do P (Tick now outcome) s = update_timestamp P outcome now s"
| "tso_do P (LeaderStart now outcome) s = tso_on_leader_start P outcome now s"
| "tso_do P LeaderStop s = tso_on_leader_stop s"

lemma sync_save_point_up:
  assumes "pb_ok P"
  shows "last_save_physical s \<le> last_save_physical (snd (sync_timestamp P outcome tp save s))"
  by (rule sync_timestamp_cases [OF assms, of outcome tp save s]) simp_all

lemma save_point_up:
  assumes "pb_ok P"
  shows "last_save_physical s \<le> last_save_physical (tso_do P a s)"
proof (cases a)
  case (Serve rq)
  then show ?thesis by (auto simp: gen_tso_idle gen_attempt_def Let_def split: prod.splits option.splits)
next
  case (Tick now outcome)
  then show ?thesis
    using sync_save_point_up [OF assms, of s outcome]
    by (auto simp: update_timestamp_def split: option.split)
next
  case (LeaderStart now outcome)
  then show ?thesis
    using sync_save_point_up [OF assms, of s outcome "fst (leader_proposal now s)" "snd (leader_proposal now s)"]
    by (simp add: tso_on_leader_start_def Let_def split_def)
qed (simp add: tso_on_leader_stop_def)

lemma tso_run_safe_up:
  assumes "pb_ok P" "tso_safe s"
  shows "tso_safe (fold (tso_do P) acts s) \<and> last_save_physical s \<le> last_save_physical (fold (tso_do P) acts s)"
  using assms(2)
proof (induction acts arbitrary: s)
  case (Cons a acts)
  then have "tso_safe (tso_do P a s)"
    using update_timestamp_safe [OF assms(1)] on_leader_start_safe [OF assms(1)]
    by (cases a) (auto intro: gen_tso_safe tso_on_leader_stop_safe)
  with Cons.IH [of "tso_do P a s"] save_point_up [OF assms(1), of s a] show ?case by auto
qed simp

subsection \<open>The timestamps a server answers\<close>

text \<open>What clients were answered with: the start of each granted range and its length.\<close>

fun answers :: "TsoRequest pb \<Rightarrow> tso_action list \<Rightarrow> tso_state \<Rightarrow> (TsoTimestamp \<times> int) list" where
  "answers P [] s = []"
| "answers P (a # acts) s =
     (case a of
        Serve rq \<Rightarrow>
          (let r = fst (gen_tso (\<lambda>i s. s) rq empty_TsoResponse s)
           in case ts_start_timestamp r of
                Some t \<Rightarrow> if ts_errcode r = SUCCESS then [(t, ts_count r)] else []
              | None \<Rightarrow> [])
      | _ \<Rightarrow> []) @ answers P acts (tso_do P a s)"

text \<open>
  The clock is steady when the timer never sees it behind the physical part, and a new leader that
  trusts it (the save point is 50 ms or more ahead) does not see it at exactly the physical part.
\<close>

fun steady :: "TsoRequest pb \<Rightarrow> tso_action list \<Rightarrow> tso_state \<Rightarrow> bool" where
  "steady P [] s = True"
| "steady P (a # acts) s =
     ((case a of
         Serve rq \<Rightarrow> 0 < tq_count rq
       | Tick now outcome \<Rightarrow> physical (current_timestamp s) \<le> now
       | LeaderStart now outcome \<Rightarrow>
           last_save_physical s - now < update_timestamp_interval_ms \<or> now \<noteq> physical (current_timestamp s)
       | LeaderStop \<Rightarrow> True) \<and> steady P acts (tso_do P a s))"

definition moves_up :: "tso_state \<Rightarrow> tso_state \<Rightarrow> bool" where
  "moves_up s s' \<longleftrightarrow>
     (current_timestamp s' = current_timestamp s \<or>
      physical (current_timestamp s) < physical (current_timestamp s')) \<and>
     last_save_physical s \<le> last_save_physical s'"

lemma sync_timestamp_moves_up:
  assumes "pb_ok P" "physical tp \<noteq> physical (current_timestamp s)"
  shows "moves_up s (snd (sync_timestamp P outcome tp save s))"
  by (rule sync_timestamp_cases [OF assms(1), of outcome tp save s])
    (use assms(2) in \<open>auto simp: moves_up_def\<close>)

lemma update_timestamp_moves_up:
  assumes "pb_ok P" "physical (current_timestamp s) \<le> now"
  shows "moves_up s (update_timestamp P outcome now s)"
proof (cases "tso_is_leader s \<and> update_timestamp_proposal now s \<noteq> None")
  case True
  then obtain tp save where p: "update_timestamp_proposal now s = Some (tp, save)" by auto
  then have "physical (current_timestamp s) < physical tp"
    using assms(2) by (auto simp: update_timestamp_proposal_def Let_def tso_constants split: if_splits)
  with p True sync_timestamp_moves_up [OF assms(1), of tp s outcome save] show ?thesis
    by (simp add: update_timestamp_def)
qed (auto simp: update_timestamp_def moves_up_def split: option.split)

lemma on_leader_start_moves_up:
  assumes "pb_ok P" "tso_safe s" "0 \<le> last_save_physical s"
    and "last_save_physical s - now < update_timestamp_interval_ms \<or> now \<noteq> physical (current_timestamp s)"
  shows "moves_up s (tso_on_leader_start P outcome now s)"
proof -
  obtain tp save where p: "leader_proposal now s = (tp, save)" by fastforce
  then have "physical tp \<noteq> physical (current_timestamp s)"
    using assms(2-4) by (auto simp: leader_proposal_def Let_def tso_constants tso_safe_def split: if_splits)
  with p sync_timestamp_moves_up [OF assms(1), of tp s outcome save] show ?thesis
    by (auto simp: tso_on_leader_start_def moves_up_def split: prod.splits)
qed

lemma serve_cases:
  assumes "0 < tq_count rq"
  obtains "answers P (Serve rq # acts) s = answers P acts s" "tso_do P (Serve rq) s = s"
  | s' where "tso_do P (Serve rq) s = s'" "last_save_physical s' = last_save_physical s"
    "logical (current_timestamp s) + tq_count rq < max_logical"
    "current_timestamp s' = (current_timestamp s)\<lparr>logical := logical (current_timestamp s) + tq_count rq\<rparr>"
    "answers P (Serve rq # acts) s = (current_timestamp s, tq_count rq) # answers P acts s'"
proof (cases "is_healty s \<and> fst (gen_attempt (tq_count rq) s) \<noteq> None")
  case True
  then obtain t s' where g: "gen_attempt (tq_count rq) s = (Some t, s')" by (cases "gen_attempt (tq_count rq) s") auto
  with True assms show thesis
    by (intro that(2) [of s']) (auto simp: gen_tso_idle dest: gen_attempt_Some)
next
  case False
  then have "tso_do P (Serve rq) s = s" "answers P (Serve rq # acts) s = answers P acts (tso_do P (Serve rq) s)"
    using assms gen_attempt_None [of "tq_count rq" s]
    by (auto simp: gen_tso_idle tso_answer_def empty_TsoResponse_def split: prod.splits option.splits)
  then show thesis by (intro that(1)) simp_all
qed

lemma other_moves_up:
  assumes "pb_ok P" "tso_safe s" "0 \<le> last_save_physical s" "steady P (a # acts) s" "\<forall>rq. a \<noteq> Serve rq"
  shows "moves_up s (tso_do P a s)"
  using assms update_timestamp_moves_up [OF assms(1)] on_leader_start_moves_up [OF assms(1-3)]
  by (cases a) (auto simp: moves_up_def tso_on_leader_stop_def)

lemma tso_do_safe: "pb_ok P \<Longrightarrow> tso_safe s \<Longrightarrow> tso_safe (tso_do P a s)"
  using tso_run_safe_up [of P s "[a]"] by simp

lemma answers_from:
  assumes "pb_ok P" "tso_safe s" "0 \<le> last_save_physical s" "steady P acts s"
  shows "sorted_wrt ts_before (answers P acts s) \<and>
    (\<forall>x \<in> set (answers P acts s). ts_before (current_timestamp s, 0) x \<and> 0 < snd x \<and>
       logical (fst x) + snd x < max_logical)"
  using assms(2-4)
proof (induction acts arbitrary: s)
  case (Cons a acts)
  let ?s = "tso_do P a s"
  have safe: "tso_safe ?s" and run: "steady P acts ?s"
    using Cons.prems tso_do_safe [OF assms(1)] by auto
  show ?case
  proof (cases "\<exists>rq. a = Serve rq")
    case True
    then obtain rq where a: "a = Serve rq" "0 < tq_count rq" using Cons.prems by auto
    show ?thesis
      by (rule serve_cases [OF a(2), of P acts s])
        (use Cons.IH [of ?s] Cons.prems safe run a in \<open>auto simp: ts_before_def\<close>)
  next
    case False
    then have up: "moves_up s ?s" using other_moves_up [OF assms(1) Cons.prems] by blast
    have "answers P (a # acts) s = answers P acts ?s" using False by (cases a) auto
    with Cons.IH [of ?s] up Cons.prems safe run show ?thesis
      by (auto simp: moves_up_def ts_before_def)
  qed
qed simp

subsection \<open>Snapshots keep the save point\<close>

lemma digit_not_space: "is_digit c \<Longrightarrow> \<not> is_space c"
  by (auto simp: is_digit_def is_space_def)

lemma digit_not_sign: "is_digit c \<Longrightarrow> c \<noteq> CHR ''-'' \<and> c \<noteq> CHR ''+''"
  by (auto simp: is_digit_def)

lemma stol_to_string:
  assumes "int64_range x"
  shows "stol (int_to_string x) = Inr x"
proof -
  have tw: "takeWhile is_digit (nat_to_string n) = nat_to_string n" for n
    using nat_to_string_digits [of n] by (simp add: list_all_iff)
  show ?thesis
  proof (cases "x < 0")
    case True
    have sp: "\<not> is_space (CHR ''-'')" by (simp add: is_space_def)
    have "nat_to_string (nat (- x)) \<noteq> []" using nat_to_string_digits by blast
    with True assms sp show ?thesis
      by (simp add: stol_def int_to_string_def Let_def digits_value_to_string tw)
  next
    case False
    obtain c cs where c: "nat_to_string (nat x) = c # cs" "is_digit c"
      using nat_to_string_digits [of "nat x"] by (cases "nat_to_string (nat x)") auto
    moreover have "takeWhile is_digit cs = cs" using tw [of "nat x"] c by simp
    moreover have "digits_value (c # cs) = nat x" using digits_value_to_string [of "nat x"] c by simp
    moreover have "\<not> is_space c" "c \<noteq> CHR ''-''" "c \<noteq> CHR ''+''"
      using c(2) digit_not_space digit_not_sign by blast+
    ultimately show ?thesis
      using False assms by (simp add: stol_def int_to_string_def Let_def del: takeWhile_eq_all_conv)
  qed
qed

lemma tso_snapshot_round_trip:
  assumes "int64_range (last_save_physical s)"
  shows "\<exists>files. tso_on_snapshot_save True s = Inr files \<and>
    tso_on_snapshot_load files r = (0, r\<lparr>last_save_physical := last_save_physical s, tso_have_data := True\<rparr>)"
  using assms by (simp add: tso_on_snapshot_save_def tso_on_snapshot_load_def load_tso_def stol_to_string)

end
