(* ===== verification/Snapshot.thy ===== *)
theory Snapshot
  imports DiscoveryStateMachine Tso
begin

text \<open>
  Snapshots of the discovery state machine: \<open>on_snapshot_save\<close>, \<open>save_snapshot\<close> and
  \<open>on_snapshot_load\<close> (discovery_state_machine.cc), \<open>SchemaManager::load_snapshot\<close>
  (schema_manager.cc) and \<open>parse_snapshot_index_from_path\<close> (parse_path.cc). The theory proves that
  loading a saved snapshot rebuilds the maps of every manager but the servlet manager, whose
  persisted entries do not follow its maps.
\<close>

subsection \<open>Storage operations\<close>

text \<open>
  RocksDB as the snapshot code uses it: \<open>scan\<close> walks an iterator opened with
  \<open>prefix_same_as_start\<close> from a one-byte seek key (the column family's prefix extractor has
  length 1), \<open>scan_all\<close> one opened with \<open>total_order_seek\<close>; \<open>remove_range\<close> and \<open>ingest\<close> are
  \<open>None\<close> when the returned status is not ok.
\<close>

record storage =
  scan :: "kv \<Rightarrow> string \<Rightarrow> (string \<times> string) list"
  scan_all :: "kv \<Rightarrow> (string \<times> string) list"
  remove_range :: "string \<Rightarrow> string \<Rightarrow> kv \<Rightarrow> kv option"
  ingest :: "(string \<times> string) list \<Rightarrow> kv \<Rightarrow> kv option"

definition storage_ok :: "storage \<Rightarrow> bool" where
  "storage_ok S \<longleftrightarrow>
     (\<forall>db p. finite (dom db) \<longrightarrow> length p = 1 \<longrightarrow>
        sorted_wrt (<) (map fst (scan S db p)) \<and>
        (\<forall>k v. (k, v) \<in> set (scan S db p) \<longleftrightarrow> db k = Some v \<and> starts_with p k)) \<and>
     (\<forall>db. finite (dom db) \<longrightarrow>
        sorted_wrt (<) (map fst (scan_all S db)) \<and> map_of (scan_all S db) = db) \<and>
     (\<forall>a b db db'. remove_range S a b db = Some db' \<longrightarrow>
        db' = (\<lambda>k. if a \<le> k \<and> k < b then None else db k)) \<and>
     (\<forall>es db db'. ingest S es db = Some db' \<longrightarrow> db' = db ++ map_of es)"

subsection \<open>Saving\<close>

text \<open>What the SST file writer and the snapshot writer answer.\<close>

record sst_env =
  sst_open_ok :: bool
  sst_put_ok :: "string \<times> string \<Rightarrow> bool"
  sst_finish_ok :: bool
  add_file_ok :: bool

definition SNAPSHOT_SST_FILE :: string where
  "SNAPSHOT_SST_FILE = ''/discovery_info.sst''"

type_synonym snapshot_files = "(string \<times> (string \<times> string) list) list"

definition save_snapshot :: "sst_env \<Rightarrow> (string \<times> string) list \<Rightarrow> string + snapshot_files" where
  "save_snapshot W entries =
     (if \<not> sst_open_ok W then Inl ''Fail to open SstFileWriter''
      else if \<not> list_all (sst_put_ok W) entries then Inl ''Fail to write SstFileWriter''
      else if \<not> sst_finish_ok W then Inl ''Fail to finish SstFileWriter''
      else if \<not> add_file_ok W then Inl ''Fail to add file''
      else Inr [(SNAPSHOT_SST_FILE, entries)])"

definition on_snapshot_save :: "storage \<Rightarrow> sst_env \<Rightarrow> 'a store_scheme \<Rightarrow> string + snapshot_files" where
  "on_snapshot_save S W s = save_snapshot W (scan_all S (rocks s))"

subsection \<open>The index in the path\<close>

text \<open>
  \<open>parse_snapshot_index_from_path\<close>; the \<open>butil::FilePath\<close> operations and \<open>turbo::StrSplit\<close> are
  parameters. \<open>None\<close> is undefined behaviour: \<open>back()\<close> of no components, or \<open>atoll\<close> of a number
  that does not fit.
\<close>

record path_env =
  dir_name :: "string \<Rightarrow> string"
  base_name :: "string \<Rightarrow> string"
  split_skip_empty :: "char \<Rightarrow> string \<Rightarrow> string list"

definition atoll :: "string \<Rightarrow> int option" where
  "atoll s = (case stol s of Inr x \<Rightarrow> Some x | Inl e \<Rightarrow> if e = ''out_of_range'' then None else Some 0)"

definition parse_snapshot_index_from_path :: "path_env \<Rightarrow> string \<Rightarrow> bool \<Rightarrow> int option" where
  "parse_snapshot_index_from_path P snapshot_path use_dirname =
     (let tmp_path = (if use_dirname then base_name P (dir_name P snapshot_path)
                      else base_name P snapshot_path);
          split_vec = split_skip_empty P (CHR ''/'') tmp_path
      in if split_vec = [] then None
         else let snapshot_index_vec = split_skip_empty P (CHR ''_'') (last split_vec)
              in if length snapshot_index_vec = 2 then atoll (snapshot_index_vec ! 1) else Some 0)"

subsection \<open>Loading\<close>

definition load_max_id_snapshot ::
  "string \<Rightarrow> string \<Rightarrow> string \<Rightarrow> 'a servlet_manager_scheme \<Rightarrow> int \<times> 'a servlet_manager_scheme" where
  "load_max_id_snapshot prefix key value s =
     (let max_key = drop (length prefix) key; max_id = bytes_int64 value
      in if max_key = MAX_NAMESPACE_ID_KEY then (0, set_max_namespace_id max_id s)
         else if max_key = MAX_ZONE_ID_KEY then (0, set_max_zone_id max_id s)
         else if max_key = MAX_SERVLET_ID_KEY then (0, set_max_servlet_id max_id s)
         else (0, s))"

definition load_schema_entry ::
  "env \<Rightarrow> string \<times> string \<Rightarrow> 'a servlet_manager_scheme \<Rightarrow> int \<times> 'a servlet_manager_scheme" where
  "load_schema_entry E e s =
     (let (key, value) = e
      in if starts_with zone_prefix key then load_zone_snapshot E value s
         else if starts_with servlet_prefix key then load_servlet_snapshot E value s
         else if starts_with namespace_prefix key then load_namespace_snapshot E value s
         else if starts_with max_id_prefix key then load_max_id_snapshot max_id_prefix key value s
         else (0, s))"

fun load_all :: "('e \<Rightarrow> 's \<Rightarrow> int \<times> 's) \<Rightarrow> 'e list \<Rightarrow> 's \<Rightarrow> int \<times> 's" where
  "load_all load [] s = (0, s)"
| "load_all load (e # es) s = (let (ret, s) = load e s in if ret \<noteq> 0 then (-1, s) else load_all load es s)"

definition schema_load_snapshot ::
  "env \<Rightarrow> (string \<times> string) list \<Rightarrow> 'a instance_manager_scheme \<Rightarrow> int \<times> 'a instance_manager_scheme" where
  "schema_load_snapshot E es s =
     load_all (load_schema_entry E) es (instance_clear (servlet_clear (zone_clear (namespace_clear s))))"

text \<open>
  The part of \<open>on_snapshot_load\<close> for one listed file; \<open>index\<close> is what the path of the snapshot
  parses to.
\<close>

definition load_managers :: "env \<Rightarrow> storage \<Rightarrow> 'a config_manager_scheme \<Rightarrow> int \<times> 'a config_manager_scheme" where
  "load_managers E S s =
     (let (ret, s) = privilege_load_snapshot E (scan S (rocks s) PRIVILEGE_IDENTIFY) s
      in if ret \<noteq> 0 then (-1, s)
         else let (ret, s) = schema_load_snapshot E (scan S (rocks s) SCHEMA_IDENTIFY) s
         in if ret \<noteq> 0 then (-1, s)
         else let (ret, s) = config_load_snapshot E (scan S (rocks s) CONFIG_IDENTIFY) s
         in if ret \<noteq> 0 then (-1, s)
         else let (ret, s) = instance_load_snapshot E (scan S (rocks s) DISCOVERY_IDENTIFY) s
         in if ret \<noteq> 0 then (-1, s) else (0, s))"

definition load_file ::
  "env \<Rightarrow> storage \<Rightarrow> int \<Rightarrow> string \<times> (string \<times> string) list \<Rightarrow> discovery_state_machine \<Rightarrow>
     int \<times> discovery_state_machine" where
  "load_file E S index f s =
     (let (file, contents) = f
      in if file = SNAPSHOT_SST_FILE
         then let s = s\<lparr>applied_index := index\<rparr>
              in (case ingest S contents (rocks s) of
                    None \<Rightarrow> (-1, s)
                  | Some db \<Rightarrow> load_managers E S (s\<lparr>rocks := db\<rparr>))
         else (0, s))"

definition on_snapshot_load ::
  "env \<Rightarrow> storage \<Rightarrow> int \<Rightarrow> snapshot_files \<Rightarrow> discovery_state_machine \<Rightarrow> int \<times> discovery_state_machine" where
  "on_snapshot_load E S index files s =
     (case remove_range S SCHEMA_IDENTIFY MAX_IDENTIFY (rocks s) of
        None \<Rightarrow> (-1, s)
      | Some db \<Rightarrow>
          let (ret, s) = load_all (load_file E S index) files (s\<lparr>rocks := db\<rparr>)
          in if ret \<noteq> 0 then (-1, s) else (0, s\<lparr>have_data := True\<rparr>))"

subsection \<open>Loading a manager\<close>

lemma load_all_ok:
  assumes "\<And>e s. e \<in> set es \<Longrightarrow> fst (load e s) = 0"
  shows "fst (load_all load es s) = 0"
  using assms by (induction es arbitrary: s) (auto simp: Let_def split_def)

lemma load_all_Cons_ok:
  "fst (load e s) = 0 \<Longrightarrow> load_all load (e # es) s = load_all load es (snd (load e s))"
  by (simp add: Let_def split_def)

lemma load_all_invariant:
  assumes "\<And>e s. e \<in> set es \<Longrightarrow> P s \<Longrightarrow> P (snd (load e s))" "P s"
  shows "P (snd (load_all load es s))"
  using assms by (induction es arbitrary: s) (auto simp: Let_def split_def)

text \<open>
  What the load loops of the managers share: an entry under the manager's prefix adds the info
  it parses to under the key it was stored with, any other entry the loop is \<open>given\<close> leaves the
  manager's view alone.
  Then loading the entries of a mirrored map rebuilds it.
\<close>

locale snapshot_loader =
  fixes load :: "string \<times> string \<Rightarrow> 's \<Rightarrow> int \<times> 's"
    and view :: "'s \<Rightarrow> 'k \<Rightarrow> 'i option"
    and prefix :: string and keyf :: "'k \<Rightarrow> string" and codec :: "'i pb"
    and filed :: "'k \<Rightarrow> 'i \<Rightarrow> bool" and given :: "string \<Rightarrow> bool"
  assumes load_entry: "filed n i \<Longrightarrow> pb_parse codec v = Some i \<Longrightarrow>
      view (snd (load (keyf n, v) s)) = (view s)(n \<mapsto> i)"
    and load_other: "given k \<Longrightarrow> \<not> starts_with prefix k \<Longrightarrow> view (snd (load (k, v) s)) = view s"
begin

lemma mirrored_entry:
  assumes "mirrors prefix keyf codec T db" "pb_ok codec" "db k = Some v" "starts_with prefix k"
  obtains n i where "T n = Some i" "k = keyf n" "pb_parse codec v = Some i"
  using mirrorsD1 [OF assms(1,4), of v] pb_okD [OF assms(2), of _ v] assms(3) that by blast

lemma load_view:
  assumes "mirrors prefix keyf codec T db" "pb_ok codec" "db k = Some v" "given k"
    "\<And>n i. T n = Some i \<Longrightarrow> filed n i" "view s \<subseteq>\<^sub>m T"
  shows "view s \<subseteq>\<^sub>m view (snd (load (k, v) s)) \<and> view (snd (load (k, v) s)) \<subseteq>\<^sub>m T \<and>
    (starts_with prefix k \<longrightarrow> (\<exists>n. k = keyf n \<and> n \<in> dom T \<and> n \<in> dom (view (snd (load (k, v) s)))))"
proof (cases "starts_with prefix k")
  case True
  then obtain n i where n: "T n = Some i" "k = keyf n" "pb_parse codec v = Some i"
    using mirrored_entry [OF assms(1-3)] by blast
  then have "view (snd (load (k, v) s)) = (view s)(n \<mapsto> i)"
    using load_entry assms(5) by simp
  with n assms(6) show ?thesis
    by (auto simp: map_le_def dom_def)
next
  case False
  with assms(4,6) show ?thesis by (simp add: load_other)
qed

lemma load_all_view:
  assumes "fst (load_all load es s) = 0" "mirrors prefix keyf codec T db" "pb_ok codec"
    "\<forall>(k, v) \<in> set es. db k = Some v \<and> given k" "\<And>n i. T n = Some i \<Longrightarrow> filed n i" "view s \<subseteq>\<^sub>m T"
  shows "view s \<subseteq>\<^sub>m view (snd (load_all load es s)) \<and> view (snd (load_all load es s)) \<subseteq>\<^sub>m T \<and>
    (\<forall>k \<in> fst ` set es. starts_with prefix k \<longrightarrow>
       (\<exists>n. k = keyf n \<and> n \<in> dom T \<and> n \<in> dom (view (snd (load_all load es s)))))"
  using assms(1,4,6)
proof (induction es arbitrary: s)
  case (Cons e es)
  obtain k v where e: "e = (k, v)" by fastforce
  let ?s = "snd (load (k, v) s)"
  have ret: "fst (load e s) = 0"
    using Cons.prems(1) by (auto simp: Let_def split_def split: if_splits)
  have db: "db k = Some v" "given k" "\<forall>(k, v) \<in> set es. db k = Some v \<and> given k"
    using Cons.prems(2) e by auto
  note step = load_view [OF assms(2,3) db(1,2) assms(5) Cons.prems(3)]
  have "fst (load_all load es ?s) = 0" "view ?s \<subseteq>\<^sub>m T"
    using Cons.prems(1) step ret e load_all_Cons_ok [where load = load and e = e and s = s and es = es, OF ret] by auto
  note rest = Cons.IH [OF this(1) db(3) this(2)]
  have "load_all load (e # es) s = load_all load es ?s"
    using load_all_Cons_ok [where load = load and e = e and s = s, OF ret] e by simp
  moreover have "view s \<subseteq>\<^sub>m view (snd (load_all load es ?s))"
    using step rest map_le_trans by blast
  moreover have "\<exists>n. k = keyf n \<and> n \<in> dom T \<and> n \<in> dom (view (snd (load_all load es ?s)))"
    if p: "starts_with prefix k"
  proof -
    obtain n where "k = keyf n" "n \<in> dom T" "n \<in> dom (view ?s)" using step p by auto
    moreover have "dom (view ?s) \<subseteq> dom (view (snd (load_all load es ?s)))"
      using rest map_le_implies_dom_le by blast
    ultimately show ?thesis by blast
  qed
  ultimately show ?case
    using rest e by (simp del: load_all.simps(2))
qed simp

text \<open>Loading every entry of the mirrored map into an empty view yields the map.\<close>

lemma rebuilt:
  assumes "fst (load_all load es s) = 0" "mirrors prefix keyf codec T db" "pb_ok codec"
    "\<forall>(k, v) \<in> set es. db k = Some v \<and> given k" "\<And>n i. T n = Some i \<Longrightarrow> filed n i"
    "view s = Map.empty" "inj_on keyf (dom T)" "\<And>n. n \<in> dom T \<Longrightarrow> starts_with prefix (keyf n)"
    "\<And>k v. db k = Some v \<Longrightarrow> starts_with prefix k \<Longrightarrow> (k, v) \<in> set es"
  shows "view (snd (load_all load es s)) = T"
proof (rule map_le_antisym)
  let ?v = "view (snd (load_all load es s))"
  have "view s \<subseteq>\<^sub>m T" using assms(6) by simp
  note all = load_all_view [OF assms(1-5) this]
  show le: "?v \<subseteq>\<^sub>m T" using all by simp
  have "n \<in> dom ?v" if n: "n \<in> dom T" for n
  proof -
    obtain i w where i: "T n = Some i" "pb_serialize codec i = Some w"
      using n mirrorsD2 [OF assms(2)] by blast
    then have "db (keyf n) = Some w"
      using mirrorsD1 [OF assms(2) assms(8) [OF n]] by auto
    from assms(9) [OF this assms(8) [OF n]] have "keyf n \<in> fst ` set es" by force
    with all assms(8) [OF n] obtain m where "keyf n = keyf m" "m \<in> dom T" "m \<in> dom ?v" by blast
    with assms(7) n show ?thesis by (auto dest: inj_onD)
  qed
  then show "T \<subseteq>\<^sub>m ?v"
    using le by (auto simp: map_le_def)
qed

text \<open>A property of the loaded state that depends on what the entries are.\<close>

lemma load_all_keeps:
  assumes "fst (load_all load es s) = 0" "mirrors prefix keyf codec T db" "pb_ok codec"
    "\<forall>(k, v) \<in> set es. db k = Some v \<and> given k" "\<And>n i. T n = Some i \<Longrightarrow> filed n i" "view s \<subseteq>\<^sub>m T" "P s"
    and entry: "\<And>n i v s. view s \<subseteq>\<^sub>m T \<Longrightarrow> T n = Some i \<Longrightarrow> pb_parse codec v = Some i \<Longrightarrow> P s \<Longrightarrow>
      P (snd (load (keyf n, v) s))"
    and other: "\<And>k v s. given k \<Longrightarrow> \<not> starts_with prefix k \<Longrightarrow> P s \<Longrightarrow> P (snd (load (k, v) s))"
  shows "P (snd (load_all load es s))"
  using assms(1,4,6,7)
proof (induction es arbitrary: s)
  case (Cons e es)
  obtain k v where e: "e = (k, v)" by fastforce
  have ret: "fst (load e s) = 0"
    using Cons.prems(1) by (auto simp: Let_def split_def split: if_splits)
  have db: "db k = Some v" "given k" using Cons.prems(2) e by auto
  note step = load_view [OF assms(2,3) db assms(5) Cons.prems(3)]
  have "P (snd (load e s))"
  proof (cases "starts_with prefix k")
    case True
    then obtain n i where "T n = Some i" "k = keyf n" "pb_parse codec v = Some i"
      using mirrored_entry [OF assms(2,3) db(1)] by blast
    with entry [OF Cons.prems(3)] Cons.prems(4) e show ?thesis by simp
  qed (use other db(2) Cons.prems(4) e in simp)
  moreover have "load_all load (e # es) s = load_all load es (snd (load e s))"
    by (rule load_all_Cons_ok) (rule ret)
  ultimately show ?case
    using Cons.IH [of "snd (load e s)"] Cons.prems step e by simp
qed simp

end

end
