(* ===== verification/SnapshotRoundTrip.thy ===== *)
theory SnapshotRoundTrip
  imports Snapshot DemoWorld
begin

text \<open>
  Loading a saved snapshot: the loops of the managers are interpretations of \<open>snapshot_loader\<close>,
  and together they rebuild the directory that was saved.
\<close>

subsection \<open>The loops as loaders\<close>

definition load_user_entry ::
  "env \<Rightarrow> string \<times> string \<Rightarrow> 'a privilege_manager_scheme \<Rightarrow> int \<times> 'a privilege_manager_scheme" where
  "load_user_entry E e s =
     (case pb_parse (user_pb E) (snd e) of
        None \<Rightarrow> (-1, s)
      | Some u \<Rightarrow> (0, s\<lparr>user_privilege := (user_privilege s)(drop (length PRIVILEGE_IDENTIFY) (fst e) \<mapsto> u)\<rparr>))"

definition load_config_entry ::
  "env \<Rightarrow> string \<times> string \<Rightarrow> 'a config_manager_scheme \<Rightarrow> int \<times> 'a config_manager_scheme" where
  "load_config_entry E e = load_config_snapshot E (snd e)"

definition load_instance_entry ::
  "env \<Rightarrow> string \<times> string \<Rightarrow> 'a instance_manager_scheme \<Rightarrow> int \<times> 'a instance_manager_scheme" where
  "load_instance_entry E e = load_instance_snapshot E (snd e)"

lemma load_users_all: "load_users E es s = load_all (load_user_entry E) es s"
  by (induction es arbitrary: s) (auto simp: load_user_entry_def split: option.splits)

lemma load_configs_all: "load_configs E es s = load_all (load_config_entry E) es s"
  by (induction es arbitrary: s) (auto simp: load_config_entry_def split: prod.splits)

lemma load_instances_all: "load_instances E es s = load_all (load_instance_entry E) es s"
  by (induction es arbitrary: s) (auto simp: load_instance_entry_def split: prod.splits)

lemmas schema_load_defs = load_schema_entry_def load_zone_snapshot_def load_servlet_snapshot_def
  load_namespace_snapshot_def load_max_id_snapshot_def namespace_accessors zone_accessors servlet_accessors

interpretation nsl: snapshot_loader "load_schema_entry E" namespace_info_map namespace_prefix
    construct_namespace_key "ns_pb E" "\<lambda>n i. ns_id i = n" "\<lambda>k. True" for E
  by unfold_locales (auto simp: schema_load_defs key_simps split: option.splits)

interpretation zl: snapshot_loader "load_schema_entry E" zone_info_map zone_prefix
    construct_zone_key "zone_pb E" "\<lambda>n i. z_zone_id i = n" "\<lambda>k. True" for E
  by unfold_locales (auto simp: schema_load_defs key_simps split: option.splits)

interpretation ul: snapshot_loader "load_user_entry E" user_privilege privilege_prefix
    construct_privilege_key "user_pb E" "\<lambda>n i. True" "starts_with privilege_prefix" for E
  by unfold_locales (auto simp: load_user_entry_def construct_privilege_key_def)

interpretation il: snapshot_loader "load_instance_entry E" instance_info instance_prefix
    construct_instance_key "instance_pb E" "\<lambda>a i. str_field (si_address i) = a" "starts_with instance_prefix" for E
  by unfold_locales (auto simp: load_instance_entry_def load_instance_snapshot_def instance_accessors)

interpretation cl: snapshot_loader "load_config_entry E" config_at config_prefix
    "\<lambda>(n, v). make_config_key E n v" "config_pb E"
    "\<lambda>nv c. str_field (c_name c) = fst nv \<and> to_module_version (version_field c) = snd nv"
    "starts_with config_prefix" for E
  by unfold_locales
    (auto simp: load_config_entry_def load_config_snapshot_def Let_def config_at_def versions_of_def
      config_opened_def at_or_def fun_eq_iff split: option.splits)

subsection \<open>The store after loading\<close>

lemma tag_in_range:
  assumes "starts_with [c] k" "CHR 0x01 \<le> c" "c < CHR 0xFF"
  shows "SCHEMA_IDENTIFY \<le> k \<and> k < MAX_IDENTIFY"
proof -
  obtain r where "k = c # r" using starts_withE [OF assms(1)] by auto
  with assms(2,3) show ?thesis
    by (cases "c = CHR 0x01") (auto simp: SCHEMA_IDENTIFY_def MAX_IDENTIFY_def)
qed

lemma loaded_store:
  assumes "storage_ok S" "finite (dom db)" "remove_range S SCHEMA_IDENTIFY MAX_IDENTIFY db0 = Some db1"
    "ingest S (scan_all S db) db1 = Some db2" "starts_with [c] k" "CHR 0x01 \<le> c" "c < CHR 0xFF"
  shows "db2 k = db k"
proof -
  have db1: "db1 = (\<lambda>k. if SCHEMA_IDENTIFY \<le> k \<and> k < MAX_IDENTIFY then None else db0 k)"
    using assms(1,3) by (simp add: storage_ok_def)
  have db2: "db2 = db1 ++ map_of (scan_all S db)"
    using assms(1,4) by (simp add: storage_ok_def)
  have "map_of (scan_all S db) = db" using assms(1,2) by (simp add: storage_ok_def)
  with db2 have db2: "db2 = db1 ++ db" by simp
  have "db1 k = None" using tag_in_range [OF assms(5-7)] by (simp add: db1)
  then show ?thesis unfolding db2 by (simp add: map_add_def split: option.splits)
qed

lemma loaded_finite:
  assumes "storage_ok S" "finite (dom db)" "finite (dom db0)"
    "remove_range S SCHEMA_IDENTIFY MAX_IDENTIFY db0 = Some db1" "ingest S (scan_all S db) db1 = Some db2"
  shows "finite (dom db2)"
proof -
  have "db1 = (\<lambda>k. if SCHEMA_IDENTIFY \<le> k \<and> k < MAX_IDENTIFY then None else db0 k)"
    using assms(1,4) by (simp add: storage_ok_def)
  then have "dom db1 \<subseteq> dom db0" by (auto split: if_splits)
  moreover have "db2 = db1 ++ map_of (scan_all S db)"
    using assms(1,5) by (simp add: storage_ok_def)
  ultimately show ?thesis using assms(3) by (simp add: finite_subset finite_dom_map_of)
qed

lemma scan_entries:
  assumes "storage_ok S" "finite (dom db)"
  shows "(k, v) \<in> set (scan S db [c]) \<longleftrightarrow> db k = Some v \<and> starts_with [c] k"
  using assms by (simp add: storage_ok_def)

subsection \<open>Loading the users, configurations and instances\<close>

lemma load_all_mirrored:
  assumes "mirrors p keyf codec T db" "pb_ok codec" "\<forall>(k, v) \<in> set es. db k = Some v \<and> starts_with p k"
    "\<And>e s. pb_parse codec (snd e) \<noteq> None \<Longrightarrow> fst (load e s) = 0"
  shows "fst (load_all load es s) = 0"
proof (rule load_all_ok)
  fix e s assume "e \<in> set es"
  then have "db (fst e) = Some (snd e)" "starts_with p (fst e)" using assms(3) by auto
  then obtain i where "pb_serialize codec i = Some (snd e)"
    using mirrorsD1 [OF assms(1)] by blast
  then have "pb_parse codec (snd e) = Some i" using assms(2) by (rule_tac pb_okD)
  then show "fst (load e s) = 0" using assms(4) [of e] by simp
qed

lemma load_users_rebuilds:
  assumes "mirrors privilege_prefix construct_privilege_key (user_pb E) T db" "pb_ok (user_pb E)"
    "\<And>k v. (k, v) \<in> set es \<longleftrightarrow> db k = Some v \<and> starts_with privilege_prefix k"
  shows "privilege_load_snapshot E es s = (0, s\<lparr>user_privilege := T\<rparr>)"
proof -
  let ?s = "s\<lparr>user_privilege := Map.empty\<rparr>"
  let ?r = "load_all (load_user_entry E) es ?s"
  have es: "\<forall>(k, v) \<in> set es. db k = Some v \<and> starts_with privilege_prefix k"
    using assms(3) by auto
  have ret: "fst ?r = 0"
    by (rule load_all_mirrored [OF assms(1,2) es]) (auto simp: load_user_entry_def)
  have "user_privilege (snd ?r) = T"
    by (rule ul.rebuilt [OF ret assms(1,2) es])
      (auto simp: assms(3) key_simps inj_on_def)
  moreover have "\<exists>u. snd ?r = s\<lparr>user_privilege := u\<rparr>"
    by (rule load_all_invariant [where P = "\<lambda>t. \<exists>u. t = s\<lparr>user_privilege := u\<rparr>"])
      (auto simp: load_user_entry_def split: option.splits)
  ultimately have "snd ?r = s\<lparr>user_privilege := T\<rparr>" by auto
  with ret show ?thesis
    by (simp add: privilege_load_snapshot_def load_users_all prod_eq_iff)
qed

lemma load_config_entry_frame:
  "(snd (load_config_entry E e t))\<lparr>configs := m\<rparr> = t\<lparr>configs := m\<rparr>"
  by (cases "pb_parse (config_pb E) (snd e)")
    (simp_all add: load_config_entry_def load_config_snapshot_def Let_def config_opened_def)

lemma load_configs_rebuilds:
  assumes "mirrors config_prefix (\<lambda>(n, v). make_config_key E n v) (config_pb E) T db" "pb_ok (config_pb E)"
    "\<And>k v. (k, v) \<in> set es \<longleftrightarrow> db k = Some v \<and> starts_with config_prefix k"
    "inj_on (\<lambda>(n, v). make_config_key E n v) (dom T)"
    "\<And>nv c. T nv = Some c \<Longrightarrow> str_field (c_name c) = fst nv \<and> to_module_version (version_field c) = snd nv"
  shows "\<exists>m. config_load_snapshot E es s = (0, s\<lparr>configs := m\<rparr>) \<and> config_at (s\<lparr>configs := m\<rparr>) = T"
proof -
  let ?s = "s\<lparr>configs := Map.empty\<rparr>"
  let ?r = "load_all (load_config_entry E) es ?s"
  have es: "\<forall>(k, v) \<in> set es. db k = Some v \<and> starts_with config_prefix k"
    using assms(3) by auto
  have ret: "fst ?r = 0"
    by (rule load_all_mirrored [OF assms(1,2) es])
      (auto simp: load_config_entry_def load_config_snapshot_def Let_def)
  have empty: "config_at ?s = Map.empty"
    by (simp add: config_at_def versions_of_def fun_eq_iff)
  have "config_at (snd ?r) = T"
    by (rule cl.rebuilt [OF ret assms(1,2) es _ empty assms(4)])
      (use assms(5) in \<open>auto simp: assms(3) key_simps\<close>)
  moreover have "(snd ?r)\<lparr>configs := Map.empty\<rparr> = s\<lparr>configs := Map.empty\<rparr>"
    by (rule load_all_invariant [where P = "\<lambda>t. t\<lparr>configs := Map.empty\<rparr> = s\<lparr>configs := Map.empty\<rparr>"])
      (simp_all add: load_config_entry_frame)
  then have "snd ?r = s\<lparr>configs := configs (snd ?r)\<rparr>"
    by (cases "snd ?r", cases s) simp
  ultimately show ?thesis
    using ret by (intro exI [of _ "configs (snd ?r)"]) (simp add: config_load_snapshot_def load_configs_all prod_eq_iff)
qed

text \<open>After a load the index sets list every instance, not only sound entries.\<close>

definition index_exact ::
  "(string \<Rightarrow> ServletInstance option) \<Rightarrow> (ServletInstance \<Rightarrow> string) \<Rightarrow> (string \<Rightarrow> string set option) \<Rightarrow> bool" where
  "index_exact infos key_of idx \<longleftrightarrow>
     (\<forall>k a. a \<in> at_or {} idx k \<longleftrightarrow> (\<exists>i. infos a = Some i \<and> key_of i = k))"

definition indexes_exact :: "'a instance_manager_scheme \<Rightarrow> bool" where
  "indexes_exact s \<longleftrightarrow> index_exact (instance_info s) instance_ns_key (namespace_instance s) \<and>
     index_exact (instance_info s) instance_zone_key (zone_instance s) \<and>
     index_exact (instance_info s) instance_servlet_key (servlet_instance s)"

lemma index_exact_insert:
  assumes "index_exact infos key_of idx" "infos a = None \<or> infos a = Some i"
  shows "index_exact (infos(a \<mapsto> i)) key_of (index_insert (key_of i) a idx)"
  using assms unfolding index_exact_def by (auto simp: at_or_index_insert)

lemma indexes_exact_set:
  assumes "indexes_exact s" "instance_info s (str_field (si_address i)) \<in> {None, Some i}"
  shows "indexes_exact (set_instance_info i s)"
proof -
  have a: "instance_info s (str_field (si_address i)) = None \<or>
      instance_info s (str_field (si_address i)) = Some i"
    using assms(2) by auto
  have "instance_info (set_instance_info i s) = (instance_info s)(str_field (si_address i) \<mapsto> i)"
    "namespace_instance (set_instance_info i s) =
       index_insert (instance_ns_key i) (str_field (si_address i)) (namespace_instance s)"
    "zone_instance (set_instance_info i s) =
       index_insert (instance_zone_key i) (str_field (si_address i)) (zone_instance s)"
    "servlet_instance (set_instance_info i s) =
       index_insert (instance_servlet_key i) (str_field (si_address i)) (servlet_instance s)"
    by (simp_all add: instance_accessors)
  with assms(1) a show ?thesis
    by (simp add: indexes_exact_def index_exact_insert)
qed

lemma load_instances_rebuilds:
  assumes "mirrors instance_prefix construct_instance_key (instance_pb E) T db" "pb_ok (instance_pb E)"
    "\<And>k v. (k, v) \<in> set es \<longleftrightarrow> db k = Some v \<and> starts_with instance_prefix k"
    "\<And>a i. T a = Some i \<Longrightarrow> str_field (si_address i) = a"
  shows "\<exists>s'. instance_load_snapshot E es s = (0, s') \<and> instance_info s' = T \<and> indexes_exact s' \<and>
    removed_instance s' = Map.empty \<and> servlet_manager.truncate s' = servlet_manager.truncate s \<and>
    instance_manager.more s' = instance_manager.more s"
proof -
  let ?s = "instance_clear s"
  let ?r = "load_all (load_instance_entry E) es ?s"
  have es: "\<forall>(k, v) \<in> set es. db k = Some v \<and> starts_with instance_prefix k"
    using assms(3) by auto
  have ret: "fst ?r = 0"
    by (rule load_all_mirrored [OF assms(1,2) es])
      (auto simp: load_instance_entry_def load_instance_snapshot_def)
  have "instance_info (snd ?r) = T"
    by (rule il.rebuilt [OF ret assms(1,2) es assms(4)])
      (auto simp: assms(3) key_simps inj_on_def instance_clear_def)
  moreover have "indexes_exact (snd ?r)"
  proof (rule il.load_all_keeps [OF ret assms(1,2) es assms(4), where P = indexes_exact])
    show "indexes_exact ?s" by (simp add: indexes_exact_def index_exact_def instance_clear_def)
  next
    fix n i v and s :: "'a instance_manager_scheme"
    assume a: "instance_info s \<subseteq>\<^sub>m T" "T n = Some i" "pb_parse (instance_pb E) v = Some i" "indexes_exact s"
    have "instance_info s n \<in> {None, Some i}"
      using a(1,2) by (cases "instance_info s n") (auto simp: map_le_def dom_def)
    with a assms(4) show "indexes_exact (snd (load_instance_entry E (construct_instance_key n, v) s))"
      by (simp add: load_instance_entry_def load_instance_snapshot_def indexes_exact_set)
  qed (auto simp: instance_clear_def)
  moreover have "removed_instance (snd ?r) = Map.empty \<and>
      servlet_manager.truncate (snd ?r) = servlet_manager.truncate s \<and>
      instance_manager.more (snd ?r) = instance_manager.more s"
    by (rule load_all_invariant [where P = "\<lambda>t. removed_instance t = Map.empty \<and>
          servlet_manager.truncate t = servlet_manager.truncate s \<and>
          instance_manager.more t = instance_manager.more s"])
      (auto simp: load_instance_entry_def load_instance_snapshot_def instance_accessors
        servlet_manager.defs split: option.splits)
  ultimately show ?thesis
    using ret by (intro exI [of _ "snd ?r"]) (simp add: instance_load_snapshot_def load_instances_all prod_eq_iff)
qed

subsection \<open>Loading the schema\<close>

lemma load_all_field:
  assumes "fst (load_all load es s) = 0"
    "\<And>k v s. f (snd (load (k, v) s)) = (if k = key then g v else f s)"
    "\<forall>(k, v) \<in> set es. k = key \<longrightarrow> g v = x"
  shows "f (snd (load_all load es s)) = (if key \<in> fst ` set es then x else f s)"
  using assms(1,3)
proof (induction es arbitrary: s)
  case (Cons e es)
  obtain k v where e: "e = (k, v)" by fastforce
  have ret: "fst (load e s) = 0"
    using Cons.prems(1) by (auto simp: Let_def split_def split: if_splits)
  have "load_all load (e # es) s = load_all load es (snd (load e s))"
    by (rule load_all_Cons_ok) (rule ret)
  with Cons.IH [of "snd (load e s)"] Cons.prems e assms(2) [of k v s] show ?case
    by auto
qed simp

lemma schema_prefixes:
  "starts_with namespace_prefix k \<Longrightarrow> starts_with SCHEMA_IDENTIFY k"
  "starts_with zone_prefix k \<Longrightarrow> starts_with SCHEMA_IDENTIFY k"
  "starts_with servlet_prefix k \<Longrightarrow> starts_with SCHEMA_IDENTIFY k"
  "starts_with SCHEMA_IDENTIFY construct_max_namespace_id_key"
  "starts_with SCHEMA_IDENTIFY construct_max_zone_id_key"
  "starts_with SCHEMA_IDENTIFY construct_max_servlet_id_key"
  by (auto simp: prefix_defs key_defs tag_defs dest!: starts_withE)

lemma max_id_key_iff:
  assumes "starts_with max_id_prefix k"
  shows "drop (length max_id_prefix) k = MAX_NAMESPACE_ID_KEY \<longleftrightarrow> k = construct_max_namespace_id_key"
    "drop (length max_id_prefix) k = MAX_ZONE_ID_KEY \<longleftrightarrow> k = construct_max_zone_id_key"
    "drop (length max_id_prefix) k = MAX_SERVLET_ID_KEY \<longleftrightarrow> k = construct_max_servlet_id_key"
  using starts_withE [OF assms] by (auto simp: prefix_defs key_defs)

lemma max_id_prefix_keys:
  "starts_with max_id_prefix construct_max_namespace_id_key" "starts_with max_id_prefix construct_max_zone_id_key"
  "starts_with max_id_prefix construct_max_servlet_id_key"
  "starts_with max_id_prefix k \<Longrightarrow> \<not> starts_with namespace_prefix k \<and> \<not> starts_with zone_prefix k \<and>
     \<not> starts_with servlet_prefix k"
  by (auto simp: prefix_defs key_defs tag_defs dest!: starts_withE)

lemma load_schema_entry_max:
  shows "max_namespace_id (snd (load_schema_entry E (k, v) s)) =
      (if k = construct_max_namespace_id_key then bytes_int64 v else max_namespace_id s)"
    "max_zone_id (snd (load_schema_entry E (k, v) s)) =
      (if k = construct_max_zone_id_key then bytes_int64 v else max_zone_id s)"
    "max_servlet_id (snd (load_schema_entry E (k, v) s)) =
      (if k = construct_max_servlet_id_key then bytes_int64 v else max_servlet_id s)"
proof -
  note max = max_id_key_iff [of k] max_id_prefix_keys
  show "max_namespace_id (snd (load_schema_entry E (k, v) s)) =
      (if k = construct_max_namespace_id_key then bytes_int64 v else max_namespace_id s)"
    "max_zone_id (snd (load_schema_entry E (k, v) s)) =
      (if k = construct_max_zone_id_key then bytes_int64 v else max_zone_id s)"
    "max_servlet_id (snd (load_schema_entry E (k, v) s)) =
      (if k = construct_max_servlet_id_key then bytes_int64 v else max_servlet_id s)"
    using max by (auto simp: schema_load_defs Let_def key_simps split: option.splits)
qed

lemma load_schema_entry_frame:
  "rocks (snd (load_schema_entry E e t)) = rocks t"
  "servlet_manager.more (snd (load_schema_entry E e t)) = servlet_manager.more t"
  by (cases e, auto simp: schema_load_defs Let_def split: option.split)+

text \<open>The name map is the inverse of the info map: a registry's, and a loaded one's.\<close>

definition names_inverse :: "(string \<Rightarrow> int option) \<Rightarrow> (int \<Rightarrow> 'i option) \<Rightarrow> ('i \<Rightarrow> string) \<Rightarrow> bool" where
  "names_inverse idm infm key_of \<longleftrightarrow> (\<forall>k n. idm k = Some n \<longleftrightarrow> (\<exists>i. infm n = Some i \<and> key_of i = k))"

lemma names_inverse_registry:
  "registry_ok idm infm key_of id_of mx \<Longrightarrow> names_inverse idm infm key_of"
  unfolding names_inverse_def by (blast dest: registry_okD1 registry_okD2)

lemma names_inverse_unique:
  "names_inverse idm infm key_of \<Longrightarrow> names_inverse idm' infm key_of \<Longrightarrow> idm = idm'"
  unfolding names_inverse_def by (intro ext) (metis not_Some_eq)

lemma names_inverse_set:
  assumes "names_inverse idm infm key_of" "infm \<subseteq>\<^sub>m T" "registry_ok tid T key_of id_of mx" "T n = Some i"
  shows "names_inverse (idm(key_of i \<mapsto> n)) (infm(n \<mapsto> i)) key_of"
  unfolding names_inverse_def
proof (intro allI)
  fix k m
  have old: "infm m = Some j \<Longrightarrow> T m = Some j" for m j
    using assms(2) by (auto simp: map_le_def dom_def)
  have uniq: "m = n" if "T m = Some j" "key_of j = key_of i" for m j
    using registry_okD2 [OF assms(3) that(1)] registry_okD2 [OF assms(3,4)] that(2) by simp
  have old_n: "infm n = None \<or> infm n = Some i"
    using old [of n] assms(4) by (cases "infm n") auto
  show "(idm(key_of i \<mapsto> n)) k = Some m \<longleftrightarrow> (\<exists>j. (infm(n \<mapsto> i)) m = Some j \<and> key_of j = k)"
    using assms(1) old_n uniq old unfolding names_inverse_def
    by (cases "k = key_of i"; cases "m = n") auto
qed

lemma load_schema_ok:
  assumes "env_ok E" "dsm_inv E s" "max_namespace_id s < 2 ^ 63" "max_zone_id s < 2 ^ 63"
    "\<And>k v. (k, v) \<in> set es \<longleftrightarrow> rocks s k = Some v \<and> starts_with SCHEMA_IDENTIFY k"
  shows "fst (load_all (load_schema_entry E) es t) = 0"
proof (rule load_all_ok)
  fix e t assume in_es: "e \<in> set es"
  obtain k v where kv: "e = (k, v)" by fastforce
  with in_es assms(5) [of k v] have e: "e = (k, v)" "rocks s k = Some v" by simp_all
  have m: "mirrors namespace_prefix construct_namespace_key (ns_pb E) (namespace_info_map s) (rocks s)"
    "mirrors zone_prefix construct_zone_key (zone_pb E) (zone_info_map s) (rocks s)" "servlet_stored E s"
    using assms(2-4) by (simp_all add: dsm_inv_def ns_inv_def ns_persisted_def zone_inv_def zone_persisted_def)
  note pb = env_okD [OF assms(1)]
  have "pb_parse (ns_pb E) v \<noteq> None" if "starts_with namespace_prefix k"
    using nsl.mirrored_entry [OF m(1) pb(2) e(2) that] by auto
  moreover have "pb_parse (zone_pb E) v \<noteq> None" if "starts_with zone_prefix k"
    using zl.mirrored_entry [OF m(2) pb(3) e(2) that] by auto
  moreover have "pb_parse (servlet_pb E) v \<noteq> None" if "starts_with servlet_prefix k"
    using m(3) e(2) that by (auto simp: servlet_stored_def)
  ultimately show "fst (load_schema_entry E e t) = 0"
    by (auto simp: e load_schema_entry_def load_zone_snapshot_def load_servlet_snapshot_def
        load_namespace_snapshot_def load_max_id_snapshot_def Let_def split: option.split)
qed

text \<open>Loading zones and namespaces, each with what goes with its infos.\<close>

lemma load_schema_namespaces:
  assumes "env_ok E" "dsm_inv E s" "max_namespace_id s < 2 ^ 63"
    "\<And>k v. (k, v) \<in> set es \<longleftrightarrow> rocks s k = Some v \<and> starts_with SCHEMA_IDENTIFY k"
    "fst (load_all (load_schema_entry E) es t) = 0" "namespace_info_map t = Map.empty"
    "namespace_id_map t = Map.empty"
  shows "namespace_info_map (snd (load_all (load_schema_entry E) es t)) = namespace_info_map s \<and>
    namespace_id_map (snd (load_all (load_schema_entry E) es t)) = namespace_id_map s"
proof -
  let ?r = "load_all (load_schema_entry E) es t"
  have ok: "ns_registry_ok s"
    and m: "mirrors namespace_prefix construct_namespace_key (ns_pb E) (namespace_info_map s) (rocks s)"
    using assms(2,3) by (simp_all add: dsm_inv_def ns_inv_def ns_persisted_def)
  note reg = ok [unfolded ns_registry_ok_def]
  have pb: "pb_ok (ns_pb E)" using assms(1) by (simp add: env_ok_def)
  have es: "\<forall>(k, v) \<in> set es. rocks s k = Some v \<and> True" using assms(4) by auto
  have filed: "ns_id i = n" if "namespace_info_map s n = Some i" for n i
    using registry_okD2 [OF reg that] by simp
  have inj: "inj_on construct_namespace_key (dom (namespace_info_map s))"
    using ns_ids_in_range [OF ok assms(3)] by (auto simp: inj_on_def key_simps)
  have info: "namespace_info_map (snd ?r) = namespace_info_map s"
    by (rule nsl.rebuilt [OF assms(5) m pb es filed assms(6) inj])
      (auto simp: key_simps assms(4) schema_prefixes)
  have "names_inverse (namespace_id_map (snd ?r)) (namespace_info_map (snd ?r)) ns_name"
  proof (rule nsl.load_all_keeps [OF assms(5) m pb es filed, where
        P = "\<lambda>t. names_inverse (namespace_id_map t) (namespace_info_map t) ns_name"])
    show "names_inverse (namespace_id_map t) (namespace_info_map t) ns_name"
      by (simp add: names_inverse_def assms(6,7))
  next
    fix n i v and t :: "'b servlet_manager_scheme"
    assume a: "namespace_info_map t \<subseteq>\<^sub>m namespace_info_map s" "namespace_info_map s n = Some i"
      "pb_parse (ns_pb E) v = Some i" "names_inverse (namespace_id_map t) (namespace_info_map t) ns_name"
    with names_inverse_set [OF a(4,1) reg a(2)] filed [OF a(2)]
    show "names_inverse (namespace_id_map (snd (load_schema_entry E (construct_namespace_key n, v) t)))
        (namespace_info_map (snd (load_schema_entry E (construct_namespace_key n, v) t))) ns_name"
      by (simp add: schema_load_defs key_simps)
  next
    fix k v and t :: "'b servlet_manager_scheme"
    assume a: "\<not> starts_with namespace_prefix k" "names_inverse (namespace_id_map t) (namespace_info_map t) ns_name"
    then show "names_inverse (namespace_id_map (snd (load_schema_entry E (k, v) t)))
        (namespace_info_map (snd (load_schema_entry E (k, v) t))) ns_name"
      by (auto simp: schema_load_defs split: option.splits)
  qed (simp_all add: assms(6))
  with info names_inverse_unique names_inverse_registry [OF reg] show ?thesis by metis
qed

definition zone_ids_exact :: "'a zone_manager_scheme \<Rightarrow> bool" where
  "zone_ids_exact s \<longleftrightarrow> (\<forall>m n. n \<in> at_or {} (zone_ids s) m \<longleftrightarrow>
     (\<exists>z. zone_info_map s n = Some z \<and> z_namespace_id z = m))"

lemma at_or_add_zone_id:
  "at_or {} (zone_ids (add_zone_id m n s)) k =
     (if k = m then insert n (at_or {} (zone_ids s) m) else at_or {} (zone_ids s) k)"
  by (auto simp: add_zone_id_def at_or_def Let_def split: option.splits)

lemma load_schema_zones:
  assumes "env_ok E" "dsm_inv E s" "max_zone_id s < 2 ^ 63"
    "\<And>k v. (k, v) \<in> set es \<longleftrightarrow> rocks s k = Some v \<and> starts_with SCHEMA_IDENTIFY k"
    "fst (load_all (load_schema_entry E) es t) = 0" "zone_info_map t = Map.empty"
    "zone_id_map t = Map.empty" "zone_ids t = Map.empty"
  shows "zone_info_map (snd (load_all (load_schema_entry E) es t)) = zone_info_map s \<and>
    zone_id_map (snd (load_all (load_schema_entry E) es t)) = zone_id_map s \<and>
    at_or {} (zone_ids (snd (load_all (load_schema_entry E) es t))) = at_or {} (zone_ids s)"
proof -
  let ?r = "load_all (load_schema_entry E) es t"
  have ok: "zone_registry_ok s"
    and m: "mirrors zone_prefix construct_zone_key (zone_pb E) (zone_info_map s) (rocks s)"
    using assms(2,3) by (simp_all add: dsm_inv_def zone_inv_def zone_persisted_def)
  note reg = ok [unfolded zone_registry_ok_def]
  have pb: "pb_ok (zone_pb E)" using assms(1) by (simp add: env_ok_def)
  have es: "\<forall>(k, v) \<in> set es. rocks s k = Some v \<and> True" using assms(4) by auto
  have filed: "z_zone_id i = n" if "zone_info_map s n = Some i" for n i
    using registry_okD2 [OF reg that] by simp
  have inj: "inj_on construct_zone_key (dom (zone_info_map s))"
    using zone_ids_in_range [OF ok assms(3)] by (auto simp: inj_on_def key_simps)
  have info: "zone_info_map (snd ?r) = zone_info_map s"
    by (rule zl.rebuilt [OF assms(5) m pb es filed assms(6) inj])
      (auto simp: key_simps assms(4) schema_prefixes)
  let ?P = "\<lambda>t. names_inverse (zone_id_map t) (zone_info_map t) zone_info_key \<and> zone_ids_exact t"
  have "?P (snd ?r)"
  proof (rule zl.load_all_keeps [OF assms(5) m pb es filed, where P = ?P])
    show "?P t" by (simp add: names_inverse_def zone_ids_exact_def assms(6-8))
  next
    fix n i v and t :: "'b servlet_manager_scheme"
    assume a: "zone_info_map t \<subseteq>\<^sub>m zone_info_map s" "zone_info_map s n = Some i"
      "pb_parse (zone_pb E) v = Some i" "?P t"
    let ?t = "snd (load_schema_entry E (construct_zone_key n, v) t)"
    have t: "?t = add_zone_id (z_namespace_id i) n (set_zone_info i t)"
      using a(3) filed [OF a(2)] by (simp add: load_schema_entry_def load_zone_snapshot_def key_simps)
    have set: "zone_id_map (set_zone_info i t) = (zone_id_map t)(zone_info_key i \<mapsto> n)"
      "zone_info_map (set_zone_info i t) = (zone_info_map t)(n \<mapsto> i)" "zone_ids (set_zone_info i t) = zone_ids t"
      using filed [OF a(2)] by (simp_all add: zone_accessors)
    have "names_inverse (zone_id_map ?t) (zone_info_map ?t) zone_info_key"
      using names_inverse_set [OF _ a(1) reg a(2), of "zone_id_map t"] a(4)
      unfolding t by (simp add: set add_zone_id_def Let_def)
    moreover have old: "zone_info_map t n = None \<or> zone_info_map t n = Some i"
      using a(1,2) by (cases "zone_info_map t n") (auto simp: map_le_def dom_def)
    have "zone_ids_exact ?t"
      using a(4) old unfolding t zone_ids_exact_def at_or_add_zone_id
      by (auto simp: set add_zone_id_def Let_def)
    ultimately show "?P ?t" by simp
  next
    fix k v and t :: "'b servlet_manager_scheme"
    assume a: "\<not> starts_with zone_prefix k" "?P t"
    then show "?P (snd (load_schema_entry E (k, v) t))"
      by (auto simp: schema_load_defs zone_ids_exact_def split: option.splits)
  qed (simp_all add: assms(6))
  then have "names_inverse (zone_id_map (snd ?r)) (zone_info_map s) zone_info_key"
    "zone_ids_exact (snd ?r)" using info by simp_all
  moreover have "zone_ids_exact s"
    using assms(2) by (simp add: dsm_inv_def zone_links_def zone_ids_exact_def)
  ultimately show ?thesis
    using info names_inverse_unique [OF _ names_inverse_registry [OF reg]]
    unfolding zone_ids_exact_def by (auto simp: fun_eq_iff set_eq_iff)
qed

lemma load_schema_max:
  assumes "fst (load_all (load_schema_entry E) es t) = 0"
    "\<And>k v. (k, v) \<in> set es \<longleftrightarrow> db k = Some v \<and> starts_with SCHEMA_IDENTIFY k"
    "\<And>k v s. f (snd (load_schema_entry E (k, v) s)) = (if k = key then bytes_int64 v else f s)"
    "starts_with SCHEMA_IDENTIFY key" "db key = (if m = 0 then None else Some (int64_bytes m))"
    "0 \<le> m" "m < 2 ^ 63"
  shows "f (snd (load_all (load_schema_entry E) es t)) = (if m = 0 then f t else m)"
proof -
  have range: "int64_range m" using assms(6,7) by (simp add: int64_range_def)
  have val: "bytes_int64 v = m" if "(key, v) \<in> set es" for v
    using that assms(2,5) bytes_int64_bytes [OF range, of "[]"] by (auto split: if_splits)
  have key: "key \<in> fst ` set es \<longleftrightarrow> m \<noteq> 0"
    using assms(2,4,5) by (force simp: image_iff)
  have "f (snd (load_all (load_schema_entry E) es t)) = (if key \<in> fst ` set es then m else f t)"
    by (rule load_all_field [OF assms(1,3)]) (use val in auto)
  with key show ?thesis by simp
qed

lemma load_schema_rebuilds:
  assumes "env_ok E" "dsm_inv E s" "max_namespace_id s < 2 ^ 63" "max_zone_id s < 2 ^ 63" "max_servlet_id s < 2 ^ 63"
    "\<And>k v. (k, v) \<in> set es \<longleftrightarrow> rocks s k = Some v \<and> starts_with SCHEMA_IDENTIFY k"
  shows "\<exists>t'. schema_load_snapshot E es t = (0, t') \<and>
    namespace_info_map t' = namespace_info_map s \<and> namespace_id_map t' = namespace_id_map s \<and>
    zone_info_map t' = zone_info_map s \<and> zone_id_map t' = zone_id_map s \<and>
    at_or {} (zone_ids t') = at_or {} (zone_ids s) \<and>
    max_namespace_id t' = (if max_namespace_id s = 0 then max_namespace_id t else max_namespace_id s) \<and>
    max_zone_id t' = (if max_zone_id s = 0 then max_zone_id t else max_zone_id s) \<and>
    max_servlet_id t' = (if max_servlet_id s = 0 then max_servlet_id t else max_servlet_id s) \<and>
    rocks t' = rocks t \<and> instance_manager.more t' = instance_manager.more t"
proof -
  let ?t = "instance_clear (servlet_clear (zone_clear (namespace_clear t)))"
  let ?r = "load_all (load_schema_entry E) es ?t"
  have ret: "fst ?r = 0"
    by (rule load_schema_ok [OF assms(1-4) assms(6)])
  have clear: "namespace_info_map ?t = Map.empty" "namespace_id_map ?t = Map.empty"
    "zone_info_map ?t = Map.empty" "zone_id_map ?t = Map.empty" "zone_ids ?t = Map.empty"
    "max_namespace_id ?t = max_namespace_id t" "max_zone_id ?t = max_zone_id t"
    "max_servlet_id ?t = max_servlet_id t" "rocks ?t = rocks t"
    "instance_manager.more ?t = instance_manager.more t"
    by (simp_all add: instance_clear_def servlet_clear_def zone_clear_def namespace_clear_def)
  have inv: "0 \<le> max_namespace_id s" "0 \<le> max_zone_id s" "0 \<le> max_servlet_id s"
    "rocks s construct_max_namespace_id_key =
       (if max_namespace_id s = 0 then None else Some (int64_bytes (max_namespace_id s)))"
    "rocks s construct_max_zone_id_key =
       (if max_zone_id s = 0 then None else Some (int64_bytes (max_zone_id s)))"
    "rocks s construct_max_servlet_id_key =
       (if max_servlet_id s = 0 then None else Some (int64_bytes (max_servlet_id s)))"
    using assms(2-4) by (auto simp: dsm_inv_def ns_inv_def ns_persisted_def ns_registry_ok_def zone_inv_def
        zone_persisted_def zone_registry_ok_def registry_ok_def servlet_weak_def servlet_stored_def)
  note max = load_schema_max [OF ret assms(6) load_schema_entry_max(1) schema_prefixes(4) inv(4,1) assms(3)]
    load_schema_max [OF ret assms(6) load_schema_entry_max(2) schema_prefixes(5) inv(5,2) assms(4)]
    load_schema_max [OF ret assms(6) load_schema_entry_max(3) schema_prefixes(6) inv(6,3) assms(5)]
  have "rocks (snd ?r) = rocks ?t \<and> servlet_manager.more (snd ?r) = servlet_manager.more ?t"
    by (rule load_all_invariant [where P = "\<lambda>u. rocks u = rocks ?t \<and> servlet_manager.more u = servlet_manager.more ?t"])
      (simp_all add: load_schema_entry_frame)
  then have frame: "rocks (snd ?r) = rocks t" "instance_manager.more (snd ?r) = instance_manager.more t"
    using clear(9,10) instance_more(6) by metis+
  show ?thesis
    using ret frame load_schema_namespaces [OF assms(1-3) assms(6) ret clear(1,2)]
      load_schema_zones [OF assms(1,2,4) assms(6) ret clear(3-5)] max clear(6-8)
    by (intro exI [of _ "snd ?r"]) (simp add: schema_load_snapshot_def prod_eq_iff)
qed

subsection \<open>The round trip\<close>

definition same_directory :: "'a config_manager_scheme \<Rightarrow> 'a config_manager_scheme \<Rightarrow> bool" where
  "same_directory s s' \<longleftrightarrow>
     namespace_info_map s' = namespace_info_map s \<and> namespace_id_map s' = namespace_id_map s \<and>
     zone_info_map s' = zone_info_map s \<and> zone_id_map s' = zone_id_map s \<and>
     at_or {} (zone_ids s') = at_or {} (zone_ids s) \<and>
     user_privilege s' = user_privilege s \<and> config_at s' = config_at s \<and>
     instance_info s' = instance_info s"

definition explicit_versions :: "'a config_manager_scheme \<Rightarrow> bool" where
  "explicit_versions s \<longleftrightarrow>
     (\<forall>name m v c. configs s name = Some m \<longrightarrow> (v, c) \<in> set m \<longrightarrow> c_version c \<noteq> None)"

lemma explicit_versions_filed:
  assumes "config_inv s" "explicit_versions s" "config_at s nv = Some c"
  shows "str_field (c_name c) = fst nv \<and> to_module_version (version_field c) = snd nv"
proof -
  obtain m where m: "configs s (fst nv) = Some m" "(snd nv, c) \<in> set m"
    using assms(3) by (cases "configs s (fst nv)") (auto simp: config_at_def versions_of_def dest: map_of_SomeD)
  then have "str_field (c_name c) = fst nv" "snd nv = request_version c" "c_version c \<noteq> None"
    using assms(1,2) unfolding config_inv_def explicit_versions_def by blast+
  then show ?thesis
    by (auto simp: request_version_def version_field_def)
qed

lemma load_managers_rebuild:
  fixes s t :: "'a config_manager_scheme"
  assumes "env_ok E" "storage_ok S" "dsm_inv E s" "config_persisted E N s" "config_keys_inj E N"
    "explicit_versions s" "max_namespace_id s < 2 ^ 63" "max_zone_id s < 2 ^ 63" "max_servlet_id s < 2 ^ 63"
    "finite (dom (rocks t))"
    "\<forall>c k. starts_with [c] k \<longrightarrow> CHR 0x01 \<le> c \<longrightarrow> c < CHR 0xFF \<longrightarrow> rocks t k = rocks s k"
  shows "\<exists>t'. load_managers E S t = (0, t') \<and> same_directory s t' \<and> indexes_exact t' \<and>
    removed_instance t' = Map.empty \<and> config_manager.more t' = config_manager.more t \<and>
    max_namespace_id t' = (if max_namespace_id s = 0 then max_namespace_id t else max_namespace_id s) \<and>
    max_zone_id t' = (if max_zone_id s = 0 then max_zone_id t else max_zone_id s) \<and>
    max_servlet_id t' = (if max_servlet_id s = 0 then max_servlet_id t else max_servlet_id s)"
proof -
  have scan: "(k, v) \<in> set (scan S (rocks t) [c]) \<longleftrightarrow> rocks s k = Some v \<and> starts_with [c] k"
    if "CHR 0x01 \<le> c" "c < CHR 0xFF" for c k v
    using scan_entries [OF assms(2,10)] assms(11) that by auto
  note pb = env_okD [OF assms(1)]
  have inv: "user_inv E s" "instance_inv E s" "config_inv s"
    using assms(3) by (simp_all add: dsm_inv_def)
  let ?u = "t\<lparr>user_privilege := user_privilege s\<rparr>"
  have "privilege_load_snapshot E (scan S (rocks t) PRIVILEGE_IDENTIFY) t = (0, ?u)"
    by (rule load_users_rebuilds [OF _ pb(6), of _ "rocks s"])
      (use inv(1) scan in \<open>auto simp: user_inv_def privilege_prefix_def PRIVILEGE_IDENTIFY_def\<close>)
  note 1 = this
  obtain w where w: "schema_load_snapshot E (scan S (rocks ?u) SCHEMA_IDENTIFY) ?u = (0, w)"
    "namespace_info_map w = namespace_info_map s" "namespace_id_map w = namespace_id_map s"
    "zone_info_map w = zone_info_map s" "zone_id_map w = zone_id_map s"
    "at_or {} (zone_ids w) = at_or {} (zone_ids s)"
    "max_namespace_id w = (if max_namespace_id s = 0 then max_namespace_id t else max_namespace_id s)"
    "max_zone_id w = (if max_zone_id s = 0 then max_zone_id t else max_zone_id s)"
    "max_servlet_id w = (if max_servlet_id s = 0 then max_servlet_id t else max_servlet_id s)"
    "rocks w = rocks t" "instance_manager.more w = instance_manager.more ?u"
    using load_schema_rebuilds [OF assms(1,3,7-9), of "scan S (rocks ?u) SCHEMA_IDENTIFY" ?u] scan
    by (auto simp: SCHEMA_IDENTIFY_def)
  have "nv \<in> N \<times> UNIV" if nv: "nv \<in> dom (config_at s)" for nv
  proof -
    obtain c where "config_at s nv = Some c" using nv by auto
    from config_at_names [OF this] assms(4) have "fst nv \<in> N" by (auto simp: config_persisted_def)
    then show ?thesis by (cases nv) simp
  qed
  then have "inj_on (\<lambda>(n, v). make_config_key E n v) (dom (config_at s))"
    using assms(5) unfolding config_keys_inj_def by (blast intro: inj_on_subset)
  then obtain m where m: "config_load_snapshot E (scan S (rocks w) CONFIG_IDENTIFY) w = (0, w\<lparr>configs := m\<rparr>)"
    "config_at (w\<lparr>configs := m\<rparr>) = config_at s"
    using load_configs_rebuilds [of E "config_at s" "rocks s" "scan S (rocks w) CONFIG_IDENTIFY" w] pb(7)
      assms(4) explicit_versions_filed [OF inv(3) assms(6)] scan w(10)
    by (auto simp: config_persisted_def config_prefix_def CONFIG_IDENTIFY_def)
  let ?c = "w\<lparr>configs := m\<rparr>"
  obtain i where i: "instance_load_snapshot E (scan S (rocks ?c) DISCOVERY_IDENTIFY) ?c = (0, i)"
    "instance_info i = instance_info s" "indexes_exact i" "removed_instance i = Map.empty"
    "servlet_manager.truncate i = servlet_manager.truncate ?c" "instance_manager.more i = instance_manager.more ?c"
    using load_instances_rebuilds [of E "instance_info s" "rocks s" "scan S (rocks ?c) DISCOVERY_IDENTIFY" ?c] pb(5)
      inv(2) scan w(10)
    by (auto simp: instance_inv_def instance_ok_def instance_persisted_def instance_prefix_def DISCOVERY_IDENTIFY_def)
  have fields: "namespace_info_map i = namespace_info_map ?c" "namespace_id_map i = namespace_id_map ?c"
    "zone_info_map i = zone_info_map ?c" "zone_id_map i = zone_id_map ?c" "zone_ids i = zone_ids ?c"
    "max_namespace_id i = max_namespace_id ?c" "max_zone_id i = max_zone_id ?c" "max_servlet_id i = max_servlet_id ?c"
    using i(5) by (cases i, cases ?c, simp add: servlet_manager.defs)+
  have rest: "user_privilege w = user_privilege s" "config_manager.more w = config_manager.more t"
    using w(11) by (cases w, cases t, simp)+
  have tail: "user_privilege i = user_privilege s" "configs i = m" "config_manager.more i = config_manager.more t"
    using i(6) rest by (cases i, cases w, simp)+
  have "config_at i = config_at ?c"
    by (rule ext) (simp add: config_at_def versions_of_def tail(2))
  with m(2) have "config_at i = config_at s" by simp
  with 1 w m(1) i fields tail show ?thesis
    by (intro exI [of _ i]) (simp add: load_managers_def same_directory_def)
qed


subsection \<open>A concrete round trip\<close>

definition entries :: "kv \<Rightarrow> string set \<Rightarrow> (string \<times> string) list" where
  "entries db K = map (\<lambda>k. (k, case db k of None \<Rightarrow> [] | Some v \<Rightarrow> v)) (sorted_list_of_set K)"

definition demo_storage :: storage where
  "demo_storage = \<lparr>scan = (\<lambda>db p. entries db {k \<in> dom db. starts_with p k}),
     scan_all = (\<lambda>db. entries db (dom db)),
     remove_range = (\<lambda>a b db. Some (\<lambda>k. if a \<le> k \<and> k < b then None else db k)),
     ingest = (\<lambda>es db. Some (db ++ map_of es))\<rparr>"

definition demo_sst :: sst_env where
  "demo_sst = \<lparr>sst_open_ok = True, sst_put_ok = (\<lambda>e. True), sst_finish_ok = True, add_file_ok = True\<rparr>"

lemma map_of_entries:
  assumes "finite K"
  shows "map_of (entries db K) = (\<lambda>k. if k \<in> K then Some (case db k of None \<Rightarrow> [] | Some v \<Rightarrow> v) else None)"
  using assms by (auto simp: entries_def map_of_map_restrict restrict_map_def fun_eq_iff)

lemma demo_storage_ok: "storage_ok demo_storage"
proof -
  have sorted: "sorted_wrt (<) (map fst (entries db K))" for db K
    by (simp add: entries_def comp_def strict_sorted_list_of_set)
  have mem: "(k, v) \<in> set (entries db {k \<in> dom db. starts_with p k}) \<longleftrightarrow> db k = Some v \<and> starts_with p k"
    if "finite (dom db)" for db p k v
    using that by (auto simp: entries_def)
  have all: "map_of (entries db (dom db)) = db" if "finite (dom db)" for db
    using that by (auto simp: map_of_entries fun_eq_iff split: option.split)
  show ?thesis
    using sorted mem all by (simp add: storage_ok_def demo_storage_def)
qed

lemma demo_state5_inv: "dsm_inv demo_E demo_state5"
proof -
  have "snd (on_apply demo_E demo_request (butlast demo_log) init_state) = demo_state5"
    by (simp add: on_apply_def demo_log_def demo_step1 demo_step2 demo_step3 demo_step4 demo_step5
        del: apply_log.simps(2))
  moreover have "list_all (entry_ok demo_request) (butlast demo_log)"
    using demo_log_ok by (simp add: demo_log_def)
  ultimately show ?thesis
    using on_apply_inv [OF demo_E_ok _ dsm_inv_init, of demo_request "butlast demo_log"] by simp
qed

lemma demo_rocks:
  "rocks demo_state1 = Map.empty(construct_namespace_key 1 \<mapsto> ''N'', construct_max_namespace_id_key \<mapsto> int64_bytes 1)"
  "rocks demo_state2 = (rocks demo_state1)(construct_zone_key 1 \<mapsto> ''Z'', construct_max_zone_id_key \<mapsto> int64_bytes 1)"
  "rocks demo_state3 = (rocks demo_state2)(construct_servlet_key 1 \<mapsto> ''S'', construct_max_servlet_id_key \<mapsto> int64_bytes 1)"
  "rocks demo_state4 = (rocks demo_state3)(construct_instance_key ''a'' \<mapsto> ''I'')"
  "rocks demo_state5 = (rocks demo_state4)(construct_privilege_key ''u'' \<mapsto> ''U'')"
proof -
  show "rocks demo_state1 = Map.empty(construct_namespace_key 1 \<mapsto> ''N'', construct_max_namespace_id_key \<mapsto> int64_bytes 1)"
    by (simp add: demo_state1_def ns_created_def namespace_accessors init_state_def demo_ns_def)
  show "rocks demo_state2 = (rocks demo_state1)(construct_zone_key 1 \<mapsto> ''Z'', construct_max_zone_id_key \<mapsto> int64_bytes 1)"
    by (simp add: demo_state2_def zone_created_def zone_accessors demo_zone_def)
  show "rocks demo_state3 = (rocks demo_state2)(construct_servlet_key 1 \<mapsto> ''S'', construct_max_servlet_id_key \<mapsto> int64_bytes 1)"
    by (simp add: demo_state3_def servlet_created_def servlet_accessors zone_accessors demo_servlet_def)
  show "rocks demo_state4 = (rocks demo_state3)(construct_instance_key ''a'' \<mapsto> ''I'')"
    by (simp add: demo_state4_def set_instance_info_def Let_def)
  show "rocks demo_state5 = (rocks demo_state4)(construct_privilege_key ''u'' \<mapsto> ''U'')"
    by (simp add: demo_state5_def user_set_def)
qed

lemma demo_state5_configs: "config_persisted demo_E {} demo_state5" "explicit_versions demo_state5"
proof -
  have "mirrors config_prefix keyf c Map.empty (rocks demo_state5)" for keyf :: "'k \<Rightarrow> string" and c :: "ConfigInfo pb"
  proof (rule mirrorsI)
    fix k v assume "starts_with config_prefix k"
    then have "rocks demo_state5 k = None"
      using config_keys_other [of k] by (auto simp: demo_rocks dest: starts_withE)
    then show "rocks demo_state5 k = Some v \<longleftrightarrow>
        (\<exists>n i. Map.empty n = Some i \<and> k = keyf n \<and> pb_serialize c i = Some v)" by simp
  qed simp
  moreover have "config_at demo_state5 = Map.empty"
    by (simp add: config_at_def versions_of_def fun_eq_iff)
  ultimately show "config_persisted demo_E {} demo_state5" by (simp add: config_persisted_def)
  show "explicit_versions demo_state5" by (simp add: explicit_versions_def)
qed


end
