(* ===== verification/AccessProperties.thy ===== *)
theory AccessProperties
  imports DemoWorld Queries Decimal
begin

text \<open>
  What the privilege and configuration handlers promise: the merges of privilege lists refine
  operations on a map from targets to rights, versions of a configuration only grow and a created
  one is what queries answer, and the store follows as long as no two names share a key.
\<close>

subsection \<open>Privileges as a map from targets to rights\<close>

definition grant ::
  "('p \<Rightarrow> 'k) \<Rightarrow> ('p \<Rightarrow> int) \<Rightarrow> ('p \<Rightarrow> bool) \<Rightarrow> 'p \<Rightarrow> ('k \<Rightarrow> int option) \<Rightarrow> ('k \<Rightarrow> int option)" where
  "grant target rw force p g = g(target p \<mapsto>
     (case g (target p) of None \<Rightarrow> rw p | Some r \<Rightarrow> if force p then rw p else max (rw p) r))"

definition revoke ::
  "('p \<Rightarrow> 'k) \<Rightarrow> ('p \<Rightarrow> int) \<Rightarrow> ('p \<Rightarrow> bool) \<Rightarrow> 'p \<Rightarrow> ('k \<Rightarrow> int option) \<Rightarrow> ('k \<Rightarrow> int option)" where
  "revoke target rw has_rw p g = g(target p :=
     (case g (target p) of None \<Rightarrow> None | Some r \<Rightarrow> if has_rw p \<and> rw p < r then Some (rw p) else None))"

context grants
begin

lemma granted_insert_all:
  "granted target rw (fold ins new ps) = fold (grant target rw force) new (granted target rw ps)"
  by (induction new arbitrary: ps) (simp_all add: granted_insert grant_def)

lemma granted_delete_all:
  "distinct (map target ps) \<Longrightarrow>
     granted target rw (fold del old ps) = fold (revoke target rw has_rw) old (granted target rw ps)"
  by (induction old arbitrary: ps) (simp_all add: granted_delete revoke_def distinct_delete)

end

definition zone_grants :: "env \<Rightarrow> UserPrivilege \<Rightarrow> int \<Rightarrow> int option" where
  "zone_grants E u = granted pz_zone_id (zone_rw E) (up_privilege_zone u)"

definition servlet_grants :: "env \<Rightarrow> UserPrivilege \<Rightarrow> int \<times> int \<Rightarrow> int option" where
  "servlet_grants E u = granted servlet_target (servlet_rw E) (up_privilege_servlet u)"

lemma merged_grants:
  "zone_grants E (merged_privilege E u m) =
     fold (grant pz_zone_id (zone_rw E) pz_force) (up_privilege_zone u) (zone_grants E m)"
  "servlet_grants E (merged_privilege E u m) =
     fold (grant servlet_target (servlet_rw E) ps_force) (up_privilege_servlet u) (servlet_grants E m)"
  by (simp_all add: zone_grants_def servlet_grants_def merged_privilege_def zg.granted_insert_all
      sg.granted_insert_all)

lemma reduced_grants:
  assumes "unique_grants m"
  shows "zone_grants E (reduced_privilege E u m) =
     fold (revoke pz_zone_id (zone_rw E) (\<lambda>p. pz_zone_rw p \<noteq> None)) (up_privilege_zone u) (zone_grants E m)"
  "servlet_grants E (reduced_privilege E u m) =
     fold (revoke servlet_target (servlet_rw E) (\<lambda>p. ps_servlet_rw p \<noteq> None)) (up_privilege_servlet u)
       (servlet_grants E m)"
  using assms
  by (simp_all add: zone_grants_def servlet_grants_def reduced_privilege_def zg.granted_delete_all
      sg.granted_delete_all unique_grants_def)

lemma set_insert_ips: "set (fold insert_ip new ips) = set new \<union> set ips"
  by (induction new arbitrary: ips) (auto simp: set_insert_ip)

lemma set_delete_ips: "set (fold delete_ip old ips) = set ips - set old"
  by (induction old arbitrary: ips) (auto simp: delete_ip_def)

text \<open>
  C29: granting: an \<open>add_privilege\<close> that succeeds raises each right it names to the larger of the old
  and the new one (to the new one when forced), adds the addresses, changes no other right, bumps
  the version, keeps one entry per target, and stores exactly what memory holds.
\<close>

theorem add_privilege_spec:
  assumes "env_ok E" "add_privilege E rq (Some r0) s = (Some r1, s')" "rs_errcode r1 = SUCCESS"
    "name = up_username (msg empty_UserPrivilege (rq_user_privilege rq))"
  shows "\<exists>u m u'. check_and_get_for_privilege (msg empty_UserPrivilege (rq_user_privilege rq)) s = (0, u) \<and>
    user_privilege s name = Some m \<and> user_privilege s' name = Some u' \<and>
    zone_grants E u' = fold (grant pz_zone_id (zone_rw E) pz_force) (up_privilege_zone u) (zone_grants E m) \<and>
    servlet_grants E u' =
      fold (grant servlet_target (servlet_rw E) ps_force) (up_privilege_servlet u) (servlet_grants E m) \<and>
    set (up_ip u') = set (up_ip u) \<union> set (up_ip m) \<and> up_version u' = up_version m + 1 \<and>
    (unique_grants m \<longrightarrow> unique_grants u') \<and>
    rocks s' (construct_privilege_key name) = pb_serialize (user_pb E) u'"
proof -
  show ?thesis
  proof (rule change_privilege_cases [OF assms(1), of "Some r0" s "merged_privilege E" rq], goal_cases)
    case 1
    with assms(2,3) show ?case by (auto simp: add_privilege_def rejected_def)
  next
    case (2 r u m v)
    have s': "s' = user_set name (Some (merged_privilege E u m)) (Some v) s"
      using 2(1,5) assms(2,4) by (simp add: add_privilege_def)
    show ?case
      by (intro exI [of _ u] exI [of _ m] exI [of _ "merged_privilege E u m"])
        (use 2 s' assms(4) merged_grants merged_unique in
          \<open>auto simp: user_set_def merged_privilege_def set_insert_ips\<close>)
  qed
qed


text \<open>Examples: a read right (1) on the zone, raised to write (2), then lowered again.\<close>

definition demo_right :: "int \<Rightarrow> PrivilegeZone" where
  "demo_right x = \<lparr>pz_zone = ''z'', pz_zone_id = 1, pz_zone_rw = Some x, pz_force = False\<rparr>"

definition demo_user_with :: "int \<Rightarrow> int \<Rightarrow> UserPrivilege" where
  "demo_user_with x version = demo_user\<lparr>up_privilege_zone := [demo_right x], up_version := version\<rparr>"

definition demo_user_env :: env where
  "demo_user_env = demo_E\<lparr>user_pb := table_pb [(demo_user_with 2 6, ''W''), (demo_user_with 1 7, ''R'')]\<rparr>"

lemma demo_user_with_simps [simp]: "up_version (demo_user_with x n) = n" "up_username (demo_user_with x n) = ''u''"
  by (simp_all add: demo_user_with_def demo_user_def)

lemma demo_user_env_simps [simp]:
  "pb_serialize (user_pb demo_user_env) (demo_user_with 2 6) = Some ''W''"
  "pb_serialize (user_pb demo_user_env) (demo_user_with 1 7) = Some ''R''"
  "put_discovery_info demo_user_env k v db = (0, db(k \<mapsto> v))"
proof -
  have "demo_user_with 1 7 \<noteq> demo_user_with 2 6"
    using demo_user_with_simps(1) [of 1 7] demo_user_with_simps(1) [of 2 6] by force
  then show "pb_serialize (user_pb demo_user_env) (demo_user_with 2 6) = Some ''W''"
    "pb_serialize (user_pb demo_user_env) (demo_user_with 1 7) = Some ''R''"
    by (simp_all add: demo_user_env_def table_pb_def)
qed (simp add: demo_user_env_def demo_E_def demo_env_def put_discovery_info_def)

lemma demo_user_env_ok: "env_ok demo_user_env"
  using demo_E_ok by (simp add: env_ok_def demo_user_env_def table_pb_ok)

definition demo_user_state :: "int \<Rightarrow> int \<Rightarrow> discovery_state_machine" where
  "demo_user_state x version = demo_state5\<lparr>user_privilege := [''u'' \<mapsto> demo_user_with x version]\<rparr>"

lemma demo_state5_ids [simp]:
  "namespace_id_map demo_state5 = [''n'' \<mapsto> 1]" "zone_id_map demo_state5 = [make_zone_key ''n'' ''z'' \<mapsto> 1]"
  by (simp_all add: demo_state5_def user_set_def)

theorem add_privilege_spec_witness:
  "\<exists>u'. user_privilege (snd (add_privilege demo_user_env
       ((empty_request OP_ADD_PRIVILEGE)\<lparr>rq_user_privilege := Some (demo_user_with 2 0)\<rparr>)
       (Some empty_response) (demo_user_state 1 5))) ''u'' = Some u' \<and> zone_grants demo_user_env u' 1 = Some 2"
proof -
  let ?rq = "(empty_request OP_ADD_PRIVILEGE)\<lparr>rq_user_privilege := Some (demo_user_with 2 0)\<rparr>"
  let ?s = "demo_user_state 1 5"
  have rq: "msg empty_UserPrivilege (rq_user_privilege ?rq) = demo_user_with 2 0" by simp
  have check: "check_and_get_for_privilege (demo_user_with 2 0) ?s = (0, (demo_user_with 2 0)\<lparr>up_namespace_id := 1\<rparr>)"
    by (simp add: check_and_get_for_privilege_def demo_user_with_def demo_user_state_def demo_right_def demo_user_def
        get_namespace_id_def get_zone_id_def empty_UserPrivilege_def)
  have merged: "merged_privilege demo_user_env ((demo_user_with 2 0)\<lparr>up_namespace_id := 1\<rparr>) (demo_user_with 1 5) =
      demo_user_with 2 6"
    by (simp add: merged_privilege_def demo_user_with_def demo_user_def demo_right_def zone_rw_def keep_or_def
        empty_UserPrivilege_def)
  have m: "user_privilege ?s ''u'' = Some (demo_user_with 1 5)" by (simp add: demo_user_state_def)
  have run: "add_privilege demo_user_env ?rq (Some empty_response) ?s =
      (if_done_set_response (Some empty_response) SUCCESS ''success'',
       user_set ''u'' (Some (demo_user_with 2 6)) (Some ''W'') ?s)"
    unfolding add_privilege_def change_privilege_def rq
    by (simp add: m check merged user_set_def at_or_def Let_def)
  obtain r1 s' where a: "add_privilege demo_user_env ?rq (Some empty_response) ?s = (Some r1, s')" "rs_errcode r1 = SUCCESS"
    unfolding run by simp
  from add_privilege_spec [OF demo_user_env_ok a refl, unfolded rq demo_user_with_simps check m]
  obtain u' where u': "user_privilege s' ''u'' = Some u'" "zone_grants demo_user_env u' =
      fold (grant pz_zone_id (zone_rw demo_user_env) pz_force) [demo_right 2] (zone_grants demo_user_env (demo_user_with 1 5))"
    by (auto simp: demo_user_with_def)
  then have "zone_grants demo_user_env u' 1 = Some 2"
    by (simp add: zone_grants_def grant_def granted_def demo_user_with_def demo_right_def zone_rw_def)
  with u' a show ?thesis by auto
qed


subsection \<open>Configurations\<close>

lemma config_inv_versions:
  "config_inv s \<Longrightarrow> omap_ok (versions_of s name)"
  by (cases "configs s name") (auto simp: config_inv_def versions_of_def)

lemma create_config_result:
  assumes "env_ok E" "config_inv s" "create_config E rq (Some r0) s = (Some r1, s')" "rs_errcode r1 = SUCCESS"
    "c = msg empty_ConfigInfo (rq_config_info rq)" "name = str_field (c_name c)" "v = request_version c"
  shows "\<exists>x. pb_serialize (config_pb E) c = Some x \<and> (\<forall>p \<in> set (versions_of s name). fst p < v) \<and>
    map_of (versions_of s name @ [(v, c)]) v = Some c \<and>
    omap_put v c (versions_of s name) = versions_of s name @ [(v, c)] \<and>
    s' = s\<lparr>rocks := (rocks s)(make_config_key E name v \<mapsto> x),
      configs := (configs s)(name \<mapsto> omap_put v c (versions_of s name))\<rparr>"
proof -
  have ok: "omap_ok (versions_of s name)" using assms(2) by (rule config_inv_versions)
  obtain x where top: "versions_of s name = [] \<or> fst (last (versions_of s name)) < v"
    and x: "pb_serialize (config_pb E) c = Some x"
    and s': "s' = s\<lparr>rocks := (rocks s)(make_config_key E name v \<mapsto> x),
      configs := (configs s)(name \<mapsto> omap_put v c (versions_of s name))\<rparr>"
  proof (rule create_config_cases [OF assms(1), of rq "Some r0" s], goal_cases)
    case (1 c name)
    with assms(3,4) show ?case by (auto simp: rejected_def)
  next
    case (2 c' n x)
    with assms(3,5-7) show ?case by (intro that [of x]) auto
  qed
  have below: "\<forall>p \<in> set (versions_of s name). fst p < v"
    using top omap_ok_last_max [OF ok] by (cases "versions_of s name = []") force+
  moreover have put: "omap_put v c (versions_of s name) = versions_of s name @ [(v, c)]"
    by (rule omap_ok_snoc [OF ok below])
  moreover have "map_of (versions_of s name @ [(v, c)]) v = Some c"
    using map_of_omap_put [of v c "versions_of s name"] put by simp
  ultimately show ?thesis using x s' by blast
qed

text \<open>
  C27: versions only grow: \<open>create_config\<close> succeeds only for a version above every one the name has;
  then the new version is the one a query without a version answers, a query for it answers it, no
  other version of any name changes, and RocksDB holds it under the name's and version's key.
\<close>

theorem create_config_spec:
  assumes "env_ok E" "config_inv s" "create_config E rq (Some r0) s = (Some r1, s')" "rs_errcode r1 = SUCCESS"
    "c = msg empty_ConfigInfo (rq_config_info rq)" "name = str_field (c_name c)" "v = request_version c"
    "dq_config_name q = Some name"
  shows "(\<forall>w \<in> fst ` set (versions_of s name). w < v) \<and>
    config_at s' = (config_at s)((name, v) \<mapsto> c) \<and>
    rocks s' (make_config_key E name v) = pb_serialize (config_pb E) c \<and>
    (dq_config_version q = None \<or> map_option to_module_version (dq_config_version q) = Some v \<longrightarrow>
       query_get_config q s' r = query_answer SUCCESS ''success'' (r\<lparr>dr_config_infos := dr_config_infos r @ [c]\<rparr>))"
proof -
  obtain x where x: "pb_serialize (config_pb E) c = Some x" and below: "\<forall>p \<in> set (versions_of s name). fst p < v"
    and find: "map_of (versions_of s name @ [(v, c)]) v = Some c"
    and put: "omap_put v c (versions_of s name) = versions_of s name @ [(v, c)]"
    and s': "s' = s\<lparr>rocks := (rocks s)(make_config_key E name v \<mapsto> x),
      configs := (configs s)(name \<mapsto> omap_put v c (versions_of s name))\<rparr>"
    using create_config_result [OF assms(1-7)] by blast
  have "query_get_config q s' r = query_answer SUCCESS ''success'' (r\<lparr>dr_config_infos := dr_config_infos r @ [c]\<rparr>)"
    if "dq_config_version q = None \<or> map_option to_module_version (dq_config_version q) = Some v"
    using that assms(8) find s' put
    by (cases "dq_config_version q") (auto simp: query_get_config_def)
  moreover have "config_at s' = (config_at s)((name, v) \<mapsto> c)"
    unfolding s' by (rule config_at_put)
  ultimately show ?thesis using below x s' by auto
qed

definition demo_config_request :: "OpType \<Rightarrow> DiscoveryManagerRequest" where
  "demo_config_request op = (empty_request op)\<lparr>rq_config_info := Some demo_config\<rparr>"

definition demo_config_query :: DiscoveryQueryRequest where
  "demo_config_query = (empty_query QUERY_GET_CONFIG)\<lparr>dq_config_name := Some ''c''\<rparr>"

lemma demo_config_fields [simp]:
  "c_name demo_config = Some ''c''" "request_version demo_config = ModuleVersion 1 0 0"
  "msg empty_ConfigInfo (rq_config_info (demo_config_request op)) = demo_config"
  "c_version demo_config = Some \<lparr>v_major = 1, v_minor = 0, v_patch = 0\<rparr>"
  by (simp_all add: demo_config_def request_version_def to_module_version_def empty_ConfigInfo_def
      demo_config_request_def)

lemma demo_create_config:
  "create_config demo_E (demo_config_request OP_CREATE_CONFIG) (Some empty_response) init_state =
     (if_done_set_response (Some empty_response) SUCCESS ''success'',
      init_state\<lparr>rocks := [make_config_key demo_E ''c'' (ModuleVersion 1 0 0) \<mapsto> ''C''],
        configs := [''c'' \<mapsto> [(ModuleVersion 1 0 0, demo_config)]]\<rparr>)"
  by (simp add: create_config_def config_opened_def init_state_def demo_E_def demo_env_def table_pb_def
      put_discovery_info_def make_config_key_def Let_def at_or_def)

theorem create_config_spec_witness:
  "query_get_config demo_config_query
     (snd (create_config demo_E (demo_config_request OP_CREATE_CONFIG) (Some empty_response) init_state))
     empty_query_response
   = query_answer SUCCESS ''success'' (empty_query_response\<lparr>dr_config_infos := [demo_config]\<rparr>)"
proof -
  obtain r1 s' where a: "create_config demo_E (demo_config_request OP_CREATE_CONFIG) (Some empty_response) init_state
      = (Some r1, s')" "rs_errcode r1 = SUCCESS"
    unfolding demo_create_config by simp
  have "config_inv init_state" using dsm_inv_init dsm_invD(8) by blast
  from create_config_spec [OF demo_E_ok this a refl refl refl, of demo_config_query empty_query_response] a
  show ?thesis by (simp add: demo_config_query_def empty_query_def empty_query_response_def)
qed

text \<open>
  Removing one version of a known configuration: if the write goes through, that version and no
  other is gone from memory and from RocksDB, the name disappears with its last version, and the
  answer is success even when the name never had this version.
\<close>

lemma remove_config_spec:
  assumes "env_ok E" "c = msg empty_ConfigInfo (rq_config_info rq)" "name = str_field (c_name c)"
    "c_version c \<noteq> None" "v = request_version c" "configs s name = Some it"
    "rocks_write E [Delete (make_config_key E name v)] (rocks s) \<noteq> None"
    "remove_config E rq (Some r0) s = (Some r1, s')"
  shows "rs_errcode r1 = SUCCESS \<and> config_at s' = (config_at s)((name, v) := None) \<and>
    rocks s' = (rocks s)(make_config_key E name v := None) \<and>
    (configs s' name = None \<longleftrightarrow> (\<forall>p \<in> set it. fst p = v)) \<and>
    (\<forall>n. n \<noteq> name \<longrightarrow> configs s' n = configs s n)"
proof -
  have ver: "c_version (msg empty_ConfigInfo (rq_config_info rq)) \<noteq> None" using assms(2,4) by simp
  show ?thesis
  proof (rule remove_config_cases [OF assms(1) ver, of "Some r0" s], goal_cases)
    case 1
    have "rs_errcode r1 = SUCCESS"
      using assms(2-8) by (auto simp: remove_config_def remove_discovery_info_def Let_def version_field_def
          request_version_def split: option.splits if_splits)
    with 1 assms(8) show ?case by (auto simp: rejected_def)
  next
    case (2 n m w)
    then have eq: "n = name" "m = it" "w = v" using assms(2-6) by auto
    have "config_at s' = (config_at s)((name, v) := None)"
      using 2(4) assms(8) eq config_at_erase [OF assms(6), where v = v] by auto
    with 2(4) assms(8) eq show ?case
      by (auto simp: omap_erase_def filter_empty_conv)
  qed
qed

lemma remove_config_spec_witness:
  "rs_errcode (the (fst (remove_config demo_E
      ((empty_request OP_REMOVE_CONFIG)\<lparr>rq_config_info := Some (demo_config\<lparr>c_version :=
         Some \<lparr>v_major = 9, v_minor = 9, v_patch = 9\<rparr>\<rparr>)\<rparr>) (Some empty_response) demo_state6))) = SUCCESS"
proof -
  let ?c = "demo_config\<lparr>c_version := Some \<lparr>v_major = 9, v_minor = 9, v_patch = 9\<rparr>\<rparr>"
  let ?rq = "(empty_request OP_REMOVE_CONFIG)\<lparr>rq_config_info := Some ?c\<rparr>"
  have known: "configs demo_state6 (str_field (c_name ?c)) = Some [(ModuleVersion 1 0 0, demo_config)]"
    by (simp add: demo_state6_def)
  obtain r1 s' where a: "remove_config demo_E ?rq (Some empty_response) demo_state6 = (Some r1, s')"
    using known by (cases "remove_config demo_E ?rq (Some empty_response) demo_state6")
      (auto simp: remove_config_def Let_def split: if_splits prod.splits)
  have w: "rocks_write demo_E b db \<noteq> None" for b db by (simp add: demo_E_def demo_env_def)
  from remove_config_spec [OF demo_E_ok _ refl _ refl known w a] a show ?thesis by simp
qed

subsection \<open>The store follows memory while no two configurations share a key\<close>

lemma apply_request_config_same:
  assumes "env_ok E" "dsm_inv E s" "rq_op_type rq \<notin> {OP_CREATE_CONFIG, OP_REMOVE_CONFIG}"
  shows "config_same s (snd (apply_request E rq dn s))"
proof -
  note inv = dsm_invD [OF assms(2)]
  have schema: "config_same s s'" if "servlet_manager.more s' = servlet_manager.more s"
    "\<And>k. \<not> is_ns_key k \<and> \<not> is_zone_key k \<and> \<not> is_servlet_key k \<Longrightarrow> rocks s' k = rocks s k" for s'
    using that config_keys_other by (intro servlet_frame_user_config(2)) (auto simp: other_keys)
  have inst: "config_same s s'" if "instance_frame s s'" for s'
    using that config_keys_other(4)
    by (auto simp: instance_frame_def intro!: config_sameI intro: user_more(2))
  have user: "config_same s s'" if "user_frame s s'" for s'
    using that config_keys_other(5) by (auto simp: user_frame_def intro!: config_sameI)
  note more = servlet_more(4) [OF zone_more(5)]
  have n: "config_same s (snd (create_namespace E rq dn s))" "config_same s (snd (drop_namespace E rq dn s))"
    "config_same s (snd (modify_namespace E rq dn s))"
    using namespace_handlers_more [OF assms(1) inv(9), of rq dn] namespace_handlers_rocks [OF assms(1) inv(9), of _ rq dn]
    by (auto intro!: schema more)
  have z: "config_same s (snd (create_zone E rq dn s))" "config_same s (snd (drop_zone E rq dn s))"
    "config_same s (snd (modify_zone E rq dn s))"
    using zone_handlers_more [OF assms(1) inv(10), of rq dn] zone_handlers_rocks [OF assms(1) inv(10), of _ rq dn]
    by (auto intro!: schema servlet_more(4))
  have v: "config_same s (snd (create_servlet E rq dn s))" "config_same s (snd (drop_servlet E rq dn s))"
    "config_same s (snd (modify_servlet E rq dn s))"
    using servlet_handlers_frame [OF assms(1), of s rq dn] by (auto simp: servlet_frame_def intro!: schema)
  note i = instance_handlers_frame [OF assms(1), of s rq dn, THEN inst]
  note u = user_handlers_frame [OF assms(1), of s rq dn, THEN user]
  have same: "config_same s s" by (simp add: config_same_def)
  show ?thesis
    using assms(3) by (cases "rq_op_type rq") (simp_all add: apply_request_def n z v i u same)
qed

definition names_in :: "string set \<Rightarrow> (string \<Rightarrow> DiscoveryManagerRequest option) \<Rightarrow> raft_entry \<Rightarrow> bool" where
  "names_in N parse e \<longleftrightarrow>
     (\<forall>rq. parse (e_data e) = Some rq \<longrightarrow> rq_op_type rq = OP_CREATE_CONFIG \<longrightarrow>
        str_field (c_name (msg empty_ConfigInfo (rq_config_info rq))) \<in> N)"

lemma config_entry_env [simp]:
  "config_persisted (entry_env E e) N s = config_persisted E N s"
  "config_keys_inj (entry_env E e) N = config_keys_inj E N"
proof -
  have key: "make_config_key (entry_env E e) = make_config_key E"
    by (simp add: make_config_key_def entry_env_def fun_eq_iff)
  show "config_persisted (entry_env E e) N s = config_persisted E N s"
    "config_keys_inj (entry_env E e) N = config_keys_inj E N"
    unfolding config_persisted_def config_keys_inj_def key by (simp_all add: entry_env_def)
qed

lemma config_persisted_applied_index [simp]:
  "config_persisted E N (s\<lparr>applied_index := i\<rparr>) = config_persisted E N s"
proof -
  have "config_at (s\<lparr>applied_index := i\<rparr>) = config_at s"
    by (simp add: config_at_def versions_of_def fun_eq_iff)
  then show ?thesis by (simp add: config_persisted_def)
qed

lemma apply_entry_persisted:
  assumes "env_ok E" "entry_ok parse e" "names_in N parse e" "config_keys_inj E N" "dsm_inv E s"
    "config_persisted E N s"
  shows "config_persisted E N (snd (apply_entry E parse e s))"
proof (cases "parse (e_data e)")
  case None
  with assms(6) show ?thesis by (simp add: apply_entry_def)
next
  case (Some rq)
  let ?E = "entry_env E e" and ?dn = "map_option (\<lambda>r. r\<lparr>rs_op_type := Some (rq_op_type rq)\<rparr>) (e_done e)"
  have ok: "env_ok ?E" using assms(1,2) by (auto simp: entry_ok_def env_ok_entry_env)
  have "config_persisted ?E N (snd (apply_request ?E rq ?dn s))"
  proof -
    consider "rq_op_type rq = OP_CREATE_CONFIG" | "rq_op_type rq = OP_REMOVE_CONFIG"
      | "rq_op_type rq \<notin> {OP_CREATE_CONFIG, OP_REMOVE_CONFIG}" by auto
    then show ?thesis
    proof cases
      case 1
      then have "str_field (c_name (msg empty_ConfigInfo (rq_config_info rq))) \<in> N"
        using assms(3) Some by (simp add: names_in_def)
      with create_config_persisted [OF ok, of N s rq ?dn] assms(4,6) 1 show ?thesis
        by (simp add: apply_request_def)
    next
      case 2
      with remove_config_persisted [OF ok, of N s rq ?dn] assms(4,6) show ?thesis
        by (simp add: apply_request_def)
    next
      case 3
      with apply_request_config_same [OF ok, of s rq ?dn] assms(5,6) show ?thesis
        by (auto intro: config_same_keeps(2))
    qed
  qed
  with Some show ?thesis by (simp add: apply_entry_def Let_def split_def)
qed

text \<open>
  C28: after any log whose configuration names stay in a set on which names and versions make
  different keys (for instance names that end in no digit or dot), RocksDB holds exactly the
  configurations of memory, each under its key.
\<close>

theorem reachable_configs_persisted:
  assumes "env_ok E" "config_keys_inj E N" "list_all (entry_ok parse) es" "list_all (names_in N parse) es"
  shows "config_persisted E N (snd (on_apply E parse es init_state))"
proof -
  have start: "config_persisted E N init_state"
    using mirrors_empty [of config_prefix "\<lambda>(n, v). make_config_key E n v" "config_pb E"]
    by (simp add: config_persisted_def init_state_def config_at_def [abs_def] versions_of_def at_or_def)
  have "dsm_inv E (snd (apply_log (apply_entry E parse) es init_state)) \<and>
      config_persisted E N (snd (apply_log (apply_entry E parse) es init_state))"
    by (rule apply_log_invariant [where P = "\<lambda>e. entry_ok parse e \<and> names_in N parse e" and
          I = "\<lambda>t. dsm_inv E t \<and> config_persisted E N t"])
      (use assms start dsm_inv_init in \<open>auto simp: list_all_iff intro: apply_entry_inv apply_entry_persisted\<close>)
  then show ?thesis by (simp add: on_apply_def)
qed

text \<open>The dotted notation of \<open>ModuleVersion::to_string\<close>, for the examples.\<close>

definition dotted_version :: "ModuleVersion \<Rightarrow> string" where
  "dotted_version v = (case v of ModuleVersion major minor patch \<Rightarrow>
     int_to_string major @ ''.'' @ int_to_string minor @ ''.'' @ int_to_string patch)"

definition dotted_env :: env where
  "dotted_env = demo_E\<lparr>version_str := dotted_version\<rparr>"

lemma no_dot: "CHR ''.'' \<notin> set (int_to_string i)"
proof -
  have "\<forall>c \<in> set (nat_to_string n). is_digit c" for n
    using nat_to_string_digits [of n] by (simp add: list_all_iff)
  then have "CHR ''.'' \<notin> set (nat_to_string n)" for n
    by (force simp: is_digit_def)
  then show ?thesis by (auto simp: int_to_string_def)
qed

lemma split_at_dot:
  "CHR ''.'' \<notin> set a \<Longrightarrow> CHR ''.'' \<notin> set b \<Longrightarrow> a @ CHR ''.'' # x = b @ CHR ''.'' # y \<Longrightarrow> a = b \<and> x = y"
  by (induction a arbitrary: b) (metis Cons_eq_append_conv append_Nil list.set_intros(1) list.inject,
      metis (no_types, opaque_lifting) append_Cons list.inject list.set_intros append_Nil neq_Nil_conv)

lemma dotted_version_inj: "inj dotted_version"
proof (rule injI)
  fix v w assume eq: "dotted_version v = dotted_version w"
  obtain a b c where v: "v = ModuleVersion a b c" by (cases v)
  obtain a' b' c' where w: "w = ModuleVersion a' b' c'" by (cases w)
  from eq v w have "int_to_string a @ CHR ''.'' # (int_to_string b @ CHR ''.'' # int_to_string c) =
      int_to_string a' @ CHR ''.'' # (int_to_string b' @ CHR ''.'' # int_to_string c')"
    by (simp add: dotted_version_def)
  from split_at_dot [OF no_dot no_dot this] show "v = w"
    using split_at_dot [OF no_dot no_dot, of b "int_to_string c" b' "int_to_string c'"] v w
    by (simp add: int_to_string_inject)
qed

lemma dotted_env_ok: "env_ok dotted_env" "config_keys_inj dotted_env {''c''}"
proof -
  show "env_ok dotted_env" using demo_E_ok by (simp add: env_ok_def dotted_env_def)
  show "config_keys_inj dotted_env {''c''}"
    unfolding config_keys_inj_def
    by (rule inj_onI) (auto simp: make_config_key_def dotted_env_def dest: injD [OF dotted_version_inj])
qed

theorem reachable_configs_persisted_witness:
  "config_persisted dotted_env {''c''} (snd (on_apply dotted_env demo_request [demo_entry 1 ''c''] init_state))"
proof (rule reachable_configs_persisted [OF dotted_env_ok])
  show "list_all (entry_ok demo_request) [demo_entry 1 ''c'']"
    using demo_log_ok by (simp add: demo_log_def demo_entry_def entry_ok_def)
  show "list_all (names_in {''c''} demo_request) [demo_entry 1 ''c'']"
    by (simp add: names_in_def demo_entry_def demo_request_def demo_config_def empty_request_def)
qed

text \<open>
  No separator stands between a configuration's name and version in its key. When another name
  and version make the same key, creating the second configuration succeeds and overwrites the
  stored form of the first, which memory still has: after a restart the first is lost.
\<close>

lemma config_keys_collide:
  assumes "env_ok E" "create_config E rq (Some r0) s = (Some r1, s')" "rs_errcode r1 = SUCCESS"
    "c = msg empty_ConfigInfo (rq_config_info rq)" "name = str_field (c_name c)" "v = request_version c"
    "name' \<noteq> name" "config_at s (name', v') = Some c'" "make_config_key E name' v' = make_config_key E name v"
    "pb_serialize (config_pb E) c' \<noteq> pb_serialize (config_pb E) c"
  shows "config_at s' (name', v') = Some c' \<and> config_at s' (name, v) = Some c \<and>
    rocks s' (make_config_key E name' v') = pb_serialize (config_pb E) c \<and>
    rocks s' (make_config_key E name' v') \<noteq> pb_serialize (config_pb E) c'"
proof (rule create_config_cases [OF assms(1), of rq "Some r0" s], goal_cases)
  case (1 c name)
  with assms(2,3) show ?case by (auto simp: rejected_def)
next
  case (2 d n x)
  have s': "s' = s\<lparr>rocks := (rocks s)(make_config_key E name v \<mapsto> x),
      configs := (configs s)(name \<mapsto> omap_put v c (versions_of s name))\<rparr>"
    using 2 assms(2,4-6) by simp
  have "config_at s' = (config_at s)((name, v) \<mapsto> c)" unfolding s' by (rule config_at_put)
  with 2 assms s' show ?case by auto
qed

definition demo_config_a :: ConfigInfo where
  "demo_config_a = demo_config\<lparr>c_name := Some ''a'', c_version := Some \<lparr>v_major = 11, v_minor = 0, v_patch = 0\<rparr>\<rparr>"

definition demo_config_a1 :: ConfigInfo where
  "demo_config_a1 = demo_config\<lparr>c_name := Some ''a1''\<rparr>"

definition collide_env :: env where
  "collide_env = dotted_env\<lparr>config_pb := table_pb [(demo_config_a, ''A''), (demo_config_a1, ''B'')]\<rparr>"

definition collide_state :: discovery_state_machine where
  "collide_state = init_state\<lparr>configs := [''a'' \<mapsto> [(ModuleVersion 11 0 0, demo_config_a)]],
     rocks := [make_config_key collide_env ''a'' (ModuleVersion 11 0 0) \<mapsto> ''A'']\<rparr>"

lemma config_keys_collide_witness:
  "rocks (snd (create_config collide_env ((empty_request OP_CREATE_CONFIG)\<lparr>rq_config_info := Some demo_config_a1\<rparr>)
      (Some empty_response) collide_state)) (make_config_key collide_env ''a'' (ModuleVersion 11 0 0)) = Some ''B''"
proof -
  let ?rq = "(empty_request OP_CREATE_CONFIG)\<lparr>rq_config_info := Some demo_config_a1\<rparr>"
  have dec: "int_to_string 11 = ''11''" "int_to_string 1 = ''1''" "int_to_string 0 = ''0''" by code_simp+
  have ok: "env_ok collide_env"
    using dotted_env_ok(1) by (simp add: env_ok_def collide_env_def table_pb_ok)
  have rq: "msg empty_ConfigInfo (rq_config_info ?rq) = demo_config_a1" by simp
  have name: "str_field (c_name demo_config_a1) = ''a1''" "request_version demo_config_a1 = ModuleVersion 1 0 0"
    by (simp_all add: demo_config_a1_def request_version_def to_module_version_def)
  have neq: "demo_config_a1 \<noteq> demo_config_a"
  proof
    assume "demo_config_a1 = demo_config_a"
    then have "c_name demo_config_a1 = c_name demo_config_a" by simp
    then show False by (simp add: demo_config_a_def demo_config_a1_def)
  qed
  have ser: "pb_serialize (config_pb collide_env) demo_config_a = Some ''A''"
    "pb_serialize (config_pb collide_env) demo_config_a1 = Some ''B''"
    using neq by (simp_all add: collide_env_def table_pb_def)
  have put: "put_discovery_info collide_env k x db = (0, db(k \<mapsto> x))" for k x db
    by (simp add: collide_env_def dotted_env_def demo_E_def demo_env_def put_discovery_info_def)
  have key: "make_config_key collide_env ''a'' (ModuleVersion 11 0 0) = make_config_key collide_env ''a1'' (ModuleVersion 1 0 0)"
    by (simp add: make_config_key_def collide_env_def dotted_env_def dotted_version_def dec)
  obtain r1 s' where a: "create_config collide_env ?rq (Some empty_response) collide_state = (Some r1, s')"
    "rs_errcode r1 = SUCCESS"
    unfolding create_config_def rq
    by (simp add: name ser put Let_def config_opened_def collide_state_def init_state_def at_or_def)
  have "config_at collide_state (''a'', ModuleVersion 11 0 0) = Some demo_config_a"
    by (simp add: config_at_def versions_of_def collide_state_def at_or_def)
  from config_keys_collide [OF ok a rq [symmetric] refl refl _ this] key ser a name
  show ?thesis by simp
qed

end
