(* ===== verification/AutoIncr.thy ===== *)
theory AutoIncr
  imports DiscoveryProto RaftMachine Decimal
begin

text \<open>
  \<open>AutoIncrStateMachine\<close> (auto_incr_state_machine.h, auto_incr_state_machine.cc): the next free
  id of each servlet that uses auto increment, \<open>uint64_t\<close> with wrap-around. The JSON library and
  \<open>turbo::Atoi\<close> are parameters of the snapshot functions; the order in which the unordered map
  is walked is one too.
\<close>

type_synonym auto_increment_map = "int \<Rightarrow> 64 word option"

subsection \<open>Handlers\<close>

definition answer_success ::
  "OpType \<Rightarrow> (DiscoveryManagerResponse \<Rightarrow> DiscoveryManagerResponse) \<Rightarrow> closure \<Rightarrow> closure" where
  "answer_success op f dn =
     map_option (\<lambda>r. (f (r\<lparr>rs_errcode := SUCCESS, rs_op_type := Some op\<rparr>))\<lparr>rs_errmsg := ''SUCCESS''\<rparr>) dn"

definition start_id :: "AutoIncrementInfo \<Rightarrow> 64 word" where
  "start_id i = msg 0 (ai_start_id i)"

definition increment_id :: "AutoIncrementInfo \<Rightarrow> 64 word" where
  "increment_id i = msg 0 (ai_increment_id i)"

definition auto_increment_of :: "DiscoveryManagerRequest \<Rightarrow> AutoIncrementInfo" where
  "auto_increment_of rq = msg empty_AutoIncrementInfo (rq_auto_increment rq)"

definition auto_add_servlet_id ::
  "DiscoveryManagerRequest \<Rightarrow> closure \<Rightarrow> auto_increment_map \<Rightarrow> closure \<times> auto_increment_map" where
  "auto_add_servlet_id request dn m =
     (let increment_info = auto_increment_of request;
          servlet_id = ai_servlet_id increment_info
      in if m servlet_id \<noteq> None
         then (if_done_set_response dn INPUT_PARAM_ERROR ''servlet id has exist'', m)
         else (answer_success (rq_op_type request) (\<lambda>r. r\<lparr>rs_start_id := start_id increment_info\<rparr>) dn,
               m(servlet_id \<mapsto> start_id increment_info)))"

definition auto_drop_servlet_id ::
  "DiscoveryManagerRequest \<Rightarrow> closure \<Rightarrow> auto_increment_map \<Rightarrow> closure \<times> auto_increment_map" where
  "auto_drop_servlet_id request dn m =
     (let increment_info = auto_increment_of request;
          servlet_id = ai_servlet_id increment_info
      in if m servlet_id = None
         then (if_done_set_response dn INPUT_PARAM_ERROR ''servlet id not exist'', m)
         else (answer_success (rq_op_type request) (\<lambda>r. r) dn, m(servlet_id := None)))"

definition gen_id ::
  "DiscoveryManagerRequest \<Rightarrow> closure \<Rightarrow> auto_increment_map \<Rightarrow> closure \<times> auto_increment_map" where
  "gen_id request dn m =
     (let increment_info = auto_increment_of request;
          servlet_id = ai_servlet_id increment_info
      in case m servlet_id of
           None \<Rightarrow> (if_done_set_response dn INPUT_PARAM_ERROR ''servlet has no auto increment'', m)
         | Some old_start_id \<Rightarrow>
             let old_start_id = (if ai_start_id increment_info \<noteq> None \<and> old_start_id < start_id increment_info + 1
                                 then start_id increment_info + 1 else old_start_id);
                 end_id = old_start_id + ai_count increment_info
             in (answer_success (rq_op_type request)
                   (\<lambda>r. r\<lparr>rs_start_id := old_start_id, rs_end_id := end_id\<rparr>) dn,
                 m(servlet_id \<mapsto> end_id)))"

definition auto_update ::
  "DiscoveryManagerRequest \<Rightarrow> closure \<Rightarrow> auto_increment_map \<Rightarrow> closure \<times> auto_increment_map" where
  "auto_update request dn m =
     (let increment_info = auto_increment_of request;
          servlet_id = ai_servlet_id increment_info
      in case m servlet_id of
           None \<Rightarrow> (if_done_set_response dn INPUT_PARAM_ERROR ''servlet has no auto increment'', m)
         | Some old_start_id \<Rightarrow>
             if ai_start_id increment_info = None \<and> ai_increment_id increment_info = None
             then (if_done_set_response dn INPUT_PARAM_ERROR ''star_id or increment_id all not exist'', m)
             else if ai_start_id increment_info \<noteq> None \<and> ai_increment_id increment_info \<noteq> None
             then (if_done_set_response dn INPUT_PARAM_ERROR ''star_id and increment_id all exist'', m)
             else if ai_start_id increment_info \<noteq> None \<and> old_start_id > start_id increment_info + 1 \<and>
                     (ai_force increment_info = None \<or> ai_force increment_info = Some False)
             then (if_done_set_response dn INPUT_PARAM_ERROR ''not support rollback'', m)
             else let next = (if ai_start_id increment_info \<noteq> None then start_id increment_info + 1
                              else old_start_id + increment_id increment_info)
                  in (answer_success (rq_op_type request) (\<lambda>r. r\<lparr>rs_start_id := next\<rparr>) dn,
                      m(servlet_id \<mapsto> next)))"

definition auto_apply ::
  "DiscoveryManagerRequest \<Rightarrow> closure \<Rightarrow> auto_increment_map \<Rightarrow> closure \<times> auto_increment_map" where
  "auto_apply request dn m =
     (case rq_op_type request of
        OP_ADD_ID_FOR_AUTO_INCREMENT \<Rightarrow> auto_add_servlet_id request dn m
      | OP_DROP_ID_FOR_AUTO_INCREMENT \<Rightarrow> auto_drop_servlet_id request dn m
      | OP_GEN_ID_FOR_AUTO_INCREMENT \<Rightarrow> gen_id request dn m
      | OP_UPDATE_FOR_AUTO_INCREMENT \<Rightarrow> auto_update request dn m
      | _ \<Rightarrow> (if_done_set_response dn UNKNOWN_REQ_TYPE ''unsupport request type'', m))"

definition auto_apply_entry ::
  "(string \<Rightarrow> DiscoveryManagerRequest option) \<Rightarrow> string \<times> closure \<Rightarrow> auto_increment_map \<Rightarrow>
     closure \<times> auto_increment_map" where
  "auto_apply_entry parse e m =
     (let (data, dn) = e
      in case parse data of
           None \<Rightarrow> (if_done_set_response dn PARSE_FROM_PB_FAIL ''parse from protobuf fail'', m)
         | Some request \<Rightarrow>
             auto_apply request (map_option (\<lambda>r. r\<lparr>rs_op_type := Some (rq_op_type request)\<rparr>) dn) m)"

definition auto_on_apply ::
  "(string \<Rightarrow> DiscoveryManagerRequest option) \<Rightarrow> (string \<times> closure) list \<Rightarrow> auto_increment_map \<Rightarrow>
     closure list \<times> auto_increment_map" where
  "auto_on_apply parse = apply_log (auto_apply_entry parse)"

lemmas auto_handler_defs = auto_add_servlet_id_def auto_drop_servlet_id_def gen_id_def auto_update_def

lemma auto_apply_done: "snd (auto_apply rq dn m) = snd (auto_apply rq None m)"
  by (cases "rq_op_type rq")
    (auto simp: auto_apply_def auto_handler_defs Let_def split: option.split)

interpretation auto: raft_fsm "auto_apply_entry parse" "\<lambda>e. (fst e, None)" for parse
proof unfold_locales
  fix e :: "string \<times> closure" and m
  obtain data dn where e: "e = (data, dn)" by fastforce
  show "snd (auto_apply_entry parse (fst e, None) m) = snd (auto_apply_entry parse e m)"
  proof (cases "parse data")
    case (Some rq)
    then show ?thesis
      using auto_apply_done [of rq "map_option (\<lambda>r. r\<lparr>rs_op_type := Some (rq_op_type rq)\<rparr>) dn" m]
      by (simp add: auto_apply_entry_def e)
  qed (simp add: auto_apply_entry_def e)
qed

subsection \<open>Snapshots\<close>

record json_env =
  json_write :: "(string \<times> 64 word) list \<Rightarrow> string"
  json_parse :: "string \<Rightarrow> (string \<times> 64 word) list option"
  atoi :: "string \<Rightarrow> int option"

text \<open>rapidjson reads what it wrote; \<open>Atoi\<close> reads decimal notation.\<close>

definition json_ok :: "json_env \<Rightarrow> bool" where
  "json_ok J \<longleftrightarrow> (\<forall>m. json_parse J (json_write J m) = Some m) \<and> (\<forall>i. int64_range i \<longrightarrow> atoi J (int_to_string i) = Some i)"

definition save_auto_increment :: "json_env \<Rightarrow> (int \<times> 64 word) list \<Rightarrow> string" where
  "save_auto_increment J pairs = json_write J (map (\<lambda>(servlet_id, max_id). (int_to_string servlet_id, max_id)) pairs)"

text \<open>
  \<open>None\<close> when \<open>Atoi(...).value()\<close> is asked for a name that is no number, which throws.
\<close>

fun load_members :: "json_env \<Rightarrow> (string \<times> 64 word) list \<Rightarrow> auto_increment_map \<Rightarrow> auto_increment_map option" where
  "load_members J [] m = Some m"
| "load_members J ((name, max_id) # ms) m =
     (case atoi J name of None \<Rightarrow> None | Some servlet_id \<Rightarrow> load_members J ms (m(servlet_id \<mapsto> max_id)))"

definition parse_json_string :: "json_env \<Rightarrow> string \<Rightarrow> auto_increment_map \<Rightarrow> (int \<times> auto_increment_map) option" where
  "parse_json_string J json_string m =
     (case json_parse J json_string of None \<Rightarrow> Some (-1, m)
      | Some root \<Rightarrow> map_option (\<lambda>m. (0, m)) (load_members J root m))"

definition load_auto_increment :: "json_env \<Rightarrow> string \<Rightarrow> auto_increment_map \<Rightarrow> (int \<times> auto_increment_map) option" where
  "load_auto_increment J contents m = parse_json_string J contents Map.empty"

text \<open>\<open>on_snapshot_load\<close> over the files of the snapshot, a name and its contents each.\<close>

fun auto_load_files :: "json_env \<Rightarrow> (string \<times> string) list \<Rightarrow> auto_increment_map \<Rightarrow> (int \<times> auto_increment_map) option" where
  "auto_load_files J [] m = Some (0, m)"
| "auto_load_files J ((file, contents) # files) m =
     (if file = ''/max_id.json''
      then case load_auto_increment J contents m of
             None \<Rightarrow> None
           | Some (ret, m) \<Rightarrow> if ret \<noteq> 0 then Some (-1, m) else auto_load_files J files m
      else auto_load_files J files m)"

text \<open>
  \<open>on_snapshot_save\<close> and \<open>save_snapshot\<close>: the string is taken at once, the file is written in the
  background; the result is what the closure's status says and the files of the snapshot.
\<close>

definition auto_on_snapshot_save :: "json_env \<Rightarrow> bool \<Rightarrow> (int \<times> 64 word) list \<Rightarrow> string + (string \<times> string) list" where
  "auto_on_snapshot_save J add_file_ok pairs =
     (let max_id_string = save_auto_increment J pairs
      in if add_file_ok then Inr [(''/max_id.json'', max_id_string)] else Inl ''Fail to add file'')"

lemma load_members_saved:
  assumes "json_ok J" "\<forall>p \<in> set pairs. int64_range (fst p)"
  shows "load_members J (map (\<lambda>(i, x). (int_to_string i, x)) pairs) m = Some (m ++ map_of (rev pairs))"
  using assms by (induction pairs arbitrary: m) (auto simp: json_ok_def map_add_assoc [symmetric])

definition walks :: "(int \<times> 64 word) list \<Rightarrow> auto_increment_map \<Rightarrow> bool" where
  "walks pairs m \<longleftrightarrow> distinct (map fst pairs) \<and> set pairs = {(i, x). m i = Some x}"

lemma walks_map_of: "walks pairs m \<Longrightarrow> map_of (rev pairs) = m"
proof
  fix i assume w: "walks pairs m"
  then have "distinct (map fst (rev pairs))" by (simp add: walks_def rev_map [symmetric])
  then have "map_of (rev pairs) i = Some x \<longleftrightarrow> m i = Some x" for x
    using w by (simp add: walks_def)
  then show "map_of (rev pairs) i = m i"
    by (metis not_Some_eq)
qed

lemma auto_snapshot_round_trip:
  assumes "json_ok J" "walks pairs m" "\<forall>i \<in> dom m. int64_range i"
  shows "\<exists>files. auto_on_snapshot_save J True pairs = Inr files \<and> auto_load_files J files m0 = Some (0, m)"
  using assms load_members_saved [OF assms(1), of pairs Map.empty] walks_map_of [OF assms(2)]
  by (fastforce simp add: walks_def dom_def auto_on_snapshot_save_def save_auto_increment_def load_auto_increment_def
      parse_json_string_def json_ok_def)

subsection \<open>The ids handed out\<close>

text \<open>
  The ranges \<open>[start, end)\<close> the answers to \<open>gen_id\<close> requests for servlet \<open>k\<close> promise, in order.
\<close>

fun ranges :: "int \<Rightarrow> DiscoveryManagerRequest list \<Rightarrow> auto_increment_map \<Rightarrow> (64 word \<times> 64 word) list" where
  "ranges k [] m = []"
| "ranges k (rq # rqs) m =
     (let (c, m') = auto_apply rq (Some empty_response) m
      in (case c of
            Some r \<Rightarrow>
              (if rq_op_type rq = OP_GEN_ID_FOR_AUTO_INCREMENT \<and>
                  ai_servlet_id (auto_increment_of rq) = k \<and> rs_errcode r = SUCCESS
               then [(rs_start_id r, rs_end_id r)] else [])
          | None \<Rightarrow> []) @ ranges k rqs m')"

text \<open>
  A request that keeps the counter of \<open>k\<close> going up: it does not wrap around \<open>2^64\<close>, does not
  drop the servlet and does not force the counter back.
\<close>

definition next_start :: "AutoIncrementInfo \<Rightarrow> 64 word \<Rightarrow> 64 word" where
  "next_start i old = (if ai_start_id i \<noteq> None \<and> old < start_id i + 1 then start_id i + 1 else old)"

definition orderly :: "int \<Rightarrow> DiscoveryManagerRequest \<Rightarrow> 64 word \<Rightarrow> bool" where
  "orderly k rq old \<longleftrightarrow>
     (let i = auto_increment_of rq
      in ai_servlet_id i = k \<longrightarrow>
           rq_op_type rq \<noteq> OP_DROP_ID_FOR_AUTO_INCREMENT \<and>
           (rq_op_type rq = OP_GEN_ID_FOR_AUTO_INCREMENT \<longrightarrow>
              unat (next_start i old) + unat (ai_count i) < 2 ^ 64) \<and>
           (rq_op_type rq = OP_UPDATE_FOR_AUTO_INCREMENT \<longrightarrow>
              ai_force i \<noteq> Some True \<and> unat old + unat (increment_id i) < 2 ^ 64))"

fun orderly_run :: "int \<Rightarrow> DiscoveryManagerRequest list \<Rightarrow> auto_increment_map \<Rightarrow> bool" where
  "orderly_run k [] m = True"
| "orderly_run k (rq # rqs) m =
     ((case m k of None \<Rightarrow> True | Some old \<Rightarrow> orderly k rq old) \<and>
      orderly_run k rqs (snd (auto_apply rq None m)))"

lemma next_start_ge: "old \<le> next_start i old"
  by (auto simp: next_start_def)

lemma no_wrap_le: "unat a + unat b < 2 ^ 64 \<Longrightarrow> (a :: 64 word) \<le> a + b"
  by (simp add: word_le_nat_alt unat_word_ariths)

lemma gen_id_step:
  assumes "rq_op_type rq = OP_GEN_ID_FOR_AUTO_INCREMENT" "ai_servlet_id (auto_increment_of rq) = k" "m k = Some old"
  shows "auto_apply rq (Some r0) m =
    (Some ((r0\<lparr>rs_errcode := SUCCESS, rs_op_type := Some (rq_op_type rq),
        rs_start_id := next_start (auto_increment_of rq) old,
        rs_end_id := next_start (auto_increment_of rq) old + ai_count (auto_increment_of rq),
        rs_errmsg := ''SUCCESS''\<rparr>)),
     m(k \<mapsto> next_start (auto_increment_of rq) old + ai_count (auto_increment_of rq)))"
  using assms by (simp add: auto_apply_def gen_id_def next_start_def answer_success_def Let_def)

lemma other_step:
  assumes "m k = Some old" "orderly k rq old"
    and "rq_op_type rq \<noteq> OP_GEN_ID_FOR_AUTO_INCREMENT \<or> ai_servlet_id (auto_increment_of rq) \<noteq> k"
  shows "\<exists>new. snd (auto_apply rq dn m) k = Some new \<and> old \<le> new"
proof (cases "rq_op_type rq = OP_UPDATE_FOR_AUTO_INCREMENT \<and> ai_servlet_id (auto_increment_of rq) = k")
  case True
  then have "unat old + unat (increment_id (auto_increment_of rq)) < 2 ^ 64"
    "ai_force (auto_increment_of rq) \<noteq> Some True"
    using assms(2) by (auto simp: orderly_def Let_def)
  moreover from this have "old \<le> old + increment_id (auto_increment_of rq)"
    by (rule_tac no_wrap_le)
  ultimately show ?thesis
    using True assms(1) by (cases "ai_force (auto_increment_of rq)")
      (auto simp: auto_apply_def auto_update_def Let_def not_less)
next
  case False
  then show ?thesis
    using assms by (cases "rq_op_type rq")
      (auto simp: auto_apply_def auto_handler_defs orderly_def Let_def split: option.splits)
qed

lemma ranges_from:
  assumes "m k = Some old" "orderly_run k rqs m"
  shows "sorted_wrt (\<lambda>a b. snd a \<le> fst b) (ranges k rqs m) \<and>
    (\<forall>(a, b) \<in> set (ranges k rqs m). old \<le> a \<and> a \<le> b)"
  using assms
proof (induction rqs arbitrary: m old)
  case (Cons rq rqs)
  let ?m = "snd (auto_apply rq (Some empty_response) m)" and ?i = "auto_increment_of rq"
  have run: "orderly_run k rqs ?m" and o: "orderly k rq old"
    using Cons.prems auto_apply_done [of rq "Some empty_response" m] by simp_all
  show ?case
  proof (cases "rq_op_type rq = OP_GEN_ID_FOR_AUTO_INCREMENT \<and> ai_servlet_id ?i = k")
    case True
    let ?a = "next_start ?i old"
    have "?a \<le> ?a + ai_count ?i"
      using o True by (intro no_wrap_le) (simp add: orderly_def Let_def)
    moreover have "?m k = Some (?a + ai_count ?i)"
      using True Cons.prems(1) by (simp add: gen_id_step)
    moreover have "ranges k (rq # rqs) m = (?a, ?a + ai_count ?i) # ranges k rqs ?m"
      using True Cons.prems(1) by (simp add: gen_id_step)
    ultimately show ?thesis
      using Cons.IH [of ?m "?a + ai_count ?i"] run next_start_ge [of old ?i] by fastforce
  next
    case False
    then obtain new where new: "?m k = Some new" "old \<le> new"
      using other_step [of m k old rq] Cons.prems(1) o by blast
    have "ranges k (rq # rqs) m = ranges k rqs ?m"
      using False by (auto simp: split_def Let_def split: option.split)
    with Cons.IH [of ?m new] new run show ?thesis by fastforce
  qed
qed simp

end
