(* ===== verification/CounterProperties.thy ===== *)
theory CounterProperties
  imports AutoIncr Tso
begin

text \<open>
  What the two counting machines promise: disjoint id ranges of the auto increment machine, and
  strictly increasing timestamps of the timestamp oracle, with the clocks under which the oracle
  does not keep that promise.
\<close>

subsection \<open>Auto increment\<close>

text \<open>
  C5: the ranges handed out for one servlet are disjoint and increasing: in any sequence of requests
  that does not wrap the counter, drop the servlet or force the counter back, every answered range
  starts at or above the end of every earlier one, and none starts below the initial counter.
\<close>

theorem auto_increment_ranges_disjoint:
  assumes "m k = Some old" "orderly_run k rqs m" "i < j" "j < length (ranges k rqs m)"
  shows "snd (ranges k rqs m ! i) \<le> fst (ranges k rqs m ! j) \<and> old \<le> fst (ranges k rqs m ! i) \<and>
    fst (ranges k rqs m ! i) \<le> snd (ranges k rqs m ! i)"
proof -
  note r = ranges_from [OF assms(1,2)]
  have "ranges k rqs m ! i \<in> set (ranges k rqs m)" using assms(3,4) by simp
  with r have "old \<le> fst (ranges k rqs m ! i)" "fst (ranges k rqs m ! i) \<le> snd (ranges k rqs m ! i)"
    by (auto simp: case_prod_beta)
  with r show ?thesis
    using assms(3,4) by (simp add: sorted_wrt_iff_nth_less)
qed

definition gen_request :: "64 word \<Rightarrow> DiscoveryManagerRequest" where
  "gen_request n = (empty_request OP_GEN_ID_FOR_AUTO_INCREMENT)
     \<lparr>rq_auto_increment := Some (empty_AutoIncrementInfo\<lparr>ai_servlet_id := 1, ai_count := n\<rparr>)\<rparr>"

theorem auto_increment_ranges_disjoint_witness:
  "ranges 1 [gen_request 10, gen_request 3] [1 \<mapsto> 5] = [(5, 15), (15, 18)] \<and>
   snd (ranges 1 [gen_request 10, gen_request 3] [1 \<mapsto> 5] ! 0) \<le> fst (ranges 1 [gen_request 10, gen_request 3] [1 \<mapsto> 5] ! 1)"
proof -
  have r: "ranges 1 [gen_request 10, gen_request 3] [1 \<mapsto> 5] = [(5, 15), (15, 18)]"
    by (simp add: gen_request_def empty_request_def auto_apply_def gen_id_def auto_increment_of_def
        answer_success_def empty_AutoIncrementInfo_def empty_response_def Let_def start_id_def)
  have o: "orderly_run 1 [gen_request 10, gen_request 3] [1 \<mapsto> 5]"
    by (simp add: gen_request_def empty_request_def auto_apply_def gen_id_def auto_increment_of_def orderly_def
        answer_success_def empty_AutoIncrementInfo_def Let_def start_id_def next_start_def)
  have "[1 \<mapsto> 5] (1 :: int) = Some (5 :: 64 word)" by simp
  from auto_increment_ranges_disjoint [OF this o, of 0 1] r show ?thesis by simp
qed

text \<open>
  An update never moves a counter back unless it is forced: a request for a known servlet that
  carries exactly one of start and increment is refused as a rollback when its start would lower the
  counter and it is not forced, and otherwise sets the counter it names and no other.
\<close>

lemma auto_update_spec:
  assumes "rq_op_type rq = OP_UPDATE_FOR_AUTO_INCREMENT" "i = auto_increment_of rq"
    "m (ai_servlet_id i) = Some old" "(ai_start_id i = None) \<noteq> (ai_increment_id i = None)"
    "auto_apply rq (Some r0) m = (Some r1, m')"
  shows "if ai_start_id i \<noteq> None \<and> start_id i + 1 < old \<and> ai_force i \<noteq> Some True
    then rs_errcode r1 = INPUT_PARAM_ERROR \<and> m' = m
    else rs_errcode r1 = SUCCESS \<and> m' = m(ai_servlet_id i \<mapsto>
      (if ai_start_id i \<noteq> None then start_id i + 1 else old + increment_id i)) \<and>
      rs_start_id r1 = the (m' (ai_servlet_id i))"
  using assms
  by (cases "ai_force i"; cases "ai_start_id i"; cases "ai_increment_id i")
    (auto simp: auto_apply_def auto_update_def Let_def answer_success_def)

lemma auto_update_spec_witness:
  "auto_apply ((empty_request OP_UPDATE_FOR_AUTO_INCREMENT)\<lparr>rq_auto_increment :=
       Some (empty_AutoIncrementInfo\<lparr>ai_servlet_id := 1, ai_start_id := Some 3\<rparr>)\<rparr>) (Some empty_response) [1 \<mapsto> 5]
     = (Some (set_resp INPUT_PARAM_ERROR ''not support rollback'' empty_response), [1 \<mapsto> 5])"
proof -
  let ?rq = "(empty_request OP_UPDATE_FOR_AUTO_INCREMENT)\<lparr>rq_auto_increment :=
       Some (empty_AutoIncrementInfo\<lparr>ai_servlet_id := 1, ai_start_id := Some 3\<rparr>)\<rparr>"
  let ?i = "empty_AutoIncrementInfo\<lparr>ai_servlet_id := 1, ai_start_id := Some 3\<rparr>"
  have i: "?i = auto_increment_of ?rq" and op: "rq_op_type ?rq = OP_UPDATE_FOR_AUTO_INCREMENT"
    by (simp_all add: auto_increment_of_def empty_request_def)
  obtain r1 m' where a: "auto_apply ?rq (Some empty_response) [1 \<mapsto> 5] = (Some r1, m')"
    "r1 = set_resp INPUT_PARAM_ERROR ''not support rollback'' empty_response"
    by (simp add: auto_apply_def auto_update_def auto_increment_of_def empty_request_def
        empty_AutoIncrementInfo_def start_id_def Let_def)
  have old: "[1 \<mapsto> 5] (ai_servlet_id ?i) = Some (5 :: 64 word)" by simp
  have one: "(ai_start_id ?i = None) \<noteq> (ai_increment_id ?i = None)"
    by (simp add: empty_AutoIncrementInfo_def)
  from auto_update_spec [OF op i old one a(1)] a show ?thesis
    by (simp add: empty_AutoIncrementInfo_def start_id_def)
qed

text \<open>
  The auto increment snapshot: whatever the order in which the map is walked, saving it and
  loading the files on any replica gives back exactly the map that was saved.
\<close>

lemma auto_increment_snapshot:
  assumes "json_ok J" "walks pairs m" "\<forall>i \<in> dom m. int64_range i"
  shows "\<exists>files. auto_on_snapshot_save J True pairs = Inr files \<and> auto_load_files J files m0 = Some (0, m)"
  by (rule auto_snapshot_round_trip [OF assms])

text \<open>
  A JSON-like encoding for the example: members as \<open>name:value;\<close>, each character of a name
  behind a dot.
\<close>

fun demo_name :: "string \<Rightarrow> string" where
  "demo_name [] = '':''"
| "demo_name (c # cs) = CHR ''.'' # c # demo_name cs"

fun demo_write :: "(string \<times> 64 word) list \<Rightarrow> string" where
  "demo_write [] = []"
| "demo_write ((name, x) # ms) = demo_name name @ nat_to_string (unat x) @ '';'' @ demo_write ms"

fun demo_read_name :: "string \<Rightarrow> string \<times> string" where
  "demo_read_name (c # d # cs) =
     (if c = CHR ''.'' then let (name, rest) = demo_read_name cs in (d # name, rest) else ([], d # cs))"
| "demo_read_name cs = ([], tl cs)"

fun demo_read :: "nat \<Rightarrow> string \<Rightarrow> (string \<times> 64 word) list option" where
  "demo_read 0 s = None"
| "demo_read (Suc fuel) s =
     (if s = [] then Some []
      else let (name, s) = demo_read_name s;
               ds = takeWhile is_digit s
           in map_option (\<lambda>ms. (name, of_nat (digits_value ds)) # ms)
                (demo_read fuel (tl (dropWhile is_digit s))))"

definition demo_json :: json_env where
  "demo_json = \<lparr>json_write = demo_write, json_parse = (\<lambda>s. demo_read (Suc (length s)) s), atoi = string_to_int\<rparr>"

lemma demo_read_name_write: "s \<noteq> [] \<Longrightarrow> demo_read_name (demo_name name @ s) = (name, s)"
proof (induction name)
  case Nil
  then show ?case by (cases s) auto
qed simp

lemma demo_read_write: "length ms < fuel \<Longrightarrow> demo_read fuel (demo_write ms) = Some ms"
proof (induction ms arbitrary: fuel)
  case Nil
  then show ?case by (cases fuel) auto
next
  case (Cons m ms)
  obtain f where f: "fuel = Suc f" "length ms < f" using Cons.prems by (cases fuel) auto
  obtain name x where m: "m = (name, x)" by fastforce
  let ?ds = "nat_to_string (unat x)" and ?rest = "demo_write ms"
  have ds: "list_all is_digit ?ds" by (simp add: nat_to_string_digits)
  then have all: "\<forall>c \<in> set ?ds. is_digit c" by (simp add: list_all_iff)
  have semi: "\<not> is_digit (CHR '';'')" by (simp add: is_digit_def)
  have "demo_read_name (demo_write (m # ms)) = (name, ?ds @ '';'' @ ?rest)"
    using m by (simp add: demo_read_name_write)
  moreover have "takeWhile is_digit (?ds @ '';'' @ ?rest) = ?ds"
    "dropWhile is_digit (?ds @ '';'' @ ?rest) = '';'' @ ?rest"
    using all semi by (auto simp: takeWhile_append2 dropWhile_append2)
  moreover have "demo_write (m # ms) \<noteq> []" using m by simp
  ultimately show ?case
    using Cons.IH [OF f(2)] m f(1) by (simp add: digits_value_to_string del: demo_write.simps)
qed

lemma demo_write_length: "length ms \<le> length (demo_write ms)"
  by (induction ms rule: demo_write.induct) simp_all

lemma demo_read_whole: "demo_read (Suc (length (demo_write ms))) (demo_write ms) = Some ms"
  by (rule demo_read_write) (simp add: demo_write_length le_imp_less_Suc)

lemma demo_json_ok: "json_ok demo_json"
  by (simp add: json_ok_def demo_json_def demo_read_whole del: demo_read.simps)

lemma demo_decimals:
  "int_to_string 1 = ''1''" "int_to_string 7 = ''7''" "int_to_string 3000 = ''3000''"
  "nat_to_string 5 = ''5''" "nat_to_string 9 = ''9''"
  by code_simp+

lemma auto_increment_snapshot_witness:
  "auto_load_files demo_json [(''/max_id.json'', demo_write [(''1'', 5), (''7'', 9)])] Map.empty =
     Some (0, [1 \<mapsto> 5, 7 \<mapsto> 9])"
proof -
  let ?pairs = "[(1, 5), (7, 9)] :: (int \<times> 64 word) list"
  have w: "walks ?pairs [1 \<mapsto> 5, 7 \<mapsto> 9]" by (auto simp: walks_def split: if_splits)
  have "\<forall>i \<in> dom ([1 \<mapsto> 5, 7 \<mapsto> 9] :: auto_increment_map). int64_range i"
    by (simp add: int64_range_def)
  moreover have "auto_on_snapshot_save demo_json True ?pairs =
      Inr [(''/max_id.json'', demo_write [(''1'', 5), (''7'', 9)])]"
    by (simp add: auto_on_snapshot_save_def save_auto_increment_def demo_json_def demo_decimals)
  ultimately show ?thesis
    using auto_increment_snapshot [OF demo_json_ok w, of Map.empty] by simp
qed

subsection \<open>The timestamp oracle\<close>


text \<open>
  An encoding of the request message for the examples: its eight fields, present or not.
\<close>

definition tso_op_code :: "TsoOp \<Rightarrow> int" where
  "tso_op_code op = (case op of OP_GEN_TSO \<Rightarrow> 0 | OP_RESET_TSO \<Rightarrow> 1 | OP_UPDATE_TSO \<Rightarrow> 2
     | OP_QUERY_TSO_INFO \<Rightarrow> 3 | OP_TSO_OTHER \<Rightarrow> 4)"

definition tso_op_of :: "int \<Rightarrow> TsoOp" where
  "tso_op_of c = (if c = 0 then OP_GEN_TSO else if c = 1 then OP_RESET_TSO else if c = 2 then OP_UPDATE_TSO
     else if c = 3 then OP_QUERY_TSO_INFO else OP_TSO_OTHER)"

definition tso_fields :: "TsoRequest \<Rightarrow> int list" where
  "tso_fields rq =
     (let t = msg zero_timestamp (tq_current_timestamp rq)
      in [tso_op_code (tq_op_type rq), tq_count rq,
          if tq_current_timestamp rq = None then 0 else 1, physical t, logical t,
          if tq_save_physical rq = None then 0 else 1, msg 0 (tq_save_physical rq),
          if tq_force rq then 1 else 0])"

definition tso_of_fields :: "int list \<Rightarrow> TsoRequest option" where
  "tso_of_fields xs =
     (if length xs = 8
      then Some \<lparr>tq_op_type = tso_op_of (xs ! 0), tq_count = xs ! 1,
        tq_current_timestamp = (if xs ! 2 = 0 then None else Some \<lparr>physical = xs ! 3, logical = xs ! 4\<rparr>),
        tq_save_physical = (if xs ! 5 = 0 then None else Some (xs ! 6)), tq_force = (xs ! 7 = 1)\<rparr>
      else None)"

definition demo_tso_pb :: "TsoRequest pb" where
  "demo_tso_pb = \<lparr>pb_serialize = (\<lambda>rq. Some (demo_write (map (\<lambda>i. (int_to_string i, 0)) (tso_fields rq)))),
     pb_parse = (\<lambda>s. Option.bind (demo_read (Suc (length s)) s)
       (\<lambda>ms. tso_of_fields (map (\<lambda>m. the (string_to_int (fst m))) ms)))\<rparr>"

lemma tso_of_fields_fields: "tso_of_fields (tso_fields rq) = Some rq"
  by (cases rq; cases "tq_op_type rq"; cases "tq_current_timestamp rq"; cases "tq_save_physical rq")
    (auto simp: tso_of_fields_def tso_fields_def tso_op_code_def tso_op_of_def Let_def
      split: TsoOp.splits option.splits)

lemma demo_tso_pb_ok: "pb_ok demo_tso_pb"
  by (simp add: pb_ok_def demo_tso_pb_def demo_read_whole comp_def tso_of_fields_fields del: demo_read.simps)

lemma demo_tso_pb_serializes: "pb_serialize demo_tso_pb rq \<noteq> None"
  by (simp add: demo_tso_pb_def)

definition gen_tso_request :: "int \<Rightarrow> TsoRequest" where
  "gen_tso_request n = \<lparr>tq_op_type = OP_GEN_TSO, tq_count = n, tq_current_timestamp = None,
     tq_save_physical = None, tq_force = False\<rparr>"

definition demo_tso :: tso_state where
  "demo_tso = tso_init\<lparr>current_timestamp := \<lparr>physical = 1000, logical = 0\<rparr>, last_save_physical := 3000,
     tso_is_leader := True, timer_running := True\<rparr>"

lemma update_request_spec:
  assumes "pb_ok P" "\<And>rq. pb_serialize P rq \<noteq> None" "tso_is_leader s"
    "update_timestamp_proposal now s = Some (tp, save)" "physical (current_timestamp s) \<le> physical tp"
  shows "update_timestamp P Committed now s = s\<lparr>last_save_physical := save, current_timestamp := tp\<rparr>"
  using assms(3,4) update_proposal_safe [OF assms(4)]
    sync_timestamp_committed [OF assms(1,2), of s save tp] assms(5)
  by (simp add: update_timestamp_def)




text \<open>
  \<open>gen_tso\<close> when no other thread interferes: a count of zero, an unhealthy oracle, a clock that
  was never set and an exhausted logical part are refused with their error codes and change
  nothing; otherwise the answer is the current timestamp and the logical part moves by the count.
\<close>

lemma gen_tso_spec:
  "gen_tso (\<lambda>i s. s) rq r s =
     (let now = current_timestamp s; r = r\<lparr>ts_op_type := Some (tq_op_type rq)\<rparr>
      in if tq_count rq = 0 then (tso_answer INPUT_PARAM_ERROR ''tso count should be positive'' r, s)
         else if \<not> is_healty s then (tso_answer RETRY_LATER ''timestamp not ok, retry later'' r, s)
         else if physical now = 0 \<or> logical now + tq_count rq \<ge> 262144 then (tso_answer EXEC_FAIL ''gen tso failed'' r, s)
         else (r\<lparr>ts_start_timestamp := Some now, ts_count := tq_count rq, ts_errcode := SUCCESS\<rparr>,
               s\<lparr>current_timestamp := now\<lparr>logical := logical now + tq_count rq\<rparr>\<rparr>))"
  by (simp add: gen_tso_idle gen_attempt_def tso_constants Let_def)

text \<open>
  A clock that falls back by one millisecond makes the oracle repeat itself: with the logical part
  past half its range the timer proposes the physical part the oracle already has with the logical
  part zero, the committed request is accepted, and the next answer is the first one again.
\<close>

lemma clock_one_behind_repeats:
  assumes "pb_ok P" "\<And>rq. pb_serialize P rq \<noteq> None" "tso_is_leader s" "is_healty s"
    and "current_timestamp s = \<lparr>physical = now + 1, logical = 0\<rparr>" "0 < now"
    and "131072 < n" "n < 262144" "now + 2 < last_save_physical s"
  shows "answers P [Serve (gen_tso_request n), Tick now Committed, Serve (gen_tso_request n)] s
    = [(current_timestamp s, n), (current_timestamp s, n)]"
proof -
  let ?s = "s\<lparr>current_timestamp := \<lparr>physical = now + 1, logical = n\<rparr>\<rparr>"
  have serve: "tso_do P (Serve (gen_tso_request n)) s = ?s"
    using assms by (simp add: gen_tso_idle gen_tso_request_def gen_attempt_def tso_constants Let_def)
  have "update_timestamp P Committed now ?s =
      ?s\<lparr>last_save_physical := last_save_physical s, current_timestamp := \<lparr>physical = now + 1, logical = 0\<rparr>\<rparr>"
    by (rule update_request_spec [OF assms(1,2)])
      (use assms in \<open>simp_all add: update_timestamp_proposal_def tso_constants Let_def\<close>)
  then have tick: "tso_do P (Tick now Committed) ?s = s"
    using assms(5) by (simp add: tso_state.equality)
  show ?thesis
    unfolding answers.simps serve tick
    using assms by (simp add: gen_tso_idle gen_tso_request_def gen_attempt_def tso_constants Let_def empty_TsoResponse_def)
qed

lemma clock_one_behind_repeats_witness:
  "answers demo_tso_pb [Serve (gen_tso_request 200000), Tick 999 Committed, Serve (gen_tso_request 200000)] demo_tso
     = [(\<lparr>physical = 1000, logical = 0\<rparr>, 200000), (\<lparr>physical = 1000, logical = 0\<rparr>, 200000)]"
  using clock_one_behind_repeats [OF demo_tso_pb_ok demo_tso_pb_serializes, of demo_tso 999 200000]
  by (simp add: demo_tso_def tso_init_def)

text \<open>
  A leader that starts from a snapshot trusts a clock up to fifty milliseconds short of the save
  point: when it reads a time below the physical part its predecessor had reached, it answers
  timestamps its predecessor has passed.
\<close>

lemma restart_goes_back:
  assumes "pb_ok P" "\<And>rq. pb_serialize P rq \<noteq> None" "int64_range (last_save_physical s)"
    and "0 < now" "now + 50 \<le> last_save_physical s" "now < physical (current_timestamp s)"
    and "0 < n" "n < 262144" "tso_on_snapshot_save True s = Inr files"
  shows "answers P [LeaderStart now Committed, Serve (gen_tso_request n)] (snd (tso_on_snapshot_load files tso_init))
      = [(\<lparr>physical = now, logical = 0\<rparr>, n)] \<and>
    ts_before (\<lparr>physical = now, logical = 0\<rparr>, n) (current_timestamp s, 0)"
proof -
  let ?r = "tso_init\<lparr>last_save_physical := last_save_physical s, tso_have_data := True\<rparr>"
  have r: "snd (tso_on_snapshot_load files tso_init) = ?r"
    using tso_snapshot_round_trip [OF assms(3), of tso_init] assms(9) by auto
  have start: "tso_do P (LeaderStart now Committed) ?r =
      ?r\<lparr>current_timestamp := \<lparr>physical = now, logical = 0\<rparr>, tso_is_leader := True, timer_running := True\<rparr>"
    using assms sync_timestamp_committed [OF assms(1,2), of ?r "last_save_physical s" "\<lparr>physical = now, logical = 0\<rparr>"]
    by (simp add: tso_on_leader_start_def leader_proposal_def tso_constants Let_def tso_init_def zero_timestamp_def)
  show ?thesis
    unfolding r answers.simps start
    using assms by (simp add: gen_tso_idle gen_tso_request_def gen_attempt_def tso_constants Let_def
        empty_TsoResponse_def tso_init_def ts_before_def)
qed

lemma restart_goes_back_witness:
  "answers demo_tso_pb [LeaderStart 900 Committed, Serve (gen_tso_request 1)]
      (snd (tso_on_snapshot_load [(''/tso.file'', ''3000'')] tso_init))
    = [(\<lparr>physical = 900, logical = 0\<rparr>, 1)]"
proof -
  have "tso_on_snapshot_save True demo_tso = Inr [(''/tso.file'', ''3000'')]"
    by (simp add: tso_on_snapshot_save_def SNAPSHOT_TSO_FILE_WITH_SLASH_def demo_tso_def demo_decimals)
  from restart_goes_back [OF demo_tso_pb_ok demo_tso_pb_serializes _ _ _ _ _ _ this, of 900 1]
  show ?thesis by (simp add: demo_tso_def int64_range_def)
qed

end
