(* ===== verification/RaftControl.thy ===== *)
theory RaftControl
  imports DiscoveryProto
begin

text \<open>
  Operating a raft group (raft_control.cc and \<open>BaseStateMachine::raft_control\<close>). The node and the
  peer configuration belong to braft: a \<open>node_view\<close> holds what the node answers during the call,
  \<open>conf_ops\<close> the operations of \<open>braft::Configuration\<close>. A call yields the response and the
  operations it asks of the node; \<open>Later\<close> marks those whose closure answers the client.
\<close>

datatype RaftControlOp = SetPeer | SnapShot | ShutDown | TransLeader | GetLeader | ListPeer
  | ResetVoteTime | RaftOther

record RaftControlRequest =
  rc_op_type :: RaftControlOp
  rc_region_id :: int
  rc_force :: "bool option"
  rc_old_peers :: "string list"
  rc_new_peers :: "string list"
  rc_new_leader :: string
  rc_election_time :: int

record RaftControlResponse =
  rr_errcode :: ErrCode
  rr_errmsg :: string
  rr_region_id :: int
  rr_leader :: string
  rr_peers :: "string list"

definition empty_raft_response :: RaftControlResponse where
  "empty_raft_response = \<lparr>rr_errcode = SUCCESS, rr_errmsg = [], rr_region_id = 0, rr_leader = [],
     rr_peers = []\<rparr>"

datatype 'p node_call = ResetPeers "'p list" | AddPeer 'p | RemovePeer 'p | TransferTo 'p
  | TakeSnapshot | ShutdownNode | ResetElectionTimeout int

record ('p, 'c) conf_ops =
  conf_of :: "'p list \<Rightarrow> 'c"
  conf_contains :: "'c \<Rightarrow> 'p list \<Rightarrow> bool"
  conf_remove :: "'p \<Rightarrow> 'c \<Rightarrow> 'c"
  conf_list :: "'c \<Rightarrow> 'p list"

text \<open>\<open>list_peers\<close> answers a status code (0 for ok, 1 for \<open>EPERM\<close>) and the peers.\<close>

record 'p node_view =
  nv_leader :: "string option"
  nv_parse :: "string \<Rightarrow> 'p option"
  nv_addr :: "'p \<Rightarrow> string"
  nv_reset_ok :: bool
  nv_list_peers :: "int \<times> 'p list"
  nv_followers :: "('p \<times> int) list"
  nv_heartbeat_factor :: int
  nv_transfer_ok :: bool

text \<open>\<open>braft::Configuration\<close> is a set of peers.\<close>

definition conf_ok :: "('p, 'c) conf_ops \<Rightarrow> ('c \<Rightarrow> 'p set) \<Rightarrow> bool" where
  "conf_ok C peers \<longleftrightarrow>
     (\<forall>ps. peers (conf_of C ps) = set ps) \<and>
     (\<forall>c ps. conf_contains C c ps \<longleftrightarrow> set ps \<subseteq> peers c) \<and>
     (\<forall>p c. peers (conf_remove C p c) = peers c - {p}) \<and>
     (\<forall>c. finite (peers c) \<longrightarrow> set (conf_list C c) = peers c \<and> distinct (conf_list C c))"

definition raft_answer :: "ErrCode \<Rightarrow> string \<Rightarrow> RaftControlResponse \<Rightarrow> RaftControlResponse" where
  "raft_answer e m r = r\<lparr>rr_errcode := e, rr_errmsg := m\<rparr>"

definition leader_str :: "'p node_view \<Rightarrow> string" where
  "leader_str V = str_field (nv_leader V)"

subsection \<open>_diff_peers\<close>

definition diff_peers :: "('p, 'c) conf_ops \<Rightarrow> 'p list \<Rightarrow> 'p list \<Rightarrow> 'p option" where
  "diff_peers C old_peers new_peers =
     (let old_conf = conf_of C old_peers; new_conf = conf_of C new_peers
      in if length old_peers + 1 = length new_peers \<and> conf_contains C new_conf old_peers
         then (case conf_list C (fold (conf_remove C) old_peers new_conf) of [p] \<Rightarrow> Some p | _ \<Rightarrow> None)
         else if length old_peers = length new_peers + 1 \<and> conf_contains C old_conf new_peers
         then (case conf_list C (fold (conf_remove C) new_peers old_conf) of [p] \<Rightarrow> Some p | _ \<Rightarrow> None)
         else None)"

subsection \<open>_set_peer\<close>

fun parse_peers :: "(string \<Rightarrow> 'p option) \<Rightarrow> string list \<Rightarrow> 'p list option" where
  "parse_peers parse [] = Some []"
| "parse_peers parse (s # ss) =
     (case parse s of None \<Rightarrow> None | Some p \<Rightarrow> map_option ((#) p) (parse_peers parse ss))"

text \<open>The loop over the stable followers: whether the peer itself and whether another is faulty.\<close>

fun faulty :: "'p node_view \<Rightarrow> 'p \<Rightarrow> ('p \<times> int) list \<Rightarrow> bool \<times> bool" where
  "faulty V p [] = (False, False)"
| "faulty V p ((q, errs) # rest) =
     (if q = p
      then (if errs > nv_heartbeat_factor V then (True, False) else faulty V p rest)
      else let (self, other) = faulty V p rest
           in (self, other \<or> errs > nv_heartbeat_factor V))"

datatype 'p outcome = Now RaftControlResponse "'p node_call list" | Later RaftControlResponse "'p node_call"

definition set_peer ::
  "('p, 'c) conf_ops \<Rightarrow> 'p node_view \<Rightarrow> RaftControlRequest \<Rightarrow> RaftControlResponse \<Rightarrow> 'p outcome" where
  "set_peer C V request response =
     (case parse_peers (nv_parse V) (rc_old_peers request) of
        None \<Rightarrow> Now (raft_answer INPUT_PARAM_ERROR ''old peer parse fail'' response) []
      | Some old_peers \<Rightarrow>
     (case parse_peers (nv_parse V) (rc_new_peers request) of
        None \<Rightarrow> Now (raft_answer INPUT_PARAM_ERROR ''new peer parse fail'' response) []
      | Some new_peers \<Rightarrow>
        if rc_force request = Some True
        then (if nv_reset_ok V
              then Now (raft_answer SUCCESS ''force set peer success'' response) [ResetPeers new_peers]
              else Now (raft_answer INTERNAL_ERROR ''force set peer fail'' response) [ResetPeers new_peers])
        else let (code, inner_peers) = nv_list_peers V
        in if code = 1
           then Now (response\<lparr>rr_errcode := NOT_LEADER, rr_leader := leader_str V\<rparr>) []
           else if code \<noteq> 0
           then Now (raft_answer PEER_NOT_EQUAL ''node list peer fail'' response) []
           else if length inner_peers \<noteq> length old_peers
           then Now (raft_answer PEER_NOT_EQUAL ''peer size not equal'' response) []
           else if \<not> list_all (\<lambda>p. p \<in> set old_peers) inner_peers
           then Now (raft_answer PEER_NOT_EQUAL ''peer not equal'' response) []
           else if length new_peers = length old_peers + 1
           then (case diff_peers C old_peers new_peers of
                   Some peer \<Rightarrow> Later response (AddPeer peer)
                 | None \<Rightarrow> Now (raft_answer INPUT_PARAM_ERROR ''diff peer fail when add peer'' response) [])
           else if length old_peers = length new_peers + 1
           then (case diff_peers C old_peers new_peers of
                   Some peer \<Rightarrow>
                     let (self_faulty, other_faulty) = faulty V peer (nv_followers V)
                     in if self_faulty \<or> (\<not> self_faulty \<and> \<not> other_faulty)
                        then Later response (RemovePeer peer)
                        else Now (raft_answer INPUT_PARAM_ERROR ''other peer is faulty'' response) []
                 | None \<Rightarrow> Now (raft_answer INPUT_PARAM_ERROR ''diff peer fail when remove peer'' response) [])
           else Now (raft_answer INPUT_PARAM_ERROR ''set peer fail'' response) []))"

definition trans_leader :: "'p node_view \<Rightarrow> RaftControlRequest \<Rightarrow> RaftControlResponse \<Rightarrow> 'p outcome" where
  "trans_leader V request response =
     (case nv_parse V (rc_new_leader request) of
        None \<Rightarrow> Now (raft_answer INPUT_PARAM_ERROR ''new leader parse fail'' response) []
      | Some peer \<Rightarrow>
        if \<not> nv_transfer_ok V
        then Now (response\<lparr>rr_errcode := NOT_LEADER, rr_leader := leader_str V\<rparr>) [TransferTo peer]
        else let (code, peers) = nv_list_peers V
             in if code \<noteq> 0
                then Now (raft_answer INTERNAL_ERROR ''list peers fail'' response) [TransferTo peer]
                else Now (response\<lparr>rr_peers := rr_peers response @ map (nv_addr V) peers,
                            rr_errcode := SUCCESS, rr_leader := rc_new_leader request\<rparr>) [TransferTo peer])"

definition common_raft_control ::
  "('p, 'c) conf_ops \<Rightarrow> 'p node_view \<Rightarrow> RaftControlRequest \<Rightarrow> RaftControlResponse \<Rightarrow> 'p outcome" where
  "common_raft_control C V request response =
     (let response = response\<lparr>rr_region_id := rc_region_id request\<rparr>
      in case rc_op_type request of
           SetPeer \<Rightarrow> set_peer C V request response
         | SnapShot \<Rightarrow> Later response TakeSnapshot
         | ShutDown \<Rightarrow> Later response ShutdownNode
         | TransLeader \<Rightarrow> trans_leader V request response
         | GetLeader \<Rightarrow>
             (case nv_leader V of
                Some l \<Rightarrow> Now (response\<lparr>rr_errcode := SUCCESS, rr_leader := l\<rparr>) []
              | None \<Rightarrow> Now (raft_answer INTERNAL_ERROR ''get leader fail'' response) [])
         | ListPeer \<Rightarrow>
             (case nv_leader V of
                Some l \<Rightarrow>
                  let response = response\<lparr>rr_leader := l\<rparr>; (code, peers) = nv_list_peers V
                  in if code \<noteq> 0 then Now (raft_answer INTERNAL_ERROR ''list peers fail'' response) []
                     else Now (response\<lparr>rr_peers := rr_peers response @ map (nv_addr V) peers,
                                 rr_errcode := SUCCESS\<rparr>) []
              | None \<Rightarrow> Now (raft_answer INTERNAL_ERROR ''get leader fail'' response) [])
         | ResetVoteTime \<Rightarrow>
             Now (response\<lparr>rr_errcode := SUCCESS\<rparr>) [ResetElectionTimeout (rc_election_time request)]
         | RaftOther \<Rightarrow> Now response [])"

text \<open>\<open>RaftControlDone::Run\<close>: what the closure of a \<open>Later\<close> call answers.\<close>

definition raft_control_done :: "'p node_view \<Rightarrow> string option \<Rightarrow> RaftControlResponse \<Rightarrow> RaftControlResponse" where
  "raft_control_done V error response =
     (case error of
        None \<Rightarrow> response\<lparr>rr_errcode := SUCCESS\<rparr>
      | Some e \<Rightarrow> (raft_answer INTERNAL_ERROR e response)\<lparr>rr_leader := leader_str V\<rparr>)"

definition base_raft_control ::
  "bool \<Rightarrow> ('p, 'c) conf_ops \<Rightarrow> 'p node_view \<Rightarrow> RaftControlRequest \<Rightarrow> RaftControlResponse \<Rightarrow> 'p outcome" where
  "base_raft_control leader C V request response =
     (if \<not> leader \<and> rc_force request \<noteq> Some True
      then Now ((raft_answer NOT_LEADER ''not leader'' response)
             \<lparr>rr_region_id := rc_region_id request, rr_leader := leader_str V\<rparr>) []
      else common_raft_control C V request response)"

subsection \<open>Membership moves by one peer\<close>

lemma conf_fold_remove:
  "conf_ok C peers \<Longrightarrow> peers (fold (conf_remove C) ps c) = peers c - set ps"
  by (induction ps arbitrary: c) (auto simp: conf_ok_def)

lemma diff_peers_ok:
  assumes "conf_ok C peers" "diff_peers C old_peers new_peers = Some p"
  shows "(length old_peers + 1 = length new_peers \<and> set new_peers = insert p (set old_peers) \<and> p \<notin> set old_peers) \<or>
    (length old_peers = length new_peers + 1 \<and> set old_peers = insert p (set new_peers) \<and> p \<notin> set new_peers)"
proof -
  have one: "A - B = {p}" if "conf_list C (fold (conf_remove C) bs (conf_of C as)) = [p]"
    "A = set as" "B = set bs" for as bs A B
  proof -
    have "peers (fold (conf_remove C) bs (conf_of C as)) = A - B"
      using conf_fold_remove [OF assms(1), of bs "conf_of C as"] assms(1) that by (simp add: conf_ok_def)
    then show ?thesis
      using assms(1) that(1) unfolding conf_ok_def
      by (metis (no_types, lifting) empty_set finite_Diff finite_set list.simps(15) that(2))
  qed
  consider (add) "length old_peers + 1 = length new_peers" "set old_peers \<subseteq> set new_peers"
      "conf_list C (fold (conf_remove C) old_peers (conf_of C new_peers)) = [p]"
    | (remove) "length old_peers = length new_peers + 1" "set new_peers \<subseteq> set old_peers"
      "conf_list C (fold (conf_remove C) new_peers (conf_of C old_peers)) = [p]"
    using assms by (auto simp: diff_peers_def Let_def conf_ok_def split: if_splits list.splits)
  then show ?thesis
  proof cases
    case add
    then show ?thesis using one [OF add(3) refl refl] by auto
  next
    case remove
    then show ?thesis using one [OF remove(3) refl refl] by auto
  qed
qed

lemma distinct_set_singleton:
  assumes "set xs = {p}" "distinct xs"
  shows "xs = [p]"
proof (cases xs)
  case Nil
  then show ?thesis using assms by simp
next
  case (Cons a ys)
  then have "a = p" "set ys \<subseteq> {p}" "p \<notin> set ys" using assms by auto
  then have "ys = []" by (cases ys) auto
  then show ?thesis using Cons \<open>a = p\<close> by simp
qed

lemma diff_peers_complete:
  assumes "conf_ok C peers" "distinct old_peers" "distinct (p # old_peers)" "set new_peers = insert p (set old_peers)"
    "distinct new_peers"
  shows "diff_peers C old_peers new_peers = Some p"
proof -
  have len: "length old_peers + 1 = length new_peers"
    using assms(2-5) by (metis Suc_eq_plus1 distinct_card length_Cons list.simps(15))
  have peers: "peers (fold (conf_remove C) old_peers (conf_of C new_peers)) = {p}"
    using conf_fold_remove [OF assms(1), of old_peers "conf_of C new_peers"] assms by (auto simp: conf_ok_def)
  then have "set (conf_list C (fold (conf_remove C) old_peers (conf_of C new_peers))) = {p}"
    "distinct (conf_list C (fold (conf_remove C) old_peers (conf_of C new_peers)))"
    using assms(1) unfolding conf_ok_def by (metis finite.emptyI finite.insertI)+
  then have "conf_list C (fold (conf_remove C) old_peers (conf_of C new_peers)) = [p]"
    by (rule distinct_set_singleton)
  then show ?thesis
    using assms len by (auto simp: diff_peers_def Let_def conf_ok_def)
qed

lemma faulty_other:
  "snd (faulty V p fs) \<Longrightarrow> \<exists>q errs. (q, errs) \<in> set fs \<and> q \<noteq> p \<and> errs > nv_heartbeat_factor V"
  by (induction V p fs rule: faulty.induct) (auto split: if_splits prod.splits simp: Let_def)

lemma set_peer_call:
  assumes "set_peer C V request response = Later r call"
  shows "\<exists>old_peers new_peers p. parse_peers (nv_parse V) (rc_old_peers request) = Some old_peers \<and>
    parse_peers (nv_parse V) (rc_new_peers request) = Some new_peers \<and>
    fst (nv_list_peers V) = 0 \<and> length (snd (nv_list_peers V)) = length old_peers \<and>
    set (snd (nv_list_peers V)) \<subseteq> set old_peers \<and> diff_peers C old_peers new_peers = Some p \<and>
    (call = AddPeer p \<and> length new_peers = length old_peers + 1 \<or>
     call = RemovePeer p \<and> length old_peers = length new_peers + 1 \<and>
       (fst (faulty V p (nv_followers V)) \<or> \<not> snd (faulty V p (nv_followers V))))"
  using assms
  by (auto simp: set_peer_def Let_def list_all_iff split: option.splits if_splits prod.splits)

end
