(* ===== verification/ServerDispatch.thy ===== *)
theory ServerDispatch
  imports DiscoveryStateMachine Queries AutoIncr Tso RaftControl
begin

text \<open>
  The services of the server: \<open>DiscoveryServer\<close> (discovery_server.cc), the checks the managers
  make before a request goes to raft (\<open>process_user_privilege\<close>, \<open>process_schema_info\<close>), and
  \<open>BaseStateMachine::process\<close> with its closures (base_state_machine.cc). A call is answered at
  once, fails as an RPC, or is submitted to one of the raft groups.
\<close>

datatype raft_group = MetaGroup | AutoIncrGroup | TsoGroup

datatype manager_reply = Replied DiscoveryManagerResponse | NotSent
  | Submitted raft_group string DiscoveryManagerResponse

text \<open>
  What a call sees of the process: whether \<open>init\<close> has finished, each group's leader flag and the
  address its node believes to lead. \<open>serialize\<close> yields the bytes written and the success flag of
  \<open>SerializeToZeroCopyStream\<close>; \<open>has_cntl\<close> tells a null controller.
\<close>

record server_view =
  init_success :: bool
  leads :: "raft_group \<Rightarrow> bool"
  leader_addr :: "raft_group \<Rightarrow> string"
  has_cntl :: bool
  serialize :: "DiscoveryManagerRequest \<Rightarrow> string \<times> bool"

definition not_leader_answer :: "server_view \<Rightarrow> raft_group \<Rightarrow> DiscoveryManagerResponse \<Rightarrow> DiscoveryManagerResponse" where
  "not_leader_answer V g response =
     (set_resp NOT_LEADER ''not leader'' response)\<lparr>rs_leader := leader_addr V g\<rparr>"

subsection \<open>BaseStateMachine\<close>

definition base_process ::
  "server_view \<Rightarrow> raft_group \<Rightarrow> DiscoveryManagerRequest \<Rightarrow> DiscoveryManagerResponse \<Rightarrow> manager_reply" where
  "base_process V g request response =
     (if \<not> leads V g then Replied (not_leader_answer V g response)
      else let (data, ok) = serialize V request
           in if \<not> ok \<and> has_cntl V then NotSent else Submitted g data response)"

text \<open>The closures braft runs when a task is done: an error means that leadership was lost.\<close>

definition server_closure_run :: "bool \<Rightarrow> string \<Rightarrow> closure \<Rightarrow> closure" where
  "server_closure_run ok leader response =
     (if \<not> ok then map_option (\<lambda>r. r\<lparr>rs_errcode := NOT_LEADER, rs_leader := leader\<rparr>) response
      else response)"

definition tso_closure_run :: "bool \<Rightarrow> string \<Rightarrow> tso_closure \<Rightarrow> tso_closure" where
  "tso_closure_run ok leader response =
     (if \<not> ok then map_option (\<lambda>r. r\<lparr>ts_errcode := NOT_LEADER, ts_leader := leader\<rparr>) response
      else response)"

subsection \<open>The managers' checks\<close>

definition process_user_privilege ::
  "server_view \<Rightarrow> DiscoveryManagerRequest \<Rightarrow> DiscoveryManagerResponse \<Rightarrow> manager_reply" where
  "process_user_privilege V request response =
     (let op = rq_op_type request in
      case rq_user_privilege request of
        None \<Rightarrow> Replied (error_set_response response INPUT_PARAM_ERROR ''no user_privilege'' op)
      | Some u \<Rightarrow>
          (case op of
             OP_CREATE_USER \<Rightarrow>
               if up_password u = None
               then Replied (error_set_response response INPUT_PARAM_ERROR ''no password'' op)
               else base_process V MetaGroup request response
           | OP_DROP_USER \<Rightarrow> base_process V MetaGroup request response
           | OP_ADD_PRIVILEGE \<Rightarrow> base_process V MetaGroup request response
           | OP_DROP_PRIVILEGE \<Rightarrow> base_process V MetaGroup request response
           | _ \<Rightarrow> Replied (error_set_response response INPUT_PARAM_ERROR ''invalid op_type'' op)))"

definition instance_named :: "ServletInstance \<Rightarrow> bool" where
  "instance_named i \<longleftrightarrow> si_namespace_name i \<noteq> None \<and> si_zone_name i \<noteq> None \<and>
     si_servlet_name i \<noteq> None \<and> si_address i \<noteq> None \<and> si_env i \<noteq> None"

definition process_schema_info ::
  "server_view \<Rightarrow> DiscoveryManagerRequest \<Rightarrow> DiscoveryManagerResponse \<Rightarrow> manager_reply" where
  "process_schema_info V request response =
     (let op = rq_op_type request;
          reject = (\<lambda>m. Replied (error_set_response response INPUT_PARAM_ERROR m op));
          submit = base_process V MetaGroup request response
      in if \<not> leads V MetaGroup then Replied (not_leader_answer V MetaGroup response)
         else if op \<in> {OP_CREATE_NAMESPACE, OP_MODIFY_NAMESPACE, OP_DROP_NAMESPACE}
         then (if rq_namespace_info request = None then reject ''no namespace_info'' else submit)
         else if op \<in> {OP_CREATE_ZONE, OP_MODIFY_ZONE, OP_DROP_ZONE}
         then (if rq_zone_info request = None then reject ''no zone_info'' else submit)
         else if op \<in> {OP_CREATE_SERVLET, OP_MODIFY_SERVLET, OP_DROP_SERVLET}
         then (if rq_servlet_info request = None then reject ''no servlet info'' else submit)
         else if op \<in> {OP_ADD_INSTANCE, OP_DROP_INSTANCE, OP_UPDATE_INSTANCE}
         then (case rq_instance_info request of
                 None \<Rightarrow> reject ''no instance info''
               | Some i \<Rightarrow> if \<not> instance_named i
                           then reject ''no required namespace zone or servlet info'' else submit)
         else reject ''invalid op_type'')"

definition process_config_info ::
  "server_view \<Rightarrow> DiscoveryManagerRequest \<Rightarrow> DiscoveryManagerResponse \<Rightarrow> manager_reply" where
  "process_config_info V request response =
     (let op = rq_op_type request;
          reject = (\<lambda>m. Replied (error_set_response response INPUT_PARAM_ERROR m op))
      in if \<not> leads V MetaGroup then Replied (not_leader_answer V MetaGroup response)
         else if op \<in> {OP_CREATE_CONFIG, OP_REMOVE_CONFIG}
         then (if rq_config_info request = None then reject ''no config_info''
               else base_process V MetaGroup request response)
         else reject ''invalid op_type'')"

subsection \<open>DiscoveryServer\<close>

definition discovery_manager ::
  "server_view \<Rightarrow> DiscoveryManagerRequest \<Rightarrow> DiscoveryManagerResponse \<Rightarrow> manager_reply" where
  "discovery_manager V request response =
     (let op = rq_op_type request
      in if \<not> init_success V then Replied (set_resp HAVE_NOT_INIT ''have not init'' response)
         else if op \<in> {OP_CREATE_USER, OP_DROP_USER, OP_ADD_PRIVILEGE, OP_DROP_PRIVILEGE}
         then process_user_privilege V request response
         else if op \<in> {OP_CREATE_NAMESPACE, OP_DROP_NAMESPACE, OP_MODIFY_NAMESPACE,
             OP_CREATE_ZONE, OP_DROP_ZONE, OP_MODIFY_ZONE,
             OP_CREATE_SERVLET, OP_DROP_SERVLET, OP_MODIFY_SERVLET,
             OP_ADD_INSTANCE, OP_DROP_INSTANCE, OP_UPDATE_INSTANCE,
             OP_MODIFY_RESOURCE_TAG, OP_UPDATE_MAIN_LOGICAL_ROOM}
         then process_schema_info V request response
         else if op \<in> {OP_CREATE_CONFIG, OP_REMOVE_CONFIG}
         then process_config_info V request response
         else if op \<in> {OP_GEN_ID_FOR_AUTO_INCREMENT, OP_UPDATE_FOR_AUTO_INCREMENT,
             OP_ADD_ID_FOR_AUTO_INCREMENT, OP_DROP_ID_FOR_AUTO_INCREMENT}
         then base_process V AutoIncrGroup request response
         else Replied ((set_resp INPUT_PARAM_ERROR ''invalid op_type'' response)\<lparr>rs_op_type := Some op\<rparr>))"

text \<open>The orders in which the query managers walk the containers.\<close>

record query_walks =
  walk_users :: "(string \<times> UserPrivilege) list"
  walk_namespaces :: "(int \<times> NameSpaceInfo) list"
  walk_zones :: "(int \<times> ZoneInfo) list"
  walk_servlets :: "(int \<times> ServletInfo) list"
  walk_configs :: "(string \<times> (ModuleVersion \<times> ConfigInfo) list) list"
  walk_instances :: "(string \<times> ServletInstance) list"

text \<open>The state, with the fields a query may touch replaced.\<close>

definition discovery_query ::
  "env \<Rightarrow> query_env \<Rightarrow> query_walks \<Rightarrow> bool \<Rightarrow> DiscoveryQueryRequest \<Rightarrow> discovery_state_machine \<Rightarrow>
     DiscoveryQueryResponse \<Rightarrow> DiscoveryQueryResponse \<times> discovery_state_machine" where
  "discovery_query E Q W init request s response =
     (if \<not> init then (query_answer HAVE_NOT_INIT ''have not init'' response, s)
      else let response = query_answer SUCCESS ''success'' response
      in case dq_op_type request of
           QUERY_USER_PRIVILEGE \<Rightarrow> (query_user_info (walk_users W) request s response, s)
         | QUERY_NAMESPACE \<Rightarrow> query_namespace_info (walk_namespaces W) request s response
         | QUERY_ZONE \<Rightarrow> query_zone_info (walk_zones W) request s response
         | QUERY_SERVLET \<Rightarrow> query_servlet_info (walk_servlets W) request s response
         | QUERY_GET_CONFIG \<Rightarrow> (query_get_config request s response, s)
         | QUERY_LIST_CONFIG \<Rightarrow> (query_list_config (walk_configs W) response, s)
         | QUERY_LIST_CONFIG_VERSION \<Rightarrow> (query_list_config_version request s response, s)
         | QUERY_PRIVILEGE_FLATTEN \<Rightarrow>
             (query_flatten_servlet_privilege E Q (walk_users W) request s response, s)
         | QUERY_INSTANCE \<Rightarrow> (query_instance request s response, s)
         | QUERY_INSTANCE_FLATTEN \<Rightarrow> query_instance_flatten Q (walk_instances W) request s response
         | QUERY_OTHER \<Rightarrow> (query_answer INPUT_PARAM_ERROR ''invalid op_type'' response, s))"

definition server_raft_control ::
  "(raft_group \<Rightarrow> bool) \<Rightarrow> ('p, 'c) conf_ops \<Rightarrow> (raft_group \<Rightarrow> 'p node_view) \<Rightarrow> RaftControlRequest \<Rightarrow>
     RaftControlResponse \<Rightarrow> raft_group option \<times> 'p outcome" where
  "server_raft_control leader C V request response =
     (let group = (if rc_region_id request = 0 then Some MetaGroup
                   else if rc_region_id request = 1 then Some AutoIncrGroup
                   else if rc_region_id request = 2 then Some TsoGroup else None)
      in case group of
           Some g \<Rightarrow> (group, base_raft_control (leader g) C (V g) request response)
         | None \<Rightarrow> (None, Now ((raft_answer INPUT_PARAM_ERROR ''unmatch region id'' response)
                        \<lparr>rr_region_id := rc_region_id request\<rparr>) []))"

definition tso_service ::
  "bool \<Rightarrow> bool \<Rightarrow> (TsoRequest \<Rightarrow> TsoResponse \<Rightarrow> tso_state \<Rightarrow> tso_reply \<times> tso_state) \<Rightarrow>
     TsoRequest \<Rightarrow> TsoResponse \<Rightarrow> tso_state \<Rightarrow> tso_reply \<times> tso_state" where
  "tso_service init present process request response s =
     (if \<not> init then (Answer (tso_answer HAVE_NOT_INIT ''have not init'' response), s)
      else if present then process request response s
      else (Answer response, s))"

text \<open>
  Start-up and shutdown. \<open>init\<close> gets what each step it takes answers, in order: RocksDB's
  \<open>init\<close>, then for each machine whether it was allocated and its node's \<open>init\<close>. \<open>flush_rounds\<close>
  is the flushing thread: each round sees \<open>_shutdown\<close> before and after its sleep.
\<close>

record server_state =
  machines :: "raft_group list"
  managers_bound :: bool
  flushing :: bool
  initialised :: bool
  shutdown :: bool

fun init_machines :: "(raft_group \<times> bool \<times> int) list \<Rightarrow> server_state \<Rightarrow> bool \<times> server_state" where
  "init_machines [] s = (True, s)"
| "init_machines ((g, allocated, ret) # rest) s =
     (if \<not> allocated then (False, s)
      else let s = s\<lparr>machines := machines s @ [g]\<rparr>
           in if ret \<noteq> 0 then (False, s) else init_machines rest s)"

definition server_init ::
  "int \<Rightarrow> bool \<times> int \<Rightarrow> bool \<times> int \<Rightarrow> bool \<times> int \<Rightarrow> server_state \<Rightarrow> int \<times> server_state" where
  "server_init rocks_ret meta auto tso s =
     (if rocks_ret < 0 then (-1, s)
      else let (ok, s) = init_machines [(MetaGroup, meta), (AutoIncrGroup, auto), (TsoGroup, tso)] s
           in if \<not> ok then (-1, s)
              else (0, s\<lparr>managers_bound := True, flushing := True, initialised := True\<rparr>))"

datatype flush_call = FlushMetaInfo | FlushRaftLog

fun flush_rounds :: "(bool \<times> bool) list \<Rightarrow> flush_call list" where
  "flush_rounds [] = []"
| "flush_rounds ((before, after_sleep) # rounds) =
     (if before \<or> after_sleep then [] else [FlushMetaInfo, FlushRaftLog] @ flush_rounds rounds)"

definition server_shutdown_raft :: "server_state \<Rightarrow> raft_group list \<times> server_state" where
  "server_shutdown_raft s =
     (filter (\<lambda>g. g \<in> set (machines s)) [MetaGroup, AutoIncrGroup, TsoGroup], s\<lparr>shutdown := True\<rparr>)"

definition server_have_data :: "(raft_group \<Rightarrow> bool) \<Rightarrow> bool" where
  "server_have_data data \<longleftrightarrow> data MetaGroup \<and> data AutoIncrGroup \<and> data TsoGroup"

lemma server_init_all_or_nothing:
  assumes "server_init r meta auto tso s = (ret, s')" "machines s = []" "\<not> initialised s"
  shows "(initialised s' \<longleftrightarrow> ret = 0) \<and>
    (ret = 0 \<longleftrightarrow> 0 \<le> r \<and> meta = (True, 0) \<and> auto = (True, 0) \<and> tso = (True, 0)) \<and>
    (initialised s' \<longrightarrow> set (machines s') = UNIV)"
proof -
  have univ: "set [MetaGroup, AutoIncrGroup, TsoGroup] = UNIV"
    using raft_group.exhaust by auto
  show ?thesis
    using assms univ
    by (cases meta; cases auto; cases tso) (auto simp: server_init_def Let_def split: if_splits)
qed

subsection \<open>What reaches raft\<close>

text \<open>The request carries the message its operation works on.\<close>

definition well_formed :: "raft_group \<Rightarrow> DiscoveryManagerRequest \<Rightarrow> bool" where
  "well_formed g request \<longleftrightarrow>
     (let op = rq_op_type request
      in if g = AutoIncrGroup
         then op \<in> {OP_GEN_ID_FOR_AUTO_INCREMENT, OP_UPDATE_FOR_AUTO_INCREMENT,
                OP_ADD_ID_FOR_AUTO_INCREMENT, OP_DROP_ID_FOR_AUTO_INCREMENT}
         else if g = MetaGroup
         then op \<in> {OP_CREATE_NAMESPACE, OP_MODIFY_NAMESPACE, OP_DROP_NAMESPACE} \<and> rq_namespace_info request \<noteq> None \<or>
              op \<in> {OP_CREATE_ZONE, OP_MODIFY_ZONE, OP_DROP_ZONE} \<and> rq_zone_info request \<noteq> None \<or>
              op \<in> {OP_CREATE_SERVLET, OP_MODIFY_SERVLET, OP_DROP_SERVLET} \<and> rq_servlet_info request \<noteq> None \<or>
              op \<in> {OP_ADD_INSTANCE, OP_DROP_INSTANCE, OP_UPDATE_INSTANCE} \<and>
                (\<exists>i. rq_instance_info request = Some i \<and> instance_named i) \<or>
              op \<in> {OP_CREATE_CONFIG, OP_REMOVE_CONFIG} \<and> rq_config_info request \<noteq> None \<or>
              op \<in> {OP_CREATE_USER, OP_DROP_USER, OP_ADD_PRIVILEGE, OP_DROP_PRIVILEGE} \<and>
                rq_user_privilege request \<noteq> None
         else False)"

lemma base_process_submitted:
  "base_process V g rq r = Submitted g' data r' \<longleftrightarrow>
     g' = g \<and> r' = r \<and> leads V g \<and> data = fst (serialize V rq) \<and> (snd (serialize V rq) \<or> \<not> has_cntl V)"
  by (auto simp: base_process_def split_def Let_def)

lemmas dispatch_defs = discovery_manager_def process_user_privilege_def process_schema_info_def
  process_config_info_def

lemma discovery_manager_submitted:
  assumes "discovery_manager V rq r = Submitted g data r'"
  shows "init_success V \<and> leads V g \<and> r' = r \<and> data = fst (serialize V rq) \<and> well_formed g rq"
  using assms
  by (cases "rq_op_type rq")
    (auto simp: dispatch_defs base_process_submitted well_formed_def Let_def split: if_splits option.splits)

lemma resource_tag_rejected:
  "init_success V \<Longrightarrow> leads V MetaGroup \<Longrightarrow> rq_op_type rq \<in> {OP_MODIFY_RESOURCE_TAG, OP_UPDATE_MAIN_LOGICAL_ROOM} \<Longrightarrow>
     discovery_manager V rq r = Replied (error_set_response r INPUT_PARAM_ERROR ''invalid op_type'' (rq_op_type rq))"
  by (auto simp: dispatch_defs Let_def)

end
