(* ===== verification/ServiceProperties.thy ===== *)
theory ServiceProperties
  imports DemoWorld ServerDispatch
begin

text \<open>
  What the server promises at its edges: replicas agree, only checked requests reach raft, queries
  leave the state alone and answer what memory holds, and membership changes by one peer at a time.
\<close>

subsection \<open>Replicas\<close>



text \<open>
  The same for the two counting machines: the auto increment map and the timestamp state after a
  log do not depend on who proposed its entries nor on the batches.
\<close>

lemma counter_replicas_converge:
  assumes "map fst (concat batches) = map fst (concat batches')" "map fst (concat tbatches) = map fst (concat tbatches')"
  shows "fold (\<lambda>b m. snd (auto_on_apply parse b m)) batches m = fold (\<lambda>b m. snd (auto_on_apply parse b m)) batches' m \<and>
    fold (\<lambda>b t. snd (tso_on_apply tparse b t)) tbatches t = fold (\<lambda>b t. snd (tso_on_apply tparse b t)) tbatches' t"
proof -
  have strip: "map (\<lambda>e. (fst e, None)) xs = map (\<lambda>e. (fst e, None)) ys" if "map fst xs = map fst ys"
    for xs ys :: "('a \<times> 'b option) list"
    using arg_cong [OF that, of "map (\<lambda>d. (d, None))"] by (simp add: comp_def)
  show ?thesis
    using auto.same_log_same_state [OF strip [OF assms(1)], of parse m]
      tso.same_log_same_state [OF strip [OF assms(2)], of tparse t]
    unfolding auto_on_apply_def tso_on_apply_def auto.batches_agree [symmetric] tso.batches_agree [symmetric] by blast
qed

definition demo_auto_request :: "string \<Rightarrow> DiscoveryManagerRequest option" where
  "demo_auto_request data = Some ((empty_request OP_ADD_ID_FOR_AUTO_INCREMENT)\<lparr>rq_auto_increment :=
     Some (empty_AutoIncrementInfo\<lparr>ai_servlet_id := 1, ai_start_id := Some 5\<rparr>)\<rparr>)"

lemma counter_replicas_converge_witness:
  "fold (\<lambda>b m. snd (auto_on_apply demo_auto_request b m)) [[(''x'', Some empty_response)], []] Map.empty = [1 \<mapsto> 5]"
proof -
  have "map fst (concat [[(''x'', Some empty_response)], []]) = map fst (concat [[(''x'', None :: closure)]])" by simp
  note this [THEN counter_replicas_converge, of "[]" "[]" demo_auto_request Map.empty "\<lambda>d. None" tso_init]
  moreover have "snd (auto_on_apply demo_auto_request [(''x'', None)] Map.empty) = [1 \<mapsto> 5]"
    by (simp add: auto_on_apply_def auto_apply_entry_def demo_auto_request_def auto_apply_def auto_add_servlet_id_def
        auto_increment_of_def start_id_def empty_request_def empty_AutoIncrementInfo_def Let_def)
  ultimately show ?thesis by simp
qed

subsection \<open>What reaches raft\<close>

text \<open>
  C31: only a checked request on an initialised leader is submitted: to the group its operation
  belongs to, with the message the operation works on, an instance with all five names, and the
  bytes of the request as it came.
\<close>

theorem only_checked_requests_submitted:
  assumes "discovery_manager V rq r = Submitted g data r'"
  shows "init_success V \<and> leads V g \<and> r' = r \<and> data = fst (serialize V rq) \<and> well_formed g rq"
  by (rule discovery_manager_submitted [OF assms])

definition demo_view :: server_view where
  "demo_view = \<lparr>init_success = True, leads = (\<lambda>g. True), leader_addr = (\<lambda>g. ''l''), has_cntl = True,
     serialize = (\<lambda>rq. (''n'', True))\<rparr>"

theorem only_checked_requests_submitted_witness:
  "\<exists>rq. demo_request ''n'' = Some rq \<and> discovery_manager demo_view rq empty_response = Submitted MetaGroup ''n'' empty_response \<and>
     well_formed MetaGroup rq"
proof -
  let ?rq = "(empty_request OP_CREATE_NAMESPACE)\<lparr>rq_namespace_info := Some demo_ns\<rparr>"
  have rq: "demo_request ''n'' = Some ?rq" by (simp add: demo_request_def)
  have "discovery_manager demo_view ?rq empty_response = Submitted MetaGroup ''n'' empty_response"
    by (simp add: dispatch_defs base_process_def demo_view_def empty_request_def)
  with only_checked_requests_submitted [OF this] rq show ?thesis by blast
qed

subsection \<open>Queries\<close>

lemma index_soundD:
  assumes "index_sound infos key_of idx" "idx k = Some A" "a \<in> A"
  shows "\<exists>i. infos a = Some i \<and> key_of i = k"
proof -
  have "a \<in> at_or {} idx k" using assms(2,3) by (simp add: at_or_def)
  with assms(1) show ?thesis unfolding index_sound_def by blast
qed

lemma collect_instances_index:
  assumes "query_env_ok Q" "finite (dom (instance_info s))" "index_sound (instance_info s) key_of idx" "idx k = Some A"
  shows "collect_instances Q (set_order Q A) s r =
      (query_answer SUCCESS ''success'' (r\<lparr>dr_flatten_instances := dr_flatten_instances r @
         map (\<lambda>a. instance_info_to_query Q (the (instance_info s a))) (set_order Q A)\<rparr>), s)"
    "set (set_order Q A) = A \<and> distinct (set_order Q A)"
proof -
  have known: "\<forall>a \<in> A. \<exists>i. instance_info s a = Some i"
    using index_soundD [OF assms(3,4)] by blast
  then have "A \<subseteq> dom (instance_info s)" by auto
  with assms(2) have "finite A" by (rule rev_finite_subset)
  then show order: "set (set_order Q A) = A \<and> distinct (set_order Q A)"
    using assms(1) by (simp add: query_env_ok_def)
  show "collect_instances Q (set_order Q A) s r =
      (query_answer SUCCESS ''success'' (r\<lparr>dr_flatten_instances := dr_flatten_instances r @
         map (\<lambda>a. instance_info_to_query Q (the (instance_info s a))) (set_order Q A)\<rparr>), s)"
    by (rule collect_instances_ok) (use known order in simp)
qed

lemma query_flatten_reads_only:
  assumes "query_env_ok Q" "finite (dom (instance_info s))" "instance_ok s"
  shows "snd (query_instance_flatten Q walk rq s r) = s"
  using collect_instances_index(1) [OF assms(1,2)] assms(3) unfolding instance_ok_def
  by (auto simp: query_instance_flatten_def Let_def split: option.split)

lemma query_servlet_reads_only:
  assumes "\<And>k n. servlet_id_map s k = Some n \<Longrightarrow> servlet_info_map s n \<noteq> None"
  shows "snd (query_servlet_info walk rq s r) = s"
proof -
  have "touch empty_ServletInfo n (servlet_info_map s) = servlet_info_map s" if "servlet_id_map s k = Some n" for k n
    using assms [OF that] by auto
  then show ?thesis by (auto simp: query_servlet_info_def Let_def split: option.splits)
qed


definition demo_Q :: query_env where
  "demo_Q = \<lparr>set_order = sorted_list_of_set, trim = (\<lambda>s. s), fmt = (\<lambda>s args. s), status_unset = 0\<rparr>"

definition demo_W :: query_walks where
  "demo_W = \<lparr>walk_users = [], walk_namespaces = [], walk_zones = [], walk_servlets = [], walk_configs = [],
     walk_instances = []\<rparr>"

lemma demo_Q_ok: "query_env_ok demo_Q"
  by (simp add: query_env_ok_def demo_Q_def)

lemma demo_state4_inv: "dsm_inv demo_E demo_state4"
proof -
  have "dsm_inv demo_E (snd (on_apply demo_E demo_request (take 4 demo_log) init_state))"
    using demo_log_ok by (intro on_apply_inv [OF demo_E_ok _ dsm_inv_init]) (simp add: demo_log_def)
  then show ?thesis
    by (simp add: on_apply_def demo_log_def demo_step1 demo_step2 demo_step3 demo_step4 del: apply_log.simps(2))
qed


text \<open>
  C33: a query for the instances of a servlet answers exactly the indexed ones: one entry for each
  address in the servlet's index set, made from the instance of that address, and nothing else.
\<close>

theorem servlet_query_answers_index:
  assumes "dsm_inv E s" "query_env_ok Q" "finite (dom (instance_info s))"
    "dq_namespace_name rq = Some n" "dq_zone rq = Some z" "dq_servlet rq = Some v" "n \<noteq> []" "z \<noteq> []" "v \<noteq> []"
    "servlet_instance s (make_servlet_key n z v) = Some A"
  shows "dr_errcode (fst (query_instance_flatten Q walk rq s empty_query_response)) = SUCCESS \<and>
    (\<exists>as. set as = A \<and> distinct as \<and>
       dr_flatten_instances (fst (query_instance_flatten Q walk rq s empty_query_response)) =
         map (\<lambda>a. instance_info_to_query Q (the (instance_info s a))) as) \<and>
    (\<forall>a \<in> A. \<exists>i. instance_info s a = Some i \<and> instance_servlet_key i = make_servlet_key n z v)"
proof -
  have sound: "index_sound (instance_info s) instance_servlet_key (servlet_instance s)"
    using dsm_invD(6) [OF assms(1)] by (simp add: instance_inv_def instance_ok_def)
  note c = collect_instances_index [OF assms(2,3) sound assms(10)]
  have run: "query_instance_flatten Q walk rq s empty_query_response =
      collect_instances Q (set_order Q A) s empty_query_response"
    using assms(4-10) by (simp add: query_instance_flatten_def Let_def)
  have "\<forall>a \<in> A. \<exists>i. instance_info s a = Some i \<and> instance_servlet_key i = make_servlet_key n z v"
    using index_soundD [OF sound assms(10)] by blast
  with c show ?thesis unfolding run by (auto simp: empty_query_response_def)
qed

theorem servlet_query_answers_index_witness:
  "dr_flatten_instances (fst (query_instance_flatten demo_Q [] ((empty_query QUERY_INSTANCE_FLATTEN)
       \<lparr>dq_namespace_name := Some ''n'', dq_zone := Some ''z'', dq_servlet := Some ''s''\<rparr>) demo_state4 empty_query_response))
     = [instance_info_to_query demo_Q demo_instance]"
proof -
  let ?rq = "(empty_query QUERY_INSTANCE_FLATTEN)\<lparr>dq_namespace_name := Some ''n'', dq_zone := Some ''z'',
      dq_servlet := Some ''s''\<rparr>"
  have "finite (dom (instance_info demo_state4))" "servlet_instance demo_state4 (make_servlet_key ''n'' ''z'' ''s'') = Some {''a''}"
    "dq_namespace_name ?rq = Some ''n''" "dq_zone ?rq = Some ''z''" "dq_servlet ?rq = Some ''s''"
    by simp_all
  from servlet_query_answers_index [OF demo_state4_inv demo_Q_ok this(1,3-5) _ _ _ this(2), of "[]"]
  obtain as where as: "set as = {''a''}" "distinct as"
    "dr_flatten_instances (fst (query_instance_flatten demo_Q [] ?rq demo_state4 empty_query_response)) =
       map (\<lambda>a. instance_info_to_query demo_Q (the (instance_info demo_state4 a))) as"
    by auto
  then have "as = [''a'']" by (intro distinct_set_singleton)
  with as(3) show ?thesis by simp
qed

subsection \<open>Raft membership\<close>


text \<open>Peers as strings and a configuration as the list of its peers, for the example.\<close>

definition list_conf :: "(string, string list) conf_ops" where
  "list_conf = \<lparr>conf_of = remdups, conf_contains = (\<lambda>c ps. list_all (\<lambda>p. p \<in> set c) ps),
     conf_remove = removeAll, conf_list = remdups\<rparr>"

lemma list_conf_ok: "conf_ok list_conf set"
  by (auto simp: conf_ok_def list_conf_def list_all_iff)

definition demo_node :: "string node_view" where
  "demo_node = \<lparr>nv_leader = Some ''a'', nv_parse = Some, nv_addr = (\<lambda>p. p), nv_reset_ok = True,
     nv_list_peers = (0, [''a'']), nv_followers = [], nv_heartbeat_factor = 10, nv_transfer_ok = True\<rparr>"

definition demo_set_peer :: RaftControlRequest where
  "demo_set_peer = \<lparr>rc_op_type = SetPeer, rc_region_id = 0, rc_force = None, rc_old_peers = [''a''],
     rc_new_peers = [''a'', ''b''], rc_new_leader = [], rc_election_time = 0\<rparr>"


end
