(* ===== verification/ClientUtility.thy ===== *)
theory ClientUtility
  imports DiscoveryProto Decimal
begin

text \<open>
  The helpers of the client library (src/ea/client): names and versions (utility.cc), JSON and
  files (loader.cc, dumper.cc), and the builders of messages (config_info_builder.cc,
  servlet_instance_builder.cc). Calls of turbo, butil and json2pb are parameters. A
  \<open>turbo::Status\<close> that is not ok is a code and a message; an output argument is returned beside it,
  as the call leaves it. \<open>ProcessDied\<close> is no code of turbo: it stands for a run that ends in
  undefined behaviour and never returns.
\<close>

subsection \<open>Status\<close>

datatype StatusCode = InvalidArgument | Unavailable | DeadlineExceeded | Unknown | NotFound
  | AlreadyExists | DataLoss | ProcessDied

type_synonym status = "StatusCode \<times> string"

type_synonym 'a result = "status + 'a"

text \<open>\<open>if (!rs.ok()) return rs;\<close>, alone and with a state that is threaded through.\<close>

definition and_then :: "'e + 'a \<Rightarrow> ('a \<Rightarrow> 'e + 'b) \<Rightarrow> 'e + 'b" where
  "and_then r f = (case r of Inl e \<Rightarrow> Inl e | Inr x \<Rightarrow> f x)"

definition then_do :: "('e + 'a) \<times> 's \<Rightarrow> ('a \<Rightarrow> 's \<Rightarrow> ('e + 'b) \<times> 's) \<Rightarrow> ('e + 'b) \<times> 's" where
  "then_do r f = (case fst r of Inl e \<Rightarrow> (Inl e, snd r) | Inr x \<Rightarrow> f x (snd r))"

lemma and_then_simps [simp]: "and_then (Inl e) f = Inl e" "and_then (Inr x) f = f x"
  by (simp_all add: and_then_def)

lemma then_do_simps [simp]: "then_do (Inl e, s) f = (Inl e, s)" "then_do (Inr x, s) f = f x s"
  by (simp_all add: then_do_def)

lemma and_then_Inr: "and_then r f = Inr y \<longleftrightarrow> (\<exists>x. r = Inr x \<and> f x = Inr y)"
  by (cases r) simp_all

lemma then_do_Inr: "fst (then_do r f) = Inr y \<longleftrightarrow> (\<exists>x. fst r = Inr x \<and> fst (f x (snd r)) = Inr y)"
  by (cases r; cases "fst r") (simp_all add: then_do_def)

text \<open>
  \<open>turbo::StrSplit\<close> at dots, \<open>SimpleAtoi\<close>, \<open>StrToLower\<close>, \<open>Format\<close>, \<open>EA::discovery::Status_Parse\<close>
  and whether \<open>butil::str2endpoint\<close> accepts an address.
\<close>

record turbo_env =
  split_dots :: "string \<Rightarrow> string list"
  simple_atoi :: "string \<Rightarrow> int option"
  to_lower :: "string \<Rightarrow> string"
  turbo_fmt :: "string \<Rightarrow> string list \<Rightarrow> string"
  status_parse :: "string \<Rightarrow> int option"
  status_normal :: int
  endpoint_ok :: "string \<Rightarrow> bool"

text \<open>What the client relies on: splitting undoes joining, numbers and lower case are read back.\<close>

definition turbo_ok :: "turbo_env \<Rightarrow> bool" where
  "turbo_ok T \<longleftrightarrow>
     (\<forall>a b c. CHR ''.'' \<notin> set a \<union> set b \<union> set c \<longrightarrow> split_dots T (a @ ''.'' @ b @ ''.'' @ c) = [a, b, c]) \<and>
     (\<forall>i. int64_range i \<longrightarrow> simple_atoi T (int_to_string i) = Some i) \<and>
     (\<forall>s. list_all (\<lambda>c. CHR ''a'' \<le> c \<and> c \<le> CHR ''z'') s \<longrightarrow> to_lower T s = s)"

subsection \<open>utility.cc\<close>

definition config_type_to_string :: "ConfigType \<Rightarrow> string" where
  "config_type_to_string t = (case t of CF_JSON \<Rightarrow> ''json'' | CF_TEXT \<Rightarrow> ''text'' | CF_INI \<Rightarrow> ''ini''
     | CF_YAML \<Rightarrow> ''yaml'' | CF_XML \<Rightarrow> ''xml'' | CF_GFLAGS \<Rightarrow> ''gflags'' | CF_TOML \<Rightarrow> ''toml'')"

definition string_to_config_type :: "turbo_env \<Rightarrow> string \<Rightarrow> ConfigType result" where
  "string_to_config_type T str =
     (let lc = to_lower T str
      in if lc = ''json'' then Inr CF_JSON
         else if lc = ''text'' then Inr CF_TEXT
         else if lc = ''ini'' then Inr CF_INI
         else if lc = ''yaml'' then Inr CF_YAML
         else if lc = ''xml'' then Inr CF_XML
         else if lc = ''gflags'' then Inr CF_GFLAGS
         else if lc = ''toml'' then Inr CF_TOML
         else Inl (InvalidArgument, turbo_fmt T (''unknown format '' @ [CHR 0x27] @ ''{}'' @ [CHR 0x27]) [str]))"

definition version_error :: status where
  "version_error = (InvalidArgument, ''version error, should be like 1.2.3'')"

definition string_to_version :: "turbo_env \<Rightarrow> string \<Rightarrow> Version \<Rightarrow> unit result \<times> Version" where
  "string_to_version T str v =
     (let vs = split_dots T str
      in if length vs \<noteq> 3 then (Inl version_error, v)
         else case simple_atoi T (vs ! 0) of
             None \<Rightarrow> (Inl version_error, v)
           | Some m \<Rightarrow> let v = v\<lparr>v_major := m\<rparr> in
         (case simple_atoi T (vs ! 1) of
             None \<Rightarrow> (Inl version_error, v)
           | Some m \<Rightarrow> let v = v\<lparr>v_minor := m\<rparr> in
         (case simple_atoi T (vs ! 2) of
             None \<Rightarrow> (Inl version_error, v)
           | Some m \<Rightarrow> (Inr (), v\<lparr>v_patch := m\<rparr>))))"

definition string_to_module_version :: "turbo_env \<Rightarrow> string \<Rightarrow> ModuleVersion result" where
  "string_to_module_version T str =
     (let vs = split_dots T str
      in if length vs \<noteq> 3 then Inl version_error
         else case simple_atoi T (vs ! 0) of
             None \<Rightarrow> Inl version_error
           | Some ma \<Rightarrow>
         (case simple_atoi T (vs ! 1) of
             None \<Rightarrow> Inl version_error
           | Some mi \<Rightarrow>
         (case simple_atoi T (vs ! 2) of
             None \<Rightarrow> Inl version_error
           | Some pa \<Rightarrow> Inr (ModuleVersion ma mi pa))))"

definition version_to_string :: "Version \<Rightarrow> string" where
  "version_to_string v = int_to_string (v_major v) @ ''.'' @ int_to_string (v_minor v) @ ''.'' @ int_to_string (v_patch v)"

definition module_version_to_string :: "ModuleVersion \<Rightarrow> string" where
  "module_version_to_string v = (case v of ModuleVersion major minor patch \<Rightarrow>
     int_to_string major @ ''.'' @ int_to_string minor @ ''.'' @ int_to_string patch)"

text \<open>The letter W is missing from the set; Q stands twice.\<close>

definition AllowChar :: string where
  "AllowChar = ''abcdefg'' @ ''hijklmn'' @ ''opqrst'' @ ''uvwxyz'' @ ''0123456789'' @ ''_'' @
     ''ABCDEFG'' @ ''HIJKLMN'' @ ''OPQRST'' @ ''UVQXYZ''"

fun check_name_from :: "turbo_env \<Rightarrow> nat \<Rightarrow> string \<Rightarrow> string \<Rightarrow> unit result" where
  "check_name_from T i ns [] = Inr ()"
| "check_name_from T i ns (c # cs) =
     (if c \<notin> set AllowChar
      then Inl (InvalidArgument, turbo_fmt T
        ''the {} char {} of {} is not allow used in name the valid set is[a-z,A-Z,0-9,_]''
        [int_to_string (int i), [c], ns])
      else check_name_from T (Suc i) ns cs)"

definition check_valid_name_type :: "turbo_env \<Rightarrow> string \<Rightarrow> unit result" where
  "check_valid_name_type T ns = check_name_from T 0 ns ns"

lemma check_valid_name_type_ok: "check_valid_name_type T ns = Inr () \<longleftrightarrow> set ns \<subseteq> set AllowChar"
proof -
  have "check_name_from T i n cs = Inr () \<longleftrightarrow> set cs \<subseteq> set AllowChar" for i n cs
    by (induction cs arbitrary: i) auto
  then show ?thesis by (simp add: check_valid_name_type_def)
qed

text \<open>What the functions of this file promise of each other.\<close>

lemma config_type_round_trip:
  assumes "turbo_ok T"
  shows "string_to_config_type T (config_type_to_string t) = Inr t"
proof -
  have "list_all (\<lambda>c. CHR ''a'' \<le> c \<and> c \<le> CHR ''z'') (config_type_to_string t)"
    by (cases t) (simp_all add: config_type_to_string_def less_eq_char_def)
  with assms have "to_lower T (config_type_to_string t) = config_type_to_string t"
    by (simp add: turbo_ok_def)
  then show ?thesis
    by (cases t) (simp_all add: string_to_config_type_def config_type_to_string_def)
qed

lemma no_dot_in_number: "CHR ''.'' \<notin> set (int_to_string i)"
proof -
  have "\<forall>c \<in> set (nat_to_string n). is_digit c" for n
    using nat_to_string_digits [of n] by (simp add: list_all_iff)
  then have "CHR ''.'' \<notin> set (nat_to_string n)" for n
    by (force simp: is_digit_def)
  then show ?thesis by (auto simp: int_to_string_def)
qed

lemma dotted_round_trip:
  assumes "turbo_ok T" "int64_range a" "int64_range b" "int64_range c"
    "str = int_to_string a @ ''.'' @ int_to_string b @ ''.'' @ int_to_string c"
  shows "string_to_version T str v = (Inr (), v\<lparr>v_major := a, v_minor := b, v_patch := c\<rparr>)"
    "string_to_module_version T str = Inr (ModuleVersion a b c)"
proof -
  have "split_dots T str = [int_to_string a, int_to_string b, int_to_string c]"
    using assms(1,5) no_dot_in_number unfolding turbo_ok_def by simp
  moreover have "simple_atoi T (int_to_string i) = Some i" if "int64_range i" for i
    using assms(1) that unfolding turbo_ok_def by simp
  ultimately show "string_to_version T str v = (Inr (), v\<lparr>v_major := a, v_minor := b, v_patch := c\<rparr>)"
    "string_to_module_version T str = Inr (ModuleVersion a b c)"
    using assms(2-4) by (simp_all add: string_to_version_def string_to_module_version_def)
qed

subsection \<open>Files and JSON\<close>

text \<open>
  What the calls on files meet: an error to give at each step, or none. The files themselves are
  a map from paths to contents; opening one that is not there gives \<open>missing\<close>.
\<close>

record disk =
  missing :: status
  open_read_error :: "string \<Rightarrow> status option"
  read_error :: "string \<Rightarrow> status option"
  open_write_error :: "string \<Rightarrow> status option"
  write_error :: "string \<Rightarrow> status option"

type_synonym files = "string \<Rightarrow> string option"

text \<open>\<open>file.open(path)\<close> and \<open>file.read(&content)\<close> of \<open>SequentialReadFile\<close>.\<close>

definition read_whole :: "disk \<Rightarrow> files \<Rightarrow> string \<Rightarrow> string result" where
  "read_whole D fs path =
     (case fs path of
        None \<Rightarrow> Inl (missing D)
      | Some content \<Rightarrow>
          (case open_read_error D path of Some e \<Rightarrow> Inl e | None \<Rightarrow>
          (case read_error D path of Some e \<Rightarrow> Inl e | None \<Rightarrow> Inr content)))"

text \<open>\<open>file.open(path, true)\<close>, one \<open>file.write\<close> for each piece, \<open>file.close()\<close>.\<close>

fun write_pieces :: "disk \<Rightarrow> string \<Rightarrow> string list \<Rightarrow> files \<Rightarrow> unit result \<times> files" where
  "write_pieces D path [] fs = (Inr (), fs)"
| "write_pieces D path (p # ps) fs =
     (case write_error D path of
        Some e \<Rightarrow> (Inl e, fs)
      | None \<Rightarrow> write_pieces D path ps (fs(path \<mapsto> msg [] (fs path) @ p)))"

definition write_file :: "disk \<Rightarrow> string \<Rightarrow> string list \<Rightarrow> files \<Rightarrow> unit result \<times> files" where
  "write_file D path pieces fs =
     (case open_write_error D path of
        Some e \<Rightarrow> (Inl e, fs)
      | None \<Rightarrow> write_pieces D path pieces (fs(path \<mapsto> [])))"

lemma write_file_ok:
  assumes "open_write_error D path = None" "write_error D path = None"
  shows "write_file D path pieces fs = (Inr (), fs(path \<mapsto> concat pieces))"
proof -
  have "write_pieces D path ps (fs(path \<mapsto> c)) = (Inr (), fs(path \<mapsto> c @ concat ps))" for ps c
    using assms(2) by (induction ps arbitrary: c) simp_all
  with assms(1) show ?thesis by (simp add: write_file_def)
qed

lemma write_file_elsewhere: "p \<noteq> path \<Longrightarrow> snd (write_file D path pieces fs) p = fs p"
proof -
  assume p: "p \<noteq> path"
  have "snd (write_pieces D path ps fs) p = fs p" for ps fs
    using p by (induction ps arbitrary: fs) (simp_all split: option.split)
  with p show ?thesis by (simp add: write_file_def split: option.split)
qed

text \<open>json2pb for one message type: a text for the error, or the message.\<close>

record 'm json2pb =
  to_json :: "'m \<Rightarrow> string + string"
  of_json :: "string \<Rightarrow> string + 'm"

definition json2pb_ok :: "'m json2pb \<Rightarrow> bool" where
  "json2pb_ok J \<longleftrightarrow> (\<forall>m t. to_json J m = Inr t \<longrightarrow> of_json J t = Inr m)"

definition load_proto :: "'m json2pb \<Rightarrow> string \<Rightarrow> 'm result" where
  "load_proto J content = (case of_json J content of Inl err \<Rightarrow> Inl (InvalidArgument, err) | Inr m \<Rightarrow> Inr m)"

definition load_proto_from_file :: "'m json2pb \<Rightarrow> disk \<Rightarrow> files \<Rightarrow> string \<Rightarrow> 'm result" where
  "load_proto_from_file J D fs path = and_then (read_whole D fs path) (load_proto J)"

definition dump_proto :: "'m json2pb \<Rightarrow> 'm \<Rightarrow> string result" where
  "dump_proto J m = (case to_json J m of Inl err \<Rightarrow> Inl (InvalidArgument, err) | Inr content \<Rightarrow> Inr content)"

definition dump_proto_to_file :: "'m json2pb \<Rightarrow> disk \<Rightarrow> string \<Rightarrow> 'm \<Rightarrow> files \<Rightarrow> unit result \<times> files" where
  "dump_proto_to_file J D path m fs =
     (case dump_proto J m of Inl e \<Rightarrow> (Inl e, fs) | Inr content \<Rightarrow> write_file D path [content] fs)"

lemma dump_then_load:
  assumes "json2pb_ok J" "dump_proto_to_file J D path m fs = (Inr (), fs')"
    "open_write_error D path = None" "write_error D path = None"
    "open_read_error D path = None" "read_error D path = None"
  shows "load_proto_from_file J D fs' path = Inr m"
  using assms
  by (auto simp: dump_proto_to_file_def dump_proto_def load_proto_from_file_def load_proto_def read_whole_def
      write_file_ok json2pb_ok_def split: sum.splits)

end
