(* ===== verification/ClientBuilders.thy ===== *)
theory ClientBuilders
  imports ClientUtility
begin

text \<open>
  \<open>ConfigInfoBuilder\<close> (config_info_builder.cc) and \<open>ServletInstanceBuilder\<close>
  (servlet_instance_builder.cc). A builder holds a pointer to the message it fills and clears it
  first; here each operation takes the message and returns it as the call leaves it.
\<close>

subsection \<open>ConfigInfoBuilder\<close>

definition ConfigInfoBuilder_set_info :: "ConfigInfo \<Rightarrow> ConfigInfo" where
  "ConfigInfoBuilder_set_info info = empty_ConfigInfo"

definition build_from_content_vt :: "string \<Rightarrow> string \<Rightarrow> Version \<Rightarrow> ConfigType \<Rightarrow> ConfigInfo \<Rightarrow> unit result \<times> ConfigInfo" where
  "build_from_content_vt name content version type info =
     (Inr (), info\<lparr>c_name := Some name, c_content := Some content, c_version := Some version, c_type := type\<rparr>)"

definition build_from_content_vs ::
  "turbo_env \<Rightarrow> string \<Rightarrow> string \<Rightarrow> Version \<Rightarrow> string \<Rightarrow> ConfigInfo \<Rightarrow> unit result \<times> ConfigInfo" where
  "build_from_content_vs T name content version type info =
     (case string_to_config_type T type of
        Inl e \<Rightarrow> (Inl e, info)
      | Inr rt \<Rightarrow> build_from_content_vt name content version rt info)"

definition zero_Version :: Version where
  "zero_Version = \<lparr>v_major = 0, v_minor = 0, v_patch = 0\<rparr>"

definition build_from_content_st ::
  "turbo_env \<Rightarrow> string \<Rightarrow> string \<Rightarrow> string \<Rightarrow> ConfigType \<Rightarrow> ConfigInfo \<Rightarrow> unit result \<times> ConfigInfo" where
  "build_from_content_st T name content version type info =
     (let (rs, tmp_version) = string_to_version T version zero_Version
      in case rs of
           Inl e \<Rightarrow> (Inl e, info)
         | Inr _ \<Rightarrow> build_from_content_vt name content tmp_version type info)"

definition build_from_content_ss ::
  "turbo_env \<Rightarrow> string \<Rightarrow> string \<Rightarrow> string \<Rightarrow> string \<Rightarrow> ConfigInfo \<Rightarrow> unit result \<times> ConfigInfo" where
  "build_from_content_ss T name content version type info =
     (case string_to_config_type T type of
        Inl e \<Rightarrow> (Inl e, info)
      | Inr rt \<Rightarrow>
          let (rs, tmp_version) = string_to_version T version zero_Version
          in case rs of
               Inl e \<Rightarrow> (Inl e, info)
             | Inr _ \<Rightarrow> build_from_content_vt name content tmp_version rt info)"

text \<open>The checks after the JSON text was read into the message.\<close>

definition config_json_checks :: "ConfigInfo \<Rightarrow> unit result" where
  "config_json_checks info =
     (if c_name info = None \<or> str_field (c_name info) = [] then Inl (DataLoss, ''miss required field name'')
      else if c_version info = None \<or> version_field info = zero_Version
      then Inl (DataLoss, ''miss field version'')
      else if c_content info = None \<or> str_field (c_content info) = []
      then Inl (DataLoss, ''miss required field name'')
      else Inr ())"

definition config_build_from_json :: "ConfigInfo json2pb \<Rightarrow> string \<Rightarrow> ConfigInfo \<Rightarrow> unit result \<times> ConfigInfo" where
  "config_build_from_json J json_str info =
     (case load_proto J json_str of Inl e \<Rightarrow> (Inl e, info) | Inr info \<Rightarrow> (config_json_checks info, info))"

definition config_build_from_json_file ::
  "ConfigInfo json2pb \<Rightarrow> disk \<Rightarrow> files \<Rightarrow> string \<Rightarrow> ConfigInfo \<Rightarrow> unit result \<times> ConfigInfo" where
  "config_build_from_json_file J D fs json_path info =
     (case read_whole D fs json_path of
        Inl e \<Rightarrow> (Inl e, info) | Inr content \<Rightarrow> config_build_from_json J content info)"

definition build_from_file_vt ::
  "disk \<Rightarrow> files \<Rightarrow> string \<Rightarrow> string \<Rightarrow> Version \<Rightarrow> ConfigType \<Rightarrow> ConfigInfo \<Rightarrow> unit result \<times> ConfigInfo" where
  "build_from_file_vt D fs name file_path version type info =
     (case read_whole D fs file_path of
        Inl e \<Rightarrow> (Inl e, info) | Inr content \<Rightarrow> build_from_content_vt name content version type info)"

definition build_from_file_vs ::
  "turbo_env \<Rightarrow> disk \<Rightarrow> files \<Rightarrow> string \<Rightarrow> string \<Rightarrow> Version \<Rightarrow> string \<Rightarrow> ConfigInfo \<Rightarrow> unit result \<times> ConfigInfo" where
  "build_from_file_vs T D fs name file_path version type info =
     (case read_whole D fs file_path of
        Inl e \<Rightarrow> (Inl e, info)
      | Inr content \<Rightarrow>
          (case string_to_config_type T type of
             Inl e \<Rightarrow> (Inl e, info)
           | Inr rt \<Rightarrow> build_from_content_vt name content version rt info))"

definition build_from_file_st ::
  "turbo_env \<Rightarrow> disk \<Rightarrow> files \<Rightarrow> string \<Rightarrow> string \<Rightarrow> string \<Rightarrow> ConfigType \<Rightarrow> ConfigInfo \<Rightarrow>
     unit result \<times> ConfigInfo" where
  "build_from_file_st T D fs name file_path version type info =
     (case read_whole D fs file_path of
        Inl e \<Rightarrow> (Inl e, info)
      | Inr content \<Rightarrow>
          let (rs, tmp_version) = string_to_version T version zero_Version
          in case rs of
               Inl e \<Rightarrow> (Inl e, info)
             | Inr _ \<Rightarrow> build_from_content_vt name content tmp_version type info)"

definition build_from_file_ss ::
  "turbo_env \<Rightarrow> disk \<Rightarrow> files \<Rightarrow> string \<Rightarrow> string \<Rightarrow> string \<Rightarrow> string \<Rightarrow> ConfigInfo \<Rightarrow>
     unit result \<times> ConfigInfo" where
  "build_from_file_ss T D fs name file_path version type info =
     (case read_whole D fs file_path of
        Inl e \<Rightarrow> (Inl e, info)
      | Inr content \<Rightarrow>
          (case string_to_config_type T type of
             Inl e \<Rightarrow> (Inl e, info)
           | Inr rt \<Rightarrow>
               let (rs, tmp_version) = string_to_version T version zero_Version
               in case rs of
                    Inl e \<Rightarrow> (Inl e, info)
                  | Inr _ \<Rightarrow> build_from_content_vt name content tmp_version rt info))"

lemma config_build_from_json_ok:
  assumes "config_build_from_json J json_str info = (Inr (), c)"
  shows "of_json J json_str = Inr c \<and> str_field (c_name c) \<noteq> [] \<and> c_version c \<noteq> None \<and>
    version_field c \<noteq> zero_Version \<and> str_field (c_content c) \<noteq> []"
  using assms
  by (auto simp: config_build_from_json_def load_proto_def config_json_checks_def split: sum.splits if_splits)

text \<open>Text in, the same text out: a version and a type given as text are read as they are printed.\<close>

lemma build_from_content_text:
  assumes "turbo_ok T" "int64_range (v_major v)" "int64_range (v_minor v)" "int64_range (v_patch v)"
  shows "build_from_content_ss T name content (version_to_string v) (config_type_to_string t) info =
    build_from_content_vt name content v t info"
proof -
  have v: "string_to_version T (version_to_string v) zero_Version = (Inr (), v)"
    using dotted_round_trip(1) [OF assms, of "version_to_string v" zero_Version]
    by (simp add: version_to_string_def zero_Version_def)
  show ?thesis
    by (simp add: build_from_content_ss_def config_type_round_trip [OF assms(1)] v)
qed

subsection \<open>ServletInstanceBuilder\<close>

definition ServletInstanceBuilder_set :: "ServletInstance \<Rightarrow> ServletInstance" where
  "ServletInstanceBuilder_set ins = empty_ServletInstance"

definition no_text :: "string option \<Rightarrow> bool" where
  "no_text f \<longleftrightarrow> f = None \<or> str_field f = []"

definition instance_json_checks :: "turbo_env \<Rightarrow> ServletInstance \<Rightarrow> unit result" where
  "instance_json_checks T i =
     (if no_text (si_namespace_name i) then Inl (DataLoss, ''miss required field namespace_name'')
      else if no_text (si_zone_name i) then Inl (DataLoss, ''miss required field zone_name'')
      else if no_text (si_servlet_name i) then Inl (DataLoss, ''miss required field servlet_name'')
      else if no_text (si_address i) then Inl (DataLoss, ''miss required field address'')
      else if no_text (si_env i) then Inl (DataLoss, ''miss required field address'')
      else if \<not> endpoint_ok T (str_field (si_address i)) then Inl (InvalidArgument, ''bad address'')
      else Inr ())"

definition instance_build_from_json ::
  "turbo_env \<Rightarrow> ServletInstance json2pb \<Rightarrow> string \<Rightarrow> ServletInstance \<Rightarrow> unit result \<times> ServletInstance" where
  "instance_build_from_json T J json_str i =
     (case load_proto J json_str of Inl e \<Rightarrow> (Inl e, i) | Inr i \<Rightarrow> (instance_json_checks T i, i))"

definition instance_build_from_json_file ::
  "turbo_env \<Rightarrow> ServletInstance json2pb \<Rightarrow> disk \<Rightarrow> files \<Rightarrow> string \<Rightarrow> ServletInstance \<Rightarrow>
     unit result \<times> ServletInstance" where
  "instance_build_from_json_file T J D fs json_path i =
     (case read_whole D fs json_path of
        Inl e \<Rightarrow> (Inl e, i) | Inr content \<Rightarrow> instance_build_from_json T J content i)"

definition builder_set_namespace :: "string \<Rightarrow> ServletInstance \<Rightarrow> ServletInstance" where
  "builder_set_namespace namespace_name i = i\<lparr>si_namespace_name := Some namespace_name\<rparr>"

definition builder_set_zone :: "string \<Rightarrow> ServletInstance \<Rightarrow> ServletInstance" where
  "builder_set_zone z i = i\<lparr>si_zone_name := Some z\<rparr>"

definition builder_set_servlet :: "string \<Rightarrow> ServletInstance \<Rightarrow> ServletInstance" where
  "builder_set_servlet v i = i\<lparr>si_servlet_name := Some v\<rparr>"

definition builder_set_color :: "string \<Rightarrow> ServletInstance \<Rightarrow> ServletInstance" where
  "builder_set_color color i = i\<lparr>si_color := Some color\<rparr>"

definition builder_set_env :: "string \<Rightarrow> ServletInstance \<Rightarrow> ServletInstance" where
  "builder_set_env environment i = i\<lparr>si_env := Some environment\<rparr>"

definition builder_set_user :: "string \<Rightarrow> ServletInstance \<Rightarrow> ServletInstance" where
  "builder_set_user user i = i\<lparr>si_user := Some user\<rparr>"

definition builder_set_passwd :: "string \<Rightarrow> ServletInstance \<Rightarrow> ServletInstance" where
  "builder_set_passwd passwd i = i"

definition builder_set_status_name :: "turbo_env \<Rightarrow> string \<Rightarrow> ServletInstance \<Rightarrow> ServletInstance" where
  "builder_set_status_name T s i =
     (case status_parse T s of
        Some status \<Rightarrow> i\<lparr>si_status := Some status\<rparr>
      | None \<Rightarrow> i\<lparr>si_status := Some (status_normal T)\<rparr>)"

definition builder_set_address :: "string \<Rightarrow> ServletInstance \<Rightarrow> ServletInstance" where
  "builder_set_address address i = i\<lparr>si_address := Some address\<rparr>"

text \<open>The argument is not used.\<close>

definition builder_set_status :: "turbo_env \<Rightarrow> int \<Rightarrow> ServletInstance \<Rightarrow> ServletInstance" where
  "builder_set_status T s i = i\<lparr>si_status := Some (status_normal T)\<rparr>"

definition builder_set_weight :: "int \<Rightarrow> ServletInstance \<Rightarrow> ServletInstance" where
  "builder_set_weight weight i = i\<lparr>si_weight := Some weight\<rparr>"

definition builder_set_time :: "int \<Rightarrow> ServletInstance \<Rightarrow> ServletInstance" where
  "builder_set_time time i = i\<lparr>si_timestamp := Some time\<rparr>"

lemma instance_build_from_json_ok:
  assumes "instance_build_from_json T J json_str i0 = (Inr (), i)"
  shows "of_json J json_str = Inr i \<and> endpoint_ok T (str_field (si_address i)) \<and>
    (\<forall>f \<in> {si_namespace_name i, si_zone_name i, si_servlet_name i, si_address i, si_env i}. f \<noteq> None \<and> str_field f \<noteq> [])"
  using assms
  by (auto simp: instance_build_from_json_def load_proto_def instance_json_checks_def no_text_def
      split: sum.splits if_splits)

end
