(* ===== verification/DiscoveryClient.thy ===== *)
theory DiscoveryClient
  imports ClientBuilders Queries
begin

text \<open>
  \<open>DiscoveryClient\<close> (client/discovery.h, client/discovery.cc): the interface of message senders
  (base_message_sender.h) and the operations on configurations. A state \<open>'s\<close> stands for whatever
  a sender changes, the servers included. An output argument is the result of a call that
  succeeds and is left alone by one that fails; a vector given to a call is extended. A null
  \<open>retry_time\<close> is \<open>None\<close>.
\<close>

record 's message_sender =
  send_manager :: "int option \<Rightarrow> DiscoveryManagerRequest \<Rightarrow> 's \<Rightarrow> DiscoveryManagerResponse result \<times> 's"
  send_query :: "int option \<Rightarrow> DiscoveryQueryRequest \<Rightarrow> 's \<Rightarrow> DiscoveryQueryResponse result \<times> 's"

text \<open>\<open>op_unset\<close> is what a request reads as whose operation was never set.\<close>

record client_env =
  turbo :: turbo_env
  local_disk :: disk
  config_json :: "ConfigInfo json2pb"
  ns_json :: "NameSpaceInfo json2pb"
  zone_json :: "ZoneInfo json2pb"
  servlet_json :: "ServletInfo json2pb"
  op_unset :: OpType

definition client_init :: "'s message_sender \<Rightarrow> unit result \<times> 's message_sender" where
  "client_init sender = (Inr (), sender)"

definition client_manager ::
  "'s message_sender \<Rightarrow> int option \<Rightarrow> DiscoveryManagerRequest \<Rightarrow> 's \<Rightarrow> DiscoveryManagerResponse result \<times> 's" where
  "client_manager M retry_time request s =
     (case retry_time of
        None \<Rightarrow> send_manager M None request s
      | Some n \<Rightarrow> send_manager M (Some n) request s)"

definition client_query ::
  "'s message_sender \<Rightarrow> int option \<Rightarrow> DiscoveryQueryRequest \<Rightarrow> 's \<Rightarrow> DiscoveryQueryResponse result \<times> 's" where
  "client_query M retry_time request s =
     (case retry_time of
        None \<Rightarrow> send_query M None request s
      | Some n \<Rightarrow> send_query M (Some n) request s)"

text \<open>
  How every operation ends: the request is sent and a failure of the sender returned; then some
  operations look at the error code of the answer, and some do not.
\<close>

definition submit_checked ::
  "'s message_sender \<Rightarrow> StatusCode \<Rightarrow> int option \<Rightarrow> DiscoveryManagerRequest \<Rightarrow> 's \<Rightarrow> unit result \<times> 's" where
  "submit_checked M code retry_time request s =
     then_do (client_manager M retry_time request s) (\<lambda>response s.
       if rs_errcode response \<noteq> SUCCESS then (Inl (code, rs_errmsg response), s) else (Inr (), s))"

definition submit_unchecked ::
  "'s message_sender \<Rightarrow> int option \<Rightarrow> DiscoveryManagerRequest \<Rightarrow> 's \<Rightarrow> unit result \<times> 's" where
  "submit_unchecked M retry_time request s =
     then_do (client_manager M retry_time request s) (\<lambda>response s. (Inr (), s))"

definition ask ::
  "'s message_sender \<Rightarrow> int option \<Rightarrow> DiscoveryQueryRequest \<Rightarrow> 's \<Rightarrow> DiscoveryQueryResponse result \<times> 's" where
  "ask M retry_time request s =
     then_do (client_query M retry_time request s) (\<lambda>response s.
       if dr_errcode response \<noteq> SUCCESS then (Inl (Unknown, dr_errmsg response), s) else (Inr response, s))"

subsection \<open>Checking and dumping a configuration\<close>

definition check_config :: "client_env \<Rightarrow> string \<Rightarrow> unit result" where
  "check_config K json_content =
     (case of_json (config_json K) json_content of
        Inl errmsg \<Rightarrow> Inl (InvalidArgument, errmsg) | Inr config \<Rightarrow> Inr ())"

definition check_config_file :: "client_env \<Rightarrow> files \<Rightarrow> string \<Rightarrow> unit result" where
  "check_config_file K fs config_path =
     and_then (read_whole (local_disk K) fs config_path) (check_config K)"

text \<open>The file is opened, and so made empty, before the message is turned into JSON.\<close>

definition dump_config_file :: "client_env \<Rightarrow> string \<Rightarrow> ConfigInfo \<Rightarrow> files \<Rightarrow> unit result \<times> files" where
  "dump_config_file K config_path config fs =
     then_do (write_file (local_disk K) config_path [] fs) (\<lambda>_ fs.
       case to_json (config_json K) config of
         Inl err \<Rightarrow> (Inl (InvalidArgument, err), fs)
       | Inr json \<Rightarrow> write_pieces (local_disk K) config_path [json] fs)"

subsection \<open>Creating configurations\<close>

definition create_config_text ::
  "client_env \<Rightarrow> 's message_sender \<Rightarrow> string \<Rightarrow> string \<Rightarrow> string \<Rightarrow> string \<Rightarrow> int option \<Rightarrow> 's \<Rightarrow> unit result \<times> 's" where
  "create_config_text K M config_name content version type retry_times s =
     (let (rs, info) = build_from_content_ss (turbo K) config_name content version type
                         (ConfigInfoBuilder_set_info empty_ConfigInfo)
      in case rs of
           Inl e \<Rightarrow> (Inl e, s)
         | Inr _ \<Rightarrow> submit_checked M Unavailable retry_times
             ((empty_request OP_CREATE_CONFIG)\<lparr>rq_config_info := Some info\<rparr>) s)"

definition create_config_info ::
  "'s message_sender \<Rightarrow> ConfigInfo \<Rightarrow> int option \<Rightarrow> 's \<Rightarrow> unit result \<times> 's" where
  "create_config_info M request retry_times s =
     submit_checked M Unavailable retry_times ((empty_request OP_CREATE_CONFIG)\<lparr>rq_config_info := Some request\<rparr>) s"

text \<open>The next two never set the operation of the request.\<close>

definition create_config_by_file ::
  "client_env \<Rightarrow> 's message_sender \<Rightarrow> files \<Rightarrow> string \<Rightarrow> string \<Rightarrow> string \<Rightarrow> string \<Rightarrow> int option \<Rightarrow> 's \<Rightarrow>
     unit result \<times> 's" where
  "create_config_by_file K M fs config_name path type version retry_times s =
     (let (rs, info) = build_from_file_ss (turbo K) (local_disk K) fs config_name path version type
                         (ConfigInfoBuilder_set_info empty_ConfigInfo)
      in case rs of
           Inl e \<Rightarrow> (Inl e, s)
         | Inr _ \<Rightarrow> submit_checked M Unavailable retry_times
             ((empty_request (op_unset K))\<lparr>rq_config_info := Some info\<rparr>) s)"

definition create_config_by_json ::
  "client_env \<Rightarrow> 's message_sender \<Rightarrow> files \<Rightarrow> string \<Rightarrow> int option \<Rightarrow> 's \<Rightarrow> unit result \<times> 's" where
  "create_config_by_json K M fs json_path retry_times s =
     (let (rs, info) = config_build_from_json_file (config_json K) (local_disk K) fs json_path
                         (ConfigInfoBuilder_set_info empty_ConfigInfo)
      in case rs of
           Inl e \<Rightarrow> (Inl e, s)
         | Inr _ \<Rightarrow> submit_checked M Unavailable retry_times
             ((empty_request (op_unset K))\<lparr>rq_config_info := Some info\<rparr>) s)"

subsection \<open>Reading configurations\<close>

definition list_config ::
  "'s message_sender \<Rightarrow> string list \<Rightarrow> int option \<Rightarrow> 's \<Rightarrow> string list result \<times> 's" where
  "list_config M names retry_time s =
     then_do (ask M retry_time (empty_query QUERY_LIST_CONFIG) s) (\<lambda>response s.
       (Inr (names @ map (\<lambda>c. str_field (c_name c)) (dr_config_infos response)), s))"

definition list_config_version_text ::
  "'s message_sender \<Rightarrow> string \<Rightarrow> string list \<Rightarrow> int option \<Rightarrow> 's \<Rightarrow> string list result \<times> 's" where
  "list_config_version_text M config_name versions retry_time s =
     then_do (ask M retry_time ((empty_query QUERY_LIST_CONFIG_VERSION)\<lparr>dq_config_name := Some config_name\<rparr>) s)
       (\<lambda>response s. (Inr (versions @ map (\<lambda>c. version_to_string (version_field c)) (dr_config_infos response)), s))"

definition list_config_version ::
  "'s message_sender \<Rightarrow> string \<Rightarrow> ModuleVersion list \<Rightarrow> int option \<Rightarrow> 's \<Rightarrow> ModuleVersion list result \<times> 's" where
  "list_config_version M config_name versions retry_time s =
     then_do (ask M retry_time ((empty_query QUERY_LIST_CONFIG_VERSION)\<lparr>dq_config_name := Some config_name\<rparr>) s)
       (\<lambda>response s. (Inr (versions @ map (\<lambda>c. to_module_version (version_field c)) (dr_config_infos response)), s))"

definition the_config :: "DiscoveryQueryResponse \<Rightarrow> ConfigInfo result" where
  "the_config response =
     (case dr_config_infos response of
        [c] \<Rightarrow> Inr c
      | _ \<Rightarrow> Inl (InvalidArgument, ''bad proto for config list size not 1''))"

definition get_config_info ::
  "client_env \<Rightarrow> 's message_sender \<Rightarrow> string \<Rightarrow> string \<Rightarrow> int option \<Rightarrow> 's \<Rightarrow> ConfigInfo result \<times> 's" where
  "get_config_info K M config_name version retry_time s =
     (let (rs, v) = string_to_version (turbo K) version zero_Version
      in case rs of
           Inl e \<Rightarrow> (Inl e, s)
         | Inr _ \<Rightarrow>
             then_do (ask M retry_time ((empty_query QUERY_GET_CONFIG)
                 \<lparr>dq_config_name := Some config_name, dq_config_version := Some v\<rparr>) s)
               (\<lambda>response s. (the_config response, s)))"

text \<open>Content, type and time; the caller may leave the last two out.\<close>

definition get_config_text ::
  "client_env \<Rightarrow> 's message_sender \<Rightarrow> string \<Rightarrow> string \<Rightarrow> int option \<Rightarrow> 's \<Rightarrow> (string \<times> string \<times> int) result \<times> 's" where
  "get_config_text K M config_name version retry_time s =
     then_do (get_config_info K M config_name version retry_time s) (\<lambda>c s.
       (Inr (str_field (c_content c), config_type_to_string (c_type c), c_time c), s))"

definition save_config_as ::
  "client_env \<Rightarrow> 's message_sender \<Rightarrow> string \<Rightarrow> string \<Rightarrow> string \<Rightarrow> int option \<Rightarrow> 's \<times> files \<Rightarrow>
     unit result \<times> 's \<times> files" where
  "save_config_as K M config_name version path retry_time = (\<lambda>(s, fs).
     let (r, s) = get_config_text K M config_name version retry_time s
     in case r of
          Inl e \<Rightarrow> (Inl e, s, fs)
        | Inr (content, type, time) \<Rightarrow>
            let (r, fs) = write_file (local_disk K) path [content] fs in (r, s, fs))"

definition save_config ::
  "client_env \<Rightarrow> 's message_sender \<Rightarrow> string \<Rightarrow> string \<Rightarrow> int option \<Rightarrow> 's \<times> files \<Rightarrow> unit result \<times> 's \<times> files" where
  "save_config K M config_name version retry_time = (\<lambda>(s, fs).
     let (r, s) = get_config_text K M config_name version retry_time s
     in case r of
          Inl e \<Rightarrow> (Inl e, s, fs)
        | Inr (content, type, time) \<Rightarrow>
            let path = turbo_fmt (turbo K) ''{}.{}'' [config_name, type];
                (r, fs) = write_file (local_disk K) path [content] fs
            in (r, s, fs))"

definition get_config_latest_info ::
  "'s message_sender \<Rightarrow> string \<Rightarrow> int option \<Rightarrow> 's \<Rightarrow> ConfigInfo result \<times> 's" where
  "get_config_latest_info M config_name retry_time s =
     then_do (ask M retry_time ((empty_query QUERY_GET_CONFIG)\<lparr>dq_config_name := Some config_name\<rparr>) s)
       (\<lambda>response s. (the_config response, s))"

definition get_config_latest_text ::
  "'s message_sender \<Rightarrow> string \<Rightarrow> int option \<Rightarrow> 's \<Rightarrow> (string \<times> string) result \<times> 's" where
  "get_config_latest_text M config_name retry_time s =
     then_do (get_config_latest_info M config_name retry_time s) (\<lambda>c s.
       (Inr (str_field (c_content c), version_to_string (version_field c)), s))"

definition get_config_latest_text_type ::
  "'s message_sender \<Rightarrow> string \<Rightarrow> int option \<Rightarrow> 's \<Rightarrow> (string \<times> string \<times> string) result \<times> 's" where
  "get_config_latest_text_type M config_name retry_time s =
     then_do (get_config_latest_info M config_name retry_time s) (\<lambda>c s.
       (Inr (str_field (c_content c), version_to_string (version_field c), config_type_to_string (c_type c)), s))"

definition get_config_latest_module ::
  "'s message_sender \<Rightarrow> string \<Rightarrow> int option \<Rightarrow> 's \<Rightarrow> (string \<times> ModuleVersion) result \<times> 's" where
  "get_config_latest_module M config_name retry_time s =
     then_do (get_config_latest_info M config_name retry_time s) (\<lambda>c s.
       (Inr (str_field (c_content c), to_module_version (version_field c)), s))"

definition get_config_latest_module_type ::
  "'s message_sender \<Rightarrow> string \<Rightarrow> int option \<Rightarrow> 's \<Rightarrow> (string \<times> ModuleVersion \<times> string) result \<times> 's" where
  "get_config_latest_module_type M config_name retry_time s =
     then_do (get_config_latest_info M config_name retry_time s) (\<lambda>c s.
       (Inr (str_field (c_content c), to_module_version (version_field c), config_type_to_string (c_type c)), s))"

definition get_config_latest_content ::
  "'s message_sender \<Rightarrow> string \<Rightarrow> int option \<Rightarrow> 's \<Rightarrow> string result \<times> 's" where
  "get_config_latest_content M config_name retry_time s =
     then_do (get_config_latest_info M config_name retry_time s) (\<lambda>c s. (Inr (str_field (c_content c)), s))"

subsection \<open>Removing configurations\<close>

definition client_remove_config ::
  "client_env \<Rightarrow> 's message_sender \<Rightarrow> string \<Rightarrow> string \<Rightarrow> int option \<Rightarrow> 's \<Rightarrow> unit result \<times> 's" where
  "client_remove_config K M config_name version retry_time s =
     (let (rs, v) = string_to_version (turbo K) version zero_Version
      in case rs of
           Inl e \<Rightarrow> (Inl e, s)
         | Inr _ \<Rightarrow> submit_checked M Unknown retry_time ((empty_request OP_REMOVE_CONFIG)
             \<lparr>rq_config_info := Some (empty_ConfigInfo\<lparr>c_name := Some config_name, c_version := Some v\<rparr>)\<rparr>) s)"

text \<open>The patch is written over the minor version.\<close>

definition remove_config_module ::
  "'s message_sender \<Rightarrow> string \<Rightarrow> ModuleVersion \<Rightarrow> int option \<Rightarrow> 's \<Rightarrow> unit result \<times> 's" where
  "remove_config_module M config_name version retry_time s =
     (let v = zero_Version\<lparr>v_major := mv_major version\<rparr>;
          v = v\<lparr>v_minor := mv_minor version\<rparr>;
          v = v\<lparr>v_minor := mv_patch version\<rparr>
      in submit_checked M Unknown retry_time ((empty_request OP_REMOVE_CONFIG)
           \<lparr>rq_config_info := Some (empty_ConfigInfo\<lparr>c_name := Some config_name, c_version := Some v\<rparr>)\<rparr>) s)"

definition remove_config_all_version ::
  "'s message_sender \<Rightarrow> string \<Rightarrow> int option \<Rightarrow> 's \<Rightarrow> unit result \<times> 's" where
  "remove_config_all_version M config_name retry_time s =
     submit_checked M Unknown retry_time ((empty_request OP_REMOVE_CONFIG)
       \<lparr>rq_config_info := Some (empty_ConfigInfo\<lparr>c_name := Some config_name\<rparr>)\<rparr>) s"

end
