(* ===== verification/ConfigCache.thy ===== *)
theory ConfigCache
  imports DiscoveryClient
begin

text \<open>
  \<open>ConfigCache\<close> (client/config_cache.h, client/config_cache.cc): the configurations a process has
  fetched, by name and version, with one JSON file for each in the cache directory. Every
  operation holds the cache's mutex; \<open>add_config\<close> writes its file after it has let go of it, so
  the part under the lock has a name of its own, \<open>cache_insert\<close>.
\<close>

record config_cache =
  cache_map :: "string \<Rightarrow> (ModuleVersion \<times> ConfigInfo) list option"
  cache_dir :: string
  cache_init :: bool
  cache_files :: files
  made_dirs :: "string list"

definition new_cache :: "files \<Rightarrow> config_cache" where
  "new_cache fs = \<lparr>cache_map = Map.empty, cache_dir = [], cache_init = False, cache_files = fs, made_dirs = []\<rparr>"

text \<open>What \<open>exists\<close> and the directory iterator find.\<close>

datatype dir_view = DirFails string | DirMissing | DirEntries "string list"

definition config_version :: "ConfigInfo \<Rightarrow> ModuleVersion" where
  "config_version c = to_module_version (version_field c)"

definition config_name :: "ConfigInfo \<Rightarrow> string" where
  "config_name c = str_field (c_name c)"

subsection \<open>Files\<close>

text \<open>The minor version stands where the major version should.\<close>

definition make_cache_file_path :: "turbo_env \<Rightarrow> string \<Rightarrow> ConfigInfo \<Rightarrow> string" where
  "make_cache_file_path T dir config =
     turbo_fmt T ''{}/{}-{}.{}.{}.{}'' [dir, config_name config,
       int_to_string (v_minor (version_field config)), int_to_string (v_minor (version_field config)),
       int_to_string (v_patch (version_field config)), config_type_to_string (c_type config)]"

definition write_config_file :: "client_env \<Rightarrow> string \<Rightarrow> ConfigInfo \<Rightarrow> files \<Rightarrow> unit result \<times> files" where
  "write_config_file K dir config fs =
     (if dir = [] then (Inr (), fs)
      else dump_proto_to_file (config_json K) (local_disk K) (make_cache_file_path (turbo K) dir config) config fs)"

definition remove_config_file :: "client_env \<Rightarrow> string \<Rightarrow> ConfigInfo \<Rightarrow> files \<Rightarrow> files" where
  "remove_config_file K dir config fs =
     (if dir = [] then fs else fs(make_cache_file_path (turbo K) dir config := None))"

subsection \<open>Adding and reading\<close>

definition do_add_config :: "ConfigInfo \<Rightarrow> config_cache \<Rightarrow> config_cache" where
  "do_add_config config s =
     (let s = s\<lparr>cache_map := touch [] (config_name config) (cache_map s)\<rparr>
      in s\<lparr>cache_map := (cache_map s)(config_name config \<mapsto>
           omap_put (config_version config) config (at_or [] (cache_map s) (config_name config)))\<rparr>)"

fun load_cache_files :: "client_env \<Rightarrow> string list \<Rightarrow> config_cache \<Rightarrow> unit result \<times> config_cache" where
  "load_cache_files K [] s = (Inr (), s\<lparr>cache_init := True\<rparr>)"
| "load_cache_files K (file_path # rest) s =
     (if file_path = ''.'' \<or> file_path = ''..'' then load_cache_files K rest s
      else case load_proto_from_file (config_json K) (local_disk K) (cache_files s) file_path of
             Inl e \<Rightarrow> (Inl e, s)
           | Inr info \<Rightarrow> load_cache_files K rest (do_add_config info s))"

definition cache_init_op :: "client_env \<Rightarrow> string \<Rightarrow> dir_view \<Rightarrow> config_cache \<Rightarrow> unit result \<times> config_cache" where
  "cache_init_op K flags_cache_dir dir s =
     (if cache_init s then (Inr (), s)
      else let s = s\<lparr>cache_dir := flags_cache_dir\<rparr>
      in if cache_dir s = [] then (Inr (), s)
         else case dir of
                DirFails message \<Rightarrow> (Inl (Unknown, message), s)
              | DirMissing \<Rightarrow> (Inr (), s\<lparr>made_dirs := made_dirs s @ [cache_dir s]\<rparr>)
              | DirEntries paths \<Rightarrow> load_cache_files K paths s)"

text \<open>The locked part of \<open>add_config\<close>: \<open>None\<close> when the version is there already.\<close>

definition cache_insert :: "ConfigInfo \<Rightarrow> config_cache \<Rightarrow> config_cache option" where
  "cache_insert config s =
     (let name = config_name config;
          m = touch [] name (cache_map s);
          it = at_or [] m name
      in case map_of it (config_version config) of
           Some _ \<Rightarrow> None
         | None \<Rightarrow> Some (s\<lparr>cache_map := m(name \<mapsto> omap_put (config_version config) config it)\<rparr>))"

definition cache_write :: "client_env \<Rightarrow> ConfigInfo \<Rightarrow> config_cache \<Rightarrow> unit result \<times> config_cache" where
  "cache_write K config s =
     (let (r, fs) = write_config_file K (cache_dir s) config (cache_files s) in (r, s\<lparr>cache_files := fs\<rparr>))"

definition cache_add_config :: "client_env \<Rightarrow> ConfigInfo \<Rightarrow> config_cache \<Rightarrow> unit result \<times> config_cache" where
  "cache_add_config K config s =
     (case cache_insert config s of
        None \<Rightarrow> (Inl (AlreadyExists, []), s)
      | Some s \<Rightarrow> cache_write K config s)"

text \<open>Both reads look under the name in the message to fill, not under the name they are given.\<close>

definition cache_get_config ::
  "string \<Rightarrow> ModuleVersion \<Rightarrow> ConfigInfo \<Rightarrow> config_cache \<Rightarrow> ConfigInfo result" where
  "cache_get_config name version config s =
     (case cache_map s (config_name config) of
        None \<Rightarrow> Inl (NotFound, [])
      | Some it \<Rightarrow> (case map_of it version of None \<Rightarrow> Inl (NotFound, []) | Some c \<Rightarrow> Inr c))"

definition cache_get_latest :: "string \<Rightarrow> ConfigInfo \<Rightarrow> config_cache \<Rightarrow> ConfigInfo result" where
  "cache_get_latest name config s =
     (case cache_map s (config_name config) of
        None \<Rightarrow> Inl (NotFound, [])
      | Some it \<Rightarrow> if it = [] then Inl (NotFound, []) else Inr (snd (last it)))"

text \<open>\<open>walk\<close> is the order in which the names of the hash map are met.\<close>

definition get_config_list :: "(string \<times> (ModuleVersion \<times> ConfigInfo) list) list \<Rightarrow> string list \<Rightarrow> string list result" where
  "get_config_list walk names = Inr (names @ map fst walk)"

definition get_config_version_list ::
  "string \<Rightarrow> ModuleVersion list \<Rightarrow> config_cache \<Rightarrow> ModuleVersion list result" where
  "get_config_version_list name versions s =
     (case cache_map s name of
        None \<Rightarrow> Inl (NotFound, []) | Some it \<Rightarrow> Inr (versions @ map fst it))"

subsection \<open>Removing\<close>

text \<open>A name whose last version goes is erased.\<close>

definition put_versions :: "string \<Rightarrow> (ModuleVersion \<times> ConfigInfo) list \<Rightarrow> config_cache \<Rightarrow> config_cache" where
  "put_versions name it s = s\<lparr>cache_map := (cache_map s)(name := if it = [] then None else Some it)\<rparr>"

definition cache_remove_version ::
  "client_env \<Rightarrow> string \<Rightarrow> ModuleVersion \<Rightarrow> config_cache \<Rightarrow> unit result \<times> config_cache" where
  "cache_remove_version K name version s =
     (case cache_map s name of
        None \<Rightarrow> (Inl (NotFound, []), s)
      | Some it \<Rightarrow>
          (case map_of it version of
             None \<Rightarrow> (Inl (NotFound, []), s)
           | Some c \<Rightarrow> (Inr (), put_versions name (omap_erase version it)
               (s\<lparr>cache_files := remove_config_file K (cache_dir s) c (cache_files s)\<rparr>))))"

fun erase_versions ::
  "client_env \<Rightarrow> string \<Rightarrow> ModuleVersion list \<Rightarrow> (ModuleVersion \<times> ConfigInfo) list \<Rightarrow> files \<Rightarrow>
     (ModuleVersion \<times> ConfigInfo) list \<times> files" where
  "erase_versions K dir [] it fs = (it, fs)"
| "erase_versions K dir (version # rest) it fs =
     (case map_of it version of
        None \<Rightarrow> erase_versions K dir rest it fs
      | Some c \<Rightarrow> erase_versions K dir rest (omap_erase version it) (remove_config_file K dir c fs))"

definition cache_remove_versions ::
  "client_env \<Rightarrow> string \<Rightarrow> ModuleVersion list \<Rightarrow> config_cache \<Rightarrow> unit result \<times> config_cache" where
  "cache_remove_versions K name versions s =
     (case cache_map s name of
        None \<Rightarrow> (Inl (NotFound, []), s)
      | Some it \<Rightarrow>
          let (it, fs) = erase_versions K (cache_dir s) versions it (cache_files s)
          in (Inr (), put_versions name it (s\<lparr>cache_files := fs\<rparr>)))"

definition remove_files :: "client_env \<Rightarrow> string \<Rightarrow> (ModuleVersion \<times> ConfigInfo) list \<Rightarrow> files \<Rightarrow> files" where
  "remove_files K dir it fs = fold (\<lambda>p. remove_config_file K dir (snd p)) it fs"

definition cache_remove_less_than ::
  "client_env \<Rightarrow> string \<Rightarrow> ModuleVersion \<Rightarrow> config_cache \<Rightarrow> unit result \<times> config_cache" where
  "cache_remove_less_than K name version s =
     (case cache_map s name of
        None \<Rightarrow> (Inl (NotFound, []), s)
      | Some it \<Rightarrow>
          (Inr (), put_versions name (dropWhile (\<lambda>p. fst p < version) it)
             (s\<lparr>cache_files := remove_files K (cache_dir s) (takeWhile (\<lambda>p. fst p < version) it) (cache_files s)\<rparr>)))"

definition cache_remove_config :: "client_env \<Rightarrow> string \<Rightarrow> config_cache \<Rightarrow> unit result \<times> config_cache" where
  "cache_remove_config K name s =
     (case cache_map s name of
        None \<Rightarrow> (Inl (NotFound, []), s)
      | Some it \<Rightarrow> (Inr (), s\<lparr>cache_files := remove_files K (cache_dir s) it (cache_files s),
                            cache_map := (cache_map s)(name := None)\<rparr>))"

subsection \<open>The cache as a finite map\<close>

definition versions_ok :: "string \<Rightarrow> (ModuleVersion \<times> ConfigInfo) list \<Rightarrow> bool" where
  "versions_ok name it \<longleftrightarrow> omap_ok it \<and> (\<forall>p \<in> set it. config_name (snd p) = name \<and> config_version (snd p) = fst p)"

definition cache_ok :: "config_cache \<Rightarrow> bool" where
  "cache_ok s \<longleftrightarrow> (\<forall>name it. cache_map s name = Some it \<longrightarrow> it \<noteq> [] \<and> versions_ok name it)"

definition cached :: "config_cache \<Rightarrow> string \<Rightarrow> ModuleVersion \<Rightarrow> ConfigInfo option" where
  "cached s name version = map_of (at_or [] (cache_map s) name) version"

datatype cache_op = AddConfig ConfigInfo | RemoveVersion string ModuleVersion
  | RemoveVersions string "ModuleVersion list" | RemoveLess string ModuleVersion | RemoveName string

fun cache_step :: "client_env \<Rightarrow> cache_op \<Rightarrow> config_cache \<Rightarrow> unit result \<times> config_cache" where
  "cache_step K (AddConfig c) s = cache_add_config K c s"
| "cache_step K (RemoveVersion name v) s = cache_remove_version K name v s"
| "cache_step K (RemoveVersions name vs) s = cache_remove_versions K name vs s"
| "cache_step K (RemoveLess name v) s = cache_remove_less_than K name v s"
| "cache_step K (RemoveName name) s = cache_remove_config K name s"

type_synonym config_store = "string \<Rightarrow> ModuleVersion \<Rightarrow> ConfigInfo option"

text \<open>What each operation promises: a version that is there stays, and exactly what is named goes.\<close>

fun store_step :: "cache_op \<Rightarrow> config_store \<Rightarrow> config_store" where
  "store_step (AddConfig c) m = (\<lambda>n v. if n = config_name c \<and> v = config_version c \<and> m n v = None then Some c else m n v)"
| "store_step (RemoveVersion name x) m = (\<lambda>n v. if n = name \<and> v = x then None else m n v)"
| "store_step (RemoveVersions name xs) m = (\<lambda>n v. if n = name \<and> v \<in> set xs then None else m n v)"
| "store_step (RemoveLess name x) m = (\<lambda>n v. if n = name \<and> v < x then None else m n v)"
| "store_step (RemoveName name) m = (\<lambda>n v. if n = name then None else m n v)"

lemma versions_ok_put: "versions_ok (config_name c) it \<Longrightarrow> versions_ok (config_name c) (omap_put (config_version c) c it)"
  unfolding versions_ok_def
  by (auto simp: omap_ok_put omap_lookup_mem [symmetric] split: if_splits)

lemma versions_ok_subset: "versions_ok name it \<Longrightarrow> sorted_wrt (<) (map fst it') \<Longrightarrow> set it' \<subseteq> set it \<Longrightarrow> versions_ok name it'"
  by (auto simp: versions_ok_def omap_ok_def)

lemma versions_ok_erase: "versions_ok name it \<Longrightarrow> versions_ok name (omap_erase v it)"
  using omap_ok_erase [of it v] by (auto simp: versions_ok_def omap_erase_def)

lemma versions_ok_Nil [simp]: "versions_ok name []"
  by (simp add: versions_ok_def)

lemma cache_ok_versions: "cache_ok s \<Longrightarrow> versions_ok name (at_or [] (cache_map s) name)"
  by (cases "cache_map s name") (auto simp: cache_ok_def)

lemma cache_ok_put_versions: "cache_ok s \<Longrightarrow> versions_ok name it \<Longrightarrow> cache_ok (put_versions name it s)"
  by (auto simp: cache_ok_def put_versions_def)

lemma cached_put_versions: "cached (put_versions name it s) n v = (if n = name then map_of it v else cached s n v)"
  by (simp add: cached_def put_versions_def at_or_def)

lemma cached_simps [simp]:
  "cache_map s n = None \<Longrightarrow> cached s n v = None"
  "cache_map s n = Some it \<Longrightarrow> cached s n v = map_of it v"
  by (simp_all add: cached_def)

lemma erase_versions_spec:
  "erase_versions K dir vs it fs = (it', fs') \<Longrightarrow> versions_ok name it \<Longrightarrow>
     versions_ok name it' \<and> map_of it' = (\<lambda>v. if v \<in> set vs then None else map_of it v)"
proof (induction vs arbitrary: it fs)
  case (Cons v vs)
  then show ?case
    by (cases "map_of it v") (auto simp: versions_ok_erase fun_eq_iff)
qed auto

text \<open>Cutting an ordered map at a lower bound.\<close>

lemma omap_below:
  assumes "omap_ok it"
  shows "omap_ok (dropWhile (\<lambda>p. fst p < x) it)"
    "map_of (dropWhile (\<lambda>p. fst p < x) it) v = (if v < x then None else map_of it v)"
    "set (takeWhile (\<lambda>p. fst p < x) it) = {p \<in> set it. fst p < x}"
proof -
  have "omap_ok (dropWhile (\<lambda>p. fst p < x) it) \<and>
      (\<forall>v. map_of (dropWhile (\<lambda>p. fst p < x) it) v = (if v < x then None else map_of it v)) \<and>
      set (takeWhile (\<lambda>p. fst p < x) it) = {p \<in> set it. fst p < x}"
    using assms
  proof (induction it)
    case (Cons q it)
    obtain k c where q: "q = (k, c)" by fastforce
    have above: "\<forall>p \<in> set it. k < fst p" and "omap_ok it" using Cons.prems by (simp_all add: q omap_ok_Cons)
    then have none: "map_of it v = None" if "v \<le> k" for v
      using that by (force simp: map_of_eq_None_iff)
    show ?case
    proof (cases "k < x")
      case True
      with Cons.IH [OF \<open>omap_ok it\<close>] show ?thesis by (auto simp: q)
    next
      case False
      with above have "\<forall>p \<in> set it. \<not> fst p < x" by (meson leI less_trans not_less)
      with False none Cons.prems show ?thesis by (auto simp: q)
    qed
  qed simp
  then show "omap_ok (dropWhile (\<lambda>p. fst p < x) it)"
    "map_of (dropWhile (\<lambda>p. fst p < x) it) v = (if v < x then None else map_of it v)"
    "set (takeWhile (\<lambda>p. fst p < x) it) = {p \<in> set it. fst p < x}" by blast+
qed

lemma cache_files_irrelevant [simp]:
  "cached (s\<lparr>cache_files := fs\<rparr>) = cached s" "cache_ok (s\<lparr>cache_files := fs\<rparr>) = cache_ok s"
  by (simp_all add: cached_def cache_ok_def fun_eq_iff)

lemma cache_insert_spec:
  assumes "cache_ok s"
  shows "cache_insert c s = (case cached s (config_name c) (config_version c) of
      Some _ \<Rightarrow> None
    | None \<Rightarrow> Some (put_versions (config_name c)
        (omap_put (config_version c) c (at_or [] (cache_map s) (config_name c))) s))"
  by (auto simp: cache_insert_def cached_def put_versions_def Let_def at_or_def touch_def fun_eq_iff split: option.splits)

lemma cache_step_refines:
  assumes "cache_ok s" "cache_step K op s = (r, s')"
  shows "cache_ok s' \<and> cached s' = store_step op (cached s)"
proof (cases op)
  case (AddConfig c)
  note ok = versions_ok_put [OF cache_ok_versions [OF assms(1), of "config_name c"]]
  show ?thesis
    using assms(2) ok assms(1)
    by (auto simp: AddConfig cache_add_config_def cache_insert_spec [OF assms(1)] cache_write_def cache_ok_put_versions
        cached_put_versions fun_eq_iff split_def Let_def cached_def [symmetric] split: option.splits)
next
  case (RemoveVersion name x)
  note ok = cache_ok_versions [OF assms(1), of name]
  show ?thesis
  proof (cases "cache_map s name")
    case None
    with assms show ?thesis by (auto simp: RemoveVersion cache_remove_version_def fun_eq_iff)
  next
    case (Some it)
    with assms ok show ?thesis
      by (cases "map_of it x") (auto simp: RemoveVersion cache_remove_version_def cache_ok_put_versions versions_ok_erase
          cached_put_versions fun_eq_iff)
  qed
next
  case (RemoveVersions name xs)
  note ok = cache_ok_versions [OF assms(1), of name]
  show ?thesis
  proof (cases "cache_map s name")
    case None
    with assms show ?thesis by (auto simp: RemoveVersions cache_remove_versions_def fun_eq_iff)
  next
    case (Some it)
    obtain it' fs' where e: "erase_versions K (cache_dir s) xs it (cache_files s) = (it', fs')" by fastforce
    from erase_versions_spec [OF e] ok Some
    have "versions_ok name it'" "map_of it' = (\<lambda>v. if v \<in> set xs then None else map_of it v)" by simp_all
    with assms Some e show ?thesis
      by (auto simp: RemoveVersions cache_remove_versions_def cache_ok_put_versions cached_put_versions fun_eq_iff)
  qed
next
  case (RemoveLess name x)
  note ok = cache_ok_versions [OF assms(1), of name]
  show ?thesis
  proof (cases "cache_map s name")
    case None
    with assms show ?thesis by (auto simp: RemoveLess cache_remove_less_than_def fun_eq_iff)
  next
    case (Some it)
    with ok have it: "omap_ok it" "versions_ok name it" by (simp_all add: versions_ok_def)
    have "versions_ok name (dropWhile (\<lambda>p. fst p < x) it)"
      using it omap_below(1) [OF it(1)] by (auto simp: versions_ok_def dest: set_dropWhileD)
    with assms Some omap_below(2) [OF it(1)] show ?thesis
      by (auto simp: RemoveLess cache_remove_less_than_def cache_ok_put_versions cached_put_versions fun_eq_iff)
  qed
next
  case (RemoveName name)
  show ?thesis
  proof (cases "cache_map s name")
    case None
    with assms show ?thesis by (auto simp: RemoveName cache_remove_config_def fun_eq_iff)
  next
    case (Some it)
    with assms have "s' = put_versions name [] (s\<lparr>cache_files := remove_files K (cache_dir s) it (cache_files s)\<rparr>)"
      by (simp add: RemoveName cache_remove_config_def put_versions_def)
    with assms(1) show ?thesis by (simp add: RemoveName cache_ok_put_versions cached_put_versions fun_eq_iff)
  qed
qed

definition run_cache :: "client_env \<Rightarrow> cache_op list \<Rightarrow> config_cache \<Rightarrow> config_cache" where
  "run_cache K ops s = fold (\<lambda>op s. snd (cache_step K op s)) ops s"

lemma run_cache_simps [simp]:
  "run_cache K [] s = s" "run_cache K (op # ops) s = run_cache K ops (snd (cache_step K op s))"
  by (simp_all add: run_cache_def)

lemma run_cache_refines:
  "cache_ok s \<Longrightarrow> cache_ok (run_cache K ops s) \<and> cached (run_cache K ops s) = fold store_step ops (cached s)"
proof (induction ops arbitrary: s)
  case (Cons op ops)
  obtain r s' where "cache_step K op s = (r, s')" by fastforce
  with cache_step_refines [OF Cons.prems this] Cons.IH [of s'] show ?case by simp
qed simp

lemma cache_ok_new [simp]: "cache_ok (new_cache fs)" "cached (new_cache fs) = (\<lambda>_ _. None)"
  by (simp_all add: cache_ok_def new_cache_def cached_def fun_eq_iff)

lemma cached_dom:
  assumes "cache_ok s" "cache_map s name = Some it"
  shows "{v. cached s name v \<noteq> None} = fst ` set it" "it \<noteq> []" "omap_ok it"
    "sorted_list_of_set (fst ` set it) = map fst it"
proof -
  show it: "it \<noteq> []" "omap_ok it" using assms by (auto simp: cache_ok_def versions_ok_def)
  show "{v. cached s name v \<noteq> None} = fst ` set it"
    using assms(2) by (simp add: map_of_eq_None_iff)
  from it(2) have "sorted_list_of_set (set (map fst it)) = map fst it"
    by (intro sorted_list_of_set.idem_if_sorted_distinct) (simp_all add: omap_ok_def strict_sorted_iff)
  then show "sorted_list_of_set (fst ` set it) = map fst it" by simp
qed

text \<open>The versions of a name come out in order, each once; the latest is the greatest.\<close>

lemma version_list_spec:
  assumes "cache_ok s"
  shows "get_config_version_list name versions s =
    (let vs = {v. cached s name v \<noteq> None}
     in if vs = {} then Inl (NotFound, []) else Inr (versions @ sorted_list_of_set vs))"
proof (cases "cache_map s name")
  case (Some it)
  note d = cached_dom [OF assms Some]
  show ?thesis unfolding d(1) Let_def d(4) using Some d(2) by (simp add: get_config_version_list_def)
qed (simp add: get_config_version_list_def)

lemma cache_get_latest_spec:
  assumes "cache_ok s"
  shows "cache_get_latest name c s =
    (let vs = {v. cached s (config_name c) v \<noteq> None}
     in if vs = {} then Inl (NotFound, []) else Inr (the (cached s (config_name c) (Max vs))))"
proof (cases "cache_map s (config_name c)")
  case None
  then show ?thesis by (simp add: cache_get_latest_def)
next
  case (Some it)
  note d = cached_dom [OF assms Some]
  have "Max (fst ` set it) = fst (last it)"
    using d(2) omap_ok_last_max [OF d(3)] by (intro Max_eqI) auto
  moreover have "map_of it (fst (last it)) = Some (snd (last it))"
    using d(2) by (simp add: omap_lookup_mem [OF d(3)])
  ultimately show ?thesis unfolding d(1)
    using Some d(2) by (simp add: cache_get_latest_def Let_def)
qed

text \<open>With the name left out of the message to fill, nothing that has a name is found.\<close>

lemma unnamed_read_misses:
  assumes "cache_map s [] = None"
  shows "cache_get_config name version empty_ConfigInfo s = Inl (NotFound, [])"
    "cache_get_latest name empty_ConfigInfo s = Inl (NotFound, [])"
  using assms by (simp_all add: cache_get_config_def cache_get_latest_def config_name_def empty_ConfigInfo_def)

text \<open>Versions that differ in their major number alone share a file.\<close>

lemma cache_path_without_major:
  assumes "config_name c' = config_name c" "c_type c' = c_type c"
    "v_minor (version_field c') = v_minor (version_field c)" "v_patch (version_field c') = v_patch (version_field c)"
  shows "make_cache_file_path T dir c' = make_cache_file_path T dir c"
  using assms by (simp add: make_cache_file_path_def)

end
