(* ===== verification/ClientDemo.thy ===== *)
theory ClientDemo
  imports DiscoveryClient
begin

text \<open>
  A concrete surrounding for the client theories' witnesses: texts split at dots and read as
  numbers, a format that only joins its arguments, a disk without errors, JSON from finite tables.
\<close>

fun split_dot :: "string \<Rightarrow> string \<Rightarrow> string list" where
  "split_dot acc [] = [acc]"
| "split_dot acc (c # cs) = (if c = CHR ''.'' then acc # split_dot [] cs else split_dot (acc @ [c]) cs)"

lemma split_dot_part:
  assumes "CHR ''.'' \<notin> set a"
  shows "split_dot acc a = [acc @ a]" "split_dot acc (a @ CHR ''.'' # r) = (acc @ a) # split_dot [] r"
  using assms by (induction a arbitrary: acc) auto

definition demo_turbo :: turbo_env where
  "demo_turbo = \<lparr>split_dots = split_dot [], simple_atoi = string_to_int, to_lower = (\<lambda>s. s),
     turbo_fmt = (\<lambda>f args. concat args), status_parse = (\<lambda>s. None), status_normal = 1, endpoint_ok = (\<lambda>s. True)\<rparr>"

lemma demo_turbo_ok: "turbo_ok demo_turbo"
  by (auto simp: turbo_ok_def demo_turbo_def split_dot_part)

definition demo_disk :: disk where
  "demo_disk = \<lparr>missing = (NotFound, []), open_read_error = (\<lambda>p. None), read_error = (\<lambda>p. None),
     open_write_error = (\<lambda>p. None), write_error = (\<lambda>p. None)\<rparr>"

definition table_json :: "('m \<times> string) list \<Rightarrow> 'm json2pb" where
  "table_json t = \<lparr>to_json = (\<lambda>m. case map_of t m of None \<Rightarrow> Inl ''no text'' | Some x \<Rightarrow> Inr x),
     of_json = (\<lambda>x. case map_of (map (\<lambda>(m, x). (x, m)) t) x of None \<Rightarrow> Inl ''no message'' | Some m \<Rightarrow> Inr m)\<rparr>"

lemma table_json_ok: "distinct (map snd t) \<Longrightarrow> json2pb_ok (table_json t)"
  using table_pb_ok [of t] by (auto simp: json2pb_ok_def table_json_def pb_ok_def table_pb_def split: option.splits)

definition demo_v :: "int \<Rightarrow> int \<Rightarrow> int \<Rightarrow> Version" where
  "demo_v a b c = \<lparr>v_major = a, v_minor = b, v_patch = c\<rparr>"

definition demo_app :: "Version \<Rightarrow> ConfigInfo" where
  "demo_app v = empty_ConfigInfo\<lparr>c_name := Some ''app'', c_version := Some v, c_content := Some ''text''\<rparr>"

definition demo_client :: client_env where
  "demo_client = \<lparr>turbo = demo_turbo, local_disk = demo_disk,
     config_json = table_json [(demo_app (demo_v 1 0 0), ''{A}''), (demo_app (demo_v 1 1 0), ''{B}'')],
     ns_json = table_json [], zone_json = table_json [], servlet_json = table_json [], op_unset = OP_CREATE_USER\<rparr>"

lemma demo_app_simps [simp]:
  "c_name (demo_app v) = Some ''app''" "c_version (demo_app v) = Some v" "c_type (demo_app v) = CF_JSON"
  "c_content (demo_app v) = Some ''text''" "demo_app v = demo_app w \<longleftrightarrow> v = w" "version_field (demo_app v) = v"
  by (auto simp: demo_app_def empty_ConfigInfo_def version_field_def)

lemma demo_v_simps [simp]:
  "v_major (demo_v a b c) = a" "v_minor (demo_v a b c) = b" "v_patch (demo_v a b c) = c"
  "demo_v a b c = demo_v a' b' c' \<longleftrightarrow> a = a' \<and> b = b' \<and> c = c'"
  "to_module_version (demo_v a b c) = ModuleVersion a b c"
  by (simp_all add: demo_v_def to_module_version_def)

end
