(* ===== verification/CacheProperties.thy ===== *)
theory CacheProperties
  imports ConfigCache ClientDemo
begin

text \<open>
  What the configuration cache promises: it is a map from names and versions to configurations,
  and its files bring it back after a restart as long as no two configurations share a file.
\<close>

subsection \<open>What an operation does to the files\<close>

abbreviation path_of :: "client_env \<Rightarrow> config_cache \<Rightarrow> ConfigInfo \<Rightarrow> string" where
  "path_of K s \<equiv> make_cache_file_path (turbo K) (cache_dir s)"

lemma remove_files_spec:
  "dir \<noteq> [] \<Longrightarrow> remove_files K dir it fs p =
     (if \<exists>q \<in> set it. make_cache_file_path (turbo K) dir (snd q) = p then None else fs p)"
  unfolding remove_files_def by (induction it arbitrary: fs) (auto simp: remove_config_file_def)

lemma erase_versions_files:
  "dir \<noteq> [] \<Longrightarrow> snd (erase_versions K dir vs it fs) p =
     (if \<exists>v \<in> set vs. \<exists>c. map_of it v = Some c \<and> make_cache_file_path (turbo K) dir c = p then None else fs p)"
proof (induction vs arbitrary: it fs)
  case (Cons v vs)
  show ?case
  proof (cases "map_of it v")
    case None
    with Cons show ?thesis by simp
  next
    case (Some c)
    with Cons show ?thesis by (auto simp: remove_config_file_def split: if_splits)
  qed
qed simp

lemma omap_ex: "omap_ok it \<Longrightarrow> (\<exists>q \<in> set it. P (fst q) (snd q)) \<longleftrightarrow> (\<exists>v c. map_of it v = Some c \<and> P v c)"
  by (simp add: omap_lookup_mem) force

lemma removal_files:
  assumes "cache_ok s" "cache_dir s \<noteq> []" "cache_step K op s = (r, s')" "\<And>c. op \<noteq> AddConfig c"
  shows "cache_dir s' = cache_dir s \<and> cache_files s' p =
    (if \<exists>n v c. cached s n v = Some c \<and> store_step op (cached s) n v = None \<and> path_of K s c = p
     then None else cache_files s p)"
proof (cases op)
  case (RemoveVersion name x)
  with assms show ?thesis
    by (cases "cache_map s name"; cases "cached s name x")
      (auto simp: cache_remove_version_def put_versions_def remove_config_file_def split: if_splits)
next
  case (RemoveVersions name xs)
  show ?thesis
  proof (cases "cache_map s name")
    case None
    with assms RemoveVersions show ?thesis by (auto simp: cache_remove_versions_def split: if_splits)
  next
    case (Some it)
    obtain it' fs' where e: "erase_versions K (cache_dir s) xs it (cache_files s) = (it', fs')" by fastforce
    with assms Some RemoveVersions erase_versions_files [OF assms(2), of K xs it "cache_files s" p]
    show ?thesis
      by (auto simp: cache_remove_versions_def put_versions_def split: if_splits)
  qed
next
  case (RemoveLess name x)
  show ?thesis
  proof (cases "cache_map s name")
    case None
    with assms RemoveLess show ?thesis by (auto simp: cache_remove_less_than_def split: if_splits)
  next
    case (Some it)
    note ok = cached_dom(3) [OF assms(1) Some]
    have below: "(\<exists>q \<in> set (takeWhile (\<lambda>q. fst q < x) it). path_of K s (snd q) = p) \<longleftrightarrow>
        (\<exists>v c. map_of it v = Some c \<and> v < x \<and> path_of K s c = p)"
      unfolding omap_below(3) [OF ok] omap_ex [OF ok, of "\<lambda>v c. v < x \<and> path_of K s c = p", symmetric] by blast
    have s': "s' = put_versions name (dropWhile (\<lambda>p. fst p < x) it) (s\<lparr>cache_files :=
        remove_files K (cache_dir s) (takeWhile (\<lambda>p. fst p < x) it) (cache_files s)\<rparr>)"
      using assms(3) Some by (simp add: RemoveLess cache_remove_less_than_def)
    have "cache_files s' p = (if \<exists>q \<in> set (takeWhile (\<lambda>q. fst q < x) it). path_of K s (snd q) = p then None else cache_files s p)"
      and dir: "cache_dir s' = cache_dir s"
      unfolding s' put_versions_def using remove_files_spec [OF assms(2)] by simp_all
    moreover have "(\<exists>n v c. cached s n v = Some c \<and> store_step op (cached s) n v = None \<and> path_of K s c = p) \<longleftrightarrow>
        (\<exists>v c. map_of it v = Some c \<and> v < x \<and> path_of K s c = p)"
      using Some by (auto simp: RemoveLess)
    ultimately show ?thesis using dir unfolding below by simp
  qed
next
  case (RemoveName name)
  show ?thesis
  proof (cases "cache_map s name")
    case None
    with assms RemoveName show ?thesis by (auto simp: cache_remove_config_def split: if_splits)
  next
    case (Some it)
    note ok = cached_dom(3) [OF assms(1) Some]
    have "(\<exists>n v c. cached s n v = Some c \<and> store_step op (cached s) n v = None \<and> path_of K s c = p) \<longleftrightarrow>
        (\<exists>q \<in> set it. path_of K s (snd q) = p)"
      using Some unfolding RemoveName omap_ex [OF ok, of "\<lambda>v c. path_of K s c = p"] by auto
    moreover have "s' = s\<lparr>cache_files := remove_files K (cache_dir s) it (cache_files s), cache_map := (cache_map s)(name := None)\<rparr>"
      using assms(3) Some by (simp add: RemoveName cache_remove_config_def)
    ultimately show ?thesis using remove_files_spec [OF assms(2)] by simp
  qed
qed (use assms(4) in blast)

subsection \<open>The files mirror the map\<close>

text \<open>
  What the mirror needs of its surroundings: JSON that is read back, a disk without errors, and a
  set of configurations no two of which share a file, all inside the directory.
\<close>

definition mirror_ok :: "client_env \<Rightarrow> string \<Rightarrow> string set \<Rightarrow> ConfigInfo set \<Rightarrow> bool" where
  "mirror_ok K dir inside U \<longleftrightarrow>
     dir \<noteq> [] \<and> json2pb_ok (config_json K) \<and> inside \<inter> {''.'', ''..''} = {} \<and>
     inj_on (make_cache_file_path (turbo K) dir) U \<and>
     (\<forall>c \<in> U. make_cache_file_path (turbo K) dir c \<in> inside \<and> (\<exists>t. to_json (config_json K) c = Inr t)) \<and>
     (\<forall>p. open_write_error (local_disk K) p = None \<and> write_error (local_disk K) p = None \<and>
          open_read_error (local_disk K) p = None \<and> read_error (local_disk K) p = None)"

definition contents :: "config_cache \<Rightarrow> ConfigInfo set" where
  "contents s = {c. \<exists>n v. cached s n v = Some c}"

definition mirrored :: "client_env \<Rightarrow> string set \<Rightarrow> ConfigInfo set \<Rightarrow> config_cache \<Rightarrow> bool" where
  "mirrored K inside U s \<longleftrightarrow> contents s \<subseteq> U \<and>
     (\<forall>c \<in> contents s. \<exists>t. to_json (config_json K) c = Inr t \<and> cache_files s (path_of K s c) = Some t) \<and>
     (\<forall>p \<in> inside. cache_files s p \<noteq> None \<longrightarrow> p \<in> path_of K s ` contents s)"

lemma cached_own_key:
  assumes "cache_ok s" "cached s n v = Some c"
  shows "config_name c = n \<and> config_version c = v"
proof -
  have "versions_ok n (at_or [] (cache_map s) n)" by (rule cache_ok_versions [OF assms(1)])
  with assms(2) show ?thesis by (auto simp: cached_def versions_ok_def dest!: map_of_SomeD)
qed

lemma contents_iff: "cache_ok s \<Longrightarrow> c \<in> contents s \<longleftrightarrow> cached s (config_name c) (config_version c) = Some c"
  using cached_own_key by (auto simp: contents_def)

lemma add_step:
  assumes "cache_ok s" "mirror_ok K (cache_dir s) inside U" "c \<in> U" "cache_step K (AddConfig c) s = (r, s')"
  shows "cache_dir s' = cache_dir s \<and>
    (if cached s (config_name c) (config_version c) = None
     then \<exists>t. to_json (config_json K) c = Inr t \<and> cache_files s' = (cache_files s)(path_of K s c \<mapsto> t)
     else s' = s)"
proof -
  from assms(2,3) obtain t where t: "to_json (config_json K) c = Inr t" by (auto simp: mirror_ok_def)
  have w: "dump_proto_to_file (config_json K) (local_disk K) p c fs = (Inr (), fs(p \<mapsto> t))" for p fs
    using assms(2) t by (simp add: dump_proto_to_file_def dump_proto_def write_file_ok mirror_ok_def)
  show ?thesis
    using assms(2,4) t w
    by (auto simp: cache_add_config_def cache_insert_spec [OF assms(1)] cache_write_def write_config_file_def
        put_versions_def mirror_ok_def split: option.splits)
qed

lemma mirrored_step:
  assumes "cache_ok s" "mirror_ok K (cache_dir s) inside U" "mirrored K inside U s"
    "cache_step K op s = (r, s')" "\<And>c. op = AddConfig c \<Longrightarrow> c \<in> U"
  shows "cache_dir s' = cache_dir s \<and> mirrored K inside U s'"
proof -
  note step = cache_step_refines [OF assms(1,4)]
  then have ok: "cache_ok s'" and eq: "cached s' = store_step op (cached s)" by simp_all
  note mem = contents_iff [OF assms(1)] contents_iff [OF ok]
  have inj: "inj_on (path_of K s) U" and dir: "cache_dir s \<noteq> []" using assms(2) by (simp_all add: mirror_ok_def)
  note old = assms(3) [unfolded mirrored_def]
  show ?thesis
  proof (cases "\<exists>c. op = AddConfig c")
    case True
    then obtain c where c: "op = AddConfig c" "c \<in> U" using assms(5) by blast
    note add = add_step [OF assms(1,2) c(2) assms(4) [unfolded c(1)]]
    show ?thesis
    proof (cases "cached s (config_name c) (config_version c)")
      case (Some c')
      with add assms(3) show ?thesis by simp
    next
      case None
      with add obtain t where t: "to_json (config_json K) c = Inr t" "cache_files s' = (cache_files s)(path_of K s c \<mapsto> t)"
        and dir': "cache_dir s' = cache_dir s" by auto
      have more: "contents s' = insert c (contents s)"
      proof -
        have cs: "cached s' n v = (if n = config_name c \<and> v = config_version c then Some c else cached s n v)" for n v
          using None by (simp add: eq c(1))
        have "cached s' n v = Some x \<longleftrightarrow> n = config_name c \<and> v = config_version c \<and> x = c \<or> cached s n v = Some x" for n v x
          using None by (auto simp: cs)
        then show ?thesis by (auto simp: contents_def)
      qed
      have "path_of K s d \<noteq> path_of K s c" if "d \<in> contents s" for d
      proof
        assume "path_of K s d = path_of K s c"
        with inj that old c(2) have "d = c" by (auto simp: inj_on_def)
        with that None show False by (simp add: mem)
      qed
      with t dir' more old c(2) show ?thesis by (auto simp: mirrored_def)
    qed
  next
    case False
    then have files: "cache_dir s' = cache_dir s" "cache_files s' p =
        (if \<exists>n v c. cached s n v = Some c \<and> store_step op (cached s) n v = None \<and> path_of K s c = p
         then None else cache_files s p)" for p
      using removal_files [OF assms(1) dir assms(4)] by auto
    have keeps: "c \<in> contents s \<and> (\<forall>n v d. cached s n v = Some d \<and> store_step op (cached s) n v = None \<longrightarrow> path_of K s d \<noteq> path_of K s c)"
      if "c \<in> contents s'" for c
    proof -
      have here: "store_step op (cached s) (config_name c) (config_version c) = Some c"
        using that by (simp add: mem eq)
      with False have "cached s (config_name c) (config_version c) = Some c"
        by (cases op) (auto split: if_splits)
      then have c: "c \<in> contents s" by (simp add: mem)
      moreover have "path_of K s d \<noteq> path_of K s c" if "cached s n v = Some d" "store_step op (cached s) n v = None" for n v d
      proof
        assume "path_of K s d = path_of K s c"
        moreover have "d \<in> contents s" using that(1) by (auto simp: contents_def)
        ultimately have "d = c" using c old inj by (auto simp: inj_on_def)
        with cached_own_key [OF assms(1) that(1)] that(2) here show False by simp
      qed
      ultimately show ?thesis by blast
    qed
    have "p \<in> path_of K s ` contents s'" if "p \<in> inside" "cache_files s' p \<noteq> None" for p
    proof -
      from that(2) have "cache_files s p \<noteq> None"
        and none: "\<not> (\<exists>n v c. cached s n v = Some c \<and> store_step op (cached s) n v = None \<and> path_of K s c = p)"
        by (simp_all add: files(2) split: if_splits)
      with that(1) old obtain c where c: "c \<in> contents s" "path_of K s c = p" by auto
      then have "cached s (config_name c) (config_version c) = Some c" by (simp add: mem)
      moreover from this c none have "store_step op (cached s) (config_name c) (config_version c) \<noteq> None" by auto
      ultimately have "store_step op (cached s) (config_name c) (config_version c) = Some c"
        using False by (cases op) (auto split: if_splits)
      then have "c \<in> contents s'" by (simp add: mem eq)
      with c(2) show ?thesis by blast
    qed
    with keeps old show ?thesis
      unfolding mirrored_def files(1) files(2) by (auto 0 4)
  qed
qed

definition adds_only :: "ConfigInfo set \<Rightarrow> cache_op list \<Rightarrow> bool" where
  "adds_only U ops \<longleftrightarrow> list_all (\<lambda>op. case op of AddConfig c \<Rightarrow> c \<in> U | _ \<Rightarrow> True) ops"

lemma mirrored_run:
  "cache_ok s \<Longrightarrow> mirror_ok K (cache_dir s) inside U \<Longrightarrow> mirrored K inside U s \<Longrightarrow> adds_only U ops \<Longrightarrow>
     cache_dir (run_cache K ops s) = cache_dir s \<and> mirrored K inside U (run_cache K ops s)"
proof (induction ops arbitrary: s)
  case (Cons op ops)
  obtain r s' where step: "cache_step K op s = (r, s')" by fastforce
  have "op = AddConfig c \<Longrightarrow> c \<in> U" for c using Cons.prems(4) by (simp add: adds_only_def)
  with mirrored_step [OF Cons.prems(1-3) step] have "cache_dir s' = cache_dir s" "mirrored K inside U s'" by blast+
  with Cons.IH [of s'] Cons.prems step cache_step_refines [OF Cons.prems(1) step] show ?case
    by (simp add: adds_only_def)
qed simp

subsection \<open>Restart\<close>

lemma cached_do_add_config:
  "cached (do_add_config c s) n v =
     (if n = config_name c \<and> v = config_version c then Some c else cached s n v)"
  by (auto simp: do_add_config_def cached_def Let_def at_or_upd)

lemma do_add_config_files [simp]: "cache_files (do_add_config c s) = cache_files s"
  by (simp add: do_add_config_def Let_def)

lemma load_cache_files_ok:
  assumes "\<forall>p \<in> set paths. p \<noteq> ''.'' \<and> p \<noteq> ''..'' \<and>
    load_proto_from_file (config_json K) (local_disk K) (cache_files s) p = Inr (g p)"
  shows "\<exists>s'. load_cache_files K paths s = (Inr (), s') \<and>
    (\<forall>n v. cached s' n v =
      (case find (\<lambda>p. config_name (g p) = n \<and> config_version (g p) = v) (rev paths) of
         Some p \<Rightarrow> Some (g p) | None \<Rightarrow> cached s n v))"
  using assms
proof (induction paths arbitrary: s)
  case Nil
  then show ?case by (simp add: cached_def)
next
  case (Cons q paths)
  from Cons.IH [of "do_add_config (g q) s"] Cons.prems obtain s' where
    run: "load_cache_files K paths (do_add_config (g q) s) = (Inr (), s')" and
    s': "\<forall>n v. cached s' n v =
      (case find (\<lambda>p. config_name (g p) = n \<and> config_version (g p) = v) (rev paths) of
         Some p \<Rightarrow> Some (g p) | None \<Rightarrow> cached (do_add_config (g q) s) n v)" by auto
  have find_app: "find P (xs @ [q]) = (case find P xs of None \<Rightarrow> (if P q then Some q else None) | Some y \<Rightarrow> Some y)" for P xs
    by (induction xs) simp_all
  from Cons.prems run s' show ?case
    by (auto simp: find_app cached_do_add_config split: option.splits)
qed

lemma reload_mirrored:
  assumes "cache_ok s" "mirror_ok K (cache_dir s) inside U" "mirrored K inside U s"
    "set paths = {p \<in> inside. cache_files s p \<noteq> None}"
  shows "\<exists>s'. cache_init_op K (cache_dir s) (DirEntries paths) (new_cache (cache_files s)) = (Inr (), s') \<and>
    cached s' = cached s"
proof -
  note old = assms(3) [unfolded mirrored_def] and env = assms(2) [unfolded mirror_ok_def]
  have "\<forall>p \<in> set paths. \<exists>c. c \<in> contents s \<and> path_of K s c = p" using assms(4) old by auto
  then obtain g where g: "\<forall>p \<in> set paths. g p \<in> contents s \<and> path_of K s (g p) = p" by metis
  let ?s0 = "(new_cache (cache_files s))\<lparr>cache_dir := cache_dir s\<rparr>"
  have load: "\<forall>p \<in> set paths. p \<noteq> ''.'' \<and> p \<noteq> ''..'' \<and>
    load_proto_from_file (config_json K) (local_disk K) (cache_files ?s0) p = Inr (g p)"
  proof
    fix p assume p: "p \<in> set paths"
    with g old obtain t where "to_json (config_json K) (g p) = Inr t" "cache_files s p = Some t" by metis
    then have "load_proto_from_file (config_json K) (local_disk K) (cache_files ?s0) p = Inr (g p)"
      using env by (simp add: load_proto_from_file_def read_whole_def load_proto_def json2pb_ok_def new_cache_def)
    moreover have "p \<noteq> ''.'' \<and> p \<noteq> ''..''" using p env unfolding assms(4) by blast
    ultimately show "p \<noteq> ''.'' \<and> p \<noteq> ''..'' \<and>
      load_proto_from_file (config_json K) (local_disk K) (cache_files ?s0) p = Inr (g p)" by blast
  qed
  obtain s' where run: "load_cache_files K paths ?s0 = (Inr (), s')" and
    s': "\<forall>n v. cached s' n v =
      (case find (\<lambda>p. config_name (g p) = n \<and> config_version (g p) = v) (rev paths) of
         Some p \<Rightarrow> Some (g p) | None \<Rightarrow> cached ?s0 n v)"
    using load_cache_files_ok [OF load] by blast
  have "cached s' n v = cached s n v" for n v
  proof (cases "find (\<lambda>p. config_name (g p) = n \<and> config_version (g p) = v) (rev paths)")
    case (Some p)
    then obtain i where "i < length (rev paths)" "p = rev paths ! i" "config_name (g p) = n" "config_version (g p) = v"
      unfolding find_Some_iff by blast
    then have "p \<in> set (rev paths)" using nth_mem [of i "rev paths"] by simp
    then have "p \<in> set paths" "config_name (g p) = n" "config_version (g p) = v"
      using \<open>config_name (g p) = n\<close> \<open>config_version (g p) = v\<close> by simp_all
    with g have "cached s n v = Some (g p)" using contents_iff [OF assms(1), of "g p"] by metis
    moreover from s' Some have "cached s' n v = Some (g p)" by simp
    ultimately show ?thesis by simp
  next
    case None
    have "cached s n v = None"
    proof (rule ccontr)
      assume "cached s n v \<noteq> None"
      then obtain c where c: "cached s n v = Some c" by blast
      then have mem: "c \<in> contents s" by (auto simp: contents_def)
      have inU: "c \<in> U" using mem old by blast
      then have listed: "path_of K s c \<in> set paths" unfolding assms(4) using mem old env by fastforce
      with g have "g (path_of K s c) \<in> U" "path_of K s (g (path_of K s c)) = path_of K s c" using old by blast+
      with inU env have same: "g (path_of K s c) = c" by (meson inj_onD)
      from None have "\<not> (config_name (g p) = n \<and> config_version (g p) = v)" if "p \<in> set paths" for p
        using that by (simp add: find_None_iff)
      from this [OF listed] cached_own_key [OF assms(1) c] show False unfolding same by simp
    qed
    with s' None show ?thesis by (simp add: cached_def new_cache_def)
  qed
  then have "cached s' = cached s" by (simp add: fun_eq_iff)
  moreover have "cache_init_op K (cache_dir s) (DirEntries paths) (new_cache (cache_files s)) = (Inr (), s')"
    using run env by (simp add: cache_init_op_def new_cache_def)
  ultimately show ?thesis by blast
qed

subsection \<open>The properties\<close>


text \<open>
  C11: the cache survives a restart: if no two of the configurations a run adds share a file name, then
  whatever is added and removed, a new process that initialises its cache from the directory finds
  exactly the configurations the old one held.
\<close>

theorem cache_survives_restart:
  assumes "mirror_ok K dir inside U" "adds_only U ops" "\<forall>p \<in> inside. fs p = None"
    "s = run_cache K ops (snd (cache_init_op K dir DirMissing (new_cache fs)))"
    "set paths = {p \<in> inside. cache_files s p \<noteq> None}"
  shows "\<exists>s'. cache_init_op K dir (DirEntries paths) (new_cache (cache_files s)) = (Inr (), s') \<and> cached s' = cached s"
proof -
  let ?s0 = "snd (cache_init_op K dir DirMissing (new_cache fs))"
  have s0: "cache_dir ?s0 = dir" "cached ?s0 = (\<lambda>_ _. None)" "cache_ok ?s0" "cache_files ?s0 = fs"
    using assms(1) by (simp_all add: cache_init_op_def new_cache_def mirror_ok_def cached_def cache_ok_def fun_eq_iff)
  have m0: "mirrored K inside U ?s0" using assms(3) s0 by (simp add: mirrored_def contents_def)
  have "cache_ok s" using run_cache_refines [OF s0(3)] by (simp add: assms(4))
  moreover have "cache_dir s = dir" "mirrored K inside U s"
    using mirrored_run [OF s0(3) _ m0 assms(2)] assms(1) s0(1) by (simp_all add: assms(4))
  ultimately show ?thesis using reload_mirrored [of s K inside U paths] assms(1,5) by simp
qed

text \<open>The example: two versions are added, the first is removed again.\<close>

definition demo_ops :: "cache_op list" where
  "demo_ops = [AddConfig (demo_app (demo_v 1 0 0)), AddConfig (demo_app (demo_v 1 1 0)),
     RemoveLess ''app'' (ModuleVersion 1 1 0)]"

abbreviation demo_path :: "Version \<Rightarrow> string" where
  "demo_path v \<equiv> make_cache_file_path demo_turbo ''d'' (demo_app v)"

lemma demo_paths: "demo_path (demo_v 1 0 0) = ''dapp000json''" "demo_path (demo_v 1 1 0) = ''dapp110json''"
  by (simp_all add: make_cache_file_path_def demo_turbo_def config_name_def config_type_to_string_def
      int_to_string_def nat_to_string.simps char_of_def bit_0)

lemma demo_mirror: "mirror_ok demo_client ''d'' {''dapp000json'', ''dapp110json''} {demo_app (demo_v 1 0 0), demo_app (demo_v 1 1 0)}"
proof -
  have "json2pb_ok (config_json demo_client)"
    by (simp add: demo_client_def table_json_ok)
  then show ?thesis
    by (simp add: mirror_ok_def demo_paths demo_client_def demo_disk_def table_json_def)
qed

lemma demo_run_cached:
  "cached (run_cache demo_client demo_ops (snd (cache_init_op demo_client ''d'' DirMissing (new_cache Map.empty)))) ''app'' (ModuleVersion 1 1 0)
     = Some (demo_app (demo_v 1 1 0))"
proof -
  let ?s0 = "snd (cache_init_op demo_client ''d'' DirMissing (new_cache Map.empty))"
  have "cache_ok ?s0" "cached ?s0 = (\<lambda>_ _. None)"
    by (simp_all add: cache_init_op_def new_cache_def cached_def cache_ok_def fun_eq_iff)
  with run_cache_refines [of ?s0 demo_client demo_ops] show ?thesis
    by (simp add: demo_ops_def config_name_def config_version_def less_ModuleVersion_def less_eq_ModuleVersion_def)
qed

theorem cache_survives_restart_witness:
  "\<exists>(s :: config_cache) paths s'. cache_init_op demo_client ''d'' (DirEntries paths) (new_cache (cache_files s)) = (Inr (), s') \<and>
     cached s' ''app'' (ModuleVersion 1 1 0) = Some (demo_app (demo_v 1 1 0))"
proof -
  let ?in = "{''dapp000json'', ''dapp110json''}"
  let ?s = "run_cache demo_client demo_ops (snd (cache_init_op demo_client ''d'' DirMissing (new_cache Map.empty)))"
  have "finite {p \<in> ?in. cache_files ?s p \<noteq> None}" by simp
  from finite_list [OF this] obtain paths where paths: "set paths = {p \<in> ?in. cache_files ?s p \<noteq> None}" ..
  have "adds_only {demo_app (demo_v 1 0 0), demo_app (demo_v 1 1 0)} demo_ops" by (simp add: adds_only_def demo_ops_def)
  moreover have "\<forall>p \<in> ?in. Map.empty p = None" by simp
  ultimately obtain s' where init: "cache_init_op demo_client ''d'' (DirEntries paths) (new_cache (cache_files ?s)) = (Inr (), s')"
    and same: "cached s' = cached ?s"
    using cache_survives_restart [OF demo_mirror _ _ refl paths] by blast
  show ?thesis
    by (rule exI [of _ ?s], rule exI [of _ paths], rule exI [of _ s'], rule conjI, rule init,
        unfold same, rule demo_run_cached)
qed

end
