(* ===== verification/ConfigClient.thy ===== *)
theory ConfigClient
  imports ConfigCache
begin

text \<open>
  \<open>ConfigClient\<close> (client/config_client.h, client/config_client.cc): reading configurations through
  the cache, applying and watching them, and the background thread that asks the servers for news.
  A callback is whether it is set; that it is called is an event. The functions that hold
  \<open>_watch_mutex\<close> are single operations; a round of the thread holds it twice and is split where it
  lets go of it.
\<close>

record ConfigCallbackData =
  cb_config_name :: string
  cb_current_version :: ModuleVersion
  cb_new_version :: ModuleVersion
  cb_new_content :: string
  cb_type :: string

record ConfigEventListener =
  on_new_config :: bool
  on_new_version :: bool

record ConfigWatchEntity =
  notice_version :: ModuleVersion
  listener :: ConfigEventListener

datatype notice = NewConfig ConfigCallbackData | NewVersion ConfigCallbackData

record config_client = config_cache +
  apply_version :: "string \<Rightarrow> ModuleVersion option"
  watches :: "string \<Rightarrow> ConfigWatchEntity option"
  client_shutdown :: bool
  client_inited :: bool
  thread_runs :: bool

definition kZero :: ModuleVersion where
  "kZero = ModuleVersion 0 0 0"

text \<open>The cache is another object; its operations see only its own fields.\<close>

definition the_cache :: "'a config_cache_scheme \<Rightarrow> config_cache" where
  "the_cache s = config_cache.truncate s"

definition with_cache :: "config_cache \<Rightarrow> config_client \<Rightarrow> config_client" where
  "with_cache c s = s\<lparr>cache_map := cache_map c, cache_dir := cache_dir c, cache_init := cache_init c,
     cache_files := cache_files c, made_dirs := made_dirs c\<rparr>"

definition on_cache ::
  "(config_cache \<Rightarrow> 'a \<times> config_cache) \<Rightarrow> config_client \<Rightarrow> 'a \<times> config_client" where
  "on_cache f s = (let (r, c) = f (the_cache s) in (r, with_cache c s))"

subsection \<open>Life cycle\<close>

definition config_client_init ::
  "client_env \<Rightarrow> string \<Rightarrow> dir_view \<Rightarrow> config_client \<Rightarrow> unit result \<times> config_client" where
  "config_client_init K flags_cache_dir dir s =
     (if client_inited s then (Inr (), s)
      else then_do (on_cache (cache_init_op K flags_cache_dir dir) s) (\<lambda>_ s.
        (Inr (), s\<lparr>client_shutdown := False, thread_runs := True, client_inited := True\<rparr>)))"

definition config_client_stop :: "config_client \<Rightarrow> config_client" where
  "config_client_stop s = s\<lparr>client_shutdown := True\<rparr>"

subsection \<open>Reading\<close>

text \<open>The second half of both reads: ask the servers and put the answer into the cache.\<close>

definition fetched ::
  "client_env \<Rightarrow> ConfigInfo result \<times> 's \<Rightarrow> config_client \<Rightarrow> (ConfigInfo \<times> unit result) result \<times> config_client \<times> 's" where
  "fetched K got s =
     (case fst got of
        Inl e \<Rightarrow> (Inl e, s, snd got)
      | Inr c \<Rightarrow> let (r, s) = on_cache (cache_add_config K c) s in (Inr (c, r), s, snd got))"

definition config_client_get ::
  "client_env \<Rightarrow> 's message_sender \<Rightarrow> string \<Rightarrow> string \<Rightarrow> config_client \<times> 's \<Rightarrow>
     (string \<times> string) result \<times> config_client \<times> 's" where
  "config_client_get K M name version = (\<lambda>(s, w).
     case string_to_module_version (turbo K) version of
       Inl e \<Rightarrow> (Inl e, s, w)
     | Inr mv \<Rightarrow>
         (case cache_get_config name mv empty_ConfigInfo (the_cache s) of
            Inr c \<Rightarrow> (Inr (str_field (c_content c), config_type_to_string (c_type c)), s, w)
          | Inl _ \<Rightarrow>
              then_do (fetched K (get_config_info K M name version None w) s) (\<lambda>(c, rs) sw.
                (Inr (str_field (c_content c), config_type_to_string (c_type c)), sw))))"

text \<open>Unlike the read above, this one returns the status of \<open>add_config\<close>.\<close>

definition config_client_get_latest ::
  "client_env \<Rightarrow> 's message_sender \<Rightarrow> string \<Rightarrow> config_client \<times> 's \<Rightarrow>
     (string \<times> string \<times> string) result \<times> config_client \<times> 's" where
  "config_client_get_latest K M name = (\<lambda>(s, w).
     let outputs = (\<lambda>c. (str_field (c_content c), version_to_string (version_field c), config_type_to_string (c_type c)))
     in case cache_get_latest name empty_ConfigInfo (the_cache s) of
       Inr c \<Rightarrow> (Inr (outputs c), s, w)
     | Inl _ \<Rightarrow>
         then_do (fetched K (get_config_latest_info M name None w) s) (\<lambda>(c, rs) sw.
           (case rs of Inl e \<Rightarrow> Inl e | Inr _ \<Rightarrow> Inr (outputs c), sw)))"

definition config_client_remove :: "client_env \<Rightarrow> string \<Rightarrow> config_client \<Rightarrow> unit result \<times> config_client" where
  "config_client_remove K name s = on_cache (cache_remove_config K name) s"

definition config_client_remove_version ::
  "client_env \<Rightarrow> string \<Rightarrow> string \<Rightarrow> config_client \<Rightarrow> unit result \<times> config_client" where
  "config_client_remove_version K name version s =
     (case string_to_module_version (turbo K) version of
        Inl e \<Rightarrow> (Inl e, s)
      | Inr mv \<Rightarrow> on_cache (cache_remove_version K name mv) s)"

subsection \<open>Watching and applying\<close>

definition watch_config ::
  "string \<Rightarrow> ConfigEventListener \<Rightarrow> config_client \<Rightarrow> unit result \<times> config_client" where
  "watch_config name l s =
     (case watches s name of
        Some _ \<Rightarrow> (Inl (AlreadyExists, []), s)
      | None \<Rightarrow>
          let module_version = (case apply_version s name of Some v \<Rightarrow> v | None \<Rightarrow> kZero)
          in (Inr (), s\<lparr>watches := (watches s)(name \<mapsto> \<lparr>notice_version = module_version, listener = l\<rparr>)\<rparr>))"

definition do_unwatch_config :: "string \<Rightarrow> config_client \<Rightarrow> unit result \<times> config_client" where
  "do_unwatch_config name s =
     (case watches s name of
        None \<Rightarrow> (Inl (NotFound, []), s)
      | Some _ \<Rightarrow> (Inr (), s\<lparr>watches := (watches s)(name := None)\<rparr>))"

definition unwatch_config :: "string \<Rightarrow> config_client \<Rightarrow> unit result \<times> config_client" where
  "unwatch_config name s = do_unwatch_config name s"

definition do_apply :: "string \<Rightarrow> ModuleVersion \<Rightarrow> config_client \<Rightarrow> unit result \<times> config_client" where
  "do_apply name version s = (Inr (), s\<lparr>apply_version := (apply_version s)(name \<mapsto> version)\<rparr>)"

definition apply_config :: "string \<Rightarrow> ModuleVersion \<Rightarrow> config_client \<Rightarrow> unit result \<times> config_client" where
  "apply_config name version s = do_apply name version s"

definition apply_config_text ::
  "client_env \<Rightarrow> string \<Rightarrow> string \<Rightarrow> config_client \<Rightarrow> unit result \<times> config_client" where
  "apply_config_text K name version s =
     (case string_to_module_version (turbo K) version of
        Inl e \<Rightarrow> (Inl e, s)
      | Inr mv \<Rightarrow> apply_config name mv s)"

definition do_unapply :: "client_env \<Rightarrow> string \<Rightarrow> config_client \<Rightarrow> unit result \<times> config_client" where
  "do_unapply K name s =
     (case apply_version s name of
        None \<Rightarrow> (Inl (NotFound, turbo_fmt (turbo K) ''not found config:{}'' [name]), s)
      | Some _ \<Rightarrow> (Inr (), s\<lparr>apply_version := (apply_version s)(name := None)\<rparr>))"

definition unapply_config :: "client_env \<Rightarrow> string \<Rightarrow> config_client \<Rightarrow> unit result \<times> config_client" where
  "unapply_config K name s = (let (rs, s) = do_unwatch_config name s in do_unapply K name s)"

subsection \<open>The background thread\<close>

text \<open>
  What a watch is told of a configuration. The current version in the message is always zero, also
  for a new version of a configuration the watch knows.
\<close>

definition watch_notices :: "ConfigWatchEntity \<Rightarrow> ConfigInfo \<Rightarrow> notice list" where
  "watch_notices w info =
     (let current_version = notice_version w;
          new_view = config_version info;
          data = \<lparr>cb_config_name = config_name info, cb_current_version = kZero, cb_new_version = new_view,
                  cb_new_content = str_field (c_content info), cb_type = config_type_to_string (c_type info)\<rparr>
      in if current_version = kZero
         then (if on_new_config (listener w) then [NewConfig data] else [])
         else if current_version < new_view
         then (if on_new_version (listener w) then [NewVersion data] else [])
         else [])"

text \<open>One pass over the copy of the watches: the updates it collects and the callbacks it makes.\<close>

fun check_watches ::
  "client_env \<Rightarrow> 's message_sender \<Rightarrow> (string \<times> ConfigWatchEntity) list \<Rightarrow> config_client \<times> 's \<Rightarrow>
     (string \<times> ModuleVersion) list \<times> notice list \<times> config_client \<times> 's" where
  "check_watches K M [] sw = ([], [], sw)"
| "check_watches K M ((name, w) # rest) (s, srv) =
     (let (r, srv) = get_config_latest_info M name None srv
      in case r of
           Inl e \<Rightarrow> check_watches K M rest (s, srv)
         | Inr info \<Rightarrow>
             let (rs, s) = on_cache (cache_add_config K info) s;
                 (updates, notices, sw) = check_watches K M rest (s, srv)
             in ((config_name info, config_version info) # updates, watch_notices w info @ notices, sw))"

definition commit_update :: "string \<times> ModuleVersion \<Rightarrow> config_client \<Rightarrow> config_client" where
  "commit_update item s =
     (case watches s (fst item) of
        None \<Rightarrow> s
      | Some w \<Rightarrow> s\<lparr>watches := (watches s)(fst item \<mapsto> w\<lparr>notice_version := snd item\<rparr>)\<rparr>)"

text \<open>
  \<open>period_check\<close>: the thread sees \<open>_shutdown\<close>, copies the watches, asks, and commits. \<open>walk\<close> is the
  order in which the copy is walked, \<open>others\<close> what other threads do between the two locked parts,
  \<open>after_round\<close> what they do until the next round.
\<close>

record round_view =
  walk :: "(string \<Rightarrow> ConfigWatchEntity option) \<Rightarrow> (string \<times> ConfigWatchEntity) list"
  others :: "config_client \<Rightarrow> config_client"
  after_round :: "config_client \<Rightarrow> config_client"

definition check_round ::
  "client_env \<Rightarrow> 's message_sender \<Rightarrow> round_view \<Rightarrow> config_client \<times> 's \<Rightarrow> notice list \<times> config_client \<times> 's" where
  "check_round K M R = (\<lambda>(s, srv).
     let (updates, notices, s, srv) = check_watches K M (walk R (watches s)) (s, srv);
         s = fold commit_update updates (others R s)
     in (notices, after_round R s, srv))"

fun period_check ::
  "client_env \<Rightarrow> 's message_sender \<Rightarrow> round_view list \<Rightarrow> config_client \<times> 's \<Rightarrow>
     notice list \<times> config_client \<times> 's" where
  "period_check K M [] sw = ([], sw)"
| "period_check K M (R # rounds) sw =
     (if client_shutdown (fst sw) then ([], sw)
      else let (notices, sw) = check_round K M R sw;
               (notices', sw) = period_check K M rounds sw
           in (notices @ notices', sw))"

subsection \<open>What a watch is told\<close>

definition notice_data :: "notice \<Rightarrow> ConfigCallbackData" where
  "notice_data x = (case x of NewConfig d \<Rightarrow> d | NewVersion d \<Rightarrow> d)"

definition about :: "string \<Rightarrow> notice list \<Rightarrow> notice list" where
  "about name = filter (\<lambda>x. cb_config_name (notice_data x) = name)"

text \<open>The servers answer with the configuration they are asked for.\<close>

definition answers_named :: "'s message_sender \<Rightarrow> bool" where
  "answers_named M \<longleftrightarrow> (\<forall>name srv info. fst (get_config_latest_info M name None srv) = Inr info \<longrightarrow> config_name info = name)"

lemma on_cache_frame [simp]:
  "watches (snd (on_cache f s)) = watches s" "client_shutdown (snd (on_cache f s)) = client_shutdown s"
  "apply_version (snd (on_cache f s)) = apply_version s"
  by (simp_all add: on_cache_def with_cache_def split_def Let_def)

lemma about_watch_notices: "about name (watch_notices w info) = (if config_name info = name then watch_notices w info else [])"
  by (auto simp: about_def watch_notices_def notice_data_def Let_def)

lemma about_append [simp]: "about name (xs @ ys) = about name xs @ about name ys" "about name [] = []"
  by (simp_all add: about_def)

lemma check_watches_frame:
  "check_watches K M ws (s, srv) = (updates, notices, s', srv') \<Longrightarrow>
     watches s' = watches s \<and> client_shutdown s' = client_shutdown s"
proof (induction ws arbitrary: s srv updates notices)
  case (Cons x ws)
  obtain name w where x: "x = (name, w)" by fastforce
  obtain r srv1 where r: "get_config_latest_info M name None srv = (r, srv1)" by fastforce
  show ?case
  proof (cases r)
    case (Inl e)
    with Cons r x show ?thesis by simp
  next
    case (Inr info)
    obtain rs s1 where c: "on_cache (cache_add_config K info) s = (rs, s1)" by fastforce
    obtain u n s2 srv2 where rest: "check_watches K M ws (s1, srv1) = (u, n, s2, srv2)" by (metis prod_cases4)
    with Cons.prems r c Inr x have "s' = s2" "srv' = srv2" by simp_all
    with Cons.IH [OF rest [folded this]] on_cache_frame [of "cache_add_config K info" s] c show ?thesis by simp
  qed
qed simp

text \<open>The answers a pass gets, in its order.\<close>

fun ask_all :: "'s message_sender \<Rightarrow> (string \<times> ConfigWatchEntity) list \<Rightarrow> 's \<Rightarrow> (string \<times> ConfigInfo result) list" where
  "ask_all M [] srv = []"
| "ask_all M ((name, w) # rest) srv =
     (let (r, srv) = get_config_latest_info M name None srv in (name, r) # ask_all M rest srv)"

text \<open>The answers the rounds get for one name.\<close>

fun period_answers ::
  "client_env \<Rightarrow> 's message_sender \<Rightarrow> string \<Rightarrow> round_view list \<Rightarrow> config_client \<times> 's \<Rightarrow> ConfigInfo result list" where
  "period_answers K M name [] sw = []"
| "period_answers K M name (R # rounds) sw =
     the (map_of (ask_all M (walk R (watches (fst sw))) (snd sw)) name)
       # period_answers K M name rounds (snd (check_round K M R sw))"

lemma check_watches_about:
  assumes "answers_named M" "distinct (map fst ws)" "check_watches K M ws (s, srv) = (updates, notices, s', srv')"
  shows "case map_of ws name of
      Some w \<Rightarrow> \<exists>r. map_of (ask_all M ws srv) name = Some r \<and>
        about name notices = (case r of Inl _ \<Rightarrow> [] | Inr info \<Rightarrow> watch_notices w info) \<and>
        filter (\<lambda>u. fst u = name) updates = (case r of Inl _ \<Rightarrow> [] | Inr info \<Rightarrow> [(name, config_version info)])
    | None \<Rightarrow> about name notices = [] \<and> filter (\<lambda>u. fst u = name) updates = []"
  using assms(2,3)
proof (induction ws arbitrary: s srv updates notices)
  case (Cons x ws s srv updates notices)
  obtain n w where x: "x = (n, w)" by fastforce
  obtain r srv1 where r: "get_config_latest_info M n None srv = (r, srv1)" by fastforce
  have ans: "ask_all M (x # ws) srv = (n, r) # ask_all M ws srv1" using r x by simp
  show ?case
  proof (cases r)
    case (Inl e)
    with Cons.prems r x have rest: "check_watches K M ws (s, srv1) = (updates, notices, s', srv')" by simp
    note ih = Cons.IH [OF _ rest]
    show ?thesis
    proof (cases "n = name")
      case True
      with Cons.prems(1) x have "map_of ws name = None" by (auto simp: map_of_eq_None_iff)
      with ih Cons.prems(1) True x ans Inl show ?thesis by (auto intro!: exI [of _ r])
    next
      case False
      with ih Cons.prems(1) x ans show ?thesis by (cases "map_of ws name") auto
    qed
  next
    case (Inr info)
    with assms(1) r have named: "config_name info = n" by (auto simp: answers_named_def) (metis fst_conv)
    obtain rs s1 where c: "on_cache (cache_add_config K info) s = (rs, s1)" by fastforce
    obtain us ns s2 srv2 where rest: "check_watches K M ws (s1, srv1) = (us, ns, s2, srv2)" by (metis prod_cases4)
    with Cons.prems r c Inr x named have eq: "updates = (n, config_version info) # us" "notices = watch_notices w info @ ns" "s' = s2" "srv' = srv2"
      by simp_all
    note ih = Cons.IH [OF _ rest [folded eq(3,4)]]
    show ?thesis
    proof (cases "n = name")
      case True
      with Cons.prems(1) x have "map_of ws name = None" by (auto simp: map_of_eq_None_iff)
      with ih Cons.prems(1) True x ans Inr named show ?thesis by (auto simp: eq about_watch_notices intro!: exI [of _ r])
    next
      case False
      have "about name notices = about name ns" "filter (\<lambda>u. fst u = name) updates = filter (\<lambda>u. fst u = name) us"
        using False named by (simp_all add: eq about_watch_notices)
      with False ih Cons.prems(1) x ans show ?thesis by (cases "map_of ws name") auto
    qed
  qed
qed simp

lemma fold_commit:
  "watches (fold commit_update updates s) name =
     map_option (\<lambda>w. fold (\<lambda>u w. w\<lparr>notice_version := snd u\<rparr>) (filter (\<lambda>u. fst u = name) updates) w) (watches s name)"
proof (induction updates arbitrary: s)
  case (Cons u updates)
  show ?case
    unfolding fold_simps(2) Cons.IH
    by (cases "watches s (fst u)") (auto simp: commit_update_def)
qed (simp add: option.map_id)

lemma fold_commit_shutdown [simp]: "client_shutdown (fold commit_update updates s) = client_shutdown s"
  by (induction updates arbitrary: s) (auto simp: commit_update_def split: option.split)

text \<open>A round in which no other thread comes in between and whose walk meets every watch once.\<close>

definition quiet :: "round_view \<Rightarrow> bool" where
  "quiet R \<longleftrightarrow> others R = id \<and> after_round R = id \<and>
     (\<forall>ws. finite (dom ws) \<longrightarrow> distinct (map fst (walk R ws)) \<and> map_of (walk R ws) = ws)"

definition noted :: "ConfigInfo result \<Rightarrow> ConfigWatchEntity \<Rightarrow> ConfigWatchEntity" where
  "noted r w = (case r of Inl _ \<Rightarrow> w | Inr info \<Rightarrow> w\<lparr>notice_version := config_version info\<rparr>)"

definition told :: "ConfigInfo result \<Rightarrow> ConfigWatchEntity \<Rightarrow> notice list" where
  "told r w = (case r of Inl _ \<Rightarrow> [] | Inr info \<Rightarrow> watch_notices w info)"

lemma dom_map_option: "dom (\<lambda>k. map_option (f k) (m k)) = dom m"
  by auto

lemma check_round_about:
  assumes "answers_named M" "quiet R" "finite (dom (watches s))" "watches s name = Some w"
    "check_round K M R (s, srv) = (notices, s', srv')"
  shows "\<exists>r. map_of (ask_all M (walk R (watches s)) srv) name = Some r \<and> about name notices = told r w \<and> watches s' name = Some (noted r w) \<and>
    client_shutdown s' = client_shutdown s \<and> finite (dom (watches s'))"
proof -
  from assms(2,3) have walk: "distinct (map fst (walk R (watches s)))" "map_of (walk R (watches s)) = watches s"
    and alone: "others R = id" "after_round R = id" by (simp_all add: quiet_def)
  obtain us ns s1 srv1 where c: "check_watches K M (walk R (watches s)) (s, srv) = (us, ns, s1, srv1)" by (metis prod_cases4)
  with assms(5) alone have eq: "notices = ns" "s' = fold commit_update us s1" by (simp_all add: check_round_def)
  obtain r where r: "map_of (ask_all M (walk R (watches s)) srv) name = Some r" "about name ns = told r w"
    "filter (\<lambda>u. fst u = name) us = (case r of Inl _ \<Rightarrow> [] | Inr info \<Rightarrow> [(name, config_version info)])"
    using check_watches_about [OF assms(1) walk(1) c, of name] unfolding told_def walk(2) assms(4) by auto
  note frame = check_watches_frame [OF c]
  have "watches s' name = Some (noted r w)"
    using r(3) frame assms(4) by (auto simp: eq fold_commit noted_def split: sum.splits)
  moreover have "dom (watches s') = dom (watches s)"
    using frame by (auto simp: eq fold_commit)
  ultimately show ?thesis using r frame assms(3) by (auto simp: eq)
qed

lemma period_check_about:
  assumes "answers_named M" "list_all quiet rounds" "finite (dom (watches s))" "watches s name = Some w" "\<not> client_shutdown s"
    "period_check K M rounds (s, srv) = (notices, s', srv')" "rs = period_answers K M name rounds (s, srv)"
  shows "about name notices = fst (fold (\<lambda>r (ns, w). (ns @ told r w, noted r w)) rs ([], w)) \<and>
    watches s' name = Some (fold noted rs w)"
proof -
  have acc: "fst (fold (\<lambda>r (ns, w). (ns @ told r w, noted r w)) rs (ns0, w0)) =
      ns0 @ fst (fold (\<lambda>r (ns, w). (ns @ told r w, noted r w)) rs ([], w0))" for rs ns0 w0
  proof (induction rs arbitrary: ns0 w0)
    case (Cons r rs)
    show ?case
      using Cons.IH [of "ns0 @ told r w0" "noted r w0"] Cons.IH [of "told r w0" "noted r w0"] by simp
  qed simp
  show ?thesis
    using assms(2-7)
  proof (induction rounds arbitrary: s srv w notices rs)
    case (Cons R rounds s srv w notices rs)
    obtain ns1 s1 srv1 where one: "check_round K M R (s, srv) = (ns1, s1, srv1)" by (metis prod_cases3)
    obtain ns2 s2 srv2 where more: "period_check K M rounds (s1, srv1) = (ns2, s2, srv2)" by (metis prod_cases3)
    from Cons.prems one more have eq: "notices = ns1 @ ns2" "s' = s2" "srv' = srv2" by simp_all
    obtain r where r: "map_of (ask_all M (walk R (watches s)) srv) name = Some r" "about name ns1 = told r w"
      "watches s1 name = Some (noted r w)" "\<not> client_shutdown s1" "finite (dom (watches s1))"
      using check_round_about [OF assms(1) _ Cons.prems(2,3) one] Cons.prems(1,4) by auto
    have rs: "rs = r # period_answers K M name rounds (s1, srv1)" using Cons.prems(6) r(1) one by simp
    from Cons.IH [OF _ r(5,3,4) more [folded eq(2,3)] refl] Cons.prems(1) r(2) show ?case
      by (simp add: eq(1) rs acc [of _ "told r w" "noted r w"])
  qed simp
qed

end
