(* ===== verification/WatchProperties.thy ===== *)
theory WatchProperties
  imports ConfigClient ClientDemo
begin

text \<open>
  What the background thread of the configuration client promises to a watch, and what the read of
  the latest version does not keep.
\<close>

subsection \<open>Versions that only grow\<close>

definition answered_versions :: "ConfigInfo result list \<Rightarrow> ModuleVersion list" where
  "answered_versions rs = concat (map (\<lambda>r. case r of Inl _ \<Rightarrow> [] | Inr info \<Rightarrow> [config_version info]) rs)"

abbreviation told_all :: "ConfigInfo result list \<Rightarrow> ConfigWatchEntity \<Rightarrow> notice list" where
  "told_all rs w \<equiv> fst (fold (\<lambda>r (ns, w). (ns @ told r w, noted r w)) rs ([], w))"

definition new_versions :: "notice list \<Rightarrow> ModuleVersion list" where
  "new_versions ns = map (\<lambda>x. cb_new_version (notice_data x)) ns"

lemma told_all_Cons: "told_all (r # rs) w = told r w @ told_all rs (noted r w)"
proof -
  have "fst (fold (\<lambda>r (ns, w). (ns @ told r w, noted r w)) rs (ns0, w0)) = ns0 @ told_all rs w0" for ns0 w0
  proof (induction rs arbitrary: ns0 w0)
    case (Cons r rs)
    show ?case using Cons.IH [of "ns0 @ told r w0" "noted r w0"] Cons.IH [of "told r w0" "noted r w0"] by simp
  qed simp
  from this [of "told r w" "noted r w"] show ?thesis by simp
qed

definition full_listener :: ConfigEventListener where
  "full_listener = \<lparr>on_new_config = True, on_new_version = True\<rparr>"

lemma answered_versions_Cons:
  "answered_versions (r # rs) = (case r of Inl _ \<Rightarrow> [] | Inr info \<Rightarrow> [config_version info]) @ answered_versions rs"
  by (simp add: answered_versions_def)

lemma told_new_versions:
  assumes "listener w = full_listener" "kZero < notice_version w" "sorted (notice_version w # answered_versions rs)"
  shows "notice_version w # new_versions (told_all rs w) = remdups_adj (notice_version w # answered_versions rs)"
  using assms
proof (induction rs arbitrary: w)
  case Nil
  show ?case by (simp add: new_versions_def answered_versions_def)
next
  case (Cons r rs)
  show ?case
  proof (cases r)
    case (Inl e)
    with Cons show ?thesis
      unfolding told_all_Cons by (simp add: told_def noted_def answered_versions_Cons)
  next
    case (Inr info)
    let ?w = "w\<lparr>notice_version := config_version info\<rparr>" and ?v = "config_version info"
    from Cons.prems Inr have le: "notice_version w \<le> ?v" and up: "sorted (notice_version ?w # answered_versions rs)"
      by (simp_all add: answered_versions_Cons)
    then have pos: "kZero < notice_version ?w" using Cons.prems(2) by simp
    have ih: "?v # new_versions (told_all rs ?w) = remdups_adj (?v # answered_versions rs)"
      using Cons.IH [of ?w] Cons.prems(1) pos up by simp
    have "new_versions (told r w) = (if notice_version w < ?v then [?v] else [])"
      using Cons.prems(1,2) Inr
      by (auto simp: told_def watch_notices_def Let_def new_versions_def notice_data_def full_listener_def)
    moreover have "noted r w = ?w" using Inr by (simp add: noted_def)
    moreover have "new_versions (told_all (r # rs) w) = new_versions (told r w) @ new_versions (told_all rs (noted r w))"
      unfolding told_all_Cons by (simp add: new_versions_def)
    ultimately show ?thesis
      using le ih Inr by (auto simp: answered_versions_Cons order.order_iff_strict)
  qed
qed

lemma told_from_zero:
  assumes "listener w = full_listener" "notice_version w = kZero" "sorted (answered_versions rs)"
    "\<forall>v \<in> set (answered_versions rs). kZero < v"
  shows "new_versions (told_all rs w) = remdups_adj (answered_versions rs)"
  using assms
proof (induction rs arbitrary: w)
  case Nil
  show ?case by (simp add: new_versions_def answered_versions_def)
next
  case (Cons r rs)
  show ?case
  proof (cases r)
    case (Inl e)
    with Cons show ?thesis
      unfolding told_all_Cons by (simp add: told_def noted_def answered_versions_Cons)
  next
    case (Inr info)
    let ?w = "w\<lparr>notice_version := config_version info\<rparr>"
    have "new_versions (told r w) = [config_version info]" "noted r w = ?w"
      using Cons.prems(1,2) Inr
      by (simp_all add: told_def noted_def watch_notices_def Let_def new_versions_def notice_data_def full_listener_def)
    moreover have "config_version info # new_versions (told_all rs ?w) = remdups_adj (config_version info # answered_versions rs)"
      using told_new_versions [of ?w rs] Cons.prems Inr by (simp add: answered_versions_Cons)
    moreover have "new_versions (told_all (r # rs) w) = new_versions (told r w) @ new_versions (told_all rs (noted r w))"
      unfolding told_all_Cons by (simp add: new_versions_def)
    ultimately show ?thesis using Inr by (simp add: answered_versions_Cons)
  qed
qed

text \<open>
  C9: a watch is told of each version once: over undisturbed rounds of the background thread, in each
  of which the servers either fail or answer with the latest configuration, a fresh watch is called
  back for exactly the different versions they answered with, in that order, provided those versions
  never go down and are not 0.0.0. A failed round tells nothing and loses nothing.
\<close>

theorem watch_told_each_version_once:
  assumes "answers_named M" "list_all quiet rounds" "finite (dom (watches s))" "\<not> client_shutdown s"
    "watches s name = Some \<lparr>notice_version = kZero, listener = full_listener\<rparr>"
    "rs = period_answers K M name rounds (s, srv)"
    "sorted (answered_versions rs)" "\<forall>v \<in> set (answered_versions rs). kZero < v"
  shows "new_versions (about name (fst (period_check K M rounds (s, srv)))) = remdups_adj (answered_versions rs)"
proof -
  let ?w = "\<lparr>notice_version = kZero, listener = full_listener\<rparr>"
  obtain notices s' srv' where run: "period_check K M rounds (s, srv) = (notices, s', srv')" by (metis prod_cases3)
  from period_check_about [OF assms(1-3,5,4) run assms(6)] have "about name notices = told_all rs ?w" by (rule conjunct1)
  then show ?thesis using told_from_zero [OF _ _ assms(7,8), of ?w] by (simp add: run)
qed

text \<open>The example: servers that publish a version, fail, and publish two more, with one watch.\<close>

definition demo_news :: "nat message_sender" where
  "demo_news = \<lparr>send_manager = (\<lambda>n rq srv. (Inl (Unavailable, []), srv)),
     send_query = (\<lambda>n rq srv. (if srv = 1 then Inl (Unavailable, [])
        else Inr (empty_query_response\<lparr>dr_config_infos :=
          [(demo_app (demo_v 1 (int srv div 3) 0))\<lparr>c_name := Some (msg [] (dq_config_name rq))\<rparr>]\<rparr>), Suc srv))\<rparr>"

definition demo_round :: round_view where
  "demo_round = \<lparr>walk = (\<lambda>ws. map (\<lambda>k. (k, the (ws k))) (sorted_list_of_set (dom ws))), others = id, after_round = id\<rparr>"

definition demo_watching :: config_client where
  "demo_watching = \<lparr>cache_map = Map.empty, cache_dir = [], cache_init = True, cache_files = Map.empty, made_dirs = [],
     apply_version = Map.empty, watches = [''app'' \<mapsto> \<lparr>notice_version = kZero, listener = full_listener\<rparr>],
     client_shutdown = False, client_inited = True, thread_runs = True\<rparr>"

lemma demo_round_quiet: "quiet demo_round"
proof -
  have "map_of (map (\<lambda>k. (k, the (ws k))) (sorted_list_of_set (dom ws))) = ws" if "finite (dom ws)"
    for ws :: "string \<Rightarrow> ConfigWatchEntity option"
    using that by (auto simp: map_of_map_restrict restrict_map_def fun_eq_iff domIff)
  then show ?thesis by (simp add: quiet_def demo_round_def comp_def)
qed

lemma demo_ask:
  "get_config_latest_info demo_news name None srv =
     (if srv = 1 then Inl (Unavailable, [])
      else Inr ((demo_app (demo_v 1 (int srv div 3) 0))\<lparr>c_name := Some name\<rparr>), Suc srv)"
  by (simp add: get_config_latest_info_def ask_def client_query_def demo_news_def the_config_def empty_query_response_def
      empty_query_def)

abbreviation demo_answer :: "nat \<Rightarrow> ConfigInfo result" where
  "demo_answer srv \<equiv> (if srv = 1 then Inl (Unavailable, []) else Inr (demo_app (demo_v 1 (int srv div 3) 0)))"

lemma demo_app_named: "(demo_app v)\<lparr>c_name := Some ''app''\<rparr> = demo_app v"
  by (simp add: demo_app_def)

lemma demo_check_round:
  assumes "watches s = [''app'' \<mapsto> w]"
  shows "\<exists>ns s' w'. check_round K demo_news demo_round (s, srv) = (ns, s', Suc srv) \<and> watches s' = [''app'' \<mapsto> w'] \<and>
    period_answers K demo_news ''app'' (demo_round # rounds) (s, srv) =
      demo_answer srv # period_answers K demo_news ''app'' rounds (s', Suc srv)"
proof -
  have walk: "walk demo_round (watches s) = [(''app'', w)]" by (simp add: demo_round_def assms)
  have o: "others demo_round = id" "after_round demo_round = id" by (simp_all add: demo_round_def)
  have name: "config_name (demo_app v) = ''app''" for v by (simp add: config_name_def)
  obtain us ns s1 where c: "check_watches K demo_news [(''app'', w)] (s, srv) = (us, ns, s1, Suc srv)" "\<forall>u \<in> set us. fst u = ''app''"
    by (cases "srv = 1"; cases "on_cache (cache_add_config K (demo_app (demo_v 1 (int srv div 3) 0))) s")
      (auto simp: demo_ask demo_app_named name)
  let ?s' = "fold commit_update us s1"
  have run: "check_round K demo_news demo_round (s, srv) = (ns, ?s', Suc srv)"
    by (simp add: check_round_def walk c(1) o del: check_watches.simps)
  have "watches s1 = [''app'' \<mapsto> w]" using check_watches_frame [OF c(1)] assms by simp
  with c(2) obtain w' where "watches ?s' = [''app'' \<mapsto> w']"
    by (auto simp: fun_eq_iff fold_commit)
  with run show ?thesis by (auto simp: walk demo_ask demo_app_named)
qed

lemma demo_answers:
  "watches s = [''app'' \<mapsto> w] \<Longrightarrow>
     period_answers K demo_news ''app'' (replicate n demo_round) (s, srv) = map demo_answer [srv..<srv + n]"
proof (induction n arbitrary: s w srv)
  case (Suc n)
  obtain s' w' where "watches s' = [''app'' \<mapsto> w']"
    "period_answers K demo_news ''app'' (demo_round # replicate n demo_round) (s, srv) =
       demo_answer srv # period_answers K demo_news ''app'' (replicate n demo_round) (s', Suc srv)"
    using demo_check_round [OF Suc.prems, of K srv "replicate n demo_round"] by blast
  moreover have "[srv..<srv + Suc n] = srv # [Suc srv..<Suc srv + n]" by (simp add: upt_conv_Cons del: upt_Suc)
  ultimately show ?case using Suc.IH [of s' w' "Suc srv"] by (simp del: period_answers.simps upt_Suc)
qed simp

theorem watch_told_each_version_once_witness:
  "new_versions (about ''app'' (fst (period_check demo_client demo_news
     (replicate 4 demo_round) (demo_watching, 0)))) = [ModuleVersion 1 0 0, ModuleVersion 1 1 0]"
proof -
  let ?rounds = "replicate 4 demo_round"
  let ?rs = "period_answers demo_client demo_news ''app'' ?rounds (demo_watching, 0)"
  have versions: "answered_versions ?rs = [ModuleVersion 1 0 0, ModuleVersion 1 0 0, ModuleVersion 1 1 0]"
    by (subst demo_answers) (simp_all add: answered_versions_def config_version_def demo_watching_def upt_conv_Cons)
  have "answers_named demo_news" by (auto simp: answers_named_def demo_ask config_name_def split: if_splits)
  moreover have "list_all quiet ?rounds" by (simp add: demo_round_quiet list_all_iff)
  moreover have "finite (dom (watches demo_watching))" "\<not> client_shutdown demo_watching"
    "watches demo_watching ''app'' = Some \<lparr>notice_version = kZero, listener = full_listener\<rparr>"
    by (simp_all add: demo_watching_def)
  moreover have "sorted (answered_versions ?rs)" "\<forall>v \<in> set (answered_versions ?rs). kZero < v"
    unfolding versions by (simp_all add: less_ModuleVersion_def less_eq_ModuleVersion_def kZero_def)
  ultimately have "new_versions (about ''app'' (fst (period_check demo_client demo_news ?rounds (demo_watching, 0)))) =
      remdups_adj (answered_versions ?rs)"
    by (intro watch_told_each_version_once [OF _ _ _ _ _ refl])
  then show ?thesis unfolding versions by simp
qed

end
