(* ===== verification/SchemaClient.thy ===== *)
theory SchemaClient
  imports DiscoveryClient
begin

text \<open>
  \<open>DiscoveryClient\<close>, continued (client/discovery.cc): the operations on namespaces, zones and
  servlets. None of those that change something looks at the error code of the answer. A vector
  that a call has begun to fill keeps what it got when the call fails, so \<open>dump_all\<close> and the
  \<open>*_to_json\<close> operations give it back in either case.
\<close>

text \<open>The loops \<open>for (auto &x: xs) { dump_proto(x, json); out.push_back(json); }\<close>, over the messages the guard lets through.\<close>

fun dump_all :: "'m json2pb \<Rightarrow> 'm list \<Rightarrow> string list \<Rightarrow> unit result \<times> string list" where
  "dump_all J [] out = (Inr (), out)"
| "dump_all J (m # ms) out =
     (case dump_proto J m of Inl e \<Rightarrow> (Inl e, out) | Inr json \<Rightarrow> dump_all J ms (out @ [json]))"

definition list_to_json ::
  "'m json2pb \<Rightarrow> ('m \<Rightarrow> bool) \<Rightarrow> 'm list result \<times> 's \<Rightarrow> string list \<Rightarrow> (unit result \<times> string list) \<times> 's" where
  "list_to_json J guard listed out =
     (case fst listed of
        Inl e \<Rightarrow> ((Inl e, out), snd listed)
      | Inr ms \<Rightarrow> (dump_all J (filter guard ms) out, snd listed))"

text \<open>How every \<open>list_*_to_file\<close> goes on: the texts are written to the file, one after the other.\<close>

definition save_texts ::
  "disk \<Rightarrow> string \<Rightarrow> (unit result \<times> string list) \<times> 's \<Rightarrow> files \<Rightarrow> unit result \<times> 's \<times> files" where
  "save_texts D save_path listed fs =
     (case fst (fst listed) of
        Inl e \<Rightarrow> (Inl e, snd listed, fs)
      | Inr _ \<Rightarrow> let (r, fs) = write_file D save_path (snd (fst listed)) fs in (r, snd listed, fs))"

text \<open>How every \<open>save_*_json\<close> goes on.\<close>

definition save_message ::
  "'m json2pb \<Rightarrow> disk \<Rightarrow> string \<Rightarrow> 'm result \<times> 's \<Rightarrow> files \<Rightarrow> unit result \<times> 's \<times> files" where
  "save_message J D json_path got fs =
     (case fst got of
        Inl e \<Rightarrow> (Inl e, snd got, fs)
      | Inr m \<Rightarrow> let (r, fs) = dump_proto_to_file J D json_path m fs in (r, snd got, fs))"

text \<open>A message read from JSON goes into a request.\<close>

definition submit_loaded ::
  "'s message_sender \<Rightarrow> int option \<Rightarrow> ('m \<Rightarrow> DiscoveryManagerRequest) \<Rightarrow> 'm result \<Rightarrow> 's \<Rightarrow> unit result \<times> 's" where
  "submit_loaded M retry_time request loaded s =
     (case loaded of Inl e \<Rightarrow> (Inl e, s) | Inr m \<Rightarrow> submit_unchecked M retry_time (request m) s)"

subsection \<open>Namespaces\<close>

definition create_namespace_info ::
  "'s message_sender \<Rightarrow> NameSpaceInfo \<Rightarrow> int option \<Rightarrow> 's \<Rightarrow> unit result \<times> 's" where
  "create_namespace_info M info retry_time s =
     submit_unchecked M retry_time ((empty_request OP_CREATE_NAMESPACE)\<lparr>rq_namespace_info := Some info\<rparr>) s"

definition client_create_namespace ::
  "client_env \<Rightarrow> 's message_sender \<Rightarrow> string \<Rightarrow> int \<Rightarrow> int option \<Rightarrow> 's \<Rightarrow> unit result \<times> 's" where
  "client_create_namespace K M ns quota retry_time s =
     (case check_valid_name_type (turbo K) ns of
        Inl e \<Rightarrow> (Inl e, s)
      | Inr _ \<Rightarrow>
          let ns_req = empty_NameSpaceInfo\<lparr>ns_name := ns\<rparr>;
              ns_req = (if quota \<noteq> 0 then ns_req\<lparr>ns_quota := Some quota\<rparr> else ns_req)
          in submit_unchecked M retry_time ((empty_request OP_CREATE_NAMESPACE)\<lparr>rq_namespace_info := Some ns_req\<rparr>) s)"

definition create_namespace_by_json ::
  "client_env \<Rightarrow> 's message_sender \<Rightarrow> string \<Rightarrow> int option \<Rightarrow> 's \<Rightarrow> unit result \<times> 's" where
  "create_namespace_by_json K M json_str retry_time s =
     submit_loaded M retry_time (\<lambda>info. (empty_request OP_CREATE_NAMESPACE)\<lparr>rq_namespace_info := Some info\<rparr>)
       (load_proto (ns_json K) json_str) s"

definition create_namespace_by_file ::
  "client_env \<Rightarrow> 's message_sender \<Rightarrow> files \<Rightarrow> string \<Rightarrow> int option \<Rightarrow> 's \<Rightarrow> unit result \<times> 's" where
  "create_namespace_by_file K M fs path retry_time s =
     submit_loaded M retry_time (\<lambda>info. (empty_request OP_CREATE_NAMESPACE)\<lparr>rq_namespace_info := Some info\<rparr>)
       (load_proto_from_file (ns_json K) (local_disk K) fs path) s"

definition client_remove_namespace ::
  "client_env \<Rightarrow> 's message_sender \<Rightarrow> string \<Rightarrow> int option \<Rightarrow> 's \<Rightarrow> unit result \<times> 's" where
  "client_remove_namespace K M ns retry_time s =
     (case check_valid_name_type (turbo K) ns of
        Inl e \<Rightarrow> (Inl e, s)
      | Inr _ \<Rightarrow> submit_unchecked M retry_time
          ((empty_request OP_DROP_NAMESPACE)\<lparr>rq_namespace_info := Some (empty_NameSpaceInfo\<lparr>ns_name := ns\<rparr>)\<rparr>) s)"

definition modify_namespace_info ::
  "'s message_sender \<Rightarrow> NameSpaceInfo \<Rightarrow> int option \<Rightarrow> 's \<Rightarrow> unit result \<times> 's" where
  "modify_namespace_info M info retry_time s =
     submit_unchecked M retry_time ((empty_request OP_MODIFY_NAMESPACE)\<lparr>rq_namespace_info := Some info\<rparr>) s"

definition modify_namespace_by_json ::
  "client_env \<Rightarrow> 's message_sender \<Rightarrow> string \<Rightarrow> int option \<Rightarrow> 's \<Rightarrow> unit result \<times> 's" where
  "modify_namespace_by_json K M json_str retry_time s =
     submit_loaded M retry_time (\<lambda>info. (empty_request OP_MODIFY_NAMESPACE)\<lparr>rq_namespace_info := Some info\<rparr>)
       (load_proto (ns_json K) json_str) s"

definition modify_namespace_by_file ::
  "client_env \<Rightarrow> 's message_sender \<Rightarrow> files \<Rightarrow> string \<Rightarrow> int option \<Rightarrow> 's \<Rightarrow> unit result \<times> 's" where
  "modify_namespace_by_file K M fs path retry_time s =
     submit_loaded M retry_time (\<lambda>info. (empty_request OP_MODIFY_NAMESPACE)\<lparr>rq_namespace_info := Some info\<rparr>)
       (load_proto_from_file (ns_json K) (local_disk K) fs path) s"

definition list_namespace_info ::
  "'s message_sender \<Rightarrow> NameSpaceInfo list \<Rightarrow> int option \<Rightarrow> 's \<Rightarrow> NameSpaceInfo list result \<times> 's" where
  "list_namespace_info M ns_list retry_time s =
     then_do (ask M retry_time (empty_query QUERY_NAMESPACE) s) (\<lambda>response s.
       (Inr (ns_list @ dr_namespace_infos response), s))"

definition list_namespace ::
  "'s message_sender \<Rightarrow> string list \<Rightarrow> int option \<Rightarrow> 's \<Rightarrow> string list result \<times> 's" where
  "list_namespace M ns_list retry_time s =
     then_do (list_namespace_info M [] retry_time s) (\<lambda>ns_proto_list s.
       (Inr (ns_list @ map ns_name ns_proto_list), s))"

definition list_namespace_to_json ::
  "client_env \<Rightarrow> 's message_sender \<Rightarrow> string list \<Rightarrow> int option \<Rightarrow> 's \<Rightarrow> (unit result \<times> string list) \<times> 's" where
  "list_namespace_to_json K M ns_list retry_time s =
     list_to_json (ns_json K) (\<lambda>_. True) (list_namespace_info M [] retry_time s) ns_list"

definition list_namespace_to_file ::
  "client_env \<Rightarrow> 's message_sender \<Rightarrow> string \<Rightarrow> int option \<Rightarrow> 's \<times> files \<Rightarrow> unit result \<times> 's \<times> files" where
  "list_namespace_to_file K M save_path retry_time =
     (\<lambda>(s, fs). save_texts (local_disk K) save_path (list_namespace_to_json K M [] retry_time s) fs)"

definition get_namespace ::
  "client_env \<Rightarrow> 's message_sender \<Rightarrow> string \<Rightarrow> int option \<Rightarrow> 's \<Rightarrow> NameSpaceInfo result \<times> 's" where
  "get_namespace K M namespace_name retry_time s =
     (if namespace_name = [] then (Inl (InvalidArgument, ''namespace name empty''), s)
      else then_do (ask M retry_time ((empty_query QUERY_NAMESPACE)\<lparr>dq_namespace_name := Some namespace_name\<rparr>) s)
        (\<lambda>response s. (case dr_namespace_infos response of
             [ns_msg] \<Rightarrow> Inr ns_msg
           | infos \<Rightarrow> Inl (Unknown, turbo_fmt (turbo K) ''bad proto format for namespace info size {}''
                        [int_to_string (int (length infos))]), s)))"

definition get_namespace_json ::
  "client_env \<Rightarrow> 's message_sender \<Rightarrow> string \<Rightarrow> int option \<Rightarrow> 's \<Rightarrow> string result \<times> 's" where
  "get_namespace_json K M namespace_name retry_time s =
     then_do (get_namespace K M namespace_name retry_time s) (\<lambda>ns_msg s. (dump_proto (ns_json K) ns_msg, s))"

definition save_namespace_json ::
  "client_env \<Rightarrow> 's message_sender \<Rightarrow> string \<Rightarrow> string \<Rightarrow> int option \<Rightarrow> 's \<times> files \<Rightarrow> unit result \<times> 's \<times> files" where
  "save_namespace_json K M namespace_name json_path retry_time =
     (\<lambda>(s, fs). save_message (ns_json K) (local_disk K) json_path (get_namespace K M namespace_name retry_time s) fs)"

subsection \<open>Zones\<close>

definition create_zone_info ::
  "'s message_sender \<Rightarrow> ZoneInfo \<Rightarrow> int option \<Rightarrow> 's \<Rightarrow> unit result \<times> 's" where
  "create_zone_info M info retry_time s =
     submit_unchecked M retry_time ((empty_request OP_CREATE_ZONE)\<lparr>rq_zone_info := Some info\<rparr>) s"

definition client_create_zone ::
  "'s message_sender \<Rightarrow> string \<Rightarrow> string \<Rightarrow> int \<Rightarrow> int option \<Rightarrow> 's \<Rightarrow> unit result \<times> 's" where
  "client_create_zone M ns zone quota retry_time s =
     (let zone_msg = empty_ZoneInfo\<lparr>z_namespace_name := ns\<rparr>;
          zone_msg = zone_msg\<lparr>z_zone := zone\<rparr>;
          zone_msg = (if quota \<noteq> 0 then zone_msg\<lparr>z_quota := Some quota\<rparr> else zone_msg)
      in create_zone_info M zone_msg retry_time s)"

definition create_zone_by_json ::
  "client_env \<Rightarrow> 's message_sender \<Rightarrow> string \<Rightarrow> int option \<Rightarrow> 's \<Rightarrow> unit result \<times> 's" where
  "create_zone_by_json K M json_str retry_time s =
     submit_loaded M retry_time (\<lambda>info. (empty_request OP_CREATE_ZONE)\<lparr>rq_zone_info := Some info\<rparr>)
       (load_proto (zone_json K) json_str) s"

definition create_zone_by_file ::
  "client_env \<Rightarrow> 's message_sender \<Rightarrow> files \<Rightarrow> string \<Rightarrow> int option \<Rightarrow> 's \<Rightarrow> unit result \<times> 's" where
  "create_zone_by_file K M fs path retry_time s =
     submit_loaded M retry_time (\<lambda>info. (empty_request OP_CREATE_ZONE)\<lparr>rq_zone_info := Some info\<rparr>)
       (load_proto_from_file (zone_json K) (local_disk K) fs path) s"

definition client_remove_zone ::
  "'s message_sender \<Rightarrow> string \<Rightarrow> string \<Rightarrow> int option \<Rightarrow> 's \<Rightarrow> unit result \<times> 's" where
  "client_remove_zone M ns zone retry_time s =
     submit_unchecked M retry_time ((empty_request OP_DROP_ZONE)
       \<lparr>rq_zone_info := Some (empty_ZoneInfo\<lparr>z_namespace_name := ns, z_zone := zone\<rparr>)\<rparr>) s"

definition modify_zone_info ::
  "'s message_sender \<Rightarrow> ZoneInfo \<Rightarrow> int option \<Rightarrow> 's \<Rightarrow> unit result \<times> 's" where
  "modify_zone_info M info retry_time s =
     submit_unchecked M retry_time ((empty_request OP_MODIFY_ZONE)\<lparr>rq_zone_info := Some info\<rparr>) s"

definition modify_zone_by_json ::
  "client_env \<Rightarrow> 's message_sender \<Rightarrow> string \<Rightarrow> int option \<Rightarrow> 's \<Rightarrow> unit result \<times> 's" where
  "modify_zone_by_json K M json_str retry_time s =
     submit_loaded M retry_time (\<lambda>info. (empty_request OP_MODIFY_ZONE)\<lparr>rq_zone_info := Some info\<rparr>)
       (load_proto (zone_json K) json_str) s"

definition modify_zone_by_file ::
  "client_env \<Rightarrow> 's message_sender \<Rightarrow> files \<Rightarrow> string \<Rightarrow> int option \<Rightarrow> 's \<Rightarrow> unit result \<times> 's" where
  "modify_zone_by_file K M fs path retry_time s =
     submit_loaded M retry_time (\<lambda>info. (empty_request OP_MODIFY_ZONE)\<lparr>rq_zone_info := Some info\<rparr>)
       (load_proto_from_file (zone_json K) (local_disk K) fs path) s"

definition list_zone_info ::
  "'s message_sender \<Rightarrow> ZoneInfo list \<Rightarrow> int option \<Rightarrow> 's \<Rightarrow> ZoneInfo list result \<times> 's" where
  "list_zone_info M zone_list retry_time s =
     then_do (ask M retry_time (empty_query QUERY_ZONE) s) (\<lambda>response s.
       (Inr (zone_list @ dr_zone_infos response), s))"

text \<open>The server is asked to fill the caller's list; the list that is filtered stays empty.\<close>

definition list_zone_info_of ::
  "'s message_sender \<Rightarrow> string \<Rightarrow> ZoneInfo list \<Rightarrow> int option \<Rightarrow> 's \<Rightarrow> ZoneInfo list result \<times> 's" where
  "list_zone_info_of M ns zone_list retry_time s =
     (let all_zone_list = []
      in then_do (list_zone_info M zone_list retry_time s) (\<lambda>zone_list s.
           (Inr (zone_list @ filter (\<lambda>zone. z_namespace_name zone = ns) all_zone_list), s)))"

definition zone_line ::
  "client_env \<Rightarrow> ZoneInfo \<Rightarrow> string" where
  "zone_line K zone =
     turbo_fmt (turbo K) ''{},{}'' [z_namespace_name zone, z_zone zone]"

definition list_zone ::
  "client_env \<Rightarrow> 's message_sender \<Rightarrow> string list \<Rightarrow> int option \<Rightarrow> 's \<Rightarrow> string list result \<times> 's" where
  "list_zone K M zone_list retry_time s =
     then_do (list_zone_info M [] retry_time s) (\<lambda>zone_proto_list s.
       (Inr (zone_list @ map (zone_line K) zone_proto_list), s))"

definition list_zone_to_json ::
  "client_env \<Rightarrow> 's message_sender \<Rightarrow> string list \<Rightarrow> int option \<Rightarrow> 's \<Rightarrow> (unit result \<times> string list) \<times> 's" where
  "list_zone_to_json K M zone_list retry_time s =
     list_to_json (zone_json K) (\<lambda>_. True) (list_zone_info M [] retry_time s) zone_list"

definition list_zone_to_file ::
  "client_env \<Rightarrow> 's message_sender \<Rightarrow> string \<Rightarrow> int option \<Rightarrow> 's \<times> files \<Rightarrow> unit result \<times> 's \<times> files" where
  "list_zone_to_file K M save_path retry_time =
     (\<lambda>(s, fs). save_texts (local_disk K) save_path (list_zone_to_json K M [] retry_time s) fs)"

definition list_zone_of ::
  "client_env \<Rightarrow> 's message_sender \<Rightarrow> string \<Rightarrow> string list \<Rightarrow> int option \<Rightarrow> 's \<Rightarrow> string list result \<times> 's" where
  "list_zone_of K M ns zone_list retry_time s =
     then_do (list_zone_info_of M ns [] retry_time s) (\<lambda>zone_proto_list s.
       (Inr (zone_list @ map (zone_line K) zone_proto_list), s))"

definition list_zone_to_json_of ::
  "client_env \<Rightarrow> 's message_sender \<Rightarrow> string \<Rightarrow> string list \<Rightarrow> int option \<Rightarrow> 's \<Rightarrow> (unit result \<times> string list) \<times> 's" where
  "list_zone_to_json_of K M ns zone_list retry_time s =
     list_to_json (zone_json K) (\<lambda>_. True) (list_zone_info_of M ns [] retry_time s) zone_list"

definition list_zone_to_file_of ::
  "client_env \<Rightarrow> 's message_sender \<Rightarrow> string \<Rightarrow> string \<Rightarrow> int option \<Rightarrow> 's \<times> files \<Rightarrow> unit result \<times> 's \<times> files" where
  "list_zone_to_file_of K M ns save_path retry_time =
     (\<lambda>(s, fs). save_texts (local_disk K) save_path (list_zone_to_json_of K M ns [] retry_time s) fs)"

definition get_zone ::
  "client_env \<Rightarrow> 's message_sender \<Rightarrow> string \<Rightarrow> string \<Rightarrow> int option \<Rightarrow> 's \<Rightarrow> ZoneInfo result \<times> 's" where
  "get_zone K M namespace_name zone_name retry_time s =
     (if namespace_name = [] then (Inl (InvalidArgument, ''namespace name empty''), s)
      else then_do (ask M retry_time ((empty_query QUERY_ZONE)
            \<lparr>dq_namespace_name := Some namespace_name, dq_zone := Some zone_name\<rparr>) s)
        (\<lambda>response s. (case dr_zone_infos response of
             [zone_msg] \<Rightarrow> Inr zone_msg
           | infos \<Rightarrow> Inl (Unknown, turbo_fmt (turbo K) ''bad proto format for zone info size {}''
                        [int_to_string (int (length infos))]), s)))"

definition get_zone_json ::
  "client_env \<Rightarrow> 's message_sender \<Rightarrow> string \<Rightarrow> string \<Rightarrow> int option \<Rightarrow> 's \<Rightarrow> string result \<times> 's" where
  "get_zone_json K M namespace_name zone_name retry_time s =
     then_do (get_zone K M namespace_name zone_name retry_time s) (\<lambda>zone_msg s. (dump_proto (zone_json K) zone_msg, s))"

definition save_zone_json ::
  "client_env \<Rightarrow> 's message_sender \<Rightarrow> string \<Rightarrow> string \<Rightarrow> string \<Rightarrow> int option \<Rightarrow> 's \<times> files \<Rightarrow> unit result \<times> 's \<times> files" where
  "save_zone_json K M namespace_name zone_name json_path retry_time =
     (\<lambda>(s, fs).
       save_message (zone_json K) (local_disk K) json_path (get_zone K M namespace_name zone_name retry_time s) fs)"

subsection \<open>Servlets\<close>

definition create_servlet_info ::
  "'s message_sender \<Rightarrow> ServletInfo \<Rightarrow> int option \<Rightarrow> 's \<Rightarrow> unit result \<times> 's" where
  "create_servlet_info M info retry_time s =
     submit_unchecked M retry_time ((empty_request OP_CREATE_SERVLET)\<lparr>rq_servlet_info := Some info\<rparr>) s"

definition client_create_servlet ::
  "'s message_sender \<Rightarrow> string \<Rightarrow> string \<Rightarrow> string \<Rightarrow> int option \<Rightarrow> 's \<Rightarrow> unit result \<times> 's" where
  "client_create_servlet M ns zone servlet retry_time s =
     create_servlet_info M
       (empty_ServletInfo\<lparr>sv_namespace_name := ns, sv_zone := zone, sv_servlet_name := servlet\<rparr>) retry_time s"

definition create_servlet_by_json ::
  "client_env \<Rightarrow> 's message_sender \<Rightarrow> string \<Rightarrow> int option \<Rightarrow> 's \<Rightarrow> unit result \<times> 's" where
  "create_servlet_by_json K M json_str retry_time s =
     (case load_proto (servlet_json K) json_str of
        Inl e \<Rightarrow> (Inl e, s) | Inr servlet_msg \<Rightarrow> create_servlet_info M servlet_msg retry_time s)"

definition create_servlet_by_file ::
  "client_env \<Rightarrow> 's message_sender \<Rightarrow> files \<Rightarrow> string \<Rightarrow> int option \<Rightarrow> 's \<Rightarrow> unit result \<times> 's" where
  "create_servlet_by_file K M fs path retry_time s =
     (case load_proto_from_file (servlet_json K) (local_disk K) fs path of
        Inl e \<Rightarrow> (Inl e, s) | Inr servlet_msg \<Rightarrow> create_servlet_info M servlet_msg retry_time s)"

definition client_remove_servlet ::
  "'s message_sender \<Rightarrow> string \<Rightarrow> string \<Rightarrow> string \<Rightarrow> int option \<Rightarrow> 's \<Rightarrow> unit result \<times> 's" where
  "client_remove_servlet M ns zone servlet retry_time s =
     submit_unchecked M retry_time ((empty_request OP_DROP_SERVLET)\<lparr>rq_servlet_info :=
       Some (empty_ServletInfo\<lparr>sv_namespace_name := ns, sv_zone := zone, sv_servlet_name := servlet\<rparr>)\<rparr>) s"

text \<open>The operation it sends is that of \<open>create_servlet\<close>.\<close>

definition modify_servlet_info ::
  "'s message_sender \<Rightarrow> ServletInfo \<Rightarrow> int option \<Rightarrow> 's \<Rightarrow> unit result \<times> 's" where
  "modify_servlet_info M info retry_time s =
     submit_unchecked M retry_time ((empty_request OP_CREATE_SERVLET)\<lparr>rq_servlet_info := Some info\<rparr>) s"

definition modify_servlet_by_json ::
  "client_env \<Rightarrow> 's message_sender \<Rightarrow> string \<Rightarrow> int option \<Rightarrow> 's \<Rightarrow> unit result \<times> 's" where
  "modify_servlet_by_json K M json_str retry_time s =
     (case load_proto (servlet_json K) json_str of
        Inl e \<Rightarrow> (Inl e, s) | Inr servlet_msg \<Rightarrow> modify_servlet_info M servlet_msg retry_time s)"

definition modify_servlet_by_file ::
  "client_env \<Rightarrow> 's message_sender \<Rightarrow> files \<Rightarrow> string \<Rightarrow> int option \<Rightarrow> 's \<Rightarrow> unit result \<times> 's" where
  "modify_servlet_by_file K M fs path retry_time s =
     (case load_proto_from_file (servlet_json K) (local_disk K) fs path of
        Inl e \<Rightarrow> (Inl e, s) | Inr servlet_msg \<Rightarrow> modify_servlet_info M servlet_msg retry_time s)"

text \<open>The query it sends is that for zones.\<close>

definition list_servlet_info ::
  "'s message_sender \<Rightarrow> ServletInfo list \<Rightarrow> int option \<Rightarrow> 's \<Rightarrow> ServletInfo list result \<times> 's" where
  "list_servlet_info M servlet_list retry_time s =
     then_do (ask M retry_time (empty_query QUERY_ZONE) s) (\<lambda>response s.
       (Inr (servlet_list @ dr_servlet_infos response), s))"

definition list_servlet ::
  "'s message_sender \<Rightarrow> string list \<Rightarrow> int option \<Rightarrow> 's \<Rightarrow> string list result \<times> 's" where
  "list_servlet M servlet_list retry_time s =
     then_do (list_servlet_info M [] retry_time s) (\<lambda>all_servlet_list s.
       (Inr (servlet_list @ map sv_servlet_name all_servlet_list), s))"

definition list_servlet_to_json ::
  "client_env \<Rightarrow> 's message_sender \<Rightarrow> string list \<Rightarrow> int option \<Rightarrow> 's \<Rightarrow> (unit result \<times> string list) \<times> 's" where
  "list_servlet_to_json K M servlet_list retry_time s =
     list_to_json (servlet_json K) (\<lambda>_. True) (list_servlet_info M [] retry_time s) servlet_list"

definition list_servlet_to_file ::
  "client_env \<Rightarrow> 's message_sender \<Rightarrow> string \<Rightarrow> int option \<Rightarrow> 's \<times> files \<Rightarrow> unit result \<times> 's \<times> files" where
  "list_servlet_to_file K M save_path retry_time =
     (\<lambda>(s, fs). save_texts (local_disk K) save_path (list_servlet_to_json K M [] retry_time s) fs)"

definition list_servlet_info_of ::
  "'s message_sender \<Rightarrow> string \<Rightarrow> ServletInfo list \<Rightarrow> int option \<Rightarrow> 's \<Rightarrow> ServletInfo list result \<times> 's" where
  "list_servlet_info_of M ns servlet_list retry_time s =
     then_do (list_servlet_info M [] retry_time s) (\<lambda>all_servlet_list s.
       (Inr (servlet_list @ filter (\<lambda>v. sv_namespace_name v = ns) all_servlet_list), s))"

definition list_servlet_of ::
  "'s message_sender \<Rightarrow> string \<Rightarrow> string list \<Rightarrow> int option \<Rightarrow> 's \<Rightarrow> string list result \<times> 's" where
  "list_servlet_of M ns servlet_list retry_time s =
     then_do (list_servlet_info M [] retry_time s) (\<lambda>all_servlet_list s.
       (Inr (servlet_list @ map sv_servlet_name (filter (\<lambda>v. sv_namespace_name v = ns) all_servlet_list)), s))"

definition list_servlet_to_json_of ::
  "client_env \<Rightarrow> 's message_sender \<Rightarrow> string \<Rightarrow> string list \<Rightarrow> int option \<Rightarrow> 's \<Rightarrow> (unit result \<times> string list) \<times> 's" where
  "list_servlet_to_json_of K M ns servlet_list retry_time s =
     list_to_json (servlet_json K) (\<lambda>v. sv_namespace_name v = ns) (list_servlet_info M [] retry_time s) servlet_list"

definition list_servlet_to_file_of ::
  "client_env \<Rightarrow> 's message_sender \<Rightarrow> string \<Rightarrow> string \<Rightarrow> int option \<Rightarrow> 's \<times> files \<Rightarrow> unit result \<times> 's \<times> files" where
  "list_servlet_to_file_of K M ns save_path retry_time =
     (\<lambda>(s, fs). save_texts (local_disk K) save_path (list_servlet_to_json_of K M ns [] retry_time s) fs)"

definition list_servlet_info_in ::
  "'s message_sender \<Rightarrow> string \<Rightarrow> string \<Rightarrow> ServletInfo list \<Rightarrow> int option \<Rightarrow> 's \<Rightarrow> ServletInfo list result \<times> 's" where
  "list_servlet_info_in M ns zone servlet_list retry_time s =
     then_do (list_servlet_info M [] retry_time s) (\<lambda>all_servlet_list s.
       (Inr (servlet_list @ filter (\<lambda>v. sv_namespace_name v = ns \<and> sv_zone v = zone) all_servlet_list), s))"

definition list_servlet_in ::
  "'s message_sender \<Rightarrow> string \<Rightarrow> string \<Rightarrow> string list \<Rightarrow> int option \<Rightarrow> 's \<Rightarrow> string list result \<times> 's" where
  "list_servlet_in M ns zone servlet_list retry_time s =
     then_do (list_servlet_info M [] retry_time s) (\<lambda>all_servlet_list s.
       (Inr (servlet_list @ map sv_servlet_name (filter (\<lambda>v. sv_namespace_name v = ns \<and> sv_zone v = zone) all_servlet_list)), s))"

definition list_servlet_to_json_in ::
  "client_env \<Rightarrow> 's message_sender \<Rightarrow> string \<Rightarrow> string \<Rightarrow> string list \<Rightarrow> int option \<Rightarrow> 's \<Rightarrow> (unit result \<times> string list) \<times> 's" where
  "list_servlet_to_json_in K M ns zone servlet_list retry_time s =
     list_to_json (servlet_json K) (\<lambda>v. sv_namespace_name v = ns \<and> sv_zone v = zone) (list_servlet_info M [] retry_time s) servlet_list"

definition list_servlet_to_file_in ::
  "client_env \<Rightarrow> 's message_sender \<Rightarrow> string \<Rightarrow> string \<Rightarrow> string \<Rightarrow> int option \<Rightarrow> 's \<times> files \<Rightarrow> unit result \<times> 's \<times> files" where
  "list_servlet_to_file_in K M ns zone save_path retry_time =
     (\<lambda>(s, fs). save_texts (local_disk K) save_path (list_servlet_to_json_in K M ns zone [] retry_time s) fs)"

text \<open>None of the names goes into the query, and the query is that for zones.\<close>

definition get_servlet ::
  "client_env \<Rightarrow> 's message_sender \<Rightarrow> string \<Rightarrow> string \<Rightarrow> string \<Rightarrow> int option \<Rightarrow> 's \<Rightarrow> ServletInfo result \<times> 's" where
  "get_servlet K M namespace_name zone_name servlet retry_time s =
     then_do (ask M retry_time (empty_query QUERY_ZONE) s)
       (\<lambda>response s. (case dr_servlet_infos response of
            [servlet_msg] \<Rightarrow> Inr servlet_msg
          | infos \<Rightarrow> Inl (Unknown, turbo_fmt (turbo K) ''bad proto format for servlet infos size: {}''
                       [int_to_string (int (length infos))]), s))"

definition get_servlet_json ::
  "client_env \<Rightarrow> 's message_sender \<Rightarrow> string \<Rightarrow> string \<Rightarrow> string \<Rightarrow> int option \<Rightarrow> 's \<Rightarrow> string result \<times> 's" where
  "get_servlet_json K M namespace_name zone_name servlet retry_time s =
     then_do (get_servlet K M namespace_name zone_name servlet retry_time s) (\<lambda>servlet_msg s.
       (dump_proto (servlet_json K) servlet_msg, s))"

definition save_servlet_json ::
  "client_env \<Rightarrow> 's message_sender \<Rightarrow> string \<Rightarrow> string \<Rightarrow> string \<Rightarrow> string \<Rightarrow> int option \<Rightarrow> 's \<times> files \<Rightarrow> unit result \<times> 's \<times> files" where
  "save_servlet_json K M namespace_name zone_name servlet json_path retry_time =
     (\<lambda>(s, fs). save_message (servlet_json K) (local_disk K) json_path
       (get_servlet K M namespace_name zone_name servlet retry_time s) fs)"

end
