(* ===== verification/ClientSender.thy ===== *)
theory ClientSender
  imports ClientUtility Queries
begin

text \<open>
  How requests travel: \<open>DiscoverySender\<close> (discovery_sender.h, discovery_sender.cc), which looks for
  the raft leader and follows redirects, and \<open>RouterSender\<close> (router_sender.h, router_sender.cc),
  which knows one address. What a call meets is an argument: a failed channel, a failed call, or
  the answer of the peer.
\<close>

datatype 'r call_outcome = InitFailed | RpcFailed | Answered 'r

datatype 'ep send_event = SleepMs int | CallTo 'ep

subsection \<open>DiscoverySender\<close>

text \<open>
  End points, with \<open>ip == IP_ANY\<close> for an address that is not set (\<open>clear_ip\<close> sets that), \<open>str2endpoint\<close> and
  \<open>endpoint2str\<close> of butil, and \<open>StrSplit\<close> by any of the separators.
\<close>

record 'ep net =
  no_ip :: "'ep \<Rightarrow> bool"
  default_ep :: 'ep
  clear_ip :: "'ep \<Rightarrow> 'ep"
  str2endpoint :: "string \<Rightarrow> 'ep option"
  endpoint2str :: "'ep \<Rightarrow> string"
  split_peers :: "string \<Rightarrow> string list"

record 'ep sender_state =
  servlet_nodes :: "'ep list"
  master_leader_address :: 'ep
  request_timeout :: int
  connect_timeout :: int
  between_meta_connect_error_ms :: int
  retry_times_default :: int
  sender_verbose :: bool

definition kRetryTimes :: int where "kRetryTimes = 5"

definition new_sender :: "'ep net \<Rightarrow> 'ep sender_state" where
  "new_sender N = \<lparr>servlet_nodes = [], master_leader_address = default_ep N, request_timeout = 30000,
     connect_timeout = 5000, between_meta_connect_error_ms = 1000, retry_times_default = kRetryTimes,
     sender_verbose = False\<rparr>"

fun init_peers :: "'ep net \<Rightarrow> turbo_env \<Rightarrow> string list \<Rightarrow> 'ep sender_state \<Rightarrow> unit result \<times> 'ep sender_state" where
  "init_peers N T [] s = (Inr (), s)"
| "init_peers N T (peer # peers) s =
     (case str2endpoint N peer of
        None \<Rightarrow> (Inl (InvalidArgument, turbo_fmt T ''invalid address {}'' [peer]), s)
      | Some ep \<Rightarrow> init_peers N T peers (s\<lparr>servlet_nodes := servlet_nodes s @ [ep]\<rparr>))"

definition sender_init :: "'ep net \<Rightarrow> turbo_env \<Rightarrow> string \<Rightarrow> 'ep sender_state \<Rightarrow> unit result \<times> 'ep sender_state" where
  "sender_init N T raft_nodes s =
     init_peers N T (split_peers N raft_nodes) (s\<lparr>master_leader_address := clear_ip N (master_leader_address s)\<rparr>)"

definition get_leader :: "'ep net \<Rightarrow> 'ep sender_state \<Rightarrow> string" where
  "get_leader N s = endpoint2str N (master_leader_address s)"

definition set_leader_address :: "'ep \<Rightarrow> 'ep sender_state \<Rightarrow> 'ep sender_state" where
  "set_leader_address addr s = s\<lparr>master_leader_address := addr\<rparr>"

definition set_verbose :: "bool \<Rightarrow> 'ep sender_state \<Rightarrow> 'ep sender_state" where
  "set_verbose v s = s\<lparr>sender_verbose := v\<rparr>"

definition set_time_out :: "int \<Rightarrow> 'ep sender_state \<Rightarrow> 'ep sender_state" where
  "set_time_out time_ms s = s\<lparr>request_timeout := time_ms\<rparr>"

definition set_connect_time_out :: "int \<Rightarrow> 'ep sender_state \<Rightarrow> 'ep sender_state" where
  "set_connect_time_out time_ms s = s\<lparr>connect_timeout := time_ms\<rparr>"

definition set_interval_time :: "int \<Rightarrow> 'ep sender_state \<Rightarrow> 'ep sender_state" where
  "set_interval_time time_ms s = s\<lparr>between_meta_connect_error_ms := time_ms\<rparr>"

definition set_retry_time :: "int \<Rightarrow> 'ep sender_state \<Rightarrow> 'ep sender_state" where
  "set_retry_time retry s = s\<lparr>retry_times_default := retry\<rparr>"

text \<open>
  The \<open>do ... while\<close> loop: \<open>left\<close> further passes may follow this one, \<open>i\<close> is \<open>retry_time\<close>.
  \<open>call i addr\<close> is what the call of pass \<open>i\<close> meets and \<open>pick i\<close> its random number; taking it
  modulo zero nodes ends the process. The address of the leader is only changed by this call.
\<close>

definition pass_pause :: "nat \<Rightarrow> bool \<Rightarrow> 'ep sender_state \<Rightarrow> 'ep send_event list" where
  "pass_pause i was_selecting s =
     (if \<not> was_selecting \<and> i > 0 \<and> between_meta_connect_error_ms s > 0
      then [SleepMs (between_meta_connect_error_ms s)] else [])"

definition pass_target :: "'ep net \<Rightarrow> (nat \<Rightarrow> nat) \<Rightarrow> nat \<Rightarrow> 'ep sender_state \<Rightarrow> 'ep" where
  "pass_target N pick i s =
     (if no_ip N (master_leader_address s)
      then servlet_nodes s ! (pick i mod length (servlet_nodes s)) else master_leader_address s)"

fun send_loop ::
  "'ep net \<Rightarrow> ('r \<Rightarrow> ErrCode) \<Rightarrow> ('r \<Rightarrow> string) \<Rightarrow> (nat \<Rightarrow> nat) \<Rightarrow> (nat \<Rightarrow> 'ep \<Rightarrow> 'r call_outcome) \<Rightarrow>
     status \<Rightarrow> nat \<Rightarrow> nat \<Rightarrow> bool \<Rightarrow> 'ep sender_state \<Rightarrow> 'r result \<times> 'ep sender_state \<times> 'ep send_event list" where
  "send_loop N err leader pick call failed left i was_selecting s =
     (let is_select_leader = no_ip N (master_leader_address s)
      in if is_select_leader \<and> servlet_nodes s = [] then (Inl (ProcessDied, []), s, [])
         else let leader_address = pass_target N pick i s;
                  evs = pass_pause i was_selecting s;
                  again = (\<lambda>s evs. case left of
                      0 \<Rightarrow> (Inl failed, s, evs)
                    | Suc n \<Rightarrow> let (r, s, evs') = send_loop N err leader pick call failed n (Suc i) is_select_leader s
                              in (r, s, evs @ evs'))
              in case call i leader_address of
                   InitFailed \<Rightarrow> again (set_leader_address (default_ep N) s) evs
                 | RpcFailed \<Rightarrow> again (set_leader_address (default_ep N) s) (evs @ [CallTo leader_address])
                 | Answered r \<Rightarrow>
                     if err r = HAVE_NOT_INIT
                     then again (set_leader_address (default_ep N) s) (evs @ [CallTo leader_address])
                     else if err r = NOT_LEADER
                     then again (set_leader_address (msg (default_ep N) (str2endpoint N (leader r))) s)
                            (evs @ [CallTo leader_address])
                     else (Inr r,
                           if is_select_leader \<and> \<not> no_ip N leader_address
                           then set_leader_address leader_address s else s,
                           evs @ [CallTo leader_address]))"

declare send_loop.simps [simp del]

definition send_request ::
  "'ep net \<Rightarrow> turbo_env \<Rightarrow> ('r \<Rightarrow> ErrCode) \<Rightarrow> ('r \<Rightarrow> string) \<Rightarrow> (nat \<Rightarrow> nat) \<Rightarrow> (nat \<Rightarrow> 'ep \<Rightarrow> 'r call_outcome) \<Rightarrow>
     int \<Rightarrow> 'ep sender_state \<Rightarrow> 'r result \<times> 'ep sender_state \<times> 'ep send_event list" where
  "send_request N T err leader pick call retry_times s =
     send_loop N err leader pick call
       (Unavailable, turbo_fmt T ''can not connect server after {} times try'' [int_to_string retry_times])
       (nat retry_times - 1) 0 False s"

text \<open>
  The four entry points: each names its service, which the descriptor has, and passes the count of
  tries it is given or its own.
\<close>

definition sender_call ::
  "'ep net \<Rightarrow> turbo_env \<Rightarrow> ('r \<Rightarrow> ErrCode) \<Rightarrow> ('r \<Rightarrow> string) \<Rightarrow> (nat \<Rightarrow> nat) \<Rightarrow>
     ('rq \<Rightarrow> nat \<Rightarrow> 'ep \<Rightarrow> 'r call_outcome) \<Rightarrow> int option \<Rightarrow> 'rq \<Rightarrow> 'ep sender_state \<Rightarrow> 'r result \<times> 'ep sender_state" where
  "sender_call N T err leader pick call retry request s =
     (let (r, s, evs) = send_request N T err leader pick (call request) (msg (retry_times_default s) retry) s
      in (r, s))"

subsection \<open>What the loop does\<close>

definition answer_ok :: "('r \<Rightarrow> ErrCode) \<Rightarrow> 'r \<Rightarrow> bool" where
  "answer_ok err r \<longleftrightarrow> err r \<noteq> HAVE_NOT_INIT \<and> err r \<noteq> NOT_LEADER"

definition calls :: "'ep send_event list \<Rightarrow> 'ep list" where
  "calls evs = concat (map (\<lambda>e. case e of CallTo a \<Rightarrow> [a] | SleepMs _ \<Rightarrow> []) evs)"

lemma calls_simps [simp]:
  "calls [] = []" "calls (CallTo a # evs) = a # calls evs" "calls (SleepMs t # evs) = calls evs"
  "calls (evs @ evs') = calls evs @ calls evs'" "calls (pass_pause i w s) = []"
  by (simp_all add: calls_def pass_pause_def)

definition pauses :: "'ep send_event list \<Rightarrow> int list" where
  "pauses evs = concat (map (\<lambda>e. case e of SleepMs t \<Rightarrow> [t] | CallTo _ \<Rightarrow> []) evs)"

lemma pauses_simps [simp]:
  "pauses [] = []" "pauses (CallTo a # evs) = pauses evs" "pauses (SleepMs t # evs) = t # pauses evs"
  "pauses (evs @ evs') = pauses evs @ pauses evs'"
  by (simp_all add: pauses_def)

lemma pass_pause_pauses:
  "length (pauses (pass_pause i w s)) \<le> (if i = 0 then 0 else 1) \<and>
   (\<forall>t \<in> set (pauses (pass_pause i w s)). t = between_meta_connect_error_ms s)"
  by (simp add: pass_pause_def)

text \<open>One pass: an answer ends the loop, anything else goes on with the address forgotten or replaced.\<close>

lemma send_loop_answer:
  assumes "\<not> (no_ip N (master_leader_address s) \<and> servlet_nodes s = [])"
    "call i (pass_target N pick i s) = Answered r" "answer_ok err r"
  shows "send_loop N err leader pick call failed left i w s =
    (Inr r, if no_ip N (master_leader_address s) \<and> \<not> no_ip N (pass_target N pick i s)
            then set_leader_address (pass_target N pick i s) s else s,
     pass_pause i w s @ [CallTo (pass_target N pick i s)])"
  using assms by (subst send_loop.simps) (auto simp: answer_ok_def Let_def)

lemma send_loop_died:
  assumes "no_ip N (master_leader_address s)" "servlet_nodes s = []"
  shows "send_loop N err leader pick call failed left i w s = (Inl (ProcessDied, []), s, [])"
  using assms by (subst send_loop.simps) simp

definition forgets :: "'ep net \<Rightarrow> ('r \<Rightarrow> ErrCode) \<Rightarrow> ('r \<Rightarrow> string) \<Rightarrow> 'r call_outcome \<Rightarrow> 'ep option" where
  "forgets N err leader out = (case out of
      Answered r \<Rightarrow> if err r = HAVE_NOT_INIT then Some (default_ep N)
        else if err r = NOT_LEADER then Some (msg (default_ep N) (str2endpoint N (leader r))) else None
    | _ \<Rightarrow> Some (default_ep N))"

lemma send_loop_again:
  assumes "\<not> (no_ip N (master_leader_address s) \<and> servlet_nodes s = [])"
    "forgets N err leader (call i (pass_target N pick i s)) = Some a"
  shows "\<exists>evs. length (calls evs) \<le> 1 \<and> pauses evs = pauses (pass_pause i w s) \<and>
    send_loop N err leader pick call failed left i w s =
      (case left of 0 \<Rightarrow> (Inl failed, set_leader_address a s, evs)
       | Suc n \<Rightarrow> let (r, s', evs') = send_loop N err leader pick call failed n (Suc i)
                       (no_ip N (master_leader_address s)) (set_leader_address a s)
                 in (r, s', evs @ evs'))"
proof (cases "call i (pass_target N pick i s)")
  case InitFailed
  with assms show ?thesis
    by (intro exI [of _ "pass_pause i w s"], subst send_loop.simps) (auto simp: forgets_def Let_def)
next
  case RpcFailed
  with assms show ?thesis
    by (intro exI [of _ "pass_pause i w s @ [CallTo (pass_target N pick i s)]"], subst send_loop.simps)
      (auto simp: forgets_def Let_def)
next
  case (Answered r)
  with assms show ?thesis
    by (intro exI [of _ "pass_pause i w s @ [CallTo (pass_target N pick i s)]"], subst send_loop.simps)
      (auto simp: forgets_def Let_def split: if_splits)
qed

lemma forgets_None: "forgets N err leader out = None \<longleftrightarrow> (\<exists>r. out = Answered r \<and> answer_ok err r)"
  by (auto simp: forgets_def answer_ok_def split: call_outcome.splits)

text \<open>What holds of every run: few calls, and success is the answer of the last call.\<close>

lemma send_loop_result:
  assumes "send_loop N err leader pick call failed left i w s = (res, s', evs)"
  shows "length (calls evs) \<le> Suc left \<and> servlet_nodes s' = servlet_nodes s \<and>
    (case res of
       Inr r \<Rightarrow> \<exists>j a. i \<le> j \<and> j \<le> i + left \<and> calls evs \<noteq> [] \<and> a = last (calls evs) \<and> call j a = Answered r \<and>
         answer_ok err r \<and> (\<not> no_ip N a \<longrightarrow> master_leader_address s' = a)
     | Inl e \<Rightarrow> e = failed \<or> fst e = ProcessDied \<and> servlet_nodes s = [])"
  using assms
proof (induction left arbitrary: i w s evs res s')
  case (0 i w s evs res s')
  show ?case
  proof (cases "no_ip N (master_leader_address s) \<and> servlet_nodes s = []")
    case True
    with 0 show ?thesis by (auto simp: send_loop_died)
  next
    case False
    show ?thesis
    proof (cases "forgets N err leader (call i (pass_target N pick i s))")
      case None
      then obtain r where r: "call i (pass_target N pick i s) = Answered r" "answer_ok err r"
        by (auto simp: forgets_None)
      from send_loop_answer [OF False, of call i pick r err leader failed 0 w] r 0 show ?thesis
        by (auto simp: set_leader_address_def pass_target_def)
    next
      case (Some a)
      from send_loop_again [where err = err and leader = leader and call = call and i = i and w = w and failed = failed and left = 0, OF False Some] 0
      show ?thesis by (auto simp: set_leader_address_def)
    qed
  qed
next
  case (Suc left i w s evs res s')
  show ?case
  proof (cases "no_ip N (master_leader_address s) \<and> servlet_nodes s = []")
    case True
    with Suc.prems show ?thesis by (auto simp: send_loop_died)
  next
    case False
    show ?thesis
    proof (cases "forgets N err leader (call i (pass_target N pick i s))")
      case None
      then obtain r where r: "call i (pass_target N pick i s) = Answered r" "answer_ok err r"
        by (auto simp: forgets_None)
      from send_loop_answer [OF False, of call i pick r err leader failed "Suc left" w] r Suc.prems show ?thesis
        by (auto simp: set_leader_address_def pass_target_def)
    next
      case (Some a)
      obtain evs1 where e1: "length (calls evs1) \<le> 1" and
        run: "send_loop N err leader pick call failed (Suc left) i w s =
          (let (r, s', evs') = send_loop N err leader pick call failed left (Suc i)
                 (no_ip N (master_leader_address s)) (set_leader_address a s)
           in (r, s', evs1 @ evs'))"
        using send_loop_again [where err = err and leader = leader and call = call and i = i and w = w and failed = failed and left = "Suc left", OF False Some] by auto
      obtain res2 s2 evs2 where rest: "send_loop N err leader pick call failed left (Suc i)
                 (no_ip N (master_leader_address s)) (set_leader_address a s) = (res2, s2, evs2)"
        by (metis prod_cases3)
      have eq: "res = res2" "s' = s2" "evs = evs1 @ evs2" using run rest Suc.prems by simp_all
      note ih = Suc.IH [OF rest]
      show ?thesis
      proof (cases res2)
        case (Inl e)
        with ih e1 show ?thesis unfolding eq by (auto simp: set_leader_address_def)
      next
        case (Inr r)
        with ih obtain j where j: "Suc i \<le> j" "j \<le> Suc i + left" "calls evs2 \<noteq> []"
          "call j (last (calls evs2)) = Answered r" "answer_ok err r"
          "\<not> no_ip N (last (calls evs2)) \<longrightarrow> master_leader_address s2 = last (calls evs2)" by auto
        then have "i \<le> j \<and> j \<le> i + Suc left" by simp
        with j ih e1 Inr show ?thesis unfolding eq
          by (auto simp: set_leader_address_def intro!: exI [of _ j])
      qed
    qed
  qed
qed

lemma send_loop_stops:
  assumes "send_loop N err leader pick call failed left i w s = (res, s', evs)"
    "(no_ip N (master_leader_address s) \<and> servlet_nodes s = []) \<or> forgets N err leader (call i (pass_target N pick i s)) = None"
  shows "pauses evs = [] \<or> pauses evs = pauses (pass_pause i w s)"
proof (cases "no_ip N (master_leader_address s) \<and> servlet_nodes s = []")
  case True
  with assms(1) show ?thesis by (auto simp: send_loop_died)
next
  case False
  with assms(2) obtain r where r: "call i (pass_target N pick i s) = Answered r" "answer_ok err r"
    by (auto simp: forgets_None)
  from send_loop_answer [OF False, of call i pick r err leader failed left w] r assms(1) show ?thesis by auto
qed

text \<open>Each pass but the first pauses at most once, for the interval that was set.\<close>

lemma send_loop_pauses:
  assumes "send_loop N err leader pick call failed left i w s = (res, s', evs)"
  shows "length (pauses evs) \<le> left + (if i = 0 then 0 else 1) \<and> (\<forall>t \<in> set (pauses evs). t = between_meta_connect_error_ms s)"
  using assms
proof (induction left arbitrary: i w s evs res s')
  case (0 i w s evs res s')
  show ?case
  proof (cases "(no_ip N (master_leader_address s) \<and> servlet_nodes s = []) \<or>
      forgets N err leader (call i (pass_target N pick i s)) = None")
    case True
    then show ?thesis using send_loop_stops [OF 0] pass_pause_pauses [of i w s] by auto
  next
    case False
    then obtain a where a: "forgets N err leader (call i (pass_target N pick i s)) = Some a"
      and go: "\<not> (no_ip N (master_leader_address s) \<and> servlet_nodes s = [])" by auto
    from send_loop_again [where err = err and leader = leader and call = call and i = i and w = w and failed = failed
        and left = 0, OF go a] 0 pass_pause_pauses [of i w s]
    show ?thesis by auto
  qed
next
  case (Suc left i w s evs res s')
  show ?case
  proof (cases "(no_ip N (master_leader_address s) \<and> servlet_nodes s = []) \<or>
      forgets N err leader (call i (pass_target N pick i s)) = None")
    case True
    then show ?thesis using send_loop_stops [OF Suc.prems] pass_pause_pauses [of i w s] by auto
  next
    case False
    then obtain a where a: "forgets N err leader (call i (pass_target N pick i s)) = Some a"
      and go: "\<not> (no_ip N (master_leader_address s) \<and> servlet_nodes s = [])" by auto
    obtain pre where pre: "pauses pre = pauses (pass_pause i w s)"
      "send_loop N err leader pick call failed (Suc left) i w s =
        (let (r, s', evs') = send_loop N err leader pick call failed left (Suc i)
               (no_ip N (master_leader_address s)) (set_leader_address a s) in (r, s', pre @ evs'))"
      using send_loop_again [where err = err and leader = leader and call = call and i = i and w = w and failed = failed
          and left = "Suc left", OF go a] by auto
    obtain r s2 evs' where rest: "send_loop N err leader pick call failed left (Suc i)
        (no_ip N (master_leader_address s)) (set_leader_address a s) = (r, s2, evs')"
      by (metis prod_cases3)
    have "evs = pre @ evs'" using pre(2) rest Suc.prems by simp
    with Suc.IH [OF rest] pre(1) pass_pause_pauses [of i w s] show ?thesis by (auto simp: set_leader_address_def)
  qed
qed

subsection \<open>A leader is found\<close>

text \<open>
  The cluster as a client may meet it: \<open>leads\<close> answers, every other configured node redirects to
  it.
\<close>

definition redirects :: "'ep net \<Rightarrow> ('r \<Rightarrow> ErrCode) \<Rightarrow> ('r \<Rightarrow> string) \<Rightarrow> (nat \<Rightarrow> 'ep \<Rightarrow> 'r call_outcome) \<Rightarrow>
    'ep list \<Rightarrow> 'ep \<Rightarrow> 'r \<Rightarrow> bool" where
  "redirects N err leader call nodes leads r \<longleftrightarrow>
     no_ip N (default_ep N) \<and> \<not> no_ip N leads \<and> nodes \<noteq> [] \<and> (\<forall>a \<in> set nodes. \<not> no_ip N a) \<and>
     answer_ok err r \<and> (\<forall>i. call i leads = Answered r) \<and>
     (\<forall>i. \<forall>a \<in> set nodes. a \<noteq> leads \<longrightarrow> forgets N err leader (call i a) = Some leads)"

lemma send_loop_at_leader:
  assumes "redirects N err leader call nodes L r" "master_leader_address s = L"
  shows "send_loop N err leader pick call failed left i w s = (Inr r, s, pass_pause i w s @ [CallTo L])"
proof -
  have L: "\<not> no_ip N L" "call i L = Answered r" "answer_ok err r" using assms(1) by (simp_all add: redirects_def)
  then have "pass_target N pick i s = L" using assms(2) by (simp add: pass_target_def)
  with L assms(2) show ?thesis using send_loop_answer [of N s call i pick r err leader failed left w] by simp
qed

lemma send_loop_at_node:
  assumes "redirects N err leader call (servlet_nodes s) L r" "no_ip N (master_leader_address s)"
  shows "\<exists>evs. length (calls evs) \<le> 2 \<and>
    send_loop N err leader pick call failed (Suc left) i w s = (Inr r, set_leader_address L s, evs)"
proof -
  let ?a = "pass_target N pick i s"
  have nodes: "servlet_nodes s \<noteq> []" "\<forall>a \<in> set (servlet_nodes s). \<not> no_ip N a" "answer_ok err r"
      "call i L = Answered r"
    and others: "a \<in> set (servlet_nodes s) \<Longrightarrow> a \<noteq> L \<Longrightarrow> forgets N err leader (call i a) = Some L" for a
    using assms(1) by (simp_all add: redirects_def)
  have a: "?a \<in> set (servlet_nodes s)" using assms(2) nodes(1) by (simp add: pass_target_def)
  have go: "\<not> (no_ip N (master_leader_address s) \<and> servlet_nodes s = [])" using nodes by simp
  show ?thesis
  proof (cases "?a = L")
    case True
    with send_loop_answer [OF go, of call i pick r err leader failed "Suc left" w] nodes assms(2) a
    show ?thesis by auto
  next
    case False
    from send_loop_again [where err = err and leader = leader and call = call and i = i and w = w and failed = failed
        and left = "Suc left", OF go others [OF a False]]
    obtain evs where "length (calls evs) \<le> 1"
      "send_loop N err leader pick call failed (Suc left) i w s =
        (Inr r, set_leader_address L s, evs @ pass_pause (Suc i) (no_ip N (master_leader_address s)) (set_leader_address L s) @ [CallTo L])"
      using send_loop_at_leader [OF assms(1), of "set_leader_address L s"] by (auto simp: set_leader_address_def)
    then show ?thesis by (auto intro!: exI)
  qed
qed

text \<open>The remembered address may also be the leader's, or that of a peer that has died or lost the lead.\<close>

lemma send_loop_finds:
  assumes "redirects N err leader call (servlet_nodes s) L r"
    "no_ip N (master_leader_address s) \<or> master_leader_address s = L \<or>
     forgets N err leader (call i (master_leader_address s)) \<in> {Some (default_ep N), Some L}"
  shows "\<exists>evs. length (calls evs) \<le> 3 \<and>
    send_loop N err leader pick call failed (Suc (Suc left)) i w s = (Inr r, set_leader_address L s, evs)"
proof -
  consider "no_ip N (master_leader_address s)" | "master_leader_address s = L"
    | a where "\<not> no_ip N (master_leader_address s)" "forgets N err leader (call i (master_leader_address s)) = Some a"
        "a = default_ep N \<or> a = L"
    using assms(2) by auto
  then show ?thesis
  proof cases
    case 1
    from send_loop_at_node [OF assms(1) this, of pick failed "Suc left" i w] show ?thesis by fastforce
  next
    case 2
    then have "set_leader_address L s = s" by (simp add: set_leader_address_def)
    with send_loop_at_leader [OF assms(1) 2] show ?thesis by simp
  next
    case 3
    then have go: "\<not> (no_ip N (master_leader_address s) \<and> servlet_nodes s = [])"
      and target: "pass_target N pick i s = master_leader_address s" by (simp_all add: pass_target_def)
    let ?s = "set_leader_address a s"
    have nodes: "redirects N err leader call (servlet_nodes ?s) L r" "set_leader_address L ?s = set_leader_address L s"
      "no_ip N (default_ep N)"
      using assms(1) by (simp_all add: set_leader_address_def redirects_def)
    obtain evs' where "length (calls evs') \<le> 2"
      "send_loop N err leader pick call failed (Suc left) (Suc i) (no_ip N (master_leader_address s)) ?s =
        (Inr r, set_leader_address L s, evs')"
    proof (cases "a = L")
      case True
      with send_loop_at_leader [OF nodes(1), of ?s pick failed "Suc left" "Suc i" "no_ip N (master_leader_address s)"]
      show ?thesis by (intro that) (auto simp: set_leader_address_def)
    next
      case False
      with 3 nodes(3) have "no_ip N (master_leader_address ?s)" by (simp add: set_leader_address_def)
      from send_loop_at_node [OF nodes(1) this, of pick failed left "Suc i" "no_ip N (master_leader_address s)"] nodes(2)
      show ?thesis by (auto intro: that)
    qed
    moreover obtain evs where "length (calls evs) \<le> 1"
      "send_loop N err leader pick call failed (Suc (Suc left)) i w s =
        (let (r, s', evs') = send_loop N err leader pick call failed (Suc left) (Suc i) (no_ip N (master_leader_address s)) ?s
         in (r, s', evs @ evs'))"
      using send_loop_again [where err = err and leader = leader and call = call and i = i and w = w and failed = failed
        and left = "Suc (Suc left)" and pick = pick and a = a, OF go] 3(2) target by auto
    ultimately show ?thesis by fastforce
  qed
qed

subsection \<open>RouterSender\<close>

record router_state =
  router_server :: string
  router_timeout_ms :: int
  router_connect_timeout_ms :: int
  router_interval_ms :: int
  router_retry_times :: int
  router_verbose :: bool

definition new_router :: router_state where
  "new_router = \<lparr>router_server = [], router_timeout_ms = 300, router_connect_timeout_ms = 500,
     router_interval_ms = 1000, router_retry_times = 3, router_verbose = False\<rparr>"

definition router_init :: "string \<Rightarrow> router_state \<Rightarrow> unit result \<times> router_state" where
  "router_init server s = (Inr (), s\<lparr>router_server := server\<rparr>)"

definition router_set_server :: "string \<Rightarrow> router_state \<Rightarrow> router_state" where
  "router_set_server server s = s\<lparr>router_server := server\<rparr>"

definition router_set_verbose :: "bool \<Rightarrow> router_state \<Rightarrow> router_state" where
  "router_set_verbose v s = s\<lparr>router_verbose := v\<rparr>"

definition router_set_time_out :: "int \<Rightarrow> router_state \<Rightarrow> router_state" where
  "router_set_time_out time_ms s = s\<lparr>router_timeout_ms := time_ms\<rparr>"

definition router_set_connect_time_out :: "int \<Rightarrow> router_state \<Rightarrow> router_state" where
  "router_set_connect_time_out time_ms s = s\<lparr>router_connect_timeout_ms := time_ms\<rparr>"

definition router_set_interval_time :: "int \<Rightarrow> router_state \<Rightarrow> router_state" where
  "router_set_interval_time time_ms s = s\<lparr>router_interval_ms := time_ms\<rparr>"

definition router_set_retry_time :: "int \<Rightarrow> router_state \<Rightarrow> router_state" where
  "router_set_retry_time retry s = s\<lparr>router_retry_times := retry\<rparr>"

fun router_loop ::
  "turbo_env \<Rightarrow> (nat \<Rightarrow> string \<Rightarrow> 'r call_outcome) \<Rightarrow> int \<Rightarrow> nat \<Rightarrow> nat \<Rightarrow> router_state \<Rightarrow>
     'r result \<times> string send_event list" where
  "router_loop T call retry_times left i s =
     (let evs = (if i > 0 \<and> retry_times > 0 then [SleepMs (router_interval_ms s)] else []);
          again = (\<lambda>evs. case left of
              0 \<Rightarrow> (Inl (DeadlineExceeded, turbo_fmt T ''try times {} reach max_try {} and can not get response.''
                      [int_to_string (int (Suc i)), int_to_string retry_times]), evs)
            | Suc n \<Rightarrow> let (r, evs') = router_loop T call retry_times n (Suc i) s in (r, evs @ evs'))
      in case call i (router_server s) of
           InitFailed \<Rightarrow> again evs
         | RpcFailed \<Rightarrow> again (evs @ [CallTo (router_server s)])
         | Answered r \<Rightarrow> (Inr r, evs @ [CallTo (router_server s)]))"

declare router_loop.simps [simp del]

definition router_send_request ::
  "turbo_env \<Rightarrow> (nat \<Rightarrow> string \<Rightarrow> 'r call_outcome) \<Rightarrow> int \<Rightarrow> router_state \<Rightarrow> 'r result \<times> string send_event list" where
  "router_send_request T call retry_times s = router_loop T call retry_times (nat retry_times - 1) 0 s"

definition router_call ::
  "turbo_env \<Rightarrow> ('rq \<Rightarrow> nat \<Rightarrow> string \<Rightarrow> 'r call_outcome) \<Rightarrow> int option \<Rightarrow> 'rq \<Rightarrow> router_state \<Rightarrow>
     'r result \<times> router_state" where
  "router_call T call retry request s =
     (fst (router_send_request T (call request) (msg (router_retry_times s) retry) s), s)"

lemma router_loop_answer:
  "call i (router_server s) = Answered r \<Longrightarrow>
     \<exists>evs. length (calls evs) \<le> 1 \<and> router_loop T call n left i s = (Inr r, evs)"
  by (subst router_loop.simps) (auto simp: Let_def)

lemma router_loop_again:
  "\<nexists>r. call i (router_server s) = Answered r \<Longrightarrow>
     \<exists>evs. length (calls evs) \<le> 1 \<and> (router_loop T call n left i s =
       (case left of
          0 \<Rightarrow> (Inl (DeadlineExceeded, turbo_fmt T ''try times {} reach max_try {} and can not get response.''
                  [int_to_string (int (Suc i)), int_to_string n]), evs)
        | Suc m \<Rightarrow> let (r, evs') = router_loop T call n m (Suc i) s in (r, evs @ evs')))"
proof (cases "call i (router_server s)")
  case InitFailed
  then show ?thesis
    by (intro exI [of _ "if i > 0 \<and> n > 0 then [SleepMs (router_interval_ms s)] else []"], subst router_loop.simps)
      (auto simp: Let_def)
next
  case RpcFailed
  then show ?thesis
    by (intro exI [of _ "(if i > 0 \<and> n > 0 then [SleepMs (router_interval_ms s)] else []) @ [CallTo (router_server s)]"],
        subst router_loop.simps) (auto simp: Let_def)
qed blast

lemma router_loop_result:
  assumes "router_loop T call n left i s = (res, evs)"
  shows "(case res of
      Inr r \<Rightarrow> \<exists>j. i \<le> j \<and> j \<le> i + left \<and> call j (router_server s) = Answered r
    | Inl e \<Rightarrow> \<forall>j. i \<le> j \<and> j \<le> i + left \<longrightarrow> (\<nexists>r. call j (router_server s) = Answered r)) \<and>
   length (calls evs) \<le> Suc left"
  using assms
proof (induction left arbitrary: i res evs)
  case (0 i res evs)
  have only: "i \<le> j \<and> j \<le> i + 0 \<longleftrightarrow> j = i" for j by auto
  show ?case
  proof (cases "\<exists>r. call i (router_server s) = Answered r")
    case True
    then obtain r where r: "call i (router_server s) = Answered r" by blast
    from router_loop_answer [where call = call and i = i and T = T and n = n and left = 0, OF this] r 0 show ?thesis unfolding only by auto
  next
    case False
    from router_loop_again [where call = call and i = i and T = T and n = n and left = 0, OF False] False 0 show ?thesis unfolding only by auto
  qed
next
  case (Suc left i res evs)
  have first: "i \<le> j \<and> j \<le> i + Suc left \<longleftrightarrow> j = i \<or> Suc i \<le> j \<and> j \<le> Suc i + left" for j by auto
  show ?case
  proof (cases "\<exists>r. call i (router_server s) = Answered r")
    case True
    then obtain r where r: "call i (router_server s) = Answered r" by blast
    from router_loop_answer [where call = call and i = i and T = T and n = n and left = "Suc left", OF this] r Suc.prems show ?thesis unfolding first by auto
  next
    case False
    obtain res2 evs2 where rest: "router_loop T call n left (Suc i) s = (res2, evs2)" by fastforce
    obtain evs1 where "length (calls evs1) \<le> 1" and eq: "res = res2" "evs = evs1 @ evs2"
      using router_loop_again [where call = call and i = i and T = T and n = n and left = "Suc left", OF False] rest Suc.prems by auto
    with Suc.IH [OF rest] have ih: "(case res of
        Inr r \<Rightarrow> \<exists>j. Suc i \<le> j \<and> j \<le> Suc i + left \<and> call j (router_server s) = Answered r
      | Inl e \<Rightarrow> \<forall>j. Suc i \<le> j \<and> j \<le> Suc i + left \<longrightarrow> (\<nexists>r. call j (router_server s) = Answered r))"
      and few: "length (calls evs) \<le> Suc (Suc left)" unfolding eq by auto
    show ?thesis
    proof (cases res)
      case (Inl e)
      with ih few False show ?thesis unfolding first by auto
    next
      case (Inr r)
      with ih obtain j where j: "Suc i \<le> j" "j \<le> Suc i + left" "call j (router_server s) = Answered r" by auto
      then have "i \<le> j \<and> j \<le> i + Suc left" by simp
      with few Inr j show ?thesis by (auto intro!: exI [of _ j])
    qed
  qed
qed

end
