(* ===== verification/ClientServer.thy ===== *)
theory ClientServer
  imports SchemaClient ClientSender ServerDispatch AccessProperties ClientDemo
begin

text \<open>
  The client and the server put together: a sender whose calls reach one server, the leader of the
  \<open>meta\<close> group, which commits what it submits at once. A text given to the client comes back from
  a read after it went through the builder, the dispatch, the state machine and the queries.
\<close>

definition commit_entry ::
  "env \<Rightarrow> (string \<Rightarrow> DiscoveryManagerRequest option) \<Rightarrow> string \<Rightarrow> closure \<Rightarrow> discovery_state_machine \<Rightarrow>
     closure \<times> discovery_state_machine" where
  "commit_entry E parse data dn s =
     apply_entry E parse \<lparr>e_index = applied_index s + 1, e_data = data, e_done = dn, e_write = rocks_write E, e_now = now_us E\<rparr> s"

text \<open>The other groups have machines of their own; their requests are not served here.\<close>

definition serve_manager ::
  "env \<Rightarrow> (string \<Rightarrow> DiscoveryManagerRequest option) \<Rightarrow> server_view \<Rightarrow> DiscoveryManagerRequest \<Rightarrow>
     discovery_state_machine \<Rightarrow> DiscoveryManagerResponse call_outcome \<times> discovery_state_machine" where
  "serve_manager E parse V request s =
     (case discovery_manager V request empty_response of
        Replied r \<Rightarrow> (Answered r, s)
      | NotSent \<Rightarrow> (RpcFailed, s)
      | Submitted g data r \<Rightarrow>
          if g = MetaGroup
          then (let (dn, s) = commit_entry E parse data (Some r) s
                in (case dn of Some r \<Rightarrow> Answered r | None \<Rightarrow> RpcFailed, s))
          else (RpcFailed, s))"

definition direct_sender ::
  "env \<Rightarrow> (string \<Rightarrow> DiscoveryManagerRequest option) \<Rightarrow> server_view \<Rightarrow> query_env \<Rightarrow>
     (discovery_state_machine \<Rightarrow> query_walks) \<Rightarrow> discovery_state_machine message_sender" where
  "direct_sender E parse V Q W = \<lparr>
     send_manager = (\<lambda>retry request s.
       let (out, s) = serve_manager E parse V request s
       in (case out of
             Answered r \<Rightarrow> if answer_ok rs_errcode r then Inr r else Inl (Unavailable, [])
           | _ \<Rightarrow> Inl (Unavailable, []), s)),
     send_query = (\<lambda>retry request s.
       let (r, s) = discovery_query E Q (W s) (init_success V) request s empty_query_response
       in (if answer_ok dr_errcode r then Inr r else Inl (Unavailable, []), s))\<rparr>"

lemma entry_env_commit [simp]:
  "entry_env E \<lparr>e_index = i, e_data = d, e_done = dn, e_write = rocks_write E, e_now = now_us E\<rparr> = E"
  by (simp add: entry_env_def)

lemma discovery_manager_success:
  assumes "discovery_manager V rq r0 = Replied r" "rs_errcode r = SUCCESS"
  shows False
  using assms
  by (cases "rq_op_type rq")
    (auto simp: dispatch_defs base_process_def not_leader_answer_def error_set_response_def Let_def split_def
      split: if_splits option.splits)

text \<open>A manager call that succeeds was committed.\<close>

lemma direct_sender_success:
  assumes "send_manager (direct_sender E parse V Q W) retry rq s = (Inr r, s')" "rs_errcode r = SUCCESS"
  shows "init_success V \<and> leads V MetaGroup \<and> well_formed MetaGroup rq \<and>
    commit_entry E parse (fst (serialize V rq)) (Some empty_response) s = (Some r, s')"
proof -
  obtain out s1 where out: "serve_manager E parse V rq s = (out, s1)" by fastforce
  with assms(1) have a: "out = Answered r" "s1 = s'"
    by (auto simp: direct_sender_def split: call_outcome.splits if_splits)
  show ?thesis
  proof (cases "discovery_manager V rq empty_response")
    case (Replied r1)
    with out a assms(2) discovery_manager_success show ?thesis by (auto simp: serve_manager_def)
  next
    case NotSent
    with out a show ?thesis by (simp add: serve_manager_def)
  next
    case (Submitted g data r1)
    from discovery_manager_submitted [OF this] out a Submitted show ?thesis
      by (auto simp: serve_manager_def split_def Let_def split: if_splits option.splits intro: prod_eqI)
  qed
qed

lemma submit_checked_ok:
  "submit_checked M code retry rq s = (Inr (), s') \<longleftrightarrow>
     (\<exists>r. client_manager M retry rq s = (Inr r, s') \<and> rs_errcode r = SUCCESS)"
  by (cases "client_manager M retry rq s"; cases "fst (client_manager M retry rq s)")
    (auto simp: submit_checked_def)

lemma client_manager_eq [simp]: "client_manager M retry rq s = send_manager M retry rq s"
  by (simp add: client_manager_def split: option.split)

lemma client_query_eq [simp]: "client_query M retry rq s = send_query M retry rq s"
  by (simp add: client_query_def split: option.split)

lemma query_get_config_applied [simp]:
  "query_get_config q (s\<lparr>applied_index := i\<rparr>) r = query_get_config q s r"
  by (simp add: query_get_config_def split: option.split)

text \<open>A query of configurations on an initialised server.\<close>

lemma direct_sender_config_query:
  assumes "init_success V" "dq_op_type q = QUERY_GET_CONFIG"
    "query_get_config q s (query_answer SUCCESS ''success'' empty_query_response) = r" "dr_errcode r = SUCCESS"
  shows "ask (direct_sender E parse V Q W) retry q s = (Inr r, s)"
  using assms by (simp add: ask_def direct_sender_def discovery_query_def answer_ok_def Let_def)

text \<open>What a create that the client reports as done has done, and what the next reads give.\<close>

lemma created_config_read:
  assumes "env_ok E" "config_inv s" "M = direct_sender E parse V Q W"
    "rq = (empty_request OP_CREATE_CONFIG)\<lparr>rq_config_info := Some info\<rparr>" "parse (fst (serialize V rq)) = Some rq"
    "c_name info = Some name" "c_version info = Some v"
    "create_config_info M info retry s = (Inr (), s')"
  shows "(\<forall>p \<in> set (versions_of s name). fst p < to_module_version v) \<and>
    get_config_latest_info M name retry' s' = (Inr info, s') \<and>
    ask M retry' ((empty_query QUERY_GET_CONFIG)\<lparr>dq_config_name := Some name, dq_config_version := Some v\<rparr>) s' =
      (Inr (query_answer SUCCESS ''success'' (empty_query_response\<lparr>dr_config_infos := [info]\<rparr>)), s') \<and>
    ask M retry' ((empty_query QUERY_GET_CONFIG)\<lparr>dq_config_name := Some name\<rparr>) s' =
      (Inr (query_answer SUCCESS ''success'' (empty_query_response\<lparr>dr_config_infos := [info]\<rparr>)), s')"
proof -
  from assms(8) obtain r where r: "send_manager M retry rq s = (Inr r, s')" "rs_errcode r = SUCCESS"
    by (auto simp: create_config_info_def submit_checked_ok assms(4))
  from direct_sender_success [OF this [unfolded assms(3)]]
  have "init_success V" and run: "commit_entry E parse (fst (serialize V rq)) (Some empty_response) s = (Some r, s')" by blast+
  obtain dn s1 where step: "create_config E rq (Some (empty_response\<lparr>rs_op_type := Some OP_CREATE_CONFIG\<rparr>)) s = (dn, s1)"
    by fastforce
  have op: "rq_op_type rq = OP_CREATE_CONFIG" "rq_config_info rq = Some info"
    by (simp_all add: assms(4) empty_request_def)
  with run step have dn: "dn = Some r" "s' = s1\<lparr>applied_index := applied_index s + 1\<rparr>"
    by (simp_all add: commit_entry_def apply_entry_def assms(5) apply_request_def)
  have c: "info = msg empty_ConfigInfo (rq_config_info rq)" "name = str_field (c_name info)"
    "to_module_version v = request_version info"
    using op(2) assms(6,7) by (simp_all add: request_version_def)
  obtain x where below: "\<forall>p \<in> set (versions_of s name). fst p < to_module_version v"
    and find: "map_of (versions_of s name @ [(to_module_version v, info)]) (to_module_version v) = Some info"
    and put: "omap_put (to_module_version v) info (versions_of s name) = versions_of s name @ [(to_module_version v, info)]"
    and s1: "s1 = s\<lparr>rocks := (rocks s)(make_config_key E name (to_module_version v) \<mapsto> x),
      configs := (configs s)(name \<mapsto> omap_put (to_module_version v) info (versions_of s name))\<rparr>"
    using create_config_result [OF assms(1,2) step [unfolded dn(1)] r(2) c] by blast
  have at: "configs s' name = Some (versions_of s name @ [(to_module_version v, info)])"
    unfolding dn(2) s1 put by simp
  let ?r = "query_answer SUCCESS ''success'' (empty_query_response\<lparr>dr_config_infos := [info]\<rparr>)"
  have reads: "query_get_config q s' (query_answer SUCCESS ''success'' empty_query_response) = ?r"
    if "dq_config_name q = Some name" "dq_config_version q = None \<or> dq_config_version q = Some v" for q
  proof -
    have "query_get_config q s' r0 = query_answer SUCCESS ''success'' (r0\<lparr>dr_config_infos := dr_config_infos r0 @ [info]\<rparr>)" for r0
      using that at find by (elim disjE) (simp_all add: query_get_config_def del: map_of_append)
    then show ?thesis by (simp add: query_answer_def empty_query_response_def)
  qed
  have asks: "ask M retry' q s' = (Inr ?r, s')"
    if "dq_op_type q = QUERY_GET_CONFIG" "dq_config_name q = Some name" "dq_config_version q = None \<or> dq_config_version q = Some v" for q
    unfolding assms(3) by (rule direct_sender_config_query [OF \<open>init_success V\<close> that(1) reads [OF that(2,3)]]) simp
  have "get_config_latest_info M name retry' s' = (Inr info, s')"
    by (simp add: get_config_latest_info_def asks empty_query_def the_config_def)
  with below show ?thesis by (simp add: asks empty_query_def)
qed

end
