(* ===== verification/ClientProperties.thy ===== *)
theory ClientProperties
  imports ClientServer ServiceProperties
begin

text \<open>
  What the client promises: the sender finds the leader, a success the client reports for a
  configuration is one some server has answered, what is published is read back, and a namespace the
  server refuses is reported as created.
\<close>

subsection \<open>The contract of a sender\<close>

text \<open>
  What \<open>DiscoveryClient\<close> relies on: a response it is given is one that a server gave to this
  request.
\<close>

locale sender_contract =
  fixes M :: "'s message_sender"
    and managed :: "DiscoveryManagerRequest \<Rightarrow> DiscoveryManagerResponse \<Rightarrow> bool"
    and queried :: "DiscoveryQueryRequest \<Rightarrow> DiscoveryQueryResponse \<Rightarrow> bool"
  assumes manager_answer: "send_manager M retry rq s = (Inr r, s') \<Longrightarrow> managed rq r"
    and query_answered: "send_query M retry q s = (Inr qr, s') \<Longrightarrow> queried q qr"
begin

lemma checked_ok:
  assumes "submit_checked M code retry rq s = (Inr (), s')"
  shows "\<exists>r. managed rq r \<and> rs_errcode r = SUCCESS"
  using assms by (auto simp: submit_checked_ok dest: manager_answer)

lemma ask_ok:
  assumes "ask M retry q s = (Inr qr, s')"
  shows "queried q qr \<and> dr_errcode qr = SUCCESS"
proof -
  obtain x s1 where x: "send_query M retry q s = (x, s1)" by fastforce
  with assms show ?thesis
    by (cases x) (auto simp: ask_def dest: query_answered split: if_splits)
qed

lemma create_config_text_ok:
  assumes "create_config_text K M name content version type retry s = (Inr (), s')"
  shows "\<exists>v t r. string_to_version (turbo K) version zero_Version = (Inr (), v) \<and>
    string_to_config_type (turbo K) type = Inr t \<and> rs_errcode r = SUCCESS \<and>
    managed ((empty_request OP_CREATE_CONFIG)\<lparr>rq_config_info := Some (empty_ConfigInfo\<lparr>c_name := Some name,
      c_content := Some content, c_version := Some v, c_type := t\<rparr>)\<rparr>) r"
proof -
  obtain t where t: "string_to_config_type (turbo K) type = Inr t"
    using assms by (cases "string_to_config_type (turbo K) type")
      (auto simp: create_config_text_def build_from_content_ss_def)
  obtain x v where v: "string_to_version (turbo K) version zero_Version = (x, v)" by fastforce
  then have "x = Inr ()"
    using assms t by (cases x) (auto simp: create_config_text_def build_from_content_ss_def)
  moreover from this have "submit_checked M Unavailable retry
      ((empty_request OP_CREATE_CONFIG)\<lparr>rq_config_info := Some (empty_ConfigInfo\<lparr>c_name := Some name,
        c_content := Some content, c_version := Some v, c_type := t\<rparr>)\<rparr>) s = (Inr (), s')"
    using assms t v by (simp add: create_config_text_def build_from_content_ss_def build_from_content_vt_def
        ConfigInfoBuilder_set_info_def)
  ultimately show ?thesis using checked_ok t v by blast
qed

lemma get_latest_ok:
  assumes "get_config_latest_info M name retry s = (Inr c, s')"
  shows "\<exists>qr. queried ((empty_query QUERY_GET_CONFIG)\<lparr>dq_config_name := Some name\<rparr>) qr \<and>
    dr_errcode qr = SUCCESS \<and> dr_config_infos qr = [c]"
proof -
  let ?q = "(empty_query QUERY_GET_CONFIG)\<lparr>dq_config_name := Some name\<rparr>"
  obtain x s1 where x: "ask M retry ?q s = (x, s1)" by fastforce
  with assms obtain qr where qr: "x = Inr qr" "the_config qr = Inr c" "s1 = s'"
    by (cases x) (auto simp: get_config_latest_info_def)
  from qr(2) have "dr_config_infos qr = [c]"
    by (auto simp: the_config_def split: list.splits)
  with ask_ok [of retry ?q s qr s'] x qr show ?thesis by blast
qed

end

text \<open>The two senders of the repository; a query's answer carries no leader.\<close>

definition discovery_message_sender ::
  "'ep net \<Rightarrow> turbo_env \<Rightarrow> (nat \<Rightarrow> nat) \<Rightarrow>
     (DiscoveryManagerRequest \<Rightarrow> nat \<Rightarrow> 'ep \<Rightarrow> DiscoveryManagerResponse call_outcome) \<Rightarrow>
     (DiscoveryQueryRequest \<Rightarrow> nat \<Rightarrow> 'ep \<Rightarrow> DiscoveryQueryResponse call_outcome) \<Rightarrow> 'ep sender_state message_sender" where
  "discovery_message_sender N T pick mcall qcall =
     \<lparr>send_manager = sender_call N T rs_errcode rs_leader pick mcall,
      send_query = sender_call N T dr_errcode (\<lambda>_. []) pick qcall\<rparr>"

definition router_message_sender ::
  "turbo_env \<Rightarrow> (DiscoveryManagerRequest \<Rightarrow> nat \<Rightarrow> string \<Rightarrow> DiscoveryManagerResponse call_outcome) \<Rightarrow>
     (DiscoveryQueryRequest \<Rightarrow> nat \<Rightarrow> string \<Rightarrow> DiscoveryQueryResponse call_outcome) \<Rightarrow> router_state message_sender" where
  "router_message_sender T mcall qcall =
     \<lparr>send_manager = router_call T mcall, send_query = router_call T qcall\<rparr>"

definition answered_by :: "('rq \<Rightarrow> nat \<Rightarrow> 'ep \<Rightarrow> 'r call_outcome) \<Rightarrow> 'rq \<Rightarrow> 'r \<Rightarrow> bool" where
  "answered_by call rq r \<longleftrightarrow> (\<exists>i a. call rq i a = Answered r)"

lemma sender_call_answered:
  assumes "sender_call N T err leader pick call retry rq s = (Inr r, s')"
  shows "answered_by call rq r"
proof -
  obtain x s1 evs where run: "send_request N T err leader pick (call rq) (msg (retry_times_default s) retry) s = (x, s1, evs)"
    by (metis prod_cases3)
  with assms have "x = Inr r" by (simp add: sender_call_def)
  with send_loop_result [OF run [unfolded send_request_def]] show ?thesis by (auto simp: answered_by_def)
qed

lemma router_call_answered:
  assumes "router_call T call retry rq s = (Inr r, s')"
  shows "answered_by call rq r"
proof -
  obtain x evs where run: "router_send_request T (call rq) (msg (router_retry_times s) retry) s = (x, evs)" by fastforce
  with assms have "x = Inr r" by (simp add: router_call_def)
  with router_loop_result [OF run [unfolded router_send_request_def]] show ?thesis by (auto simp: answered_by_def)
qed

interpretation ds: sender_contract "discovery_message_sender N T pick mcall qcall" "answered_by mcall" "answered_by qcall"
  for N :: "'ep net" and T pick mcall qcall
  by unfold_locales (auto simp: discovery_message_sender_def dest: sender_call_answered)

interpretation rs: sender_contract "router_message_sender T mcall qcall" "answered_by mcall" "answered_by qcall"
  for T mcall qcall
  by unfold_locales (auto simp: router_message_sender_def dest: router_call_answered)

subsection \<open>The properties\<close>

text \<open>
  C8: the leader is found: when the leader answers and every other configured node redirects to it, a
  request reaches it within three calls, whatever address was remembered (none, the leader's, or that
  of a peer that fails, is not initialised or redirects), given three tries; its answer is returned,
  its address is remembered, and the next request is one call to it.
\<close>

theorem leader_found:
  assumes "redirects N err leader (call rq) (servlet_nodes s) L r" "3 \<le> retry_times"
    "no_ip N (master_leader_address s) \<or> master_leader_address s = L \<or>
     forgets N err leader (call rq 0 (master_leader_address s)) \<in> {Some (default_ep N), Some L}"
  shows "(\<exists>evs. length (calls evs) \<le> 3 \<and>
      send_request N T err leader pick (call rq) retry_times s = (Inr r, set_leader_address L s, evs)) \<and>
    send_request N T err leader pick (call rq) retry_times (set_leader_address L s) =
      (Inr r, set_leader_address L s, [CallTo L])"
proof -
  have "nat retry_times - 1 = Suc (Suc (nat retry_times - 3))" using assms(2) by linarith
  moreover have "master_leader_address (set_leader_address L s) = L" by (simp add: set_leader_address_def)
  ultimately show ?thesis
    using send_loop_finds [OF assms(1,3)] send_loop_at_leader [OF assms(1), of "set_leader_address L s"]
    by (simp add: send_request_def pass_pause_def)
qed

text \<open>
  C22: a request always comes to an end: whatever the servers do, it makes at most as many calls as tries
  are given (one when none are), pauses at most once between two of them and only for the interval
  set, and returns the answer its last call met, or that no server could be reached, or ends where
  no node was ever configured.
\<close>

theorem sender_gives_up:
  assumes "send_request N T err leader pick call retry_times s = (res, s', evs)"
  shows "length (calls evs) \<le> max 1 (nat retry_times) \<and> length (pauses evs) < max 1 (nat retry_times) \<and>
    (\<forall>t \<in> set (pauses evs). t = between_meta_connect_error_ms s) \<and>
    (case res of
       Inr r \<Rightarrow> \<exists>j < max 1 (nat retry_times). calls evs \<noteq> [] \<and> call j (last (calls evs)) = Answered r \<and> answer_ok err r
     | Inl e \<Rightarrow> e = (Unavailable, turbo_fmt T ''can not connect server after {} times try'' [int_to_string retry_times]) \<or>
         fst e = ProcessDied \<and> servlet_nodes s = [])"
proof -
  have n: "Suc (nat retry_times - 1) = max 1 (nat retry_times)" by simp
  note result = send_loop_result [OF assms [unfolded send_request_def], unfolded n]
    and gaps = send_loop_pauses [OF assms [unfolded send_request_def]]
  have answered: "\<exists>j < max 1 (nat retry_times). calls evs \<noteq> [] \<and> call j (last (calls evs)) = Answered r \<and> answer_ok err r"
    if "res = Inr r" for r
  proof -
    from result that obtain j where "j \<le> nat retry_times - 1" "calls evs \<noteq> []" "call j (last (calls evs)) = Answered r" "answer_ok err r"
      by auto
    then show ?thesis by (intro exI [of _ j]) auto
  qed
  have "length (pauses evs) \<le> nat retry_times - 1" using gaps by simp
  then have "length (pauses evs) < max 1 (nat retry_times)" using n by linarith
  with result gaps answered show ?thesis by (auto split: sum.splits)
qed

text \<open>The example: nodes 1 and 2, of which 2 leads, and a remembered address that is dead.\<close>

definition demo_net :: "nat net" where
  "demo_net = \<lparr>no_ip = (\<lambda>a. a = 0), default_ep = 0, clear_ip = (\<lambda>a. 0), str2endpoint = string_to_nat, endpoint2str = nat_to_string,
     split_peers = (\<lambda>s. [s])\<rparr>"

definition demo_sender :: "nat sender_state" where
  "demo_sender = (new_sender demo_net)\<lparr>servlet_nodes := [1, 2], master_leader_address := 9\<rparr>"

definition demo_cluster :: "DiscoveryManagerRequest \<Rightarrow> nat \<Rightarrow> nat \<Rightarrow> DiscoveryManagerResponse call_outcome" where
  "demo_cluster rq i a = (if a = 2 then Answered empty_response
     else if a = 1 then Answered (empty_response\<lparr>rs_errcode := NOT_LEADER, rs_leader := ''2''\<rparr>) else RpcFailed)"

theorem leader_found_witness:
  "\<exists>evs. send_request demo_net demo_turbo rs_errcode rs_leader (\<lambda>i. i) (demo_cluster (empty_request OP_CREATE_CONFIG)) 5 demo_sender =
     (Inr empty_response, set_leader_address 2 demo_sender, evs)"
proof -
  let ?rq = "empty_request OP_CREATE_CONFIG"
  have "string_to_nat ''2'' = Some 2" by (simp add: string_to_nat_def is_digit_def digits_value_def)
  then have "redirects demo_net rs_errcode rs_leader (demo_cluster ?rq) (servlet_nodes demo_sender) 2 empty_response"
    by (simp add: redirects_def demo_net_def demo_sender_def demo_cluster_def answer_ok_def empty_response_def forgets_def)
  from leader_found [where N = demo_net and err = rs_errcode and leader = rs_leader and call = demo_cluster, OF this, of 5 demo_turbo "\<lambda>i. i"]
  show ?thesis by (auto simp: demo_sender_def demo_net_def demo_cluster_def forgets_def)
qed


definition demo_config_answer :: "DiscoveryQueryRequest \<Rightarrow> nat \<Rightarrow> string \<Rightarrow> DiscoveryQueryResponse call_outcome" where
  "demo_config_answer q i a = Answered (empty_query_response\<lparr>dr_config_infos := [demo_app (demo_v 1 0 0)]\<rparr>)"

lemma demo_create_call:
  "create_config_text demo_client (discovery_message_sender demo_net demo_turbo (\<lambda>i. i) demo_cluster qcall)
     ''app'' ''text'' (version_to_string (demo_v 1 0 0)) (config_type_to_string CF_JSON) (Some 3) (set_leader_address 2 demo_sender) =
     (Inr (), set_leader_address 2 demo_sender)"
proof -
  have "send_manager (discovery_message_sender demo_net demo_turbo (\<lambda>i. i) demo_cluster qcall) (Some 3) rq (set_leader_address 2 demo_sender)
      = (Inr empty_response, set_leader_address 2 demo_sender)" for rq
    by (simp add: discovery_message_sender_def sender_call_def send_request_def send_loop.simps demo_net_def demo_cluster_def
        set_leader_address_def demo_sender_def pass_target_def empty_response_def Let_def)
  then show ?thesis
    using build_from_content_text [OF demo_turbo_ok, of "demo_v 1 0 0" "''app''" "''text''" CF_JSON]
    by (simp add: create_config_text_def demo_client_def submit_checked_def int64_range_def build_from_content_vt_def
        ConfigInfoBuilder_set_info_def empty_response_def)
qed

lemma demo_latest_call:
  "get_config_latest_info (router_message_sender demo_turbo rcall demo_config_answer) ''app'' None new_router =
     (Inr (demo_app (demo_v 1 0 0)), new_router)"
  by (simp add: get_config_latest_info_def ask_def router_message_sender_def router_call_def router_send_request_def
      router_loop.simps demo_config_answer_def the_config_def empty_query_response_def new_router_def Let_def)


text \<open>
  C6: what is published is read back: a text that the client submits to the leader as a configuration,
  with a version and a type given as text, and that it reports as created, is above every version the
  name had, and the next reads, of the latest version and of this one, give back the same texts.
\<close>

theorem publish_then_read:
  assumes "env_ok E" "config_inv s" "M = direct_sender E parse V Q W" "turbo_ok (turbo K)"
    "int64_range (v_major v)" "int64_range (v_minor v)" "int64_range (v_patch v)"
    "info = empty_ConfigInfo\<lparr>c_name := Some name, c_content := Some content, c_version := Some v, c_type := t\<rparr>"
    "rq = (empty_request OP_CREATE_CONFIG)\<lparr>rq_config_info := Some info\<rparr>" "parse (fst (serialize V rq)) = Some rq"
    "create_config_text K M name content (version_to_string v) (config_type_to_string t) retry s = (Inr (), s')"
  shows "(\<forall>p \<in> set (versions_of s name). fst p < to_module_version v) \<and>
    get_config_latest_text_type M name retry' s' = (Inr (content, version_to_string v, config_type_to_string t), s') \<and>
    get_config_text K M name (version_to_string v) retry' s' = (Inr (content, config_type_to_string t, 0), s')"
proof -
  have "create_config_info M info retry s = (Inr (), s')"
    using assms(11) by (simp add: create_config_text_def build_from_content_text [OF assms(4-7)] build_from_content_vt_def
        ConfigInfoBuilder_set_info_def create_config_info_def assms(8))
  note got = created_config_read [OF assms(1-3,9,10) _ _ this, of name v retry']
  have fields: "c_name info = Some name" "c_version info = Some v" "c_content info = Some content" "c_type info = t" "c_time info = 0"
    "version_field info = v"
    by (simp_all add: assms(8) empty_ConfigInfo_def version_field_def)
  have "string_to_version (turbo K) (version_to_string v) zero_Version = (Inr (), v)"
    using dotted_round_trip(1) [OF assms(4-7), of "version_to_string v" zero_Version]
    by (simp add: version_to_string_def zero_Version_def)
  with got fields show ?thesis
    by (simp add: get_config_latest_text_type_def get_config_text_def get_config_info_def the_config_def
        query_answer_def empty_query_response_def)
qed

text \<open>The example: one version published on an empty server.\<close>

definition demo_publish_env :: env where
  "demo_publish_env = demo_env\<lparr>config_pb := table_pb [(demo_app (demo_v 1 0 0), ''C'')]\<rparr>"

definition demo_publish :: DiscoveryManagerRequest where
  "demo_publish = (empty_request OP_CREATE_CONFIG)\<lparr>rq_config_info := Some (demo_app (demo_v 1 0 0))\<rparr>"

definition demo_direct :: "(string \<Rightarrow> DiscoveryManagerRequest option) \<Rightarrow> env \<Rightarrow> discovery_state_machine message_sender" where
  "demo_direct parse E = direct_sender E parse demo_view demo_Q (\<lambda>s. demo_W)"

lemma demo_publish_sent:
  "\<exists>s'. send_manager (demo_direct (\<lambda>d. Some demo_publish) demo_publish_env) None demo_publish init_state =
     (Inr (set_resp SUCCESS ''success'' (empty_response\<lparr>rs_op_type := Some OP_CREATE_CONFIG\<rparr>)), s')"
proof -
  have "discovery_manager demo_view demo_publish empty_response = Submitted MetaGroup ''n'' empty_response"
    by (simp add: dispatch_defs base_process_def demo_view_def demo_publish_def empty_request_def)
  moreover have "\<exists>s'. commit_entry demo_publish_env (\<lambda>d. Some demo_publish) ''n'' (Some empty_response) init_state =
      (Some (set_resp SUCCESS ''success'' (empty_response\<lparr>rs_op_type := Some OP_CREATE_CONFIG\<rparr>)), s')"
    by (simp add: commit_entry_def apply_entry_def apply_request_def demo_publish_def empty_request_def create_config_def
        entry_env_def config_opened_def init_state_def demo_publish_env_def demo_env_def table_pb_def put_discovery_info_def Let_def at_or_def
        split_def)
  ultimately show ?thesis
    by (auto simp: demo_direct_def direct_sender_def serve_manager_def answer_ok_def)
qed

lemma demo_publish_info:
  "empty_ConfigInfo\<lparr>c_name := Some ''app'', c_content := Some ''text'', c_version := Some (demo_v 1 0 0), c_type := CF_JSON\<rparr> =
     demo_app (demo_v 1 0 0)"
  by (simp add: demo_app_def empty_ConfigInfo_def)

lemma demo_publish_ok:
  "\<exists>s'. create_config_text demo_client (demo_direct (\<lambda>d. Some demo_publish) demo_publish_env) ''app'' ''text''
     (version_to_string (demo_v 1 0 0)) (config_type_to_string CF_JSON) None init_state = (Inr (), s')"
  using demo_publish_sent demo_publish_info build_from_content_text [OF demo_turbo_ok, of "demo_v 1 0 0" "''app''" "''text''" CF_JSON]
  by (auto simp: create_config_text_def demo_client_def submit_checked_def int64_range_def build_from_content_vt_def
      ConfigInfoBuilder_set_info_def demo_publish_def)

theorem publish_then_read_witness:
  "\<exists>s'. get_config_latest_text_type (demo_direct (\<lambda>d. Some demo_publish) demo_publish_env) ''app'' None s' =
     (Inr (''text'', version_to_string (demo_v 1 0 0), ''json''), s')"
proof -
  obtain s' where run: "create_config_text demo_client (demo_direct (\<lambda>d. Some demo_publish) demo_publish_env) ''app'' ''text''
     (version_to_string (demo_v 1 0 0)) (config_type_to_string CF_JSON) None init_state = (Inr (), s')"
    using demo_publish_ok by blast
  have ok: "env_ok demo_publish_env"
    by (simp add: env_ok_def demo_publish_env_def demo_env_def rocks_write_ok_demo table_pb_ok)
  have inv: "config_inv init_state" using dsm_inv_init dsm_invD(8) by blast
  have K: "turbo_ok (turbo demo_client)" by (simp add: demo_client_def demo_turbo_ok)
  have info: "demo_app (demo_v 1 0 0) = empty_ConfigInfo\<lparr>c_name := Some ''app'', c_content := Some ''text'',
      c_version := Some (demo_v 1 0 0), c_type := CF_JSON\<rparr>"
    by (simp add: demo_app_def empty_ConfigInfo_def)
  have "int64_range 1" "int64_range 0" by (simp_all add: int64_range_def)
  with publish_then_read [OF ok inv demo_direct_def K _ _ _ info demo_publish_def refl run, of None] show ?thesis
    by (auto simp: config_type_to_string_def)
qed

text \<open>A node that never answers: two calls, one pause, and the error.\<close>

theorem sender_gives_up_witness:
  "\<exists>s' evs. send_request demo_net demo_turbo rs_errcode rs_leader (\<lambda>i. 0)
     (\<lambda>i a. RpcFailed :: DiscoveryManagerResponse call_outcome) 2 demo_sender =
     (Inl (Unavailable, int_to_string 2), s', evs) \<and> length (calls evs) \<le> 2 \<and> length (pauses evs) < 2"
proof -
  obtain res s' evs where run: "send_request demo_net demo_turbo rs_errcode rs_leader (\<lambda>i. 0)
      (\<lambda>i a. RpcFailed :: DiscoveryManagerResponse call_outcome) 2 demo_sender = (res, s', evs)"
    by (metis prod_cases3)
  from sender_gives_up [OF run] have
    "length (calls evs) \<le> 2 \<and> length (pauses evs) < 2 \<and> res = Inl (Unavailable, int_to_string 2)"
    by (auto simp: demo_turbo_def demo_sender_def split: sum.splits)
  with run show ?thesis by (intro exI [of _ s'] exI [of _ evs]) simp
qed

text \<open>
  A refused namespace is reported as created: when a namespace of that name exists, the server
  answers an error and keeps its state (its applied index apart), and the client's \<open>create_namespace\<close>
  returns ok, since it never looks at the error code.
\<close>

lemma refused_namespace_reported_ok:
  assumes "M = direct_sender E parse V Q W" "init_success V" "leads V MetaGroup" "snd (serialize V rq)"
    "rq = (empty_request OP_CREATE_NAMESPACE)\<lparr>rq_namespace_info := Some info\<rparr>" "parse (fst (serialize V rq)) = Some rq"
    "namespace_id_map s (ns_name info) \<noteq> None"
  shows "create_namespace_info M info retry s = (Inr (), s\<lparr>applied_index := applied_index s + 1\<rparr>) \<and>
    (\<exists>r. fst (serve_manager E parse V rq s) = Answered r \<and> rs_errcode r = INPUT_PARAM_ERROR)"
proof -
  have "discovery_manager V rq empty_response = Submitted MetaGroup (fst (serialize V rq)) empty_response"
    using assms(2-5) by (cases "serialize V rq") (simp add: dispatch_defs base_process_def empty_request_def)
  moreover have "commit_entry E parse (fst (serialize V rq)) (Some empty_response) s =
      (Some (set_resp INPUT_PARAM_ERROR ''namespace already existed'' (empty_response\<lparr>rs_op_type := Some OP_CREATE_NAMESPACE\<rparr>)),
       s\<lparr>applied_index := applied_index s + 1\<rparr>)"
    using assms(5-7) by (auto simp: commit_entry_def apply_entry_def apply_request_def empty_request_def create_namespace_def)
  ultimately have serve: "serve_manager E parse V rq s =
      (Answered (set_resp INPUT_PARAM_ERROR ''namespace already existed'' (empty_response\<lparr>rs_op_type := Some OP_CREATE_NAMESPACE\<rparr>)),
       s\<lparr>applied_index := applied_index s + 1\<rparr>)"
    by (simp add: serve_manager_def)
  then show ?thesis
    unfolding assms(1) create_namespace_info_def submit_unchecked_def assms(5) [symmetric]
    by (simp add: direct_sender_def answer_ok_def)
qed

lemma refused_namespace_reported_ok_witness:
  "fst (create_namespace_info (demo_direct (\<lambda>d. demo_request ''n'') demo_E) demo_ns None demo_state1) = Inr ()"
proof -
  let ?rq = "(empty_request OP_CREATE_NAMESPACE)\<lparr>rq_namespace_info := Some demo_ns\<rparr>"
  have "demo_request ''n'' = Some ?rq" by (simp add: demo_request_def)
  with refused_namespace_reported_ok [OF demo_direct_def _ _ _ refl, of demo_ns "\<lambda>d. demo_request ''n''" demo_state1 demo_E None]
  show ?thesis by (simp add: demo_view_def demo_ns_def)
qed

end
