(* ===== verification/RouterService.thy ===== *)
theory RouterService
  imports ClientProperties
begin

text \<open>
  \<open>RouterServiceImpl\<close> (discovery/router_service.cc): the process between clients and the discovery
  cluster. Each handler runs in a thread of its own that it joins, so a call is one step; the
  reply goes out whether the forwarded call went well or not, and \<open>unanswered\<close> is what the
  response object holds when no server gave a final answer.
\<close>

record 'ep router_service =
  router_is_init :: bool
  manager_sender :: "'ep sender_state"
  query_sender :: "'ep sender_state"

definition new_router_service :: "'ep net \<Rightarrow> 'ep router_service" where
  "new_router_service N = \<lparr>router_is_init = False, manager_sender = new_sender N, query_sender = new_sender N\<rparr>"

definition router_service_init ::
  "'ep net \<Rightarrow> turbo_env \<Rightarrow> string \<Rightarrow> 'ep router_service \<Rightarrow> unit result \<times> 'ep router_service" where
  "router_service_init N T discovery_peers s =
     (if router_is_init s then (Inr (), s)
      else let (rs, m) = sender_init N T discovery_peers (manager_sender s); s = s\<lparr>manager_sender := m\<rparr>
      in case rs of
           Inl e \<Rightarrow> (Inl e, s)
         | Inr _ \<Rightarrow> let (rs, q) = sender_init N T discovery_peers (query_sender s); s = s\<lparr>query_sender := q\<rparr>
             in case rs of
                  Inl e \<Rightarrow> (Inl e, s)
                | Inr _ \<Rightarrow> (Inr (), s\<lparr>router_is_init := True\<rparr>))"

definition router_discovery_manager ::
  "'ep net \<Rightarrow> turbo_env \<Rightarrow> (nat \<Rightarrow> nat) \<Rightarrow>
     (DiscoveryManagerRequest \<Rightarrow> nat \<Rightarrow> 'ep \<Rightarrow> DiscoveryManagerResponse call_outcome) \<Rightarrow>
     DiscoveryManagerResponse \<Rightarrow> DiscoveryManagerRequest \<Rightarrow> 'ep router_service \<Rightarrow>
     DiscoveryManagerResponse \<times> 'ep router_service" where
  "router_discovery_manager N T pick call unanswered request s =
     (let (ret, m) = sender_call N T rs_errcode rs_leader pick call (Some 2) request (manager_sender s)
      in (case ret of Inr response \<Rightarrow> response | Inl _ \<Rightarrow> unanswered, s\<lparr>manager_sender := m\<rparr>))"

definition router_discovery_query ::
  "'ep net \<Rightarrow> turbo_env \<Rightarrow> (nat \<Rightarrow> nat) \<Rightarrow>
     (DiscoveryQueryRequest \<Rightarrow> nat \<Rightarrow> 'ep \<Rightarrow> DiscoveryQueryResponse call_outcome) \<Rightarrow>
     DiscoveryQueryResponse \<Rightarrow> DiscoveryQueryRequest \<Rightarrow> 'ep router_service \<Rightarrow>
     DiscoveryQueryResponse \<times> 'ep router_service" where
  "router_discovery_query N T pick call unanswered request s =
     (let (ret, q) = sender_call N T dr_errcode (\<lambda>_. []) pick call (Some 2) request (query_sender s)
      in (case ret of Inr response \<Rightarrow> response | Inl _ \<Rightarrow> unanswered, s\<lparr>query_sender := q\<rparr>))"

text \<open>Starting gives both senders the same peers, those of the list, and starting again does nothing.\<close>

lemma init_peers_ok:
  "init_peers N T peers s = (Inr (), s') \<Longrightarrow>
     s' = s\<lparr>servlet_nodes := servlet_nodes s @ map (\<lambda>p. the (str2endpoint N p)) peers\<rparr>"
proof (induction peers arbitrary: s)
  case (Cons p peers)
  then obtain ep where "str2endpoint N p = Some ep"
    "init_peers N T peers (s\<lparr>servlet_nodes := servlet_nodes s @ [ep]\<rparr>) = (Inr (), s')"
    by (auto split: option.splits)
  with Cons.IH [OF this(2)] show ?case by simp
qed simp

lemma router_service_init_ok:
  assumes "router_service_init N T peers (new_router_service N) = (Inr (), s)"
  shows "servlet_nodes (manager_sender s) = map (\<lambda>p. the (str2endpoint N p)) (split_peers N peers) \<and>
    query_sender s = manager_sender s \<and> router_service_init N T peers' s = (Inr (), s)"
proof -
  obtain r m where m: "sender_init N T peers (new_sender N) = (r, m)" by fastforce
  with assms have "r = Inr ()" "s = \<lparr>router_is_init = True, manager_sender = m, query_sender = m\<rparr>"
    by (auto simp: router_service_init_def new_router_service_def Let_def split: sum.splits)
  moreover from m this(1) have "servlet_nodes m = map (\<lambda>p. the (str2endpoint N p)) (split_peers N peers)"
    by (auto simp: sender_init_def new_sender_def dest!: init_peers_ok)
  ultimately show ?thesis by (simp add: router_service_init_def)
qed

text \<open>
  A client of the router gets the final answer of a server to its own request, or what the failed
  calls left; the router does not tell the two apart.
\<close>

lemma router_manager_answer:
  assumes "router_discovery_manager N T pick call unanswered rq s = (r, s')"
  shows "answered_by call rq r \<or> r = unanswered"
  using assms sender_call_answered [of N T rs_errcode rs_leader pick call "Some 2" rq "manager_sender s"]
  by (auto simp: router_discovery_manager_def split: prod.splits sum.splits)

lemma router_query_answer:
  assumes "router_discovery_query N T pick call unanswered rq s = (r, s')"
  shows "answered_by call rq r \<or> r = unanswered"
  using assms sender_call_answered [of N T dr_errcode "\<lambda>_. []" pick call "Some 2" rq "query_sender s"]
  by (auto simp: router_discovery_query_def split: prod.splits sum.splits)

text \<open>The router as the peer of a \<open>RouterSender\<close>: a reachable router always answers the first call.\<close>

lemma via_router:
  assumes "\<And>rq i a. mcall rq i a = Answered (fst (router_discovery_manager N T' pick call unanswered rq (svc rq i)))"
    and "router_call T mcall retry rq s = (res, s')"
  shows "\<exists>r. res = Inr r \<and> (answered_by call rq r \<or> r = unanswered)"
  using assms(2) router_manager_answer [of N T' pick call unanswered rq "svc rq 0"]
  by (auto simp: router_call_def router_send_request_def router_loop.simps assms(1) Let_def split: prod.splits)
    (metis prod.collapse)

end
