(* ===== verification/ThreadSafeMap.thy ===== *)
theory ThreadSafeMap
  imports EaPrelude
begin

text \<open>
  \<open>ThreadSafeMap\<close> (base/thread_safe_map.h): \<open>MAP_COUNT\<close> unordered maps, each under a mutex of its
  own; a key lives in the map its hash picks. An operation on a key holds one mutex for the whole of
  its work and is one step; a traversal locks the maps one after the other and is split there. A
  callback that changes a value returns the value it leaves.
\<close>

record ('k, 'v) shard_env =
  hash :: "'k \<Rightarrow> nat"
  map_count :: nat
  new_value :: 'v

type_synonym ('k, 'v) shards = "nat \<Rightarrow> 'k \<Rightarrow> 'v option"

definition no_shards :: "('k, 'v) shards" where
  "no_shards = (\<lambda>i. Map.empty)"

definition map_idx :: "('k, 'v) shard_env \<Rightarrow> 'k \<Rightarrow> nat" where
  "map_idx H key = hash H key mod map_count H"

definition put_shard :: "nat \<Rightarrow> 'k \<Rightarrow> 'v \<Rightarrow> ('k, 'v) shards \<Rightarrow> ('k, 'v) shards" where
  "put_shard i key value m = m(i := (m i)(key \<mapsto> value))"

definition drop_shard :: "nat \<Rightarrow> 'k \<Rightarrow> ('k, 'v) shards \<Rightarrow> ('k, 'v) shards" where
  "drop_shard i key m = m(i := (m i)(key := None))"

subsection \<open>Operations on a key\<close>

definition tsm_count :: "('k, 'v) shard_env \<Rightarrow> 'k \<Rightarrow> ('k, 'v) shards \<Rightarrow> nat" where
  "tsm_count H key m = (case m (map_idx H key) key of None \<Rightarrow> 0 | Some _ \<Rightarrow> 1)"

definition tsm_exist :: "('k, 'v) shard_env \<Rightarrow> 'k \<Rightarrow> ('k, 'v) shards \<Rightarrow> bool" where
  "tsm_exist H key m \<longleftrightarrow> tsm_count H key m > 0"

definition tsm_set :: "('k, 'v) shard_env \<Rightarrow> 'k \<Rightarrow> 'v \<Rightarrow> ('k, 'v) shards \<Rightarrow> ('k, 'v) shards" where
  "tsm_set H key value m = put_shard (map_idx H key) key value m"

definition insert_init_if_not_exist ::
  "('k, 'v) shard_env \<Rightarrow> 'k \<Rightarrow> ('v \<Rightarrow> int \<times> 'v) \<Rightarrow> ('k, 'v) shards \<Rightarrow> bool \<times> ('k, 'v) shards" where
  "insert_init_if_not_exist H key call m =
     (let idx = map_idx H key
      in case m idx key of
           Some _ \<Rightarrow> (False, m)
         | None \<Rightarrow>
             let (ret, value) = call (new_value H);
                 m = put_shard idx key value m
             in if ret = 0 then (True, m) else (False, drop_shard idx key m))"

definition tsm_get :: "('k, 'v) shard_env \<Rightarrow> 'k \<Rightarrow> ('k, 'v) shards \<Rightarrow> 'v" where
  "tsm_get H key m = (case m (map_idx H key) key of None \<Rightarrow> new_value H | Some v \<Rightarrow> v)"

definition call_and_get ::
  "('k, 'v) shard_env \<Rightarrow> 'k \<Rightarrow> ('v \<Rightarrow> 'v) \<Rightarrow> ('k, 'v) shards \<Rightarrow> bool \<times> ('k, 'v) shards" where
  "call_and_get H key call m =
     (let idx = map_idx H key
      in case m idx key of
           None \<Rightarrow> (False, m)
         | Some v \<Rightarrow> (True, put_shard idx key (call v) m))"

definition get_or_put :: "('k, 'v) shard_env \<Rightarrow> 'k \<Rightarrow> 'v \<Rightarrow> ('k, 'v) shards \<Rightarrow> 'v \<times> ('k, 'v) shards" where
  "get_or_put H key value m =
     (let idx = map_idx H key
      in case m idx key of
           None \<Rightarrow> (value, put_shard idx key value m)
         | Some v \<Rightarrow> (v, m))"

text \<open>The callback gets the new value by reference and answers what is returned.\<close>

definition get_or_put_call ::
  "('k, 'v) shard_env \<Rightarrow> 'k \<Rightarrow> ('v \<Rightarrow> 'v \<times> 'v) \<Rightarrow> ('k, 'v) shards \<Rightarrow> 'v \<times> ('k, 'v) shards" where
  "get_or_put_call H key call m =
     (let idx = map_idx H key
      in case m idx key of
           None \<Rightarrow> let (ret, value) = call (new_value H) in (ret, put_shard idx key value m)
         | Some v \<Rightarrow> (v, m))"

text \<open>\<open>operator[]\<close>: the value a reference is given to; the lock is gone when the caller uses it.\<close>

definition tsm_at :: "('k, 'v) shard_env \<Rightarrow> 'k \<Rightarrow> ('k, 'v) shards \<Rightarrow> 'v \<times> ('k, 'v) shards" where
  "tsm_at H key m =
     (let idx = map_idx H key
      in case m idx key of
           None \<Rightarrow> (new_value H, put_shard idx key (new_value H) m)
         | Some v \<Rightarrow> (v, m))"

definition tsm_erase :: "('k, 'v) shard_env \<Rightarrow> 'k \<Rightarrow> ('k, 'v) shards \<Rightarrow> nat \<times> ('k, 'v) shards" where
  "tsm_erase H key m = (tsm_count H key m, drop_shard (map_idx H key) key m)"

definition call_and_erase ::
  "('k, 'v) shard_env \<Rightarrow> 'k \<Rightarrow> ('v \<Rightarrow> 'v) \<Rightarrow> ('k, 'v) shards \<Rightarrow> bool \<times> ('k, 'v) shards" where
  "call_and_erase H key call m =
     (let idx = map_idx H key
      in case m idx key of
           None \<Rightarrow> (False, m)
         | Some v \<Rightarrow> let m = put_shard idx key (call v) m in (True, drop_shard idx key m))"

definition init_if_not_exist_else_update ::
  "('k, 'v) shard_env \<Rightarrow> 'k \<Rightarrow> bool \<Rightarrow> ('v \<Rightarrow> 'v) \<Rightarrow> 'v \<Rightarrow> ('k, 'v) shards \<Rightarrow> bool \<times> ('k, 'v) shards" where
  "init_if_not_exist_else_update H key always_update call fresh m =
     (let idx = map_idx H key
      in case m idx key of
           None \<Rightarrow>
             let m = put_shard idx key fresh m
             in (False, if always_update then put_shard idx key (call fresh) m else m)
         | Some v \<Rightarrow> (True, put_shard idx key (call v) m))"

definition tsm_update ::
  "('k, 'v) shard_env \<Rightarrow> 'k \<Rightarrow> ('v \<Rightarrow> 'v) \<Rightarrow> ('k, 'v) shards \<Rightarrow> bool \<times> ('k, 'v) shards" where
  "tsm_update H key call m =
     (let idx = map_idx H key
      in case m idx key of
           None \<Rightarrow> (False, m)
         | Some v \<Rightarrow> (True, put_shard idx key (call v) m))"

subsection \<open>Operations on the whole\<close>

definition tsm_size :: "('k, 'v) shard_env \<Rightarrow> ('k, 'v) shards \<Rightarrow> nat" where
  "tsm_size H m = sum_list (map (\<lambda>i. card (dom (m i))) [0..<map_count H])"

definition tsm_clear :: "('k, 'v) shard_env \<Rightarrow> ('k, 'v) shards \<Rightarrow> ('k, 'v) shards" where
  "tsm_clear H m = fold (\<lambda>i m. m(i := Map.empty)) [0..<map_count H] m"

text \<open>
  Traversals: \<open>walk\<close> is the order in which a map is walked and \<open>call\<close> a callback with a state of its
  own; \<open>between\<close> is what other threads do to the maps before the next one is locked.
\<close>

fun walk_map :: "('k \<Rightarrow> 'v \<Rightarrow> 'a \<Rightarrow> 'v \<times> 'a) \<Rightarrow> 'k list \<Rightarrow> ('k \<Rightarrow> 'v option) \<Rightarrow> 'a \<Rightarrow> ('k \<Rightarrow> 'v option) \<times> 'a" where
  "walk_map call [] t a = (t, a)"
| "walk_map call (k # ks) t a =
     (case t k of
        None \<Rightarrow> walk_map call ks t a
      | Some v \<Rightarrow> let (v, a) = call k v a in walk_map call ks (t(k \<mapsto> v)) a)"

fun traverse_from ::
  "(('k \<Rightarrow> 'v option) \<Rightarrow> 'k list) \<Rightarrow> (nat \<Rightarrow> ('k, 'v) shards \<Rightarrow> ('k, 'v) shards) \<Rightarrow> ('k \<Rightarrow> 'v \<Rightarrow> 'a \<Rightarrow> 'v \<times> 'a) \<Rightarrow>
     nat list \<Rightarrow> ('k, 'v) shards \<Rightarrow> 'a \<Rightarrow> ('k, 'v) shards \<times> 'a" where
  "traverse_from walk between call [] m a = (m, a)"
| "traverse_from walk between call (i # is) m a =
     (let (t, a) = walk_map call (walk (m i)) (m i) a
      in traverse_from walk between call is (between i (m(i := t))) a)"

definition traverse_with_key_value where
  "traverse_with_key_value H walk between call m a = traverse_from walk between call [0..<map_count H] m a"

definition traverse where
  "traverse H walk between call m a = traverse_from walk between (\<lambda>k. call) [0..<map_count H] m a"

text \<open>\<open>traverse_copy\<close> calls back on copies, so the maps stay as they are.\<close>

fun traverse_copy_from ::
  "(('k \<Rightarrow> 'v option) \<Rightarrow> 'k list) \<Rightarrow> (nat \<Rightarrow> ('k, 'v) shards \<Rightarrow> ('k, 'v) shards) \<Rightarrow> ('v \<Rightarrow> 'a \<Rightarrow> 'v \<times> 'a) \<Rightarrow>
     nat list \<Rightarrow> ('k, 'v) shards \<Rightarrow> 'a \<Rightarrow> ('k, 'v) shards \<times> 'a" where
  "traverse_copy_from walk between call [] m a = (m, a)"
| "traverse_copy_from walk between call (i # is) m a =
     (let (tmp, a) = walk_map (\<lambda>k. call) (walk (m i)) (m i) a
      in traverse_copy_from walk between call is (between i m) a)"

definition traverse_copy where
  "traverse_copy H walk between call m a = traverse_copy_from walk between call [0..<map_count H] m a"

text \<open>The callback answers whether to go on.\<close>

fun walk_early :: "('v \<Rightarrow> 'a \<Rightarrow> bool \<times> 'v \<times> 'a) \<Rightarrow> 'k list \<Rightarrow> ('k \<Rightarrow> 'v option) \<Rightarrow> 'a \<Rightarrow> bool \<times> ('k \<Rightarrow> 'v option) \<times> 'a" where
  "walk_early call [] t a = (True, t, a)"
| "walk_early call (k # ks) t a =
     (case t k of
        None \<Rightarrow> walk_early call ks t a
      | Some v \<Rightarrow>
          let (go_on, v, a) = call v a; t = t(k \<mapsto> v)
          in if go_on then walk_early call ks t a else (False, t, a))"

fun traverse_early_from ::
  "(('k \<Rightarrow> 'v option) \<Rightarrow> 'k list) \<Rightarrow> (nat \<Rightarrow> ('k, 'v) shards \<Rightarrow> ('k, 'v) shards) \<Rightarrow> ('v \<Rightarrow> 'a \<Rightarrow> bool \<times> 'v \<times> 'a) \<Rightarrow>
     nat list \<Rightarrow> ('k, 'v) shards \<Rightarrow> 'a \<Rightarrow> bool \<times> ('k, 'v) shards \<times> 'a" where
  "traverse_early_from walk between call [] m a = (True, m, a)"
| "traverse_early_from walk between call (i # is) m a =
     (let (all, t, a) = walk_early call (walk (m i)) (m i) a; m = between i (m(i := t))
      in if all then traverse_early_from walk between call is m a else (False, m, a))"

definition traverse_with_early_return where
  "traverse_with_early_return H walk between call m a = traverse_early_from walk between call [0..<map_count H] m a"

subsection \<open>One map\<close>

definition shards_ok :: "('k, 'v) shard_env \<Rightarrow> ('k, 'v) shards \<Rightarrow> bool" where
  "shards_ok H m \<longleftrightarrow> map_count H > 0 \<and> (\<forall>i k. m i k \<noteq> None \<longrightarrow> i = map_idx H k)"

text \<open>The map that the shards stand for.\<close>

definition flat :: "('k, 'v) shard_env \<Rightarrow> ('k, 'v) shards \<Rightarrow> 'k \<Rightarrow> 'v option" where
  "flat H m k = m (map_idx H k) k"

lemma flat_put [simp]: "flat H (put_shard (map_idx H k) k v m) = (flat H m)(k \<mapsto> v)"
  by (auto simp: flat_def put_shard_def fun_eq_iff)

lemma flat_drop [simp]: "flat H (drop_shard (map_idx H k) k m) = (flat H m)(k := None)"
  by (auto simp: flat_def drop_shard_def fun_eq_iff)

lemma shards_ok_put [simp]: "shards_ok H m \<Longrightarrow> shards_ok H (put_shard (map_idx H k) k v m)"
  by (auto simp: shards_ok_def put_shard_def)

lemma shards_ok_drop [simp]: "shards_ok H m \<Longrightarrow> shards_ok H (drop_shard i k m)"
  by (auto simp: shards_ok_def drop_shard_def)

text \<open>Each operation on a key, on the shards and on the one map.\<close>

datatype ('k, 'v) tsm_op = TsmSet 'k 'v | TsmInsertInit 'k "'v \<Rightarrow> int \<times> 'v" | TsmCallGet 'k "'v \<Rightarrow> 'v"
  | TsmGetOrPut 'k 'v | TsmGetOrPutCall 'k "'v \<Rightarrow> 'v \<times> 'v" | TsmAt 'k | TsmErase 'k
  | TsmCallErase 'k "'v \<Rightarrow> 'v" | TsmInitElseUpdate 'k bool "'v \<Rightarrow> 'v" 'v | TsmUpdate 'k "'v \<Rightarrow> 'v" | TsmClear

fun tsm_step :: "('k, 'v) shard_env \<Rightarrow> ('k, 'v) tsm_op \<Rightarrow> ('k, 'v) shards \<Rightarrow> ('k, 'v) shards" where
  "tsm_step H (TsmSet k v) m = tsm_set H k v m"
| "tsm_step H (TsmInsertInit k f) m = snd (insert_init_if_not_exist H k f m)"
| "tsm_step H (TsmCallGet k f) m = snd (call_and_get H k f m)"
| "tsm_step H (TsmGetOrPut k v) m = snd (get_or_put H k v m)"
| "tsm_step H (TsmGetOrPutCall k f) m = snd (get_or_put_call H k f m)"
| "tsm_step H (TsmAt k) m = snd (tsm_at H k m)"
| "tsm_step H (TsmErase k) m = snd (tsm_erase H k m)"
| "tsm_step H (TsmCallErase k f) m = snd (call_and_erase H k f m)"
| "tsm_step H (TsmInitElseUpdate k b f v) m = snd (init_if_not_exist_else_update H k b f v m)"
| "tsm_step H (TsmUpdate k f) m = snd (tsm_update H k f m)"
| "tsm_step H TsmClear m = tsm_clear H m"

fun map_step :: "'v \<Rightarrow> ('k, 'v) tsm_op \<Rightarrow> ('k \<Rightarrow> 'v option) \<Rightarrow> ('k \<Rightarrow> 'v option)" where
  "map_step d (TsmSet k v) t = t(k \<mapsto> v)"
| "map_step d (TsmInsertInit k f) t = (if t k = None \<and> fst (f d) = 0 then t(k \<mapsto> snd (f d)) else t)"
| "map_step d (TsmCallGet k f) t = t(k := map_option f (t k))"
| "map_step d (TsmGetOrPut k v) t = (if t k = None then t(k \<mapsto> v) else t)"
| "map_step d (TsmGetOrPutCall k f) t = (if t k = None then t(k \<mapsto> snd (f d)) else t)"
| "map_step d (TsmAt k) t = (if t k = None then t(k \<mapsto> d) else t)"
| "map_step d (TsmErase k) t = t(k := None)"
| "map_step d (TsmCallErase k f) t = t(k := None)"
| "map_step d (TsmInitElseUpdate k b f v) t =
     t(k \<mapsto> (case t k of None \<Rightarrow> if b then f v else v | Some x \<Rightarrow> f x))"
| "map_step d (TsmUpdate k f) t = t(k := map_option f (t k))"
| "map_step d TsmClear t = Map.empty"

lemma tsm_clear_eq: "tsm_clear H m i = (if i < map_count H then Map.empty else m i)"
proof -
  have "fold (\<lambda>i m. m(i := Map.empty)) [0..<n] m i = (if i < n then Map.empty else m i)" for n
    by (induction n) auto
  then show ?thesis by (simp add: tsm_clear_def)
qed

lemmas tsm_defs = tsm_set_def insert_init_if_not_exist_def call_and_get_def get_or_put_def get_or_put_call_def
  tsm_at_def tsm_erase_def call_and_erase_def init_if_not_exist_else_update_def tsm_update_def Let_def split_def

lemma tsm_step_refines:
  assumes "shards_ok H m"
  shows "shards_ok H (tsm_step H op m) \<and> flat H (tsm_step H op m) = map_step (new_value H) op (flat H m)"
proof (cases op)
  case TsmClear
  have "map_idx H k < map_count H" for k using assms by (simp add: map_idx_def shards_ok_def)
  with TsmClear assms show ?thesis by (auto simp: shards_ok_def flat_def tsm_clear_eq fun_eq_iff)
qed (use assms in \<open>auto simp: tsm_defs fun_eq_iff flat_def [symmetric] split: option.split\<close>)

text \<open>Any history of operations, each on its own lock, is that history on one map.\<close>

lemma shards_ok_new: "0 < map_count H \<Longrightarrow> shards_ok H no_shards \<and> flat H no_shards = Map.empty"
  by (auto simp: shards_ok_def no_shards_def flat_def)

lemma tsm_history_refines:
  assumes "shards_ok H m"
  shows "shards_ok H (fold (tsm_step H) ops m) \<and>
    flat H (fold (tsm_step H) ops m) = fold (map_step (new_value H)) ops (flat H m)"
  using assms
proof (induction ops arbitrary: m)
  case (Cons op ops)
  then show ?case using tsm_step_refines [OF Cons.prems, of op] by simp
qed simp

text \<open>Without others at work in between, the size is that of the one map.\<close>

lemma tsm_size_flat:
  assumes "shards_ok H m" "\<And>i. finite (dom (m i))"
  shows "tsm_size H m = card (dom (flat H m))"
proof -
  let ?I = "{0..<map_count H}"
  have "dom (flat H m) = (\<Union>i \<in> ?I. dom (m i))"
    using assms(1) by (fastforce simp: flat_def shards_ok_def map_idx_def)
  moreover have "card (\<Union>i \<in> ?I. dom (m i)) = (\<Sum>i \<in> ?I. card (dom (m i)))"
  proof (rule card_UN_disjoint)
    show "\<forall>i \<in> ?I. \<forall>j \<in> ?I. i \<noteq> j \<longrightarrow> dom (m i) \<inter> dom (m j) = {}"
      using assms(1) unfolding shards_ok_def by blast
  qed (use assms(2) in auto)
  ultimately show ?thesis
    by (simp add: tsm_size_def sum_list_distinct_conv_sum_set)
qed

text \<open>What a lookup returns is what the one map holds.\<close>

lemma tsm_lookup_flat:
  "tsm_exist H k m \<longleftrightarrow> flat H m k \<noteq> None"
  "tsm_get H k m = (case flat H m k of None \<Rightarrow> new_value H | Some v \<Rightarrow> v)"
  by (auto simp: tsm_exist_def tsm_count_def tsm_get_def flat_def split: option.split)

end
