(* ===== verification/DoubleBuffer.thy ===== *)
theory DoubleBuffer
  imports TimeCost
begin

text \<open>
  base/double_buffer.h: \<open>ExecutionQueue\<close>, \<open>DoubleBuffer\<close> and \<open>IncrementalUpdate\<close>. A task is a
  function on the value it is given; the tasks of one call of \<open>run_function\<close> are the list its
  iterator walks. What a reader sees between the swap and the second pass is the value of
  \<open>publish_batch\<close>. \<open>int64_t\<close> indices are integers; the clock is an argument.
\<close>

section \<open>Execution queue\<close>

definition queue_run_function :: "bool \<Rightarrow> ('s \<Rightarrow> 's) list \<Rightarrow> 's \<Rightarrow> 's" where
  "queue_run_function stopped tasks s = (if stopped then s else fold (\<lambda>f. f) tasks s)"

section \<open>Double buffer\<close>

record 'a double_buffer =
  data_0 :: 'a
  data_1 :: 'a
  index_1 :: bool

definition new_double_buffer :: "'a \<Rightarrow> 'a double_buffer" where
  "new_double_buffer x = \<lparr>data_0 = x, data_1 = x, index_1 = False\<rparr>"

definition db_read :: "'a double_buffer \<Rightarrow> 'a" where
  "db_read b = (if index_1 b then data_1 b else data_0 b)"

definition db_read_background :: "'a double_buffer \<Rightarrow> 'a" where
  "db_read_background b = (if index_1 b then data_0 b else data_1 b)"

definition db_swap :: "'a double_buffer \<Rightarrow> 'a double_buffer" where
  "db_swap b = b\<lparr>index_1 := \<not> index_1 b\<rparr>"

text \<open>Writing through the pointers the two reads return.\<close>

definition on_front :: "('a \<Rightarrow> 'a) \<Rightarrow> 'a double_buffer \<Rightarrow> 'a double_buffer" where
  "on_front f b = (if index_1 b then b\<lparr>data_1 := f (data_1 b)\<rparr> else b\<lparr>data_0 := f (data_0 b)\<rparr>)"

definition on_background :: "('a \<Rightarrow> 'a) \<Rightarrow> 'a double_buffer \<Rightarrow> 'a double_buffer" where
  "on_background f b = (if index_1 b then b\<lparr>data_0 := f (data_0 b)\<rparr> else b\<lparr>data_1 := f (data_1 b)\<rparr>)"

definition publish_batch :: "('a \<Rightarrow> 'a) list \<Rightarrow> 'a double_buffer \<Rightarrow> 'a double_buffer" where
  "publish_batch tasks b = db_swap (fold on_background tasks b)"

definition catch_up :: "('a \<Rightarrow> 'a) list \<Rightarrow> 'a double_buffer \<Rightarrow> 'a double_buffer" where
  "catch_up tasks b = fold on_background tasks b"

definition buffer_run_function :: "bool \<Rightarrow> ('a \<Rightarrow> 'a) list \<Rightarrow> 'a double_buffer \<Rightarrow> 'a double_buffer" where
  "buffer_run_function stopped tasks b = (if stopped then b else catch_up tasks (publish_batch tasks b))"

definition in_step :: "'a double_buffer \<Rightarrow> bool" where
  "in_step b \<longleftrightarrow> data_0 b = data_1 b"

lemma db_simps [simp]:
  "db_read (on_background f b) = db_read b"
  "db_read_background (on_background f b) = f (db_read_background b)"
  "db_read (on_front f b) = f (db_read b)"
  "db_read_background (on_front f b) = db_read_background b"
  "db_read (db_swap b) = db_read_background b"
  "db_read_background (db_swap b) = db_read b"
  "db_read (new_double_buffer x) = x"
  "db_read_background (new_double_buffer x) = x"
  by (simp_all add: db_read_def db_read_background_def on_background_def on_front_def db_swap_def
      new_double_buffer_def)

lemma in_step_iff: "in_step b \<longleftrightarrow> db_read b = db_read_background b"
  by (auto simp: in_step_def db_read_def db_read_background_def)

lemma fold_on_background [simp]:
  "db_read (fold on_background tasks b) = db_read b"
  "db_read_background (fold on_background tasks b) = fold (\<lambda>f. f) tasks (db_read_background b)"
  by (induction tasks arbitrary: b) auto

text \<open>While the batch is built and while the old copy catches up, readers see whole batches only.\<close>

lemma batch_is_atomic:
  assumes "in_step b"
  shows "db_read (publish_batch tasks b) = fold (\<lambda>f. f) tasks (db_read b)"
    and "db_read (fold on_background some b) = db_read b"
    and "db_read (fold on_background some (publish_batch tasks b)) = fold (\<lambda>f. f) tasks (db_read b)"
  using assms by (simp_all add: publish_batch_def in_step_iff)

lemma buffer_run_function_spec:
  assumes "in_step b"
  shows "in_step (buffer_run_function stopped tasks b) \<and>
    db_read (buffer_run_function stopped tasks b) = queue_run_function stopped tasks (db_read b)"
  using assms by (simp add: buffer_run_function_def catch_up_def publish_batch_def in_step_iff
      queue_run_function_def)

text \<open>The buffer is one variable changed by a whole batch at a time.\<close>

lemma buffer_runs_refine:
  assumes "in_step b"
  shows "in_step (fold (\<lambda>(st, ts). buffer_run_function st ts) batches b) \<and>
    db_read (fold (\<lambda>(st, ts). buffer_run_function st ts) batches b) =
      fold (\<lambda>(st, ts). queue_run_function st ts) batches (db_read b)"
  using assms
proof (induction batches arbitrary: b)
  case (Cons p batches)
  then show ?case using buffer_run_function_spec [of b "fst p" "snd p"] by (simp add: split_beta)
qed simp

section \<open>Incremental update\<close>

record 'a incremental =
  inc_buf :: "(int \<times> 'a) list double_buffer"
  earliest :: TimeCost

definition new_incremental :: "int \<Rightarrow> 'a incremental" where
  "new_incremental now = \<lparr>inc_buf = new_double_buffer [], earliest = TimeCost_new now\<rparr>"

definition put_incremental_info :: "int \<Rightarrow> int \<Rightarrow> int \<Rightarrow> 'a \<Rightarrow> 'a incremental \<Rightarrow> 'a incremental" where
  "put_incremental_info gc_time now apply_index infos s =
     (let empty = (db_read_background (inc_buf s) = []);
          s = s\<lparr>inc_buf := on_background (omap_put apply_index infos) (inc_buf s)\<rparr>
      in if empty then s\<lparr>earliest := TimeCost_reset now (earliest s)\<rparr>
         else if gc_time < get_time now (earliest s) then s\<lparr>inc_buf := db_swap (on_front (\<lambda>_. []) (inc_buf s))\<rparr>
         else s)"

text \<open>
  The loop over one of the maps: the entries the callback is called on, and the last index.
\<close>

fun update_from :: "int \<Rightarrow> (int \<times> 'a) list \<Rightarrow> int \<Rightarrow> 'a list \<times> int" where
  "update_from applied_index [] from = ([], from)"
| "update_from applied_index ((i, infos) # iter) from =
     (if applied_index < i then ([], from)
      else let (calls, reached) = update_from applied_index iter i in (infos # calls, reached))"

definition check_and_update_incremental ::
  "int \<Rightarrow> int \<Rightarrow> 'a incremental \<Rightarrow> bool \<times> 'a list \<times> int" where
  "check_and_update_incremental applied_index last_updated s =
     (let background = db_read_background (inc_buf s); frontground = db_read (inc_buf s)
      in if frontground = [] \<and> background = [] then (last_updated < applied_index, [], last_updated)
         else if frontground = [] then
           (if last_updated < fst (hd background) then (True, [], last_updated)
            else (False, update_from applied_index (omap_upper last_updated background) last_updated))
         else
           (if last_updated < fst (hd frontground) then (True, [], last_updated)
            else let (calls, reached) =
                       update_from applied_index (omap_upper last_updated frontground) last_updated;
                     (later, reached) = update_from applied_index (omap_upper reached background) reached
                 in (False, calls @ later, reached)))"

definition inc_clear :: "'a incremental \<Rightarrow> 'a incremental" where
  "inc_clear s = s\<lparr>inc_buf := on_front (\<lambda>_. []) (on_background (\<lambda>_. []) (inc_buf s))\<rparr>"

subsection \<open>The entries put so far\<close>

text \<open>
  What the state keeps of the entries put, as triples of index, value and time: a suffix, split
  into the front and the background map.
\<close>

datatype 'a inc_op = IncPut int 'a int | IncClear

fun inc_step :: "int \<Rightarrow> 'a inc_op \<Rightarrow> 'a incremental \<Rightarrow> 'a incremental" where
  "inc_step gc_time (IncPut i v now) s = put_incremental_info gc_time now i v s"
| "inc_step gc_time IncClear s = inc_clear s"

fun inc_puts :: "'a inc_op list \<Rightarrow> (int \<times> 'a \<times> int) list" where
  "inc_puts [] = []"
| "inc_puts (IncPut i v now # ops) = (i, v, now) # inc_puts ops"
| "inc_puts (IncClear # ops) = inc_puts ops"

definition entry_of :: "int \<times> 'a \<times> int \<Rightarrow> int \<times> 'a" where
  "entry_of p = (fst p, fst (snd p))"

definition put_time :: "int \<times> 'a \<times> int \<Rightarrow> int" where
  "put_time p = snd (snd p)"

definition indices_increase :: "(int \<times> 'a \<times> int) list \<Rightarrow> bool" where
  "indices_increase ps \<longleftrightarrow> sorted_wrt (\<lambda>p q. fst p < fst q) ps"

definition times_increase :: "(int \<times> 'a \<times> int) list \<Rightarrow> bool" where
  "times_increase ps \<longleftrightarrow> sorted_wrt (\<lambda>p q. put_time p \<le> put_time q) ps"

definition inc_parts ::
  "(int \<times> 'a \<times> int) list \<Rightarrow> (int \<times> 'a \<times> int) list \<Rightarrow> (int \<times> 'a \<times> int) list \<Rightarrow> 'a incremental \<Rightarrow> bool" where
  "inc_parts a f b s \<longleftrightarrow> db_read (inc_buf s) = map entry_of f \<and>
     db_read_background (inc_buf s) = map entry_of b"

lemma entry_of_simps [simp]: "fst (entry_of p) = fst p" "entry_of (i, v, t) = (i, v)" "put_time (i, v, t) = t"
  by (simp_all add: entry_of_def put_time_def)

lemma indices_increase_append:
  "indices_increase (ps @ qs) \<longleftrightarrow>
     indices_increase ps \<and> indices_increase qs \<and> (\<forall>p \<in> set ps. \<forall>q \<in> set qs. fst p < fst q)"
  by (auto simp: indices_increase_def sorted_wrt_append)

lemma times_increase_append:
  "times_increase (ps @ qs) \<longleftrightarrow>
     times_increase ps \<and> times_increase qs \<and> (\<forall>p \<in> set ps. \<forall>q \<in> set qs. put_time p \<le> put_time q)"
  by (auto simp: times_increase_def sorted_wrt_append)

lemma omap_ok_entries: "indices_increase ps \<Longrightarrow> omap_ok (map entry_of ps)"
  by (simp add: omap_ok_def indices_increase_def sorted_wrt_map)

lemma omap_upper_filter: "omap_ok m \<Longrightarrow> omap_upper k m = filter (\<lambda>p. k < fst p) m"
proof (induction m)
  case (Cons q m)
  then show ?case
    by (cases q) (auto simp: omap_upper_def omap_ok_Cons intro!: filter_True [symmetric])
qed (simp add: omap_upper_def)

lemma omap_ok_filter: "omap_ok m \<Longrightarrow> omap_ok (filter P m)"
  by (induction m) (auto simp: omap_ok_Cons)

text \<open>The loop calls back on the entries up to the applied index and stops at the last of them.\<close>

definition reached_index :: "(int \<times> 'a) list \<Rightarrow> int \<Rightarrow> int" where
  "reached_index m from = (if m = [] then from else fst (last m))"

lemma update_from_eq:
  "omap_ok m \<Longrightarrow> update_from n m from =
     (map snd (filter (\<lambda>p. fst p \<le> n) m), reached_index (filter (\<lambda>p. fst p \<le> n) m) from)"
proof (induction n m "from" rule: update_from.induct)
  case (2 n i v m "from")
  show ?case
  proof (cases "n < i")
    case True
    with 2 have "filter (\<lambda>p. fst p \<le> n) m = []"
      by (auto simp: omap_ok_Cons filter_empty_conv)
    with True show ?thesis by (simp add: reached_index_def)
  next
    case False
    with 2 show ?thesis by (auto simp: omap_ok_Cons reached_index_def)
  qed
qed (simp add: reached_index_def)

definition between :: "int \<Rightarrow> int \<Rightarrow> int \<times> 'a \<Rightarrow> bool" where
  "between l n p \<longleftrightarrow> l < fst p \<and> fst p \<le> n"

lemma update_from_upper:
  assumes "omap_ok m"
  shows "update_from n (omap_upper l m) l =
    (map snd (filter (between l n) m), reached_index (filter (between l n) m) l)"
  using assms
  by (simp add: omap_upper_filter update_from_eq omap_ok_filter between_def conj_commute cong: filter_cong)

lemma update_from_parts:
  assumes "omap_ok (f @ b)" "(calls, reached) = update_from n (omap_upper l f) l"
    "(later, reached2) = update_from n (omap_upper reached b) reached"
  shows "calls @ later = map snd (filter (between l n) (f @ b)) \<and>
    reached2 = reached_index (filter (between l n) (f @ b)) l"
proof -
  have ok: "omap_ok f" "omap_ok b" and less: "\<And>p q. p \<in> set f \<Longrightarrow> q \<in> set b \<Longrightarrow> fst p < fst q"
    using assms(1) by (auto simp: omap_ok_def sorted_wrt_append)
  let ?f = "filter (between l n) f"
  have calls: "calls = map snd ?f" and reached: "reached = reached_index ?f l"
    using assms(2) by (simp_all add: update_from_upper ok)
  have "reached < fst q \<longleftrightarrow> l < fst q" if "q \<in> set b" for q
  proof (cases "?f = []")
    case False
    then have "last ?f \<in> set ?f" by (rule last_in_set)
    then have "last ?f \<in> set f" "l < fst (last ?f)" by (auto simp: between_def)
    moreover from this less [OF _ that] have "fst (last ?f) < fst q" by blast
    ultimately show ?thesis using False by (simp add: reached reached_index_def)
  qed (simp add: reached reached_index_def)
  then have "filter (between reached n) b = filter (between l n) b"
    by (auto simp: between_def intro: filter_cong)
  with assms(3) show ?thesis
    by (auto simp: update_from_upper ok calls reached reached_index_def)
qed

text \<open>
  One equation for the whole check: with nothing kept it compares the indices, else it asks for a
  full update below the first entry kept and calls back on the entries in between.
\<close>

lemma check_eq:
  assumes "omap_ok (db_read (inc_buf s) @ db_read_background (inc_buf s))"
  shows "check_and_update_incremental n l s =
    (let m = db_read (inc_buf s) @ db_read_background (inc_buf s)
     in if m = [] then (l < n, [], l)
        else if l < fst (hd m) then (True, [], l)
        else (False, map snd (filter (between l n) m), reached_index (filter (between l n) m) l))"
proof (cases "db_read (inc_buf s) = []")
  case True
  with assms show ?thesis
    by (auto simp: check_and_update_incremental_def Let_def update_from_upper)
next
  case False
  obtain calls reached where 1: "(calls, reached) = update_from n (omap_upper l (db_read (inc_buf s))) l"
    by (metis surj_pair)
  obtain later reached2 where 2: "(later, reached2) = update_from n (omap_upper reached (db_read_background (inc_buf s))) reached"
    by (metis surj_pair)
  show ?thesis
    using update_from_parts [OF assms 1 2] False
    by (simp add: check_and_update_incremental_def Let_def 1 [symmetric] 2 [symmetric])
qed

subsection \<open>Which entries are kept\<close>

definition inc_run :: "int \<Rightarrow> int \<Rightarrow> 'a inc_op list \<Rightarrow> 'a incremental" where
  "inc_run gc_time now ops = fold (inc_step gc_time) ops (new_incremental now)"

definition inc_kept :: "int \<Rightarrow> 'a inc_op list \<Rightarrow> 'a incremental \<Rightarrow> bool" where
  "inc_kept gc_time ops s \<longleftrightarrow> (\<exists>a f b. inc_puts ops = a @ f @ b \<and> inc_parts a f b s \<and>
     (times_increase (inc_puts ops) \<and> b \<noteq> [] \<longrightarrow> (\<forall>p \<in> set f. put_time p \<le> earliest s)) \<and>
     (times_increase (inc_puts ops) \<and> IncClear \<notin> set ops \<longrightarrow>
        (\<forall>p \<in> set a. gc_time < put_time (last (inc_puts ops)) - put_time p)))"

lemma inc_keptI:
  assumes "inc_puts ops = a @ f @ b" "inc_parts a f b s"
    and "times_increase (inc_puts ops) \<Longrightarrow> b \<noteq> [] \<Longrightarrow> \<forall>p \<in> set f. put_time p \<le> earliest s"
    and "times_increase (inc_puts ops) \<Longrightarrow> IncClear \<notin> set ops \<Longrightarrow>
      \<forall>p \<in> set a. gc_time < put_time (last (inc_puts ops)) - put_time p"
  shows "inc_kept gc_time ops s"
  using assms unfolding inc_kept_def by blast

lemma inc_puts_append [simp]: "inc_puts (xs @ ys) = inc_puts xs @ inc_puts ys"
  by (induction xs rule: inc_puts.induct) auto

lemma db_read_cases:
  "db_read (inc_buf (s\<lparr>earliest := t\<rparr>)) = db_read (inc_buf s)"
  "db_read_background (inc_buf (s\<lparr>earliest := t\<rparr>)) = db_read_background (inc_buf s)"
  by simp_all

lemma inc_kept_put:
  assumes kept: "inc_kept gc_time ops s"
    and idx: "indices_increase (inc_puts ops @ [(i, v, now)])"
  shows "inc_kept gc_time (ops @ [IncPut i v now]) (put_incremental_info gc_time now i v s)"
proof -
  obtain a f b where ps: "inc_puts ops = a @ f @ b" and parts: "inc_parts a f b s"
    and early: "times_increase (inc_puts ops) \<and> b \<noteq> [] \<longrightarrow> (\<forall>p \<in> set f. put_time p \<le> earliest s)"
    and old: "times_increase (inc_puts ops) \<and> IncClear \<notin> set ops \<longrightarrow>
      (\<forall>p \<in> set a. gc_time < put_time (last (inc_puts ops)) - put_time p)"
    using kept unfolding inc_kept_def by blast
  let ?x = "(i, v, now)" and ?ops = "ops @ [IncPut i v now]" and ?s = "put_incremental_info gc_time now i v s"
  have before: "\<forall>p \<in> set (a @ f @ b). put_time p \<le> now" and time: "times_increase (inc_puts ops)"
    if "times_increase (inc_puts ?ops)"
    using that by (auto simp: ps times_increase_append)
  have put: "omap_put i v (map entry_of b) = map entry_of (b @ [?x])"
    using idx by (subst omap_ok_snoc) (auto simp: ps indices_increase_append omap_ok_entries)
  have old': "\<forall>p \<in> set a. gc_time < now - put_time p"
    if "IncClear \<notin> set ops" "times_increase (inc_puts ?ops)"
  proof
    fix p assume "p \<in> set a"
    then have "last (inc_puts ops) \<in> set (a @ f @ b)" unfolding ps by (intro last_in_set) auto
    with before [OF that(2)] have "put_time (last (inc_puts ops)) \<le> now" by blast
    with old that(1) time [OF that(2)] \<open>p \<in> set a\<close> show "gc_time < now - put_time p" by fastforce
  qed
  consider (first) "b = []"
    | (swap) "b \<noteq> []" "gc_time < now - earliest s"
    | (keep) "b \<noteq> []" "\<not> gc_time < now - earliest s" by blast
  then show ?thesis
  proof cases
    case first
    with parts put before old' time show ?thesis
      by (intro inc_keptI [of _ a f "[?x]"])
        (auto simp: ps inc_parts_def put_incremental_info_def TimeCost_reset_def)
  next
    case swap
    have "\<forall>p \<in> set f. gc_time < now - put_time p" if "times_increase (inc_puts ?ops)"
      using early swap time [OF that] by fastforce
    with swap parts put before old' time show ?thesis
      by (intro inc_keptI [of _ "a @ f" "b @ [?x]" "[]"])
        (auto simp: ps inc_parts_def put_incremental_info_def get_time_def)
  next
    case keep
    with parts put before old' time early show ?thesis
      by (intro inc_keptI [of _ a f "b @ [?x]"])
        (auto simp: ps inc_parts_def put_incremental_info_def get_time_def)
  qed
qed

lemma inc_kept_clear: "inc_kept gc_time ops s \<Longrightarrow> inc_kept gc_time (ops @ [IncClear]) (inc_clear s)"
  by (rule inc_keptI [of _ "inc_puts ops" "[]" "[]"]) (auto simp: inc_parts_def inc_clear_def)

lemma inc_run_kept:
  assumes "indices_increase (inc_puts ops)"
  shows "inc_kept gc_time ops (inc_run gc_time t0 ops)"
  using assms
proof (induction ops rule: rev_induct)
  case Nil
  show ?case
    by (rule inc_keptI [of _ "[]" "[]" "[]"]) (auto simp: inc_parts_def inc_run_def new_incremental_def)
next
  case (snoc op ops)
  then have "inc_kept gc_time ops (inc_run gc_time t0 ops)"
    by (auto simp: indices_increase_append)
  with snoc.prems show ?case
    by (cases op) (auto simp: inc_run_def intro: inc_kept_put inc_kept_clear)
qed

text \<open>Checking against what is kept: the entries dropped are below the first one kept.\<close>

lemma inc_kept_eq:
  assumes "inc_parts a f b s" "indices_increase (a @ f @ b)"
  shows "check_and_update_incremental n l s =
    (if f @ b = [] then (l < n, [], l) else if l < fst (hd (f @ b)) then (True, [], l)
     else (False, map snd (filter (between l n) (map entry_of (f @ b))),
       reached_index (filter (between l n) (map entry_of (f @ b))) l))"
proof -
  have m: "db_read (inc_buf s) @ db_read_background (inc_buf s) = map entry_of (f @ b)"
    using assms(1) by (simp add: inc_parts_def)
  have "indices_increase (f @ b)"
    using assms(2) indices_increase_append [of a] by blast
  then have "omap_ok (map entry_of (f @ b))" by (rule omap_ok_entries)
  with m show ?thesis
    by (subst check_eq) (simp_all add: Let_def hd_map del: map_append append_is_Nil_conv)
qed

lemma first_kept_least:
  assumes "indices_increase (a @ m)" "m \<noteq> []"
  shows "p \<in> set a \<Longrightarrow> fst p < fst (hd m)" and "p \<in> set m \<Longrightarrow> fst (hd m) \<le> fst p"
proof -
  show "p \<in> set a \<Longrightarrow> fst p < fst (hd m)"
    using assms unfolding indices_increase_append by simp
  show "p \<in> set m \<Longrightarrow> fst (hd m) \<le> fst p"
    using assms by (cases m) (auto simp: indices_increase_append indices_increase_def sorted_wrt_append less_imp_le)
qed

lemma inc_kept_check:
  assumes kept: "inc_kept gc_time ops s" and idx: "indices_increase (inc_puts ops)"
    and check: "check_and_update_incremental n l s = (False, calls, l')"
  shows "calls = map snd (filter (between l n) (map entry_of (inc_puts ops))) \<and>
    l' = reached_index (filter (between l n) (map entry_of (inc_puts ops))) l"
proof -
  obtain a f b where ps: "inc_puts ops = a @ f @ b" and parts: "inc_parts a f b s"
    using kept unfolding inc_kept_def by blast
  note eq = inc_kept_eq [OF parts idx [unfolded ps], of n l]
  show ?thesis
  proof (cases "f @ b = []")
    case True
    with check eq have "\<not> l < n" "calls = []" "l' = l" by auto
    then show ?thesis
      by (auto simp: between_def reached_index_def filter_empty_conv)
  next
    case False
    with check eq have l: "\<not> l < fst (hd (f @ b))" by (metis prod.inject)
    have "filter (between l n) (map entry_of a) = []"
      using l first_kept_least(1) [OF idx [unfolded ps] False]
      by (force simp: filter_empty_conv between_def)
    then have "filter (between l n) (map entry_of (inc_puts ops)) = filter (between l n) (map entry_of (f @ b))"
      by (simp add: ps)
    with check eq l False show ?thesis by auto
  qed
qed

text \<open>A reader that is no further behind than the collection time is never sent back to the start.\<close>

lemma inc_kept_no_full:
  assumes kept: "inc_kept gc_time ops s" and idx: "indices_increase (inc_puts ops)"
    and timely: "times_increase (inc_puts ops)" "IncClear \<notin> set ops"
    and p: "p \<in> set (inc_puts ops)" "fst p \<le> l" "put_time (last (inc_puts ops)) - put_time p \<le> gc_time"
  shows "\<not> fst (check_and_update_incremental n l s)"
proof -
  obtain a f b where ps: "inc_puts ops = a @ f @ b" and parts: "inc_parts a f b s"
    and old: "\<forall>p \<in> set a. gc_time < put_time (last (inc_puts ops)) - put_time p"
    using kept timely unfolding inc_kept_def by blast
  have mem: "p \<in> set (f @ b)" using p old unfolding ps by fastforce
  then have ne: "f @ b \<noteq> []" by auto
  have "fst (hd (f @ b)) \<le> fst p"
    by (rule first_kept_least(2) [OF idx [unfolded ps] ne mem])
  with p(2) ne show ?thesis
    unfolding inc_kept_eq [OF parts idx [unfolded ps]] by (simp del: append_is_Nil_conv)
qed

end
