(* ===== verification/Bthread.thy ===== *)
theory Bthread
  imports EaPrelude "HOL-Library.Signed_Division"
begin

text \<open>
  base/bthread.h and base/scope_exit.h. What other threads do while one sleeps or waits is an
  argument (the values it reads on waking); \<open>ConcurrencyBthread\<close> as a whole is a step relation
  whose steps are the critical sections of its mutex, so every interleaving is a sequence of them.
  bthread's condition variables and thread start may fail, as their return codes say.
\<close>

section \<open>Sleeping with an eye on a shutdown flag\<close>

text \<open>The sleeps made, in microseconds; \<open>shutdown k\<close> is the flag as the \<open>k\<close>-th test reads it.\<close>

function sleep_slices :: "(nat \<Rightarrow> bool) \<Rightarrow> nat \<Rightarrow> nat \<Rightarrow> int list" where
  "sleep_slices shutdown time sleep_time_count =
     (if time < sleep_time_count then
        if shutdown time then [] else 10000 # sleep_slices shutdown (Suc time) sleep_time_count
      else [])"
  by auto
termination by (relation "measure (\<lambda>(_, time, sleep_time_count). sleep_time_count - time)") auto

declare sleep_slices.simps [simp del]

definition bthread_usleep_fast_shutdown :: "int \<Rightarrow> (nat \<Rightarrow> bool) \<Rightarrow> int list" where
  "bthread_usleep_fast_shutdown interval_us shutdown =
     (if interval_us < 10000 then [interval_us]
      else sleep_slices shutdown 0 (nat (interval_us sdiv 10000)))"

lemma sleep_slices_eq:
  "\<exists>k \<le> n - t. sleep_slices shutdown t n = replicate k 10000 \<and>
    (\<forall>j < k. \<not> shutdown (t + j)) \<and> (k < n - t \<longrightarrow> shutdown (t + k))"
proof (induction shutdown t n rule: sleep_slices.induct)
  case (1 shutdown t n)
  show ?case
  proof (cases "t < n \<and> \<not> shutdown t")
    case True
    then obtain k where "k \<le> n - Suc t" "sleep_slices shutdown (Suc t) n = replicate k 10000"
      "\<forall>j < k. \<not> shutdown (Suc t + j)" "k < n - Suc t \<longrightarrow> shutdown (Suc t + k)"
      using 1 by auto
    with True show ?thesis
      by (intro exI [of _ "Suc k"]) (auto simp: sleep_slices.simps [of _ t] less_Suc_eq_0_disj)
  next
    case False
    then show ?thesis by (intro exI [of _ 0]) (auto simp: sleep_slices.simps)
  qed
qed

section \<open>Condition variable with a count\<close>

type_synonym bthread_cond = int

definition cond_increase :: "bthread_cond \<Rightarrow> bthread_cond" where
  "cond_increase count = count + 1"

text \<open>The number of threads the call wakes, among those that wait, beside the new count.\<close>

definition decrease_signal :: "nat \<Rightarrow> bthread_cond \<Rightarrow> nat \<times> bthread_cond" where
  "decrease_signal waiting count = (min 1 waiting, count - 1)"

definition decrease_broadcast :: "nat \<Rightarrow> bthread_cond \<Rightarrow> nat \<times> bthread_cond" where
  "decrease_broadcast waiting count = (waiting, count - 1)"

text \<open>
  The waiting loop: each wake-up is the code \<open>bthread_cond_wait\<close> returns and the count found on
  holding the mutex again; \<open>None\<close> when the thread still waits after all of them.
\<close>

fun wait_while :: "(int \<Rightarrow> bool) \<Rightarrow> int \<Rightarrow> bthread_cond \<Rightarrow> (int \<times> bthread_cond) list \<Rightarrow> (int \<times> bthread_cond) option" where
  "wait_while blocked ret count wakes =
     (if blocked count then
        case wakes of
          [] \<Rightarrow> None
        | (ret, count) # wakes \<Rightarrow> if ret \<noteq> 0 then Some (ret, count) else wait_while blocked ret count wakes
      else Some (ret, count))"

declare wait_while.simps [simp del]

definition cond_wait :: "int \<Rightarrow> bthread_cond \<Rightarrow> (int \<times> bthread_cond) list \<Rightarrow> (int \<times> bthread_cond) option" where
  "cond_wait cond count wakes = wait_while (\<lambda>count. cond < count) 0 count wakes"

definition increase_wait :: "int \<Rightarrow> bthread_cond \<Rightarrow> (int \<times> bthread_cond) list \<Rightarrow> (int \<times> bthread_cond) option" where
  "increase_wait cond count wakes =
     map_option (\<lambda>(ret, count). (ret, count + 1)) (wait_while (\<lambda>count. cond < count + 1) 0 count wakes)"

text \<open>The timed forms differ in the call that waits, whose deadline is one of its failures.\<close>

definition timed_wait :: "int \<Rightarrow> bthread_cond \<Rightarrow> (int \<times> bthread_cond) list \<Rightarrow> (int \<times> bthread_cond) option" where
  "timed_wait cond count wakes = wait_while (\<lambda>count. cond < count) 0 count wakes"

definition increase_timed_wait ::
  "int \<Rightarrow> bthread_cond \<Rightarrow> (int \<times> bthread_cond) list \<Rightarrow> (int \<times> bthread_cond) option" where
  "increase_timed_wait cond count wakes =
     map_option (\<lambda>(ret, count). (ret, count + 1)) (wait_while (\<lambda>count. cond < count + 1) 0 count wakes)"

lemma wait_while_result:
  "wait_while blocked ret count wakes = Some (ret', count') \<Longrightarrow> ret' = 0 \<Longrightarrow> \<not> blocked count'"
proof (induction blocked ret count wakes rule: wait_while.induct)
  case (1 blocked ret count wakes)
  then show ?case
    by (auto simp: wait_while.simps [of blocked ret count] split: if_splits list.splits)
qed

text \<open>A wait that reports success leaves the count within the bound.\<close>

lemma cond_wait_success: "cond_wait cond count wakes = Some (0, count') \<Longrightarrow> count' \<le> cond"
  unfolding cond_wait_def using wait_while_result by fastforce

lemma increase_wait_success:
  "increase_wait cond count wakes = Some (0, count') \<Longrightarrow> count' \<le> cond"
  unfolding increase_wait_def using wait_while_result [where ret' = 0 and blocked = "\<lambda>count. cond < count + 1"]
  by fastforce

section \<open>A bounded number of threads\<close>

text \<open>
  \<open>ConcurrencyBthread\<close>: \<open>running\<close> calls, \<open>lost\<close> starts that failed, the threads that wait in
  \<open>run\<close> and in \<open>join\<close>, and those a signal has woken that have yet to take the mutex.
\<close>

record conc =
  conc_count :: bthread_cond
  running :: nat
  lost :: nat
  run_waits :: nat
  join_waits :: nat
  run_woken :: nat
  join_woken :: nat

definition new_conc :: conc where
  "new_conc = \<lparr>conc_count = 0, running = 0, lost = 0, run_waits = 0, join_waits = 0,
     run_woken = 0, join_woken = 0\<rparr>"

text \<open>
  \<open>RunEnter\<close>, \<open>RunWake\<close>: \<open>run\<close> takes the mutex first, or again after a wake-up; \<open>started\<close> says
  whether the new thread could be started. \<open>Finish\<close>: a call returns and signals, and \<open>wake\<close> says
  who gets it.
\<close>

datatype wake = WakeRun | WakeJoin | WakeNone

datatype conc_action = RunEnter bool | RunWake bool | RunWaitFails bool | Finish wake
  | JoinEnter | JoinWake | JoinWaitFails

text \<open>The end of \<open>run\<close>: the count goes up, then the thread starts or does not.\<close>

definition conc_start :: "bool \<Rightarrow> conc \<Rightarrow> conc" where
  "conc_start started s = s\<lparr>conc_count := cond_increase (conc_count s),
     running := (if started then Suc (running s) else running s),
     lost := (if started then lost s else Suc (lost s))\<rparr>"

definition run_blocked :: "int \<Rightarrow> conc \<Rightarrow> bool" where
  "run_blocked concurrency s \<longleftrightarrow> concurrency < conc_count s + 1"

fun wake_ok :: "wake \<Rightarrow> conc \<Rightarrow> bool" where
  "wake_ok WakeRun s = (0 < run_waits s)"
| "wake_ok WakeJoin s = (0 < join_waits s)"
| "wake_ok WakeNone s = (run_waits s = 0 \<and> join_waits s = 0)"

fun wake_one :: "wake \<Rightarrow> conc \<Rightarrow> conc" where
  "wake_one WakeRun s = s\<lparr>run_waits := run_waits s - 1, run_woken := Suc (run_woken s)\<rparr>"
| "wake_one WakeJoin s = s\<lparr>join_waits := join_waits s - 1, join_woken := Suc (join_woken s)\<rparr>"
| "wake_one WakeNone s = s"

fun conc_act :: "int \<Rightarrow> conc_action \<Rightarrow> conc \<Rightarrow> conc option" where
  "conc_act concurrency (RunEnter started) s =
     Some (if run_blocked concurrency s then s\<lparr>run_waits := Suc (run_waits s)\<rparr> else conc_start started s)"
| "conc_act concurrency (RunWake started) s =
     (if run_woken s = 0 then None
      else let s = s\<lparr>run_woken := run_woken s - 1\<rparr>
      in Some (if run_blocked concurrency s then s\<lparr>run_waits := Suc (run_waits s)\<rparr> else conc_start started s))"
| "conc_act concurrency (RunWaitFails started) s =
     (if run_waits s = 0 then None else Some (conc_start started (s\<lparr>run_waits := run_waits s - 1\<rparr>)))"
| "conc_act concurrency (Finish wake) s =
     (if running s = 0 \<or> \<not> wake_ok wake s then None
      else Some (wake_one wake (s\<lparr>running := running s - 1, conc_count := conc_count s - 1\<rparr>)))"
| "conc_act concurrency JoinEnter s =
     Some (if 0 < conc_count s then s\<lparr>join_waits := Suc (join_waits s)\<rparr> else s)"
| "conc_act concurrency JoinWake s =
     (if join_woken s = 0 then None
      else let s = s\<lparr>join_woken := join_woken s - 1\<rparr>
      in Some (if 0 < conc_count s then s\<lparr>join_waits := Suc (join_waits s)\<rparr> else s))"
| "conc_act concurrency JoinWaitFails s =
     (if join_waits s = 0 then None else Some (s\<lparr>join_waits := join_waits s - 1\<rparr>))"

inductive conc_reach :: "int \<Rightarrow> (conc_action \<Rightarrow> bool) \<Rightarrow> conc \<Rightarrow> bool" for concurrency allowed where
  reach_new: "conc_reach concurrency allowed new_conc"
| reach_act: "conc_reach concurrency allowed s \<Longrightarrow> allowed a \<Longrightarrow> conc_act concurrency a s = Some s' \<Longrightarrow>
    conc_reach concurrency allowed s'"

fun no_wait_fails :: "conc_action \<Rightarrow> bool" where
  "no_wait_fails (RunWaitFails _) = False"
| "no_wait_fails JoinWaitFails = False"
| "no_wait_fails _ = True"

fun no_join :: "conc_action \<Rightarrow> bool" where
  "no_join JoinEnter = False"
| "no_join a = no_wait_fails a"

lemmas conc_act_defs = conc_start_def run_blocked_def cond_increase_def new_conc_def Let_def

text \<open>The count is the calls that run and the starts that failed, whatever fails.\<close>

lemma conc_count_inv:
  assumes "conc_reach concurrency allowed s"
  shows "conc_count s = int (running s) + int (lost s)"
  using assms
proof induction
  case (reach_act s a s')
  from reach_act.hyps(3) reach_act.IH show ?case
  proof (cases a)
    case (Finish w)
    with reach_act show ?thesis by (cases w) (auto split: if_splits)
  qed (auto simp: conc_act_defs split: if_splits)
qed (simp add: conc_act_defs)

text \<open>As long as no wait fails, at most \<open>concurrency\<close> calls run.\<close>

lemma conc_bound:
  assumes "conc_reach concurrency allowed s" "\<And>a. allowed a \<Longrightarrow> no_wait_fails a" "0 \<le> concurrency"
  shows "conc_count s \<le> concurrency"
  using assms(1)
proof induction
  case (reach_act s a s')
  from assms(2) [OF reach_act.hyps(2)] reach_act.hyps(3) reach_act.IH show ?case
  proof (cases a)
    case (Finish w)
    with reach_act show ?thesis by (cases w) (auto split: if_splits)
  qed (auto simp: conc_act_defs split: if_splits)
qed (use assms(3) in \<open>simp add: conc_act_defs\<close>)

text \<open>
  When only one thread at a time joins and it is the one that runs calls (so no \<open>join\<close> overlaps a
  \<open>run\<close>), a call that waits always has another that will wake it.
\<close>

lemma no_lost_wake_up:
  assumes "conc_reach concurrency no_join s"
  shows "join_waits s = 0 \<and> join_woken s = 0 \<and>
    (0 < run_waits s \<longrightarrow> concurrency \<le> conc_count s + int (run_woken s))"
  using assms
proof induction
  case (reach_act s a s')
  from reach_act.hyps(2,3) reach_act.IH show ?case
  proof (cases a)
    case (Finish w)
    with reach_act show ?thesis by (cases w) (auto split: if_splits)
  qed (auto simp: conc_act_defs split: if_splits)
qed (simp add: conc_act_defs)

lemma waiting_run_is_served:
  assumes "conc_reach concurrency no_join s" "0 < concurrency" "0 < run_waits s" "lost s = 0"
  shows "0 < running s \<or> 0 < run_woken s"
  using no_lost_wake_up [OF assms(1)] conc_count_inv [OF assms(1)] assms(2-4) by linarith

text \<open>
  Otherwise the signal for the waiting call may go to a thread that joins: the call then waits
  for ever with nothing running.
\<close>

definition stuck :: "conc \<Rightarrow> bool" where
  "stuck s \<longleftrightarrow> 0 < run_waits s \<and> conc_count s = 0 \<and> running s = 0 \<and> run_woken s = 0 \<and> join_woken s = 0"

fun conc_acts :: "int \<Rightarrow> conc_action list \<Rightarrow> conc \<Rightarrow> conc option" where
  "conc_acts concurrency [] s = Some s"
| "conc_acts concurrency (a # as) s = Option.bind (conc_act concurrency a s) (conc_acts concurrency as)"

lemma conc_acts_reach:
  "conc_acts concurrency as s = Some s' \<Longrightarrow> list_all allowed as \<Longrightarrow> conc_reach concurrency allowed s \<Longrightarrow>
    conc_reach concurrency allowed s'"
proof (induction as arbitrary: s)
  case (Cons a as)
  then show ?case by (auto simp: bind_eq_Some_conv intro: reach_act)
qed simp

lemma signal_can_be_lost:
  "\<exists>s. conc_reach 1 no_wait_fails s \<and> stuck s"
proof -
  have "\<exists>s. conc_acts 1 [RunEnter True, JoinEnter, RunEnter True, Finish WakeJoin, JoinWake] new_conc = Some s \<and> stuck s"
    by (simp add: conc_act_defs stuck_def)
  then obtain s where s: "conc_acts 1 [RunEnter True, JoinEnter, RunEnter True, Finish WakeJoin, JoinWake] new_conc = Some s"
    "stuck s" by blast
  have "conc_reach 1 no_wait_fails s"
    by (rule conc_acts_reach [OF s(1) _ reach_new]) simp
  with s(2) show ?thesis by blast
qed

text \<open>A thread that cannot be started keeps its place for ever: the count never returns to zero.\<close>

lemma lost_never_returns:
  "conc_act concurrency a s = Some s' \<Longrightarrow> lost s \<le> lost s'"
proof (cases a)
  case (Finish w)
  then show "conc_act concurrency a s = Some s' \<Longrightarrow> lost s \<le> lost s'"
    by (cases w) (auto split: if_splits)
qed (auto simp: conc_act_defs split: if_splits)

section \<open>Scope guard\<close>

record 's scope_guard =
  exit_func :: "'s \<Rightarrow> 's"
  is_release :: bool

definition ScopeGuard :: "('s \<Rightarrow> 's) \<Rightarrow> 's scope_guard" where
  "ScopeGuard f = \<lparr>exit_func = f, is_release = False\<rparr>"

definition release :: "'s scope_guard \<Rightarrow> 's scope_guard" where
  "release g = g\<lparr>is_release := True\<rparr>"

definition scope_exit :: "'s scope_guard \<Rightarrow> 's \<Rightarrow> 's" where
  "scope_exit g s = (if is_release g then s else exit_func g s)"

text \<open>Guards of one scope run in the reverse order of their declaration.\<close>

definition leave_scope :: "'s scope_guard list \<Rightarrow> 's \<Rightarrow> 's" where
  "leave_scope guards s = foldr scope_exit guards s"

lemma leave_scope_released:
  "leave_scope (map (\<lambda>(f, released). if released then release (ScopeGuard f) else ScopeGuard f) fs) s =
     foldr (\<lambda>f. f) (map fst (filter (\<lambda>p. \<not> snd p) fs)) s"
  by (induction fs) (auto simp: leave_scope_def scope_exit_def release_def ScopeGuard_def)

end
