(* ===== verification/BaseProperties.thy ===== *)
theory BaseProperties
  imports ThreadSafeMap DoubleBuffer Bthread
begin

text \<open>
  What the containers and thread helpers of ea/base promise to the code that uses them.
\<close>

text \<open>
  C12: incremental updates are complete: after any puts with increasing indices and any clears, a
  reader at \<open>l\<close> that is not sent to a full update is called back with exactly the values put with an
  index above \<open>l\<close> up to the applied one, in order and once each, and moves on to the last of them;
  this although old entries are dropped. If the clock never went back, nothing was cleared and the
  reader has reached an entry put no longer than the collection time before the last one, it is not
  sent to a full update.
\<close>

theorem incremental_updates_complete:
  assumes "indices_increase (inc_puts ops)"
    and "check_and_update_incremental n l (inc_run gc_time t0 ops) = (full, calls, l')"
  shows "(\<not> full \<longrightarrow> calls = map snd (filter (between l n) (map entry_of (inc_puts ops))) \<and>
      l' = reached_index (filter (between l n) (map entry_of (inc_puts ops))) l) \<and>
    (full \<longrightarrow> \<not> (times_increase (inc_puts ops) \<and> IncClear \<notin> set ops \<and>
      (\<exists>p \<in> set (inc_puts ops). fst p \<le> l \<and> put_time (last (inc_puts ops)) - put_time p \<le> gc_time)))"
proof -
  note kept = inc_run_kept [OF assms(1), of gc_time t0]
  show ?thesis
    using inc_kept_check [OF kept assms(1), of n l calls l'] inc_kept_no_full [OF kept assms(1), of _ l n] assms(2)
    by (cases full) auto
qed

text \<open>Four puts with a collection time of ten: the last one drops the first entries.\<close>

definition demo_puts :: "string inc_op list" where
  "demo_puts = [IncPut 1 ''a'' 100, IncPut 3 ''b'' 105, IncPut 4 ''c'' 112, IncPut 7 ''d'' 113]"

lemma demo_puts_run:
  "indices_increase (inc_puts demo_puts)"
  "check_and_update_incremental 5 1 (inc_run 10 0 demo_puts) = (False, [''b'', ''c''], 4)"
  by (simp_all add: demo_puts_def indices_increase_def inc_run_def new_incremental_def new_double_buffer_def
      put_incremental_info_def db_read_background_def db_read_def on_background_def on_front_def db_swap_def
      get_time_def TimeCost_reset_def check_and_update_incremental_def omap_upper_def)

theorem incremental_updates_complete_witness:
  "[''b'', ''c''] = map snd (filter (between 1 5) (map entry_of (inc_puts demo_puts))) \<and>
   4 = reached_index (filter (between 1 5) (map entry_of (inc_puts demo_puts))) 1"
  using incremental_updates_complete [OF demo_puts_run] by simp

lemma tsm_step_finite:
  assumes "\<And>i. finite (dom (m i))"
  shows "finite (dom (tsm_step H op m i))"
  using assms
  by (cases op) (auto simp: tsm_defs put_shard_def drop_shard_def tsm_clear_eq split: option.split)

lemma tsm_history_finite: "finite (dom (fold (tsm_step H) ops no_shards i))"
  by (induction ops arbitrary: i rule: rev_induct) (simp_all add: no_shards_def tsm_step_finite)

text \<open>
  C13: a sharded map behaves as one map: any history of the operations on keys and of \<open>clear\<close>, each
  under its own lock, leaves the map the same history leaves on one finite map; every lookup answers
  as that map does, every key stays in the shard its hash picks, and the size is the number of keys.
\<close>

theorem sharded_map_refines_map:
  assumes "0 < map_count H"
  shows "let m = fold (tsm_step H) ops no_shards; t = fold (map_step (new_value H)) ops Map.empty
    in shards_ok H m \<and> flat H m = t \<and> (tsm_exist H k m \<longleftrightarrow> k \<in> dom t) \<and>
       tsm_get H k m = (case t k of None \<Rightarrow> new_value H | Some v \<Rightarrow> v) \<and> tsm_size H m = card (dom t)"
  using tsm_history_refines [of H no_shards ops] shards_ok_new [OF assms] tsm_size_flat [where m = "fold (tsm_step H) ops no_shards", OF _ tsm_history_finite]
  by (simp add: Let_def tsm_lookup_flat dom_def)

definition demo_shards :: "(nat, int) shard_env" where
  "demo_shards = \<lparr>hash = id, map_count = 23, new_value = 0\<rparr>"

definition demo_tsm_ops :: "(nat, int) tsm_op list" where
  "demo_tsm_ops = [TsmSet 1 10, TsmGetOrPut 24 5, TsmInsertInit 2 (\<lambda>v. (1, v + 1)), TsmUpdate 24 (\<lambda>v. v + 1), TsmErase 1]"

theorem sharded_map_refines_map_witness:
  "tsm_get demo_shards 24 (fold (tsm_step demo_shards) demo_tsm_ops no_shards) = 6 \<and>
   \<not> tsm_exist demo_shards 2 (fold (tsm_step demo_shards) demo_tsm_ops no_shards) \<and>
   tsm_size demo_shards (fold (tsm_step demo_shards) demo_tsm_ops no_shards) = 1"
proof -
  have c: "0 < map_count demo_shards" by (simp add: demo_shards_def)
  have t: "fold (map_step (new_value demo_shards)) demo_tsm_ops Map.empty = [24 \<mapsto> 6]"
    by (simp add: demo_tsm_ops_def demo_shards_def fun_eq_iff)
  from sharded_map_refines_map [OF c, of demo_tsm_ops 24] sharded_map_refines_map [OF c, of demo_tsm_ops 2]
  show ?thesis by (simp add: Let_def t)
qed

text \<open>
  C14: bounded threads: whatever the threads that run calls, finish and join do, and however their
  critical sections interleave, the count is the number of calls that run and of starts that failed;
  as long as no wait reports an error it stays within the bound, so at most \<open>concurrency\<close> calls run
  at once; and as long as no \<open>join\<close> overlaps and no start failed, a \<open>run\<close> that waits is one that a
  running call will wake or that is already awake.
\<close>

theorem concurrency_bounded:
  assumes "conc_reach concurrency allowed s" "0 < concurrency"
  shows "conc_count s = int (running s) + int (lost s) \<and>
    ((\<forall>a. allowed a \<longrightarrow> no_wait_fails a) \<longrightarrow> conc_count s \<le> concurrency) \<and>
    (allowed = no_join \<and> lost s = 0 \<and> 0 < run_waits s \<longrightarrow> 0 < running s \<or> 0 < run_woken s)"
  using conc_count_inv [OF assms(1)] conc_bound [OF assms(1)] waiting_run_is_served [of concurrency s] assms
  by auto

text \<open>With room for one call, a second \<open>run\<close> waits, the first call ends and the second goes on.\<close>

lemma demo_conc_run:
  "\<exists>s. conc_reach 1 no_join s \<and> conc_count s = 1 \<and> running s = 1 \<and> run_waits s = 1"
proof -
  have "\<exists>s. conc_acts 1 [RunEnter True, RunEnter True, RunEnter True, Finish WakeRun, RunWake True] new_conc = Some s \<and>
    conc_count s = 1 \<and> running s = 1 \<and> run_waits s = 1"
    by (simp add: conc_act_defs)
  then obtain s where
    s: "conc_acts 1 [RunEnter True, RunEnter True, RunEnter True, Finish WakeRun, RunWake True] new_conc = Some s"
    and "conc_count s = 1" "running s = 1" "run_waits s = 1" by blast
  moreover have "conc_reach 1 no_join s"
    by (rule conc_acts_reach [OF s _ reach_new]) simp
  ultimately show ?thesis by blast
qed

theorem concurrency_bounded_witness:
  "\<exists>s. conc_reach 1 no_join s \<and> run_waits s = 1 \<and> conc_count s = int (running s) + int (lost s) \<and> conc_count s \<le> 1"
proof -
  obtain s where s: "conc_reach 1 no_join s" "run_waits s = 1" "conc_count s = 1" using demo_conc_run by blast
  from concurrency_bounded [OF s(1)] s show ?thesis by auto
qed



end
