(* ===== verification/MemoryProfile.thy ===== *)
theory MemoryProfile
  imports ThreadSafeMap Bthread
begin

text \<open>
  base/memory_profile.h and memory_profile.cc: the memory trackers of the queries under one tracker of
  the process, the pool that hands them out, the thread that drops idle ones from it, and the thread
  that gives free memory back to the system. Byte counts are 64 bit words, read as signed
  (\<open>int64_t\<close>) in the trackers and as unsigned (\<open>size_t\<close>) in the allocator's numbers; the clock is an
  argument of each call. Trackers live on a heap of addresses, because the pool, its clean-up thread
  and the callers share them through counted pointers and a tracker points to its parent; a call that
  updates a tracker and then its parent is two steps when other threads run in between. The flags and
  their defaults are those of flags/base.cc.
\<close>

record base_flags =
  memory_gc_interval_s :: int
  memory_stats_interval_s :: int
  min_memory_use_size :: int
  min_memory_free_size_to_release :: int
  mem_tracker_gc_interval_s :: int
  process_memory_limit_bytes :: int
  query_memory_limit_ratio :: int

definition default_base_flags :: base_flags where
  "default_base_flags = \<lparr>memory_gc_interval_s = 10, memory_stats_interval_s = 60,
     min_memory_use_size = 8589934592, min_memory_free_size_to_release = 2147483648,
     mem_tracker_gc_interval_s = 60, process_memory_limit_bytes = -1, query_memory_limit_ratio = 90\<rparr>"

section \<open>A tracker\<close>

record mem_tracker =
  mt_log_id :: "64 word"
  mt_bytes_limit :: int
  last_active_time :: int
  bytes_consumed :: "64 word"
  mt_parent :: "nat option"
  mt_limit_exceeded :: bool

type_synonym tracker_heap = "nat \<Rightarrow> mem_tracker option"

definition new_mem_tracker :: "64 word \<Rightarrow> int \<Rightarrow> nat option \<Rightarrow> int \<Rightarrow> mem_tracker" where
  "new_mem_tracker log_id bytes_limit parent now =
     \<lparr>mt_log_id = log_id, mt_bytes_limit = bytes_limit, last_active_time = now, bytes_consumed = 0,
      mt_parent = parent, mt_limit_exceeded = False\<rparr>"

definition check_bytes_limit :: "mem_tracker \<Rightarrow> bool" where
  "check_bytes_limit t \<longleftrightarrow> 0 < mt_bytes_limit t \<and> mt_bytes_limit t < sint (bytes_consumed t)"

definition limit_exceeded :: "mem_tracker \<Rightarrow> bool" where
  "limit_exceeded t \<longleftrightarrow> 0 \<le> mt_bytes_limit t \<and> mt_bytes_limit t < sint (bytes_consumed t)"

definition any_limit_exceeded :: "tracker_heap \<Rightarrow> mem_tracker \<Rightarrow> bool" where
  "any_limit_exceeded h t \<longleftrightarrow> limit_exceeded t \<or>
     (case mt_parent t of None \<Rightarrow> False
      | Some p \<Rightarrow> (case h p of None \<Rightarrow> False | Some parent \<Rightarrow> limit_exceeded parent))"

definition set_limit_exceeded :: "mem_tracker \<Rightarrow> mem_tracker" where
  "set_limit_exceeded t = t\<lparr>mt_limit_exceeded := True\<rparr>"

text \<open>The two atomic additions of \<open>consume\<close> and \<open>release\<close>, on the tracker itself and on its parent.\<close>

definition fetch_add :: "64 word \<Rightarrow> mem_tracker \<Rightarrow> mem_tracker" where
  "fetch_add bytes t = t\<lparr>bytes_consumed := bytes_consumed t + bytes\<rparr>"

definition consume_own :: "64 word \<Rightarrow> int \<Rightarrow> mem_tracker \<Rightarrow> mem_tracker" where
  "consume_own bytes now t =
     (let t = t\<lparr>last_active_time := now\<rparr> in if sint bytes \<le> 0 then t else fetch_add bytes t)"

definition release_own :: "64 word \<Rightarrow> int \<Rightarrow> mem_tracker \<Rightarrow> mem_tracker" where
  "release_own bytes now t =
     (let t = t\<lparr>last_active_time := now\<rparr> in if sint bytes \<le> 0 then t else fetch_add (- bytes) t)"

definition tracker_upd :: "nat \<Rightarrow> (mem_tracker \<Rightarrow> mem_tracker) \<Rightarrow> tracker_heap \<Rightarrow> tracker_heap" where
  "tracker_upd a f h = (case h a of None \<Rightarrow> h | Some t \<Rightarrow> h(a \<mapsto> f t))"

text \<open>The parent a call of \<open>consume\<close> or \<open>release\<close> goes on to update.\<close>

definition parent_to_update :: "64 word \<Rightarrow> mem_tracker \<Rightarrow> nat option" where
  "parent_to_update bytes t = (if sint bytes \<le> 0 then None else mt_parent t)"

definition consume :: "nat \<Rightarrow> 64 word \<Rightarrow> int \<Rightarrow> tracker_heap \<Rightarrow> tracker_heap" where
  "consume a bytes now h =
     (case h a of
        None \<Rightarrow> h
      | Some t \<Rightarrow>
          let h = h(a \<mapsto> consume_own bytes now t)
          in case parent_to_update bytes t of None \<Rightarrow> h | Some p \<Rightarrow> tracker_upd p (fetch_add bytes) h)"

definition release_bytes :: "nat \<Rightarrow> 64 word \<Rightarrow> int \<Rightarrow> tracker_heap \<Rightarrow> tracker_heap" where
  "release_bytes a bytes now h =
     (case h a of
        None \<Rightarrow> h
      | Some t \<Rightarrow>
          let h = h(a \<mapsto> release_own bytes now t)
          in case parent_to_update bytes t of None \<Rightarrow> h | Some p \<Rightarrow> tracker_upd p (fetch_add (- bytes)) h)"

text \<open>The destructor, after which the memory of the tracker is gone.\<close>

definition destroy_tracker :: "nat \<Rightarrow> int \<Rightarrow> tracker_heap \<Rightarrow> tracker_heap" where
  "destroy_tracker a now h =
     (case h a of
        None \<Rightarrow> h
      | Some t \<Rightarrow>
          (case mt_parent t of
             None \<Rightarrow> h
           | Some p \<Rightarrow> if 0 < sint (bytes_consumed t) then release_bytes p (bytes_consumed t) now h else h)
          (a := None))"

section \<open>The pool\<close>

text \<open>
  \<open>use_count\<close> is the count the shared pointers of a tracker keep. Beside the members of
  \<open>MemTrackerPool\<close> the state has the pointers the callers hold (\<open>handles\<close>), the calls that have
  updated a tracker and not yet its parent (\<open>in_flight\<close>: tracker, parent, amount), and the local
  variables of the clean-up thread: its map \<open>need_erase\<close> and, in its second loop, the entries it has
  yet to visit.
\<close>

record mem_pool =
  query_bytes_limit :: int
  root_tracker :: "nat option"
  tracker_pool :: "(64 word, nat option) shards"
  trackers :: tracker_heap
  use_count :: "nat \<Rightarrow> nat"
  next_tracker :: nat
  handles :: "nat \<Rightarrow> nat"
  in_flight :: "(nat \<times> nat \<times> 64 word) list"
  need_erase :: "(64 word \<times> nat) list"
  gc_left :: "(64 word \<times> nat) list option"

definition mem_pool_init :: "base_flags \<Rightarrow> int \<Rightarrow> mem_pool" where
  "mem_pool_init F now =
     (let query_limit = (if 0 < process_memory_limit_bytes F
            then (process_memory_limit_bytes F * query_memory_limit_ratio F) sdiv 100 else -1)
      in \<lparr>query_bytes_limit = query_limit, root_tracker = Some 0, tracker_pool = no_shards,
          trackers = [0 \<mapsto> new_mem_tracker 0 (process_memory_limit_bytes F) None now],
          use_count = (\<lambda>a. if a = 0 then 1 else 0), next_tracker = 1, handles = (\<lambda>a. 0),
          in_flight = [], need_erase = [], gc_left = None\<rparr>)"

definition add_ref :: "nat \<Rightarrow> mem_pool \<Rightarrow> mem_pool" where
  "add_ref a s = s\<lparr>use_count := (use_count s)(a := use_count s a + 1)\<rparr>"

text \<open>A shared pointer goes away; the last one takes the tracker with it.\<close>

definition drop_ref :: "nat \<Rightarrow> int \<Rightarrow> mem_pool \<Rightarrow> mem_pool" where
  "drop_ref a now s =
     (let s = s\<lparr>use_count := (use_count s)(a := use_count s a - 1)\<rparr>
      in if use_count s a = 0 then s\<lparr>trackers := destroy_tracker a now (trackers s)\<rparr> else s)"

definition make_tracker :: "64 word \<Rightarrow> int \<Rightarrow> mem_pool \<Rightarrow> mem_pool" where
  "make_tracker log_id now s =
     (let a = next_tracker s
      in add_ref a (s\<lparr>next_tracker := Suc a,
           trackers := (trackers s)(a \<mapsto> new_mem_tracker log_id (query_bytes_limit s) (root_tracker s) now)\<rparr>))"

text \<open>
  The callback runs only when the key is new, under the lock of its map; the pointer returned is the
  caller's.
\<close>

definition get_mem_tracker ::
  "(64 word, nat option) shard_env \<Rightarrow> 64 word \<Rightarrow> int \<Rightarrow> mem_pool \<Rightarrow> nat option \<times> mem_pool" where
  "get_mem_tracker H log_id now s =
     (let made = \<not> tsm_exist H log_id (tracker_pool s);
          a = next_tracker s;
          (ret, m) = get_or_put_call H log_id (\<lambda>tracker. (Some a, Some a)) (tracker_pool s);
          s = (if made then make_tracker log_id now s else s)\<lparr>tracker_pool := m\<rparr>
      in (ret, case ret of None \<Rightarrow> s
           | Some a \<Rightarrow> (add_ref a s)\<lparr>handles := (handles s)(a := handles s a + 1)\<rparr>))"

subsection \<open>The clean-up thread\<close>

definition tracker_idle :: "base_flags \<Rightarrow> int \<Rightarrow> mem_tracker \<Rightarrow> bool" where
  "tracker_idle F now t \<longleftrightarrow> mem_tracker_gc_interval_s F * 1000 * 1000 < now - last_active_time t"

text \<open>What the traversal does with an entry.\<close>

definition gc_look :: "base_flags \<Rightarrow> 64 word \<Rightarrow> nat option \<Rightarrow> int \<Rightarrow> mem_pool \<Rightarrow> mem_pool" where
  "gc_look F log_id tracker now s =
     (case tracker of None \<Rightarrow> s
      | Some a \<Rightarrow>
          (case trackers s a of None \<Rightarrow> s
           | Some t \<Rightarrow> if tracker_idle F now t
               then add_ref a (s\<lparr>need_erase := omap_put log_id a (need_erase s)\<rparr>) else s))"

text \<open>What the second loop does with an entry, whose tracker is looked at again.\<close>

definition gc_erase :: "base_flags \<Rightarrow> (64 word, nat option) shard_env \<Rightarrow> 64 word \<Rightarrow> nat \<Rightarrow> int \<Rightarrow> mem_pool \<Rightarrow> mem_pool" where
  "gc_erase F H log_id a now s =
     (case trackers s a of None \<Rightarrow> s
      | Some t \<Rightarrow>
          if tracker_idle F now t
          then let dropped = tsm_get H log_id (tracker_pool s);
                   s = s\<lparr>tracker_pool := snd (tsm_erase H log_id (tracker_pool s))\<rparr>
               in case dropped of None \<Rightarrow> s | Some b \<Rightarrow> drop_ref b now s
          else s)"

text \<open>
  One round without other threads: the sleep, the traversal in the order \<open>walk\<close>, the second loop,
  and the end of \<open>need_erase\<close>.
\<close>

definition gc_walk :: "base_flags \<Rightarrow> (64 word, nat option) shard_env \<Rightarrow> ((64 word \<Rightarrow> nat option option) \<Rightarrow> 64 word list) \<Rightarrow>
    int \<Rightarrow> mem_pool \<Rightarrow> mem_pool" where
  "gc_walk F H walk now s =
     (let (m, s) = traverse_with_key_value H walk (\<lambda>i m. m)
          (\<lambda>log_id tracker s. (tracker, gc_look F log_id tracker now s)) (tracker_pool s) s
      in s\<lparr>tracker_pool := m\<rparr>)"

definition gc_round :: "base_flags \<Rightarrow> (64 word, nat option) shard_env \<Rightarrow> ((64 word \<Rightarrow> nat option option) \<Rightarrow> 64 word list) \<Rightarrow>
    int \<Rightarrow> mem_pool \<Rightarrow> mem_pool" where
  "gc_round F H walk now s =
     (let s = gc_walk F H walk now s;
          s = fold (\<lambda>(log_id, a). gc_erase F H log_id a now) (need_erase s) s
      in fold (\<lambda>(log_id, a). drop_ref a now) (need_erase s) (s\<lparr>need_erase := []\<rparr>))"

text \<open>The thread: \<open>seen k\<close> is the flag as the \<open>k\<close>-th test of the loop reads it, \<open>now k\<close> the clock then.\<close>

fun tracker_gc_thread :: "base_flags \<Rightarrow> (64 word, nat option) shard_env \<Rightarrow>
    ((64 word \<Rightarrow> nat option option) \<Rightarrow> 64 word list) \<Rightarrow> (bool \<times> int) list \<Rightarrow> mem_pool \<Rightarrow> mem_pool" where
  "tracker_gc_thread F H walk [] s = s"
| "tracker_gc_thread F H walk ((shutdown, now) # tests) s =
     (if shutdown then s else tracker_gc_thread F H walk tests (gc_round F H walk now s))"

section \<open>All threads together\<close>

datatype mem_action =
    MemGet "64 word" int | MemCopy nat | MemDrop nat int
  | MemConsume nat "64 word" int | MemRelease nat "64 word" int | MemParent nat | MemSetExceeded nat
  | GcLook "64 word" int | GcLoop | GcErase int | GcForget int | GcRest

definition calls_on :: "nat \<Rightarrow> (nat \<times> nat \<times> 64 word) list \<Rightarrow> nat" where
  "calls_on a l = length (filter (\<lambda>c. fst c = a) l)"

text \<open>The first half of \<open>consume\<close> (\<open>f\<close> is \<open>consume_own\<close>) or \<open>release\<close>, whose caller holds a pointer.\<close>

definition first_half :: "nat \<Rightarrow> (mem_tracker \<Rightarrow> mem_tracker) \<Rightarrow> 64 word \<Rightarrow> 64 word \<Rightarrow> mem_pool \<Rightarrow> mem_pool option" where
  "first_half a f bytes amount s =
     (case trackers s a of None \<Rightarrow> None
      | Some t \<Rightarrow>
          if handles s a \<le> calls_on a (in_flight s) then None
          else Some (s\<lparr>trackers := (trackers s)(a \<mapsto> f t),
                 in_flight := (case parent_to_update bytes t of None \<Rightarrow> in_flight s
                   | Some p \<Rightarrow> in_flight s @ [(a, p, amount)])\<rparr>))"

fun mem_act :: "base_flags \<Rightarrow> (64 word, nat option) shard_env \<Rightarrow> mem_action \<Rightarrow> mem_pool \<Rightarrow> mem_pool option" where
  "mem_act F H (MemGet log_id now) s = Some (snd (get_mem_tracker H log_id now s))"
| "mem_act F H (MemCopy a) s =
     (if handles s a = 0 then None
      else Some (add_ref a (s\<lparr>handles := (handles s)(a := handles s a + 1)\<rparr>)))"
| "mem_act F H (MemDrop a now) s =
     (if handles s a \<le> calls_on a (in_flight s) then None
      else Some (drop_ref a now (s\<lparr>handles := (handles s)(a := handles s a - 1)\<rparr>)))"
| "mem_act F H (MemConsume a bytes now) s = first_half a (consume_own bytes now) bytes bytes s"
| "mem_act F H (MemRelease a bytes now) s = first_half a (release_own bytes now) bytes (- bytes) s"
| "mem_act F H (MemParent i) s =
     (if i < length (in_flight s)
      then let (a, p, amount) = in_flight s ! i
           in Some (s\<lparr>trackers := tracker_upd p (fetch_add amount) (trackers s),
                in_flight := take i (in_flight s) @ drop (Suc i) (in_flight s)\<rparr>)
      else None)"
| "mem_act F H (MemSetExceeded a) s =
     (if handles s a = 0 then None else Some (s\<lparr>trackers := tracker_upd a set_limit_exceeded (trackers s)\<rparr>))"
| "mem_act F H (GcLook log_id now) s =
     (if gc_left s = None \<and> log_id \<notin> fst ` set (need_erase s) \<and> tsm_exist H log_id (tracker_pool s)
      then Some (gc_look F log_id (tsm_get H log_id (tracker_pool s)) now s) else None)"
| "mem_act F H GcLoop s = (if gc_left s = None then Some (s\<lparr>gc_left := Some (need_erase s)\<rparr>) else None)"
| "mem_act F H (GcErase now) s =
     (case gc_left s of
        Some ((log_id, a) # left) \<Rightarrow> Some (gc_erase F H log_id a now (s\<lparr>gc_left := Some left\<rparr>))
      | _ \<Rightarrow> None)"
| "mem_act F H (GcForget now) s =
     (case (gc_left s, need_erase s) of
        (Some [], (log_id, a) # left) \<Rightarrow> Some (drop_ref a now (s\<lparr>need_erase := left\<rparr>))
      | _ \<Rightarrow> None)"
| "mem_act F H GcRest s =
     (if gc_left s = Some [] \<and> need_erase s = [] then Some (s\<lparr>gc_left := None\<rparr>) else None)"

text \<open>
  Callers that keep their books: none releases more than the tracker has, none takes so much that
  the count of a single tracker overflows.
\<close>

fun tidy :: "mem_action \<Rightarrow> mem_pool \<Rightarrow> bool" where
  "tidy (MemConsume a bytes now) s =
     (case trackers s a of None \<Rightarrow> True | Some t \<Rightarrow> sint (bytes_consumed t) + sint bytes < 2 ^ 63)"
| "tidy (MemRelease a bytes now) s =
     (case trackers s a of None \<Rightarrow> True | Some t \<Rightarrow> sint bytes \<le> sint (bytes_consumed t))"
| "tidy _ s = True"

inductive mem_reach :: "base_flags \<Rightarrow> (64 word, nat option) shard_env \<Rightarrow> mem_pool \<Rightarrow> bool" for F H where
  mem_start: "mem_reach F H (mem_pool_init F now)"
| mem_step: "mem_reach F H s \<Longrightarrow> tidy a s \<Longrightarrow> mem_act F H a s = Some s' \<Longrightarrow> mem_reach F H s'"

section \<open>Giving memory back to the system\<close>

text \<open>
  One round of \<open>memory_gc_thread\<close> (built with tcmalloc): the sizes of the calls of \<open>ReleaseToSystem\<close>,
  from the two numbers the allocator reports. The flag of the free size, an \<open>int64_t\<close>, is compared with
  and subtracted from a \<open>size_t\<close>.
\<close>

definition bytes_to_gc_at_once :: "64 word" where
  "bytes_to_gc_at_once = 8 * 1024 * 1024"

function release_chunks :: "64 word \<Rightarrow> 64 word list" where
  "release_chunks bytes =
     (if bytes_to_gc_at_once < bytes then bytes_to_gc_at_once # release_chunks (bytes - bytes_to_gc_at_once) else [])"
  by auto

lemma release_chunks_less: "bytes_to_gc_at_once < b \<Longrightarrow> unat (b - bytes_to_gc_at_once) = unat b - 8388608 \<and> 8388608 < unat b"
  by (simp add: bytes_to_gc_at_once_def word_less_nat_alt unat_sub_if')

termination release_chunks
  by (relation "measure unat") (auto dest: release_chunks_less)

declare release_chunks.simps [simp del]

definition memory_gc_round :: "base_flags \<Rightarrow> 64 word \<Rightarrow> 64 word \<Rightarrow> 64 word list" where
  "memory_gc_round F used_size free_size =
     (let alloc_size = used_size + free_size; min_free = word_of_int (min_memory_free_size_to_release F)
      in if min_memory_use_size F < sint alloc_size
         then if min_free < free_size then release_chunks (free_size - min_free) else []
         else [])"

text \<open>The thread: for each test of the flag, what it reads and the allocator's numbers in that round.\<close>

fun memory_gc_thread :: "base_flags \<Rightarrow> (bool \<times> 64 word \<times> 64 word) list \<Rightarrow> 64 word list list" where
  "memory_gc_thread F [] = []"
| "memory_gc_thread F ((shutdown, used_size, free_size) # tests) =
     (if shutdown then [] else memory_gc_round F used_size free_size # memory_gc_thread F tests)"

lemma release_chunks_eq:
  "\<exists>n. release_chunks b = replicate n bytes_to_gc_at_once \<and> n * 8388608 \<le> unat b \<and> unat b \<le> n * 8388608 + 8388608"
proof (induction b rule: release_chunks.induct)
  case (1 b)
  show ?case
  proof (cases "bytes_to_gc_at_once < b")
    case True
    from 1 [OF True] obtain n where n: "release_chunks (b - bytes_to_gc_at_once) = replicate n bytes_to_gc_at_once"
      "n * 8388608 \<le> unat b - 8388608" "unat b - 8388608 \<le> n * 8388608 + 8388608"
      using release_chunks_less [OF True] by auto
    with True show ?thesis
      using release_chunks_less [OF True]
      by (intro exI [of _ "Suc n"]) (auto simp: release_chunks.simps [of b])
  next
    case False
    then have "unat b \<le> 8388608" by (simp add: bytes_to_gc_at_once_def word_less_nat_alt)
    with False show ?thesis by (intro exI [of _ 0]) (simp add: release_chunks.simps [of b])
  qed
qed

text \<open>
  A round gives back whole chunks, keeps at least what the flag asks for, and when it gives back
  anything keeps at most one chunk more.
\<close>

lemma memory_gc_round_bounds:
  assumes "0 \<le> min_memory_free_size_to_release F" "min_memory_free_size_to_release F < 2 ^ 63"
  shows "\<exists>n. memory_gc_round F used_size free_size = replicate n bytes_to_gc_at_once \<and>
    (0 < n \<longrightarrow> min_memory_free_size_to_release F \<le> uint free_size - int n * 8388608 \<and>
      uint free_size - int n * 8388608 \<le> min_memory_free_size_to_release F + 8388608)"
proof (cases "memory_gc_round F used_size free_size = []")
  case False
  let ?m = "word_of_int (min_memory_free_size_to_release F) :: 64 word"
  have m: "uint ?m = min_memory_free_size_to_release F"
    using assms by (simp add: uint_word_of_int)
  from False have less: "?m < free_size" and r: "memory_gc_round F used_size free_size = release_chunks (free_size - ?m)"
    by (auto simp: memory_gc_round_def Let_def split: if_splits)
  obtain n where n: "release_chunks (free_size - ?m) = replicate n bytes_to_gc_at_once"
    "n * 8388608 \<le> unat (free_size - ?m)" "unat (free_size - ?m) \<le> n * 8388608 + 8388608"
    using release_chunks_eq by blast
  have "int (unat (free_size - ?m)) = uint free_size - min_memory_free_size_to_release F"
    using less m by (simp add: uint_nat [symmetric] uint_sub_if' word_less_def)
  then have "min_memory_free_size_to_release F \<le> uint free_size - int n * 8388608 \<and>
      uint free_size - int n * 8388608 \<le> min_memory_free_size_to_release F + 8388608"
    using n(2,3) by linarith
  with n(1) r show ?thesis by auto
qed (auto intro: exI [of _ 0])

section \<open>What the pointers keep alive\<close>

text \<open>References to a tracker from the pool and from \<open>need_erase\<close>.\<close>

definition pool_refs :: "(64 word, nat option) shard_env \<Rightarrow> mem_pool \<Rightarrow> nat \<Rightarrow> nat" where
  "pool_refs H s a =
     (case trackers s a of None \<Rightarrow> 0
      | Some t \<Rightarrow> if flat H (tracker_pool s) (mt_log_id t) = Some (Some a) then 1 else 0)"

definition erase_refs :: "nat \<Rightarrow> (64 word \<times> nat) list \<Rightarrow> nat" where
  "erase_refs a l = length (filter (\<lambda>e. snd e = a) l)"

definition heap_ok :: "mem_pool \<Rightarrow> bool" where
  "heap_ok s \<longleftrightarrow> root_tracker s = Some 0 \<and> 0 < next_tracker s \<and> handles s 0 = 0 \<and>
     (\<exists>r. trackers s 0 = Some r \<and> mt_parent r = None) \<and>
     (\<forall>a t. 0 < a \<longrightarrow> trackers s a = Some t \<longrightarrow> mt_parent t = Some 0 \<and> a < next_tracker s)"

definition pool_ok :: "(64 word, nat option) shard_env \<Rightarrow> mem_pool \<Rightarrow> bool" where
  "pool_ok H s \<longleftrightarrow> shards_ok H (tracker_pool s) \<and>
     (\<forall>k v. flat H (tracker_pool s) k = Some v \<longrightarrow>
        (\<exists>a t. v = Some a \<and> 0 < a \<and> trackers s a = Some t \<and> mt_log_id t = k))"

definition erase_ok :: "(64 word, nat option) shard_env \<Rightarrow> mem_pool \<Rightarrow> bool" where
  "erase_ok H s \<longleftrightarrow> distinct (map fst (need_erase s)) \<and>
     (\<forall>(k, a) \<in> set (need_erase s). 0 < a \<and> (\<exists>t. trackers s a = Some t \<and> mt_log_id t = k)) \<and>
     (case gc_left s of
        None \<Rightarrow> (\<forall>(k, a) \<in> set (need_erase s). flat H (tracker_pool s) k = Some (Some a))
      | Some l \<Rightarrow> distinct (map fst l) \<and> set l \<subseteq> set (need_erase s) \<and>
          (\<forall>(k, a) \<in> set l. flat H (tracker_pool s) k = Some (Some a)))"

definition calls_ok :: "mem_pool \<Rightarrow> bool" where
  "calls_ok s \<longleftrightarrow> (\<forall>(c, p, amount) \<in> set (in_flight s). p = 0 \<and> 0 < c) \<and>
     (\<forall>a. calls_on a (in_flight s) \<le> handles s a)"

text \<open>The counts are right, but for one reference too many to \<open>extra\<close>.\<close>

definition counts_ok :: "(64 word, nat option) shard_env \<Rightarrow> nat option \<Rightarrow> mem_pool \<Rightarrow> bool" where
  "counts_ok H extra s \<longleftrightarrow> (\<forall>a > 0.
     use_count s a = handles s a + erase_refs a (need_erase s) + pool_refs H s a + (if extra = Some a then 1 else 0) \<and>
     (trackers s a = None \<longleftrightarrow> use_count s a = 0))"

definition consumed_at :: "tracker_heap \<Rightarrow> nat \<Rightarrow> 64 word" where
  "consumed_at h a = (case h a of None \<Rightarrow> 0 | Some t \<Rightarrow> bytes_consumed t)"

definition live_bytes :: "tracker_heap \<Rightarrow> nat \<Rightarrow> 64 word" where
  "live_bytes h n = (\<Sum>a \<in> {1..<n}. consumed_at h a)"

text \<open>The tracker of the process counts what the others have, once the calls on their way arrive.\<close>

definition balanced :: "mem_pool \<Rightarrow> bool" where
  "balanced s \<longleftrightarrow>
     consumed_at (trackers s) 0 + sum_list (map (\<lambda>(c, p, amount). amount) (in_flight s)) =
       live_bytes (trackers s) (next_tracker s) \<and>
     (\<forall>a > 0. 0 \<le> sint (consumed_at (trackers s) a))"

definition mem_inv :: "(64 word, nat option) shard_env \<Rightarrow> nat option \<Rightarrow> mem_pool \<Rightarrow> bool" where
  "mem_inv H extra s \<longleftrightarrow> heap_ok s \<and> pool_ok H s \<and> erase_ok H s \<and> calls_ok s \<and> counts_ok H extra s \<and> balanced s"

lemma erase_refs_simps [simp]:
  "erase_refs a [] = 0"
  "erase_refs a ((k, b) # l) = (if b = a then Suc (erase_refs a l) else erase_refs a l)"
  by (simp_all add: erase_refs_def)

lemma erase_refs_put: "k \<notin> fst ` set l \<Longrightarrow> erase_refs a (omap_put k b l) = erase_refs a ((k, b) # l)"
  by (induction k b l rule: omap_put.induct) auto

lemma omap_put_new:
  "k \<notin> fst ` set l \<Longrightarrow> set (omap_put k b l) = insert (k, b) (set l)"
  "k \<notin> fst ` set l \<Longrightarrow> distinct (map fst l) \<Longrightarrow> distinct (map fst (omap_put k b l))"
  by (induction k b l rule: omap_put.induct) (auto simp: image_iff)

lemma calls_on_simps [simp]:
  "calls_on a [] = 0"
  "calls_on a (l @ l') = calls_on a l + calls_on a l'"
  "calls_on a (c # l) = (if fst c = a then Suc (calls_on a l) else calls_on a l)"
  by (simp_all add: calls_on_def)

lemma consumed_at_upd [simp]:
  "consumed_at (h(a := v)) b = (if b = a then (case v of None \<Rightarrow> 0 | Some t \<Rightarrow> bytes_consumed t) else consumed_at h b)"
  by (simp add: consumed_at_def)

lemma consumed_at_Some [simp]: "h a = Some t \<Longrightarrow> consumed_at h a = bytes_consumed t"
  by (simp add: consumed_at_def)

lemma live_bytes_root [simp]: "live_bytes (h(0 := v)) n = live_bytes h n"
  by (simp add: live_bytes_def)

lemma live_bytes_new [simp]: "live_bytes (h(n := v)) n = live_bytes h n"
  by (simp add: live_bytes_def)

lemma live_bytes_Suc: "0 < n \<Longrightarrow> live_bytes h (Suc n) = live_bytes h n + consumed_at h n"
  by (simp add: live_bytes_def)

lemma live_bytes_upd:
  assumes "0 < a" "a < n"
  shows "live_bytes (h(a := v)) n = live_bytes h n - consumed_at h a + (case v of None \<Rightarrow> 0 | Some t \<Rightarrow> bytes_consumed t)"
proof -
  let ?A = "{1..<n}" and ?v = "case v of None \<Rightarrow> 0 | Some t \<Rightarrow> bytes_consumed t"
  have "(\<Sum>b \<in> ?A. consumed_at (h(a := v)) b) = ?v + (\<Sum>b \<in> ?A - {a}. consumed_at h b)"
    using assms by (auto simp: sum.remove [where x = a] intro!: sum.cong)
  moreover have "(\<Sum>b \<in> ?A. consumed_at h b) = consumed_at h a + (\<Sum>b \<in> ?A - {a}. consumed_at h b)"
    using assms by (simp add: sum.remove [where x = a])
  ultimately show ?thesis by (simp add: live_bytes_def)
qed

text \<open>Dropping the reference too many, whether or not it is the last.\<close>

lemma destroy_tracker_eq:
  assumes "h a = Some t" "mt_parent t = Some 0" "h 0 = Some r" "mt_parent r = None" "a \<noteq> 0" "0 \<le> sint (bytes_consumed t)"
  shows "\<exists>last. destroy_tracker a now h =
    h(0 \<mapsto> r\<lparr>last_active_time := last, bytes_consumed := bytes_consumed r - bytes_consumed t\<rparr>, a := None)"
proof (cases "0 < sint (bytes_consumed t)")
  case True
  then show ?thesis
    using assms by (intro exI [of _ now])
      (simp add: destroy_tracker_def release_bytes_def release_own_def fetch_add_def parent_to_update_def Let_def)
next
  case False
  then have "bytes_consumed t = 0" using assms(6) by (metis antisym_conv linorder_not_less signed_0 signed_word_eqI)
  then show ?thesis
    using assms by (intro exI [of _ "last_active_time r"]) (simp add: destroy_tracker_def fun_upd_idem)
qed

lemma erase_refs_0: "erase_refs a l = 0 \<longleftrightarrow> (\<forall>e \<in> set l. snd e \<noteq> a)"
  by (auto simp: erase_refs_def filter_empty_conv)

lemma pool_refs_upd:
  "trackers s' b = trackers s b \<Longrightarrow> tracker_pool s' = tracker_pool s \<Longrightarrow> pool_refs H s' b = pool_refs H s b"
  by (simp add: pool_refs_def split: option.split)

definition same_tracker :: "mem_pool \<Rightarrow> mem_pool \<Rightarrow> nat \<Rightarrow> bool" where
  "same_tracker s s' a \<longleftrightarrow> map_option mt_log_id (trackers s' a) = map_option mt_log_id (trackers s a)"

lemma pool_okD:
  assumes "pool_ok H s" "flat H (tracker_pool s) k = Some v"
  obtains a t where "v = Some a" "0 < a" "trackers s a = Some t" "mt_log_id t = k"
  using assms unfolding pool_ok_def by blast

lemma pool_ok_keep:
  assumes "pool_ok H s" "tracker_pool s' = tracker_pool s"
    and "\<And>k a. flat H (tracker_pool s) k = Some (Some a) \<Longrightarrow> 0 < a \<Longrightarrow> same_tracker s s' a"
  shows "pool_ok H s'"
  unfolding pool_ok_def assms(2)
proof (intro conjI allI impI)
  fix k v
  assume k: "flat H (tracker_pool s) k = Some v"
  then obtain a t where v: "v = Some a" "0 < a" "trackers s a = Some t" "mt_log_id t = k"
    using assms(1) by (elim pool_okD)
  then show "\<exists>a t. v = Some a \<and> 0 < a \<and> trackers s' a = Some t \<and> mt_log_id t = k"
    using assms(3) [of k a] k by (auto simp: same_tracker_def)
qed (use assms(1) in \<open>simp add: pool_ok_def\<close>)

lemma erase_ok_keep:
  assumes "erase_ok H s" "tracker_pool s' = tracker_pool s" "need_erase s' = need_erase s" "gc_left s' = gc_left s"
    and "\<And>k a. (k, a) \<in> set (need_erase s) \<Longrightarrow> 0 < a \<Longrightarrow> same_tracker s s' a"
  shows "erase_ok H s'"
proof -
  have "0 < a \<and> (\<exists>t. trackers s' a = Some t \<and> mt_log_id t = k)" if "(k, a) \<in> set (need_erase s)" for k a
    using assms(1) assms(5) [OF that] that by (fastforce simp: erase_ok_def same_tracker_def)
  then show ?thesis using assms(1) unfolding erase_ok_def assms(2-4) by blast
qed

lemma drop_last:
  assumes inv: "mem_inv H (Some a) s" and a: "0 < a" and last: "use_count s a = 1"
  shows "mem_inv H None (drop_ref a now s)"
proof -
  have c: "handles s a = 0" "erase_refs a (need_erase s) = 0" "pool_refs H s a = 0" "trackers s a \<noteq> None"
    using inv a last by (auto simp: mem_inv_def counts_ok_def)
  then obtain t where t: "trackers s a = Some t" by auto
  obtain r where r: "trackers s 0 = Some r" "mt_parent r = None" using inv by (auto simp: mem_inv_def heap_ok_def)
  have p: "mt_parent t = Some 0" "a < next_tracker s" using inv a t by (auto simp: mem_inv_def heap_ok_def)
  have "0 \<le> sint (consumed_at (trackers s) a)" using inv a by (simp add: mem_inv_def balanced_def)
  with t have n: "0 \<le> sint (bytes_consumed t)" by simp
  obtain last where d: "destroy_tracker a now (trackers s) =
      (trackers s)(0 \<mapsto> r\<lparr>last_active_time := last, bytes_consumed := bytes_consumed r - bytes_consumed t\<rparr>, a := None)"
    using destroy_tracker_eq [OF t p(1) r _ n] a by auto
  let ?s = "drop_ref a now s"
  have s': "trackers ?s = (trackers s)(0 \<mapsto> r\<lparr>last_active_time := last, bytes_consumed := bytes_consumed r - bytes_consumed t\<rparr>, a := None)"
    "use_count ?s = (use_count s)(a := 0)" "tracker_pool ?s = tracker_pool s" "root_tracker ?s = root_tracker s"
    "next_tracker ?s = next_tracker s" "handles ?s = handles s" "in_flight ?s = in_flight s"
    "need_erase ?s = need_erase s" "gc_left ?s = gc_left s"
    using last d by (simp_all add: drop_ref_def Let_def)
  have not_pool: "v \<noteq> Some a" if "flat H (tracker_pool s) k = Some v" for k v
    using inv c(3) t that by (fastforce simp: mem_inv_def pool_ok_def pool_refs_def split: if_splits)
  have not_erase: "b \<noteq> a" if "(k, b) \<in> set (need_erase s)" for k b
    using c(2) that by (auto simp: erase_refs_0)
  have same: "same_tracker s ?s b" if "0 < b" "b \<noteq> a" for b using that by (simp add: same_tracker_def s')
  have "heap_ok ?s" using inv r a by (auto simp: mem_inv_def heap_ok_def s' split: if_splits)
  moreover have "pool_ok H ?s"
    by (rule pool_ok_keep [of H s]) (use inv not_pool same in \<open>auto simp: mem_inv_def s'\<close>)
  moreover have "erase_ok H ?s"
    by (rule erase_ok_keep [of H s]) (use inv not_erase same in \<open>auto simp: mem_inv_def s'\<close>)
  moreover have "calls_ok ?s" using inv by (simp add: mem_inv_def calls_ok_def s')
  moreover have "pool_refs H ?s b = (if b = a then 0 else pool_refs H s b)" if "0 < b" for b
    using that pool_refs_upd [of ?s b s H] by (simp add: s') (simp add: pool_refs_def s')
  then have "counts_ok H None ?s"
    using inv c a t by (auto simp: mem_inv_def counts_ok_def s')
  moreover have "balanced ?s"
    using inv a p(2) t r by (auto simp: mem_inv_def balanced_def s' live_bytes_upd)
  ultimately show ?thesis by (simp add: mem_inv_def)
qed

text \<open>Steps that move pointers between their holders or change what a tracker counts.\<close>

definition extra_ref :: "nat option \<Rightarrow> nat \<Rightarrow> nat" where
  "extra_ref extra a = (if extra = Some a then 1 else 0)"

definition tracker_ids :: "mem_tracker option \<Rightarrow> (64 word \<times> nat option) option" where
  "tracker_ids t = map_option (\<lambda>t. (mt_log_id t, mt_parent t)) t"

lemma tracker_ids_Some: "tracker_ids t = tracker_ids (Some t1) \<Longrightarrow>
    \<exists>t2. t = Some t2 \<and> mt_log_id t2 = mt_log_id t1 \<and> mt_parent t2 = mt_parent t1"
  by (auto simp: tracker_ids_def)

lemma tracker_ids_None: "tracker_ids t = tracker_ids t' \<Longrightarrow> t = None \<longleftrightarrow> t' = None"
  by (cases t; cases t') (auto simp: tracker_ids_def)

lemma mem_inv_frame:
  assumes inv: "mem_inv H extra s"
    and same: "tracker_pool s' = tracker_pool s" "need_erase s' = need_erase s" "gc_left s' = gc_left s"
      "root_tracker s' = root_tracker s" "next_tracker s' = next_tracker s"
    and ids: "\<And>a. tracker_ids (trackers s' a) = tracker_ids (trackers s a)"
    and count: "\<And>a. 0 < a \<Longrightarrow> use_count s' a + handles s a + extra_ref extra a = use_count s a + handles s' a + extra_ref extra' a"
      "\<And>a. 0 < a \<Longrightarrow> use_count s' a = 0 \<longleftrightarrow> use_count s a = 0"
    and new: "handles s' 0 = 0" "calls_ok s'" "balanced s'"
  shows "mem_inv H extra' s'"
proof -
  have log: "map_option mt_log_id (trackers s' a) = map_option mt_log_id (trackers s a)" for a
    using ids [of a] by (cases "trackers s' a"; cases "trackers s a") (auto simp: tracker_ids_def)
  then have st: "same_tracker s s' a" for a by (simp add: same_tracker_def)
  have "pool_refs H s' a = pool_refs H s a" for a
    using log [of a] by (cases "trackers s' a"; cases "trackers s a") (auto simp: pool_refs_def same)
  moreover have "trackers s' a = None \<longleftrightarrow> trackers s a = None" for a using tracker_ids_None [OF ids] .
  ultimately have "counts_ok H extra' s'"
    using inv count same by (fastforce simp: mem_inv_def counts_ok_def extra_ref_def)
  moreover have "heap_ok s'"
  proof -
    obtain r where r: "trackers s 0 = Some r" "mt_parent r = None" using inv by (auto simp: mem_inv_def heap_ok_def)
    then have "\<exists>r. trackers s' 0 = Some r \<and> mt_parent r = None"
      using tracker_ids_Some [of "trackers s' 0" r] ids [of 0] by auto
    moreover have "mt_parent t = Some 0 \<and> a < next_tracker s'" if "0 < a" "trackers s' a = Some t" for a t
      using tracker_ids_Some [of "trackers s a" t] ids [of a] that inv by (auto simp: mem_inv_def heap_ok_def same)
    ultimately show ?thesis using inv new by (simp add: mem_inv_def heap_ok_def same)
  qed
  moreover have "pool_ok H s'" by (rule pool_ok_keep [of H s]) (use inv same st in \<open>simp_all add: mem_inv_def\<close>)
  moreover have "erase_ok H s'" by (rule erase_ok_keep [of H s]) (use inv same st in \<open>simp_all add: mem_inv_def\<close>)
  ultimately show ?thesis using new by (simp add: mem_inv_def)
qed

lemma drop_extra:
  assumes inv: "mem_inv H (Some a) s" and a: "0 < a"
  shows "mem_inv H None (drop_ref a now s)"
proof (cases "use_count s a = 1")
  case False
  moreover have "use_count s a \<noteq> 0" using inv a by (auto simp: mem_inv_def counts_ok_def)
  ultimately show ?thesis
    using inv by (intro mem_inv_frame [OF inv])
      (auto simp: drop_ref_def Let_def extra_ref_def mem_inv_def heap_ok_def calls_ok_def balanced_def)
qed (use assms drop_last in blast)

lemma add_extra:
  assumes inv: "mem_inv H None s" and a: "0 < a" "trackers s a \<noteq> None"
  shows "mem_inv H (Some a) (add_ref a s)"
  using inv a by (intro mem_inv_frame [OF inv])
    (auto simp: add_ref_def extra_ref_def mem_inv_def heap_ok_def calls_ok_def balanced_def counts_ok_def)

text \<open>A reference too many becomes a pointer of a caller, and the other way round.\<close>

lemma handle_of_extra:
  assumes inv: "mem_inv H (Some a) s" and a: "0 < a"
  shows "mem_inv H None (s\<lparr>handles := (handles s)(a := handles s a + 1)\<rparr>)"
  using inv a by (intro mem_inv_frame [OF inv])
    (auto simp: extra_ref_def mem_inv_def heap_ok_def calls_ok_def balanced_def intro: le_SucI)

lemma extra_of_handle:
  assumes inv: "mem_inv H None s" and a: "calls_on a (in_flight s) < handles s a"
  shows "0 < a \<and> mem_inv H (Some a) (s\<lparr>handles := (handles s)(a := handles s a - 1)\<rparr>)"
proof
  show "0 < a" using inv a by (cases a) (auto simp: mem_inv_def heap_ok_def)
  show "mem_inv H (Some a) (s\<lparr>handles := (handles s)(a := handles s a - 1)\<rparr>)"
    using inv a by (intro mem_inv_frame [OF inv])
      (auto simp: extra_ref_def mem_inv_def heap_ok_def calls_ok_def balanced_def)
qed

text \<open>Calls that count bytes.\<close>

lemma sint_add_exact:
  fixes x y :: "64 word"
  assumes "- (2 ^ 63) \<le> sint x + sint y" "sint x + sint y < 2 ^ 63"
  shows "sint (x + y) = sint x + sint y"
  using assms by (simp add: sint_word_ariths signed_take_bit_int_eq_self)

lemma consume_own_ok:
  assumes "0 \<le> sint (bytes_consumed t)" "sint (bytes_consumed t) + sint bytes < 2 ^ 63"
  shows "mt_log_id (consume_own bytes now t) = mt_log_id t \<and> mt_parent (consume_own bytes now t) = mt_parent t \<and>
    bytes_consumed (consume_own bytes now t) = bytes_consumed t + (if sint bytes \<le> 0 then 0 else bytes) \<and>
    0 \<le> sint (bytes_consumed (consume_own bytes now t))"
  using assms sint_add_exact [of "bytes_consumed t" bytes]
  by (auto simp: consume_own_def fetch_add_def Let_def)

lemma release_own_ok:
  assumes "0 \<le> sint (bytes_consumed t)" "sint bytes \<le> sint (bytes_consumed t)"
  shows "mt_log_id (release_own bytes now t) = mt_log_id t \<and> mt_parent (release_own bytes now t) = mt_parent t \<and>
    bytes_consumed (release_own bytes now t) = bytes_consumed t + (if sint bytes \<le> 0 then 0 else - bytes) \<and>
    0 \<le> sint (bytes_consumed (release_own bytes now t))"
proof -
  have "sint (bytes_consumed t) < 2 ^ 63" using sint_lt [of "bytes_consumed t"] by simp
  then have "sint (bytes_consumed t - bytes) = sint (bytes_consumed t) - sint bytes" if "0 < sint bytes"
    using assms that by (simp add: sint_word_ariths signed_take_bit_int_eq_self)
  with assms show ?thesis by (auto simp: release_own_def fetch_add_def Let_def)
qed

lemma first_half_inv:
  assumes inv: "mem_inv H None s" and step: "first_half a f bytes amount s = Some s'"
    and f: "\<And>t. trackers s a = Some t \<Longrightarrow> mt_log_id (f t) = mt_log_id t \<and> mt_parent (f t) = mt_parent t \<and>
      bytes_consumed (f t) = bytes_consumed t + (if sint bytes \<le> 0 then 0 else amount) \<and> 0 \<le> sint (bytes_consumed (f t))"
  shows "mem_inv H None s'"
proof -
  obtain t where t: "trackers s a = Some t" "calls_on a (in_flight s) < handles s a"
    using step by (auto simp: first_half_def split: option.splits if_splits)
  have a: "0 < a" using inv t by (cases a) (auto simp: mem_inv_def heap_ok_def)
  have p: "mt_parent t = Some 0" "a < next_tracker s" using inv t a by (auto simp: mem_inv_def heap_ok_def)
  have s': "s' = s\<lparr>trackers := (trackers s)(a \<mapsto> f t),
      in_flight := (if sint bytes \<le> 0 then in_flight s else in_flight s @ [(a, 0, amount)])\<rparr>"
    using step t p by (auto simp: first_half_def parent_to_update_def)
  show ?thesis
  proof (rule mem_inv_frame [OF inv])
    show "tracker_ids (trackers s' b) = tracker_ids (trackers s b)" for b
      using f [OF t(1)] t by (auto simp: s' tracker_ids_def)
    show "calls_ok s'" using inv t a by (auto simp: s' mem_inv_def calls_ok_def)
    show "balanced s'" using inv f [OF t(1)] t(1) a p
      by (auto simp: s' mem_inv_def balanced_def live_bytes_upd)
  qed (use inv in \<open>simp_all add: s' mem_inv_def heap_ok_def\<close>)
qed

lemma parent_half_inv:
  assumes inv: "mem_inv H None s" and step: "mem_act F H (MemParent i) s = Some s'"
  shows "mem_inv H None s'"
proof -
  let ?l = "in_flight s"
  have i: "i < length ?l" using step by (simp split: if_splits)
  obtain a amount where c: "?l ! i = (a, 0, amount)"
    using inv i nth_mem [OF i] by (cases "?l ! i") (auto simp: mem_inv_def calls_ok_def)
  have l: "?l = take i ?l @ (a, 0, amount) # drop (Suc i) ?l" using id_take_nth_drop [OF i] c by simp
  obtain r where r: "trackers s 0 = Some r" using inv by (auto simp: mem_inv_def heap_ok_def)
  have s': "s' = s\<lparr>trackers := (trackers s)(0 \<mapsto> fetch_add amount r), in_flight := take i ?l @ drop (Suc i) ?l\<rparr>"
    using step i c r by (auto simp: tracker_upd_def)
  have sum: "sum_list (map (\<lambda>(c, p, amount). amount) ?l) =
      amount + sum_list (map (\<lambda>(c, p, amount). amount) (take i ?l @ drop (Suc i) ?l))"
    by (subst l) simp
  have on: "calls_on b (take i ?l @ drop (Suc i) ?l) \<le> calls_on b ?l" for b
    by (subst (3) l) simp
  show ?thesis
  proof (rule mem_inv_frame [OF inv])
    show "tracker_ids (trackers s' b) = tracker_ids (trackers s b)" for b
      using r by (simp add: s' tracker_ids_def fetch_add_def)
    show "calls_ok s'"
      using inv on by (auto simp: s' mem_inv_def calls_ok_def dest!: in_set_takeD in_set_dropD intro: order_trans)
    show "balanced s'"
      using inv r sum by (auto simp: s' mem_inv_def balanced_def fetch_add_def algebra_simps)
  qed (use inv in \<open>simp_all add: s' mem_inv_def heap_ok_def\<close>)
qed

text \<open>A look-up, which may make a tracker.\<close>

lemma make_tracker_inv:
  assumes inv: "mem_inv H None s" and k: "flat H (tracker_pool s) k = None"
    and a_def: "a = next_tracker s"
    and s'_def: "s' = (make_tracker k now s)\<lparr>tracker_pool := put_shard (map_idx H k) k (Some a) (tracker_pool s)\<rparr>"
  shows "mem_inv H None s' \<and> 0 < a \<and> trackers s' a \<noteq> None"
proof -
  let ?t = "new_mem_tracker k (query_bytes_limit s) (root_tracker s) now"
  have s': "trackers s' = (trackers s)(a \<mapsto> ?t)" "use_count s' = (use_count s)(a := use_count s a + 1)"
    "flat H (tracker_pool s') = (flat H (tracker_pool s))(k \<mapsto> Some a)" "root_tracker s' = root_tracker s"
    "next_tracker s' = Suc a" "handles s' = handles s" "in_flight s' = in_flight s" "need_erase s' = need_erase s"
    "gc_left s' = gc_left s" "shards_ok H (tracker_pool s) \<Longrightarrow> shards_ok H (tracker_pool s')"
    by (simp_all add: s'_def make_tracker_def Let_def a_def add_ref_def)
  have h: "heap_ok s" using inv by (simp add: mem_inv_def)
  have a: "0 < a" "trackers s a = None"
    using h by (simp_all add: a_def heap_ok_def) (metis less_irrefl not_Some_eq)
  then have "use_count s a = 0" using inv by (auto simp: mem_inv_def counts_ok_def)
  moreover from this have "handles s a = 0" "erase_refs a (need_erase s) = 0"
    using inv a(1) by (auto simp: mem_inv_def counts_ok_def)
  ultimately have u: "use_count s a = 0" "handles s a = 0" "erase_refs a (need_erase s) = 0" by simp_all
  have "heap_ok s'"
    using h a(1) unfolding heap_ok_def s' by (auto simp: new_mem_tracker_def a_def intro: less_SucI)
  moreover have "pool_ok H s'"
    unfolding pool_ok_def s'(3)
  proof (intro conjI allI impI)
    fix k' v
    assume v: "((flat H (tracker_pool s))(k \<mapsto> Some a)) k' = Some v"
    show "\<exists>b t. v = Some b \<and> 0 < b \<and> trackers s' b = Some t \<and> mt_log_id t = k'"
    proof (cases "k' = k")
      case False
      then obtain b t where "v = Some b" "0 < b" "trackers s b = Some t" "mt_log_id t = k'"
        using v inv pool_okD [of H s k' v] by (auto simp: mem_inv_def)
      then show ?thesis using a(2) by (auto simp: s')
    qed (use v a in \<open>auto simp: s' new_mem_tracker_def\<close>)
  qed (use inv s'(10) in \<open>simp add: mem_inv_def pool_ok_def\<close>)
  moreover have "erase_ok H s'"
  proof -
    have "trackers s' b = trackers s b" "flat H (tracker_pool s) k' = Some (Some b) \<Longrightarrow> flat H (tracker_pool s') k' = Some (Some b)"
      if "(k', b) \<in> set (need_erase s)" for k' b
      using that u(3) k by (auto simp: s' erase_refs_0)
    then show ?thesis
      using inv unfolding mem_inv_def erase_ok_def s'(8,9)
      by (auto split: option.split) (fastforce split: option.splits)+
  qed
  moreover have "calls_ok s'" using inv by (simp add: mem_inv_def calls_ok_def s')
  moreover have "pool_refs H s' b = (if b = a then 1 else pool_refs H s b)" for b
    using k by (cases "trackers s b") (auto simp: pool_refs_def s' new_mem_tracker_def)
  then have "counts_ok H None s'"
    using inv u a by (auto simp: mem_inv_def counts_ok_def s')
  moreover have "balanced s'"
    using inv a by (auto simp: mem_inv_def balanced_def s' live_bytes_Suc a_def [symmetric] new_mem_tracker_def)
  ultimately show ?thesis using a(1) by (simp add: mem_inv_def s')
qed

lemma new_handle_inv:
  assumes "mem_inv H None s" "0 < a" "trackers s a \<noteq> None"
  shows "mem_inv H None ((add_ref a s)\<lparr>handles := (handles s)(a := handles s a + 1)\<rparr>)"
  using handle_of_extra [OF add_extra [OF assms] assms(2)] by (simp add: add_ref_def)

lemma get_mem_tracker_inv:
  assumes inv: "mem_inv H None s"
  shows "mem_inv H None (snd (get_mem_tracker H k now s)) \<and>
    (\<exists>a t. fst (get_mem_tracker H k now s) = Some a \<and> 0 < a \<and>
       trackers (snd (get_mem_tracker H k now s)) a = Some t \<and> mt_log_id t = k)"
proof (cases "flat H (tracker_pool s) k")
  case None
  let ?a = "next_tracker s"
  let ?s = "(make_tracker k now s)\<lparr>tracker_pool := put_shard (map_idx H k) k (Some ?a) (tracker_pool s)\<rparr>"
  have new: "mem_inv H None ?s" "0 < ?a" "trackers ?s ?a \<noteq> None"
    using make_tracker_inv [OF inv None refl refl, of now] by simp_all
  have g: "get_mem_tracker H k now s = (Some ?a, (add_ref ?a ?s)\<lparr>handles := (handles ?s)(?a := handles ?s ?a + 1)\<rparr>)"
    using None by (simp add: get_mem_tracker_def get_or_put_call_def tsm_lookup_flat flat_def Let_def)
  have "\<exists>t. trackers ((add_ref ?a ?s)\<lparr>handles := (handles ?s)(?a := handles ?s ?a + 1)\<rparr>) ?a = Some t \<and> mt_log_id t = k"
    by (simp add: add_ref_def make_tracker_def Let_def new_mem_tracker_def)
  then show ?thesis
    unfolding g fst_conv snd_conv using new_handle_inv [OF new] new(2) by blast
next
  case (Some v)
  then obtain a t where a: "v = Some a" "0 < a" "trackers s a = Some t" "mt_log_id t = k"
    using inv by (auto simp: mem_inv_def elim: pool_okD)
  have g: "get_mem_tracker H k now s = (Some a, (add_ref a s)\<lparr>handles := (handles s)(a := handles s a + 1)\<rparr>)"
    using Some a by (simp add: get_mem_tracker_def get_or_put_call_def tsm_lookup_flat flat_def Let_def)
  show ?thesis unfolding g using new_handle_inv [OF inv a(2)] a by (simp add: add_ref_def)
qed

text \<open>The clean-up thread.\<close>

lemma gc_left_inv:
  assumes inv: "mem_inv H None s" and "erase_ok H (s\<lparr>gc_left := l\<rparr>)"
  shows "mem_inv H None (s\<lparr>gc_left := l\<rparr>)"
proof -
  have "pool_refs H (s\<lparr>gc_left := l\<rparr>) = pool_refs H s" by (rule ext, rule pool_refs_upd) simp_all
  then show ?thesis
    using assms by (simp add: mem_inv_def heap_ok_def pool_ok_def calls_ok_def counts_ok_def balanced_def)
qed

lemma gc_look_inv:
  assumes inv: "mem_inv H None s" and step: "mem_act F H (GcLook k now) s = Some s'"
  shows "mem_inv H None s'"
proof -
  have guard: "gc_left s = None" "k \<notin> fst ` set (need_erase s)" "tsm_exist H k (tracker_pool s)"
    and s': "s' = gc_look F k (tsm_get H k (tracker_pool s)) now s"
    using step by (simp_all split: if_splits)
  obtain v where v: "flat H (tracker_pool s) k = Some v" using guard(3) by (auto simp: tsm_lookup_flat)
  then obtain a t where a: "v = Some a" "0 < a" "trackers s a = Some t" "mt_log_id t = k"
    using inv by (auto simp: mem_inv_def elim: pool_okD)
  have g: "tsm_get H k (tracker_pool s) = Some a" using v a by (simp add: tsm_lookup_flat)
  show ?thesis
  proof (cases "tracker_idle F now t")
    case False
    then show ?thesis using inv a by (simp add: s' g gc_look_def)
  next
    case True
    let ?s = "s\<lparr>need_erase := omap_put k a (need_erase s)\<rparr>"
    have s1: "s' = add_ref a ?s" using True a by (simp add: s' g gc_look_def)
    have "pool_refs H s' = pool_refs H s"
      by (rule ext, rule pool_refs_upd) (simp_all add: s1 add_ref_def)
    moreover have "use_count s a \<noteq> 0"
      using inv a unfolding mem_inv_def counts_ok_def by (metis option.distinct(1))
    ultimately have "counts_ok H None s'"
      using inv a guard(2) by (auto simp: mem_inv_def counts_ok_def s1 add_ref_def erase_refs_put)
    moreover have "pool_ok H s'"
      by (rule pool_ok_keep [of H s]) (use inv in \<open>simp_all add: mem_inv_def same_tracker_def s1 add_ref_def\<close>)
    moreover have "erase_ok H s'"
      using inv a v guard omap_put_new [OF guard(2), of a]
      by (auto simp: mem_inv_def erase_ok_def s1 add_ref_def)
    ultimately show ?thesis
      using inv by (simp add: mem_inv_def heap_ok_def calls_ok_def balanced_def s1 add_ref_def)
  qed
qed

lemma gc_erase_inv:
  assumes inv: "mem_inv H None s" and step: "mem_act F H (GcErase now) s = Some s'"
  shows "mem_inv H None s'"
proof -
  obtain k a l where l: "gc_left s = Some ((k, a) # l)"
    and s': "s' = gc_erase F H k a now (s\<lparr>gc_left := Some l\<rparr>)"
    using step by (auto split: option.splits list.splits)
  have e: "flat H (tracker_pool s) k = Some (Some a)" "(k, a) \<in> set (need_erase s)" "k \<notin> fst ` set l"
    using inv l by (auto simp: mem_inv_def erase_ok_def)
  then obtain t where a: "0 < a" "trackers s a = Some t" "mt_log_id t = k"
    using inv by (auto simp: mem_inv_def elim: pool_okD)
  let ?s = "s\<lparr>gc_left := Some l\<rparr>"
  have inv1: "mem_inv H None ?s"
    by (rule gc_left_inv [OF inv]) (use inv l in \<open>auto simp: mem_inv_def erase_ok_def\<close>)
  show ?thesis
  proof (cases "tracker_idle F now t")
    case False
    then show ?thesis using inv1 a by (simp add: s' gc_erase_def)
  next
    case True
    let ?s1 = "?s\<lparr>tracker_pool := drop_shard (map_idx H k) k (tracker_pool s)\<rparr>"
    have s1: "s' = drop_ref a now ?s1"
      using True a e by (simp add: s' gc_erase_def tsm_lookup_flat tsm_erase_def)
    have refs: "pool_refs H s b = pool_refs H ?s1 b + (if Some a = Some b then 1 else 0)" for b
      using a e by (cases "trackers s b") (auto simp: pool_refs_def)
    have "counts_ok H (Some a) ?s1"
      using inv unfolding mem_inv_def counts_ok_def by (simp add: refs add.assoc)
    moreover have "pool_ok H ?s1" using inv by (auto simp: mem_inv_def pool_ok_def)
    moreover have "flat H (tracker_pool ?s1) k' = Some (Some b)" if "(k', b) \<in> set l" for k' b
    proof -
      have "k' \<noteq> k" using that e(3) by force
      then show ?thesis using that inv1 by (auto simp: mem_inv_def erase_ok_def)
    qed
    then have "erase_ok H ?s1" using inv1 by (auto simp: mem_inv_def erase_ok_def)
    ultimately have "mem_inv H (Some a) ?s1"
      using inv by (simp add: mem_inv_def heap_ok_def calls_ok_def balanced_def)
    then show ?thesis unfolding s1 by (rule drop_extra) (rule a(1))
  qed
qed

lemma first_half_pos:
  assumes "mem_inv H None s" "first_half a f bytes amount s = Some s'" "trackers s a = Some t"
  shows "0 \<le> sint (bytes_consumed t)"
proof -
  have "0 < a" using assms by (cases a) (auto simp: mem_inv_def heap_ok_def first_half_def split: if_splits)
  then have "0 \<le> sint (consumed_at (trackers s) a)" using assms(1) by (simp add: mem_inv_def balanced_def)
  then show ?thesis using assms(3) by simp
qed

text \<open>Every step of every thread keeps the invariant.\<close>

lemma mem_init_inv: "0 < map_count H \<Longrightarrow> mem_inv H None (mem_pool_init F now)"
  using shards_ok_new [of H]
  by (auto simp: mem_inv_def mem_pool_init_def Let_def heap_ok_def pool_ok_def erase_ok_def calls_ok_def
      counts_ok_def balanced_def pool_refs_def new_mem_tracker_def consumed_at_def live_bytes_def)

lemma mem_act_inv:
  assumes inv: "mem_inv H None s" and tidy: "tidy act s" and step: "mem_act F H act s = Some s'"
  shows "mem_inv H None s'"
proof (cases act)
  case (MemGet k now)
  then show ?thesis using get_mem_tracker_inv [OF inv] step by auto
next
  case (MemCopy a)
  with step have h: "handles s a \<noteq> 0" and s': "s' = (add_ref a s)\<lparr>handles := (handles s)(a := handles s a + 1)\<rparr>"
    by (auto simp: add_ref_def split: if_splits)
  have "0 < a" using inv h by (cases a) (auto simp: mem_inv_def heap_ok_def)
  moreover have "trackers s a \<noteq> None" using inv h \<open>0 < a\<close> unfolding mem_inv_def counts_ok_def by (metis add_is_0)
  ultimately show ?thesis unfolding s' by (rule new_handle_inv [OF inv])
next
  case (MemDrop a now)
  with step have "calls_on a (in_flight s) < handles s a"
    and s': "s' = drop_ref a now (s\<lparr>handles := (handles s)(a := handles s a - 1)\<rparr>)"
    by (auto split: if_splits)
  from extra_of_handle [OF inv this(1)] show ?thesis unfolding s' using drop_extra by blast
next
  case (MemConsume a bytes now)
  show ?thesis
  proof (rule first_half_inv [OF inv])
    show "first_half a (consume_own bytes now) bytes bytes s = Some s'" using step MemConsume by simp
  next
    fix t
    assume t: "trackers s a = Some t"
    then have "0 \<le> sint (bytes_consumed t)" using first_half_pos [OF inv] step MemConsume by auto
    with t tidy MemConsume show "mt_log_id (consume_own bytes now t) = mt_log_id t \<and> mt_parent (consume_own bytes now t) = mt_parent t \<and>
        bytes_consumed (consume_own bytes now t) = bytes_consumed t + (if sint bytes \<le> 0 then 0 else bytes) \<and>
        0 \<le> sint (bytes_consumed (consume_own bytes now t))"
      by (intro consume_own_ok) simp_all
  qed
next
  case (MemRelease a bytes now)
  show ?thesis
  proof (rule first_half_inv [OF inv])
    show "first_half a (release_own bytes now) bytes (- bytes) s = Some s'" using step MemRelease by simp
  next
    fix t
    assume t: "trackers s a = Some t"
    then have "0 \<le> sint (bytes_consumed t)" using first_half_pos [OF inv] step MemRelease by auto
    with t tidy MemRelease show "mt_log_id (release_own bytes now t) = mt_log_id t \<and> mt_parent (release_own bytes now t) = mt_parent t \<and>
        bytes_consumed (release_own bytes now t) = bytes_consumed t + (if sint bytes \<le> 0 then 0 else - bytes) \<and>
        0 \<le> sint (bytes_consumed (release_own bytes now t))"
      by (intro release_own_ok) simp_all
  qed
next
  case (MemParent i)
  then show ?thesis using parent_half_inv [OF inv] step by blast
next
  case (MemSetExceeded a)
  with step have h: "handles s a \<noteq> 0" and s': "s' = s\<lparr>trackers := tracker_upd a set_limit_exceeded (trackers s)\<rparr>"
    by (auto split: if_splits)
  have "tracker_ids (trackers s' b) = tracker_ids (trackers s b)"
    "consumed_at (trackers s') = consumed_at (trackers s)" for b
    by (auto simp: s' tracker_upd_def tracker_ids_def set_limit_exceeded_def consumed_at_def fun_eq_iff split: option.split)
  then show ?thesis
    using inv by (intro mem_inv_frame [OF inv])
      (auto simp: s' mem_inv_def heap_ok_def calls_ok_def balanced_def live_bytes_def)
next
  case GcLoop
  with step have "gc_left s = None" and s': "s' = s\<lparr>gc_left := Some (need_erase s)\<rparr>" by (auto split: if_splits)
  then show ?thesis unfolding s'
    by (intro gc_left_inv [OF inv]) (use inv in \<open>auto simp: mem_inv_def erase_ok_def\<close>)
next
  case GcRest
  with step have "need_erase s = []" and s': "s' = s\<lparr>gc_left := None\<rparr>" by (auto split: if_splits)
  then show ?thesis unfolding s' by (intro gc_left_inv [OF inv]) (simp add: erase_ok_def)
next
  case (GcForget now)
  with step obtain k a l where l: "gc_left s = Some []" "need_erase s = (k, a) # l"
    and s': "s' = drop_ref a now (s\<lparr>need_erase := l\<rparr>)"
    by (auto split: option.splits list.splits)
  let ?s = "s\<lparr>need_erase := l\<rparr>"
  have "pool_refs H ?s = pool_refs H s" by (rule ext, rule pool_refs_upd) simp_all
  then have "counts_ok H (Some a) ?s" using inv l by (auto simp: mem_inv_def counts_ok_def)
  moreover have "erase_ok H ?s" using inv l by (auto simp: mem_inv_def erase_ok_def)
  ultimately have "mem_inv H (Some a) ?s"
    using inv by (simp add: mem_inv_def heap_ok_def pool_ok_def calls_ok_def balanced_def)
  moreover have "0 < a" using inv l by (auto simp: mem_inv_def erase_ok_def)
  ultimately show ?thesis unfolding s' by (rule drop_extra)
qed (use gc_look_inv [OF inv] gc_erase_inv [OF inv] step in blast)+

lemma mem_reach_inv:
  assumes "mem_reach F H s" "0 < map_count H"
  shows "mem_inv H None s"
  using assms(1)
proof induction
  case (mem_step s a s')
  from mem_act_inv [OF mem_step.IH mem_step.hyps(2,3)] show ?case .
qed (rule mem_init_inv [OF assms(2)])

end
