(* ===== verification/MemoryProperties.thy ===== *)
theory MemoryProperties
  imports MemoryProfile
begin

text \<open>
  What the trackers, their pool and its clean-up thread promise to the code that counts memory with
  them, for every interleaving of their steps; and one round of the clean-up thread as the code runs it,
  which is one of these interleavings.
\<close>

fun mem_acts :: "base_flags \<Rightarrow> (64 word, nat option) shard_env \<Rightarrow> mem_action list \<Rightarrow> mem_pool \<Rightarrow> mem_pool option" where
  "mem_acts F H [] s = Some s"
| "mem_acts F H (a # acts) s =
     (if tidy a s then (case mem_act F H a s of None \<Rightarrow> None | Some s \<Rightarrow> mem_acts F H acts s) else None)"

lemma mem_acts_reach: "mem_acts F H acts s = Some s' \<Longrightarrow> mem_reach F H s \<Longrightarrow> mem_reach F H s'"
  by (induction acts arbitrary: s) (auto split: if_splits option.splits intro: mem_step)

lemma mem_acts_append:
  "mem_acts F H (l @ l') s = (case mem_acts F H l s of None \<Rightarrow> None | Some s \<Rightarrow> mem_acts F H l' s)"
  by (induction l arbitrary: s) (auto split: option.split)

section \<open>One round of the clean-up thread\<close>

lemma walk_map_same:
  "walk_map (\<lambda>k v a. (v, g k v a)) ks t a = (t, fold (\<lambda>k a. case t k of None \<Rightarrow> a | Some v \<Rightarrow> g k v a) ks a)"
  by (induction ks arbitrary: a) (auto simp: fun_upd_idem split: option.split)

lemma traverse_from_same:
  "traverse_from walk (\<lambda>i m. m) (\<lambda>k v a. (v, g k v a)) is m a =
     (m, fold (\<lambda>i a. fold (\<lambda>k a. case m i k of None \<Rightarrow> a | Some v \<Rightarrow> g k v a) (walk (m i)) a) is a)"
  by (induction "is" arbitrary: a) (simp_all add: walk_map_same)

definition walk_keys :: "('k, 'v) shard_env \<Rightarrow> (('k \<Rightarrow> 'v option) \<Rightarrow> 'k list) \<Rightarrow> ('k, 'v) shards \<Rightarrow> 'k list" where
  "walk_keys H walk m = concat (map (\<lambda>i. walk (m i)) [0..<map_count H])"

text \<open>A walk visits each entry of a map once.\<close>

definition pool_walks :: "('k, 'v) shard_env \<Rightarrow> (('k \<Rightarrow> 'v option) \<Rightarrow> 'k list) \<Rightarrow> ('k, 'v) shards \<Rightarrow> bool" where
  "pool_walks H walk m \<longleftrightarrow> (\<forall>i < map_count H. distinct (walk (m i)) \<and> set (walk (m i)) = dom (m i))"

lemma walk_keys:
  assumes "shards_ok H m" "pool_walks H walk m"
  shows "set (walk_keys H walk m) = dom (flat H m)" "distinct (walk_keys H walk m)"
proof -
  have w: "distinct (walk (m i))" "set (walk (m i)) = dom (m i)" if "i < map_count H" for i
    using assms(2) that by (simp_all add: pool_walks_def)
  have c: "map_idx H k < map_count H" for k using assms(1) by (simp add: shards_ok_def map_idx_def)
  have i: "map_idx H k = i" if "k \<in> dom (m i)" for k i
    using assms(1) that unfolding shards_ok_def by blast
  show "set (walk_keys H walk m) = dom (flat H m)"
  proof (intro set_eqI iffI)
    fix k
    assume "k \<in> set (walk_keys H walk m)"
    then obtain j where "j < map_count H" "k \<in> set (walk (m j))" by (auto simp: walk_keys_def)
    with w(2) have "k \<in> dom (m j)" by blast
    with i [OF this] show "k \<in> dom (flat H m)" by (simp add: flat_def dom_def)
  next
    fix k
    assume "k \<in> dom (flat H m)"
    then have "k \<in> set (walk (m (map_idx H k)))" using w(2) [OF c] by (simp add: flat_def dom_def)
    then show "k \<in> set (walk_keys H walk m)" using c [of k] by (auto simp: walk_keys_def)
  qed
  have "distinct (concat (map (\<lambda>i. walk (m i)) [0..<n]))" if "n \<le> map_count H" for n
    using that
  proof (induction n)
    case (Suc n)
    have "dom (m j) \<inter> dom (m n) = {}" if "j < n" for j using i that by blast
    then have "(\<Union>j \<in> {0..<n}. dom (m j)) \<inter> dom (m n) = {}" by fastforce
    then show ?case using Suc w by simp
  qed simp
  then show "distinct (walk_keys H walk m)" by (simp add: walk_keys_def)
qed

text \<open>The look at one key, as the concurrent step makes it.\<close>

definition look :: "base_flags \<Rightarrow> (64 word, nat option) shard_env \<Rightarrow> int \<Rightarrow> 64 word \<Rightarrow> mem_pool \<Rightarrow> mem_pool" where
  "look F H now k s = gc_look F k (tsm_get H k (tracker_pool s)) now s"

lemma gc_look_same [simp]:
  "tracker_pool (gc_look F k v now s) = tracker_pool s" "trackers (gc_look F k v now s) = trackers s"
  "handles (gc_look F k v now s) = handles s" "gc_left (gc_look F k v now s) = gc_left s"
  by (auto simp: gc_look_def add_ref_def split: option.split)

lemma fold_look_same [simp]:
  "tracker_pool (fold (look F H now) ks s) = tracker_pool s" "trackers (fold (look F H now) ks s) = trackers s"
  "handles (fold (look F H now) ks s) = handles s" "gc_left (fold (look F H now) ks s) = gc_left s"
  by (induction ks arbitrary: s) (simp_all add: look_def)

lemma gc_walk_eq:
  assumes "shards_ok H (tracker_pool s)" "pool_walks H walk (tracker_pool s)"
  shows "gc_walk F H walk now s = fold (look F H now) (walk_keys H walk (tracker_pool s)) s"
proof -
  let ?m = "tracker_pool s"
  have f: "fold (\<lambda>k a. case ?m i k of None \<Rightarrow> a | Some v \<Rightarrow> gc_look F k v now a) ks a = fold (look F H now) ks a"
    if "set ks \<subseteq> dom (?m i)" "tracker_pool a = ?m" for i ks a
    using that
  proof (induction ks arbitrary: a)
    case (Cons k ks)
    then obtain v where v: "?m i k = Some v" by auto
    then have "map_idx H k = i" using assms(1) unfolding shards_ok_def by (metis option.distinct(1))
    with v Cons.prems have "tsm_get H k (tracker_pool a) = v" by (simp add: tsm_get_def)
    then show ?case using Cons v by (simp add: look_def)
  qed simp
  have g: "fold (\<lambda>i a. fold (\<lambda>k a. case ?m i k of None \<Rightarrow> a | Some v \<Rightarrow> gc_look F k v now a) (walk (?m i)) a) is a =
      fold (look F H now) (concat (map (\<lambda>i. walk (?m i)) is)) a"
    if "set is \<subseteq> {..<map_count H}" "tracker_pool a = ?m" for "is" a
    using that
  proof (induction "is" arbitrary: a)
    case (Cons i "is")
    have "set (walk (?m i)) \<subseteq> dom (?m i)" using Cons.prems assms(2) by (simp add: pool_walks_def)
    then show ?case using Cons f [of "walk (?m i)" i a] by simp
  qed simp
  show ?thesis
    using g [of "[0..<map_count H]" s]
    by (simp add: gc_walk_def traverse_with_key_value_def traverse_from_same walk_keys_def atLeast0LessThan)
qed

definition idle_at :: "base_flags \<Rightarrow> int \<Rightarrow> mem_pool \<Rightarrow> nat \<Rightarrow> bool" where
  "idle_at F now s a \<longleftrightarrow> (case trackers s a of None \<Rightarrow> False | Some t \<Rightarrow> tracker_idle F now t)"

lemma looks_acts:
  assumes "distinct ks" "set ks \<inter> fst ` set (need_erase s) = {}" "gc_left s = None"
    and "\<And>k. k \<in> set ks \<Longrightarrow> tsm_exist H k (tracker_pool s)"
  shows "mem_acts F H (map (\<lambda>k. GcLook k now) ks) s = Some (fold (look F H now) ks s) \<and>
    set (need_erase (fold (look F H now) ks s)) = set (need_erase s) \<union>
      {(k, a). k \<in> set ks \<and> tsm_get H k (tracker_pool s) = Some a \<and> idle_at F now s a}"
  using assms
proof (induction ks arbitrary: s)
  case (Cons k ks)
  let ?s = "look F H now k s"
  have new: "k \<notin> fst ` set (need_erase s)" using Cons.prems(2) by auto
  have n: "set (need_erase ?s) = set (need_erase s) \<union>
      {(k', a). k' = k \<and> tsm_get H k (tracker_pool s) = Some a \<and> idle_at F now s a}"
    using omap_put_new(1) [OF new]
    by (auto simp: look_def gc_look_def add_ref_def idle_at_def split: option.splits)
  have "set ks \<inter> fst ` set (need_erase ?s) = {}" using Cons.prems(1,2) unfolding n by force
  with Cons.prems have IH: "mem_acts F H (map (\<lambda>k. GcLook k now) ks) ?s = Some (fold (look F H now) ks ?s) \<and>
    set (need_erase (fold (look F H now) ks ?s)) = set (need_erase ?s) \<union>
      {(k, a). k \<in> set ks \<and> tsm_get H k (tracker_pool ?s) = Some a \<and> idle_at F now ?s a}"
    by (intro Cons.IH) (simp_all add: look_def)
  have "idle_at F now ?s = idle_at F now s" by (simp add: idle_at_def look_def fun_eq_iff)
  moreover have "tracker_pool ?s = tracker_pool s" by (simp add: look_def)
  moreover have "tidy (GcLook k now) s" "mem_act F H (GcLook k now) s = Some ?s"
    using Cons.prems(3,4) new by (simp_all add: look_def)
  ultimately show ?case using IH n by auto
qed simp

lemma gc_erase_same [simp]:
  "need_erase (gc_erase F H k a now s) = need_erase s" "gc_left (gc_erase F H k a now s) = gc_left s"
  "gc_erase F H k a now (s\<lparr>gc_left := g\<rparr>) = (gc_erase F H k a now s)\<lparr>gc_left := g\<rparr>"
  by (auto simp: gc_erase_def drop_ref_def Let_def split: option.split)

lemma fold_erase_same [simp]:
  "need_erase (fold (\<lambda>(k, a). gc_erase F H k a now) l s) = need_erase s"
  "gc_left (fold (\<lambda>(k, a). gc_erase F H k a now) l s) = gc_left s"
  by (induction l arbitrary: s) auto

lemma erases_acts:
  "mem_acts F H (replicate (length l) (GcErase now)) (s\<lparr>gc_left := Some l\<rparr>) =
     Some ((fold (\<lambda>(k, a). gc_erase F H k a now) l s)\<lparr>gc_left := Some []\<rparr>)"
proof (induction l arbitrary: s)
  case (Cons e l)
  then show ?case by (cases e) (simp add: Cons.IH [of "gc_erase F H (fst e) (snd e) now s", simplified])
qed simp

lemma drop_ref_local [simp]:
  "drop_ref a now (s\<lparr>gc_left := g\<rparr>) = (drop_ref a now s)\<lparr>gc_left := g\<rparr>"
  "drop_ref a now (s\<lparr>need_erase := l\<rparr>) = (drop_ref a now s)\<lparr>need_erase := l\<rparr>"
  by (simp_all add: drop_ref_def Let_def)

lemma fold_drop_local [simp]:
  "fold (\<lambda>(k, a). drop_ref a now) l (s\<lparr>need_erase := n\<rparr>) = (fold (\<lambda>(k, a). drop_ref a now) l s)\<lparr>need_erase := n\<rparr>"
  by (induction l arbitrary: s) auto

lemma fold_drop_left [simp]: "gc_left (fold (\<lambda>(k, a). drop_ref a now) l s) = gc_left s"
  by (induction l arbitrary: s) (auto simp: drop_ref_def Let_def)

lemma forgets_acts:
  "need_erase s = l \<Longrightarrow> mem_acts F H (replicate (length l) (GcForget now)) (s\<lparr>gc_left := Some []\<rparr>) =
     Some ((fold (\<lambda>(k, a). drop_ref a now) l s)\<lparr>gc_left := Some [], need_erase := []\<rparr>)"
proof (induction l arbitrary: s)
  case Nil
  then show ?case by (cases s) simp
next
  case (Cons e l)
  obtain k a where e: "e = (k, a)" by fastforce
  let ?d = "drop_ref a now s"
  have "mem_act F H (GcForget now) (s\<lparr>gc_left := Some []\<rparr>) = Some (?d\<lparr>gc_left := Some [], need_erase := l\<rparr>)"
    using Cons.prems e by simp
  moreover have "?d\<lparr>gc_left := Some [], need_erase := l\<rparr> = (?d\<lparr>need_erase := l\<rparr>)\<lparr>gc_left := Some []\<rparr>" by simp
  ultimately show ?case
    using Cons.IH [of "?d\<lparr>need_erase := l\<rparr>"] e by simp
qed

text \<open>The round is the steps of the clean-up thread without any other in between.\<close>

definition gc_actions :: "64 word list \<Rightarrow> nat \<Rightarrow> int \<Rightarrow> mem_action list" where
  "gc_actions ks n now = map (\<lambda>k. GcLook k now) ks @ GcLoop # replicate n (GcErase now) @ replicate n (GcForget now) @ [GcRest]"

lemma gc_round_acts:
  assumes "shards_ok H (tracker_pool s)" "pool_walks H walk (tracker_pool s)" "need_erase s = []" "gc_left s = None"
  shows "\<exists>ks n. mem_acts F H (gc_actions ks n now) s = Some (gc_round F H walk now s)"
proof -
  let ?ks = "walk_keys H walk (tracker_pool s)"
  let ?s1 = "fold (look F H now) ?ks s"
  let ?l = "need_erase ?s1"
  let ?s2 = "fold (\<lambda>(k, a). gc_erase F H k a now) ?l ?s1"
  let ?s3 = "fold (\<lambda>(k, a). drop_ref a now) ?l ?s2"
  note k = walk_keys [OF assms(1,2)]
  have "mem_acts F H (map (\<lambda>k. GcLook k now) ?ks) s = Some ?s1"
    using looks_acts [of ?ks s H F now] k assms by (auto simp: tsm_lookup_flat)
  moreover have "mem_act F H GcLoop ?s1 = Some (?s1\<lparr>gc_left := Some ?l\<rparr>)" using assms(4) by simp
  moreover have "mem_acts F H (replicate (length ?l) (GcForget now)) (?s2\<lparr>gc_left := Some []\<rparr>) =
      Some (?s3\<lparr>gc_left := Some [], need_erase := []\<rparr>)"
    by (rule forgets_acts) simp
  moreover have "mem_act F H GcRest (?s3\<lparr>gc_left := Some [], need_erase := []\<rparr>) = Some (?s3\<lparr>need_erase := []\<rparr>)"
    using assms(4) by simp
  ultimately have "mem_acts F H (gc_actions ?ks (length ?l) now) s = Some (?s3\<lparr>need_erase := []\<rparr>)"
    unfolding gc_actions_def mem_acts_append by (simp add: mem_acts_append erases_acts)
  moreover have "gc_round F H walk now s = ?s3\<lparr>need_erase := []\<rparr>"
    by (simp add: gc_round_def gc_walk_eq [OF assms(1,2)] Let_def)
  ultimately show ?thesis by metis
qed

text \<open>An entry taken from the pool is still held by \<open>need_erase\<close>, so the second loop ends no tracker.\<close>

lemma gc_erase_keeps:
  assumes inv: "mem_inv H None s" and l: "gc_left s = Some ((k, a) # l)"
  shows "trackers (gc_erase F H k a now s) = trackers s"
proof -
  have e: "flat H (tracker_pool s) k = Some (Some a)" "(k, a) \<in> set (need_erase s)"
    using inv l by (auto simp: mem_inv_def erase_ok_def)
  then obtain t where a: "0 < a" "trackers s a = Some t" "mt_log_id t = k"
    using inv by (auto simp: mem_inv_def elim: pool_okD)
  have "pool_refs H s a = 1" using a e by (simp add: pool_refs_def)
  moreover have "erase_refs a (need_erase s) \<noteq> 0" using e(2) by (auto simp: erase_refs_0 intro!: bexI [of _ "(k, a)"])
  ultimately have "1 < use_count s a" using inv a unfolding mem_inv_def counts_ok_def by auto
  then show ?thesis using a e by (simp add: gc_erase_def drop_ref_def Let_def tsm_lookup_flat)
qed

lemma erases_pool:
  assumes "mem_inv H None (s\<lparr>gc_left := Some l\<rparr>)" "\<And>k a. (k, a) \<in> set l \<Longrightarrow> idle_at F now s a"
  shows "flat H (tracker_pool (fold (\<lambda>(k, a). gc_erase F H k a now) l s)) =
    (\<lambda>k. if k \<in> fst ` set l then None else flat H (tracker_pool s) k)"
  using assms
proof (induction l arbitrary: s)
  case (Cons e l)
  obtain k a where e: "e = (k, a)" by fastforce
  let ?s = "gc_erase F H k a now s"
  have t: "trackers ?s = trackers s" using gc_erase_keeps [OF Cons.prems(1), of k a l F now] e by simp
  have "mem_inv H None (?s\<lparr>gc_left := Some l\<rparr>)"
    by (rule gc_erase_inv [OF Cons.prems(1), of F now]) (simp add: e)
  moreover have "idle_at F now ?s b" if "(k', b) \<in> set l" for k' b
    using Cons.prems(2) [of k' b] that t by (simp add: idle_at_def)
  ultimately have IH: "flat H (tracker_pool (fold (\<lambda>(k, a). gc_erase F H k a now) l ?s)) =
      (\<lambda>k. if k \<in> fst ` set l then None else flat H (tracker_pool ?s) k)" by (rule Cons.IH)
  have "flat H (tracker_pool s) k = Some (Some a)" using Cons.prems(1) e by (auto simp: mem_inv_def erase_ok_def)
  moreover have "idle_at F now s a" using Cons.prems(2) [of k a] e by simp
  ultimately have "flat H (tracker_pool ?s) = (flat H (tracker_pool s))(k := None)"
    by (auto simp: gc_erase_def idle_at_def drop_ref_def Let_def tsm_erase_def tsm_lookup_flat split: option.splits)
  then show ?case using IH e by (auto simp: fun_eq_iff)
qed simp

lemma fold_drop_pool: "tracker_pool (fold (\<lambda>(k, a). drop_ref a now) l s) = tracker_pool s"
  "handles (fold (\<lambda>(k, a). drop_ref a now) l s) = handles s"
  by (induction l arbitrary: s) (auto simp: drop_ref_def Let_def)

lemma fold_erase_handles: "handles (fold (\<lambda>(k, a). gc_erase F H k a now) l s) = handles s"
  by (induction l arbitrary: s) (auto simp: gc_erase_def drop_ref_def Let_def split: option.split)

lemma gc_round_pool:
  assumes inv: "mem_inv H None s" and w: "pool_walks H walk (tracker_pool s)" and n: "need_erase s = []" "gc_left s = None"
  shows "flat H (tracker_pool (gc_round F H walk now s)) k =
      (case flat H (tracker_pool s) k of Some (Some a) \<Rightarrow> if idle_at F now s a then None else Some (Some a) | x \<Rightarrow> x)"
    "handles (gc_round F H walk now s) = handles s" "need_erase (gc_round F H walk now s) = []"
proof -
  let ?ks = "walk_keys H walk (tracker_pool s)"
  let ?s1 = "fold (look F H now) ?ks s"
  let ?l = "need_erase ?s1"
  have sh: "shards_ok H (tracker_pool s)" using inv by (simp add: mem_inv_def pool_ok_def)
  note ks = walk_keys [OF sh w]
  have looks: "mem_acts F H (map (\<lambda>k. GcLook k now) ?ks) s = Some ?s1"
    "set ?l = {(k, a). k \<in> set ?ks \<and> tsm_get H k (tracker_pool s) = Some a \<and> idle_at F now s a}"
    using looks_acts [of ?ks s H F now] ks n by (auto simp: tsm_lookup_flat)
  have acts_inv: "mem_inv H None s'" if "mem_acts F H l s = Some s'" "mem_inv H None s" for l s s'
    using that by (induction l arbitrary: s) (auto split: if_splits option.splits intro: mem_act_inv)
  have "mem_acts F H (map (\<lambda>k. GcLook k now) ?ks @ [GcLoop]) s = Some (?s1\<lparr>gc_left := Some ?l\<rparr>)"
    using looks(1) n by (simp add: mem_acts_append)
  from acts_inv [OF this inv] have "mem_inv H None (?s1\<lparr>gc_left := Some ?l\<rparr>)" .
  moreover have "idle_at F now ?s1 a" if "(k, a) \<in> set ?l" for k a
    using that looks(2) by (simp add: idle_at_def)
  ultimately have e: "flat H (tracker_pool (fold (\<lambda>(k, a). gc_erase F H k a now) ?l ?s1)) =
      (\<lambda>k. if k \<in> fst ` set ?l then None else flat H (tracker_pool s) k)"
    using erases_pool [where H = H and s = ?s1 and l = ?l and F = F and now = now] unfolding fold_look_same by blast
  have g: "gc_round F H walk now s = (fold (\<lambda>(k, a). drop_ref a now) ?l
      (fold (\<lambda>(k, a). gc_erase F H k a now) ?l ?s1))\<lparr>need_erase := []\<rparr>"
    by (simp add: gc_round_def gc_walk_eq [OF sh w] Let_def)
  show "handles (gc_round F H walk now s) = handles s" "need_erase (gc_round F H walk now s) = []"
    by (simp_all add: g fold_drop_pool fold_erase_handles)
  have "k \<in> fst ` set ?l \<longleftrightarrow> (\<exists>a. flat H (tracker_pool s) k = Some (Some a) \<and> idle_at F now s a)"
  proof -
    have "k \<in> fst ` set ?l \<longleftrightarrow> (\<exists>a. k \<in> set ?ks \<and> tsm_get H k (tracker_pool s) = Some a \<and> idle_at F now s a)"
      unfolding looks(2) by force
    moreover have "v \<noteq> None" if "flat H (tracker_pool s) k = Some v" for v
      using that inv by (auto simp: mem_inv_def elim: pool_okD)
    ultimately show ?thesis using ks(1) by (auto simp: tsm_lookup_flat dom_def split: option.splits)
  qed
  then show "flat H (tracker_pool (gc_round F H walk now s)) k =
      (case flat H (tracker_pool s) k of Some (Some a) \<Rightarrow> if idle_at F now s a then None else Some (Some a) | x \<Rightarrow> x)"
    by (simp add: g fold_drop_pool e split: option.split)
qed

section \<open>Properties\<close>

text \<open>A tracker lives as long as it is held.\<close>

lemma pool_entry:
  assumes "mem_inv H None s" "flat H (tracker_pool s) k \<noteq> None"
  shows "\<exists>a t. flat H (tracker_pool s) k = Some (Some a) \<and> 0 < a \<and> trackers s a = Some t \<and> mt_log_id t = k"
  using assms by (auto simp: mem_inv_def elim: pool_okD)

lemma trackers_live:
  assumes "mem_reach F H s" "0 < map_count H" "0 < a"
  shows "trackers s a \<noteq> None \<longleftrightarrow>
    0 < handles s a \<or> (\<exists>k. tsm_exist H k (tracker_pool s) \<and> tsm_get H k (tracker_pool s) = Some a) \<or>
    a \<in> snd ` set (need_erase s)"
proof -
  note inv = mem_reach_inv [OF assms(1,2)]
  have refs: "pool_refs H s a \<noteq> 0 \<longleftrightarrow> (\<exists>k. flat H (tracker_pool s) k = Some (Some a))"
  proof
    assume "\<exists>k. flat H (tracker_pool s) k = Some (Some a)"
    then obtain k where k: "flat H (tracker_pool s) k = Some (Some a)" by blast
    with pool_entry [OF inv, of k] show "pool_refs H s a \<noteq> 0" by (auto simp: pool_refs_def)
  qed (auto simp: pool_refs_def split: option.splits if_splits)
  have "trackers s a \<noteq> None \<longleftrightarrow> use_count s a \<noteq> 0"
    "use_count s a = handles s a + erase_refs a (need_erase s) + pool_refs H s a"
    using inv assms(3) by (simp_all add: mem_inv_def counts_ok_def)
  moreover have "erase_refs a (need_erase s) \<noteq> 0 \<longleftrightarrow> a \<in> snd ` set (need_erase s)"
    by (auto simp: erase_refs_0)
  moreover have "tsm_exist H k (tracker_pool s) \<and> tsm_get H k (tracker_pool s) = Some a \<longleftrightarrow>
      flat H (tracker_pool s) k = Some (Some a)" for k
    by (auto simp: tsm_lookup_flat)
  ultimately show ?thesis using refs by auto
qed


text \<open>Two queries count bytes, one of them is done and is cleaned up by a full round.\<close>

definition demo_mem_env :: "(64 word, nat option) shard_env" where
  "demo_mem_env = \<lparr>hash = unat, map_count = 23, new_value = None\<rparr>"

definition demo_mem_acts :: "mem_action list" where
  "demo_mem_acts = [MemGet 7 0, MemConsume 1 100 0, MemGet 30 0, MemParent 0, MemConsume 2 40 1, MemRelease 1 30 2]"

lemmas mem_eval = mem_pool_init_def default_base_flags_def demo_mem_env_def get_mem_tracker_def make_tracker_def
  add_ref_def drop_ref_def new_mem_tracker_def first_half_def consume_own_def release_own_def fetch_add_def
  parent_to_update_def tracker_upd_def get_or_put_call_def tsm_exist_def tsm_get_def tsm_count_def map_idx_def no_shards_def
  put_shard_def Let_def

lemma demo_mem_run:
  "\<exists>s. mem_acts default_base_flags demo_mem_env demo_mem_acts (mem_pool_init default_base_flags 0) = Some s \<and>
     consumed_at (trackers s) 0 = 100 \<and> consumed_at (trackers s) 1 = 70 \<and> consumed_at (trackers s) 2 = 40 \<and>
     in_flight s = [(2, 0, 40), (1, 0, - 30)] \<and> next_tracker s = 3"
  by (simp add: demo_mem_acts_def mem_eval)

lemma demo_mem_reach: "\<exists>s. mem_reach default_base_flags demo_mem_env s \<and> consumed_at (trackers s) 0 = 100 \<and>
    in_flight s = [(2, 0, 40), (1, 0, - 30)] \<and> next_tracker s = 3"
  using demo_mem_run mem_acts_reach [OF _ mem_start] by blast


text \<open>
  C17: a round of the clean-up: from any state the threads can reach, a whole round takes from the pool
  exactly the entries whose tracker was idle for longer than the flag says, and ends exactly the
  trackers that then neither a caller nor the pool holds; and as a sequence of steps of the clean-up
  thread it leaves a state the threads can reach.
\<close>

theorem gc_round_collects:
  assumes "mem_reach F H s" "0 < map_count H" "pool_walks H walk (tracker_pool s)" "need_erase s = []" "gc_left s = None"
  shows "let s' = gc_round F H walk now s in mem_reach F H s' \<and>
    (\<forall>k. tsm_exist H k (tracker_pool s') \<longleftrightarrow> tsm_exist H k (tracker_pool s) \<and>
      \<not> (\<exists>a t. tsm_get H k (tracker_pool s) = Some a \<and> trackers s a = Some t \<and> tracker_idle F now t)) \<and>
    (\<forall>a > 0. trackers s' a \<noteq> None \<longleftrightarrow>
      0 < handles s a \<or> (\<exists>k. tsm_exist H k (tracker_pool s') \<and> tsm_get H k (tracker_pool s') = Some a))"
proof -
  let ?s = "gc_round F H walk now s"
  note inv = mem_reach_inv [OF assms(1,2)]
  have sh: "shards_ok H (tracker_pool s)" using inv by (simp add: mem_inv_def pool_ok_def)
  obtain ks n where "mem_acts F H (gc_actions ks n now) s = Some ?s"
    using gc_round_acts [OF sh assms(3-5)] by blast
  then have r: "mem_reach F H ?s" using mem_acts_reach assms(1) by blast
  note pool = gc_round_pool [OF inv assms(3-5), of F now]
  have "tsm_exist H k (tracker_pool ?s) \<longleftrightarrow> tsm_exist H k (tracker_pool s) \<and>
      \<not> (\<exists>a t. tsm_get H k (tracker_pool s) = Some a \<and> trackers s a = Some t \<and> tracker_idle F now t)" for k
    using pool(1) [of k] by (auto simp: tsm_lookup_flat idle_at_def split: option.splits)
  moreover have "trackers ?s a \<noteq> None \<longleftrightarrow>
      0 < handles s a \<or> (\<exists>k. tsm_exist H k (tracker_pool ?s) \<and> tsm_get H k (tracker_pool ?s) = Some a)" if "0 < a" for a
    using trackers_live [OF r assms(2) that] by (simp add: pool(2,3))
  ultimately show ?thesis using r by (simp add: Let_def)
qed

text \<open>The two trackers of the example, one let go of, both long idle: both leave the pool, one ends.\<close>

definition demo_walk :: "(64 word \<Rightarrow> nat option option) \<Rightarrow> 64 word list" where
  "demo_walk t = filter (\<lambda>k. t k \<noteq> None) [7, 30]"

lemma demo_mem_done:
  "\<exists>s. mem_acts default_base_flags demo_mem_env (demo_mem_acts @ [MemParent 0, MemParent 0, MemDrop 1 3])
       (mem_pool_init default_base_flags 0) = Some s \<and>
     tracker_pool s = no_shards(7 := [7 \<mapsto> Some 1, 30 \<mapsto> Some 2]) \<and> need_erase s = [] \<and> gc_left s = None \<and>
     handles s 1 = 0 \<and> handles s 2 = 1 \<and>
     map_option last_active_time (trackers s 1) = Some 2 \<and> map_option last_active_time (trackers s 2) = Some 1"
  by (simp add: demo_mem_acts_def mem_eval fun_eq_iff)

theorem gc_round_collects_witness:
  "\<exists>s :: mem_pool. mem_reach default_base_flags demo_mem_env s \<and> trackers s 1 \<noteq> None \<and>
     (let s' = gc_round default_base_flags demo_mem_env demo_walk 70000000 s
      in \<not> tsm_exist demo_mem_env 30 (tracker_pool s') \<and> trackers s' 1 = None \<and> trackers s' 2 \<noteq> None)"
proof -
  let ?F = default_base_flags and ?H = demo_mem_env
  obtain s where acts: "mem_acts ?F ?H (demo_mem_acts @ [MemParent 0, MemParent 0, MemDrop 1 3]) (mem_pool_init ?F 0) = Some s"
    and pool: "tracker_pool s = no_shards(7 := [7 \<mapsto> Some 1, 30 \<mapsto> Some 2])"
    and s: "need_erase s = []" "gc_left s = None" "handles s 1 = 0" "handles s 2 = 1"
      "map_option last_active_time (trackers s 1) = Some 2" "map_option last_active_time (trackers s 2) = Some 1"
    using demo_mem_done by blast
  have r: "mem_reach ?F ?H s" using mem_acts_reach [OF acts mem_start] .
  have c: "0 < map_count ?H" by (simp add: demo_mem_env_def)
  have w: "pool_walks ?H demo_walk (tracker_pool s)"
    by (auto simp: pool_walks_def demo_walk_def pool no_shards_def split: if_splits)
  obtain t1 t2 where t: "trackers s 1 = Some t1" "last_active_time t1 = 2" "trackers s 2 = Some t2" "last_active_time t2 = 1"
    using s(5,6) by auto
  let ?s = "gc_round ?F ?H demo_walk 70000000 s"
  have get: "tsm_exist ?H k (tracker_pool s) \<Longrightarrow> k = 7 \<or> k = 30"
    "tsm_get ?H 7 (tracker_pool s) = Some 1" "tsm_get ?H 30 (tracker_pool s) = Some 2" for k
    by (auto simp: tsm_exist_def tsm_count_def tsm_get_def map_idx_def pool no_shards_def demo_mem_env_def split: option.splits if_splits)
  have idle: "tracker_idle ?F 70000000 t1" "tracker_idle ?F 70000000 t2"
    using t by (simp_all add: tracker_idle_def default_base_flags_def)
  note g = gc_round_collects [OF r c w s(1,2), of 70000000, unfolded Let_def]
  have out: "\<not> tsm_exist ?H k (tracker_pool ?s)" for k
    using g get t idle by metis
  have "trackers ?s 1 \<noteq> None \<longleftrightarrow> 0 < handles s 1" "trackers ?s 2 \<noteq> None \<longleftrightarrow> 0 < handles s 2"
    using g out by simp_all
  then show ?thesis using r t out s by (intro exI [of _ s]) (simp add: Let_def)
qed

text \<open>
  A tracker that is held but idle leaves the pool, and the next look-up of its log id makes a second
  one: the limit of a query is a limit on each of them.
\<close>

lemma idle_tracker_replaced:
  "\<exists>s t1 t2. mem_reach default_base_flags demo_mem_env s \<and> 0 < handles s 1 \<and> 0 < handles s 2 \<and>
     trackers s 1 = Some t1 \<and> trackers s 2 = Some t2 \<and> mt_log_id t1 = 7 \<and> mt_log_id t2 = 7"
proof -
  have "\<exists>s t1 t2. mem_acts default_base_flags demo_mem_env
      [MemGet 7 0, GcLook 7 70000000, GcLoop, GcErase 70000000, GcForget 70000000, GcRest, MemGet 7 70000000]
      (mem_pool_init default_base_flags 0) = Some s \<and> 0 < handles s 1 \<and> 0 < handles s 2 \<and>
    trackers s 1 = Some t1 \<and> trackers s 2 = Some t2 \<and> mt_log_id t1 = 7 \<and> mt_log_id t2 = 7"
    by (simp add: mem_eval gc_look_def gc_erase_def tracker_idle_def tsm_erase_def drop_shard_def)
  then show ?thesis using mem_acts_reach [OF _ mem_start] by blast
qed

text \<open>The two tests of a limit differ where the limit is zero: one takes it for no limit.\<close>

lemma limit_tests_agree:
  "mt_bytes_limit t \<noteq> 0 \<Longrightarrow> check_bytes_limit t \<longleftrightarrow> limit_exceeded t"
  "mt_bytes_limit t = 0 \<Longrightarrow> \<not> check_bytes_limit t \<and> (limit_exceeded t \<longleftrightarrow> 0 < sint (bytes_consumed t))"
  by (auto simp: check_bytes_limit_def limit_exceeded_def)

text \<open>A query gets at most the process's limit, and no limit when the process has none.\<close>

lemma query_limit_within:
  assumes "0 \<le> query_memory_limit_ratio F" "query_memory_limit_ratio F \<le> 100"
  shows "0 < process_memory_limit_bytes F \<Longrightarrow> 0 \<le> query_bytes_limit (mem_pool_init F now) \<and>
      query_bytes_limit (mem_pool_init F now) \<le> process_memory_limit_bytes F"
    and "process_memory_limit_bytes F \<le> 0 \<Longrightarrow> query_bytes_limit (mem_pool_init F now) = -1"
proof -
  let ?p = "process_memory_limit_bytes F" and ?r = "query_memory_limit_ratio F"
  assume p: "0 < ?p"
  have "?p * ?r \<le> ?p * 100" using assms p by (intro mult_left_mono) simp_all
  then have "?p * ?r div 100 \<le> ?p" by linarith
  moreover have "0 \<le> ?p * ?r div 100" using assms p by (simp add: pos_imp_zdiv_nonneg_iff)
  moreover have "(?p * ?r) sdiv 100 = ?p * ?r div 100"
    using assms p by (cases "?r = 0") (simp_all add: signed_divide_int_def sgn_mult)
  ultimately show "0 \<le> query_bytes_limit (mem_pool_init F now) \<and> query_bytes_limit (mem_pool_init F now) \<le> ?p"
    using p by (simp add: mem_pool_init_def Let_def)
qed (simp add: mem_pool_init_def Let_def)

end
