(* ===== verification/ServerProcess.thy ===== *)
theory ServerProcess
  imports ServerDispatch Snapshot
begin

text \<open>
  The process around the services: the flags it is started with (flags/discovery.cc), the options each
  raft node is initialised with (base_state_machine.cc, tso_state_machine.cc), the three state machines
  of the server side by side, and \<open>main\<close> (discovery/server.cc) from start-up to shutdown. What brpc,
  braft and the log answer are arguments of \<open>main\<close>, as are the values its two waiting loops read; its
  result is the exit code, \<open>None\<close> while it still waits, and the calls it made, in order.
\<close>

section \<open>Flags and node options\<close>

record discovery_flags =
  discovery_server_peers :: string
  discovery_snapshot_interval_s :: int
  discovery_election_timeout_ms :: int
  discovery_raft_group :: string
  discovery_log_uri :: string
  discovery_stable_uri :: string
  discovery_snapshot_uri :: string
  discovery_tso_snapshot_interval_s :: int
  discovery_db_path :: string
  discovery_listen :: string

definition default_discovery_flags :: discovery_flags where
  "default_discovery_flags = \<lparr>discovery_server_peers = ''127.0.0.1:8010'', discovery_snapshot_interval_s = 600,
     discovery_election_timeout_ms = 1000, discovery_raft_group = ''discovery_raft'',
     discovery_log_uri = ''local://./discovery/raft_log/'',
     discovery_stable_uri = ''local://./discovery/raft_data/stable'',
     discovery_snapshot_uri = ''local://./discovery/raft_data/snapshot'',
     discovery_tso_snapshot_interval_s = 60, discovery_db_path = ''./discovery/rocks_db'',
     discovery_listen = ''127.0.0.1:8010''\<rparr>"

text \<open>What the constructors of the three machines give \<open>BaseStateMachine\<close>: region, identity, path.\<close>

fun machine_region :: "raft_group \<Rightarrow> int" where
  "machine_region MetaGroup = 0"
| "machine_region AutoIncrGroup = 1"
| "machine_region TsoGroup = 2"

fun machine_identity :: "discovery_flags \<Rightarrow> raft_group \<Rightarrow> string" where
  "machine_identity F MetaGroup = discovery_raft_group F"
| "machine_identity F AutoIncrGroup = ''auto_incr_raft''"
| "machine_identity F TsoGroup = ''tso_raft''"

fun machine_file_path :: "raft_group \<Rightarrow> string" where
  "machine_file_path MetaGroup = ''/discovery_server''"
| "machine_file_path AutoIncrGroup = ''/auto_incr''"
| "machine_file_path TsoGroup = ''/tso''"

record 'p node_options =
  election_timeout_ms :: int
  initial_conf :: "'p list"
  snapshot_interval_s :: int
  log_uri :: string
  raft_meta_uri :: string
  snapshot_uri :: string

definition base_node_options :: "discovery_flags \<Rightarrow> int \<Rightarrow> string \<Rightarrow> 'p list \<Rightarrow> 'p node_options" where
  "base_node_options F region file_path peers =
     \<lparr>election_timeout_ms = discovery_election_timeout_ms F, initial_conf = peers,
      snapshot_interval_s = discovery_snapshot_interval_s F,
      log_uri = discovery_log_uri F @ int_to_string region,
      raft_meta_uri = discovery_stable_uri F @ file_path,
      snapshot_uri = discovery_snapshot_uri F @ file_path\<rparr>"

definition tso_node_options :: "discovery_flags \<Rightarrow> int \<Rightarrow> string \<Rightarrow> 'p list \<Rightarrow> 'p node_options" where
  "tso_node_options F region file_path peers =
     (base_node_options F region file_path peers)\<lparr>snapshot_interval_s := discovery_tso_snapshot_interval_s F\<rparr>"

text \<open>\<open>init\<close> of a machine, over what the node's \<open>init\<close> answers to the options.\<close>

definition machine_init :: "('p node_options \<Rightarrow> int) \<Rightarrow> discovery_flags \<Rightarrow> raft_group \<Rightarrow> 'p list \<Rightarrow> int" where
  "machine_init node_init F g peers =
     (let options = (if g = TsoGroup then tso_node_options F (machine_region g) (machine_file_path g) peers
                     else base_node_options F (machine_region g) (machine_file_path g) peers);
          ret = node_init options
      in if ret < 0 then ret else 0)"

text \<open>No two machines share a log, a vote or a snapshot.\<close>

lemma int_to_string_inj: "int_to_string i = int_to_string j \<longleftrightarrow> i = j"
  by (metis option.inject string_to_int_to_string)

lemma machines_apart:
  assumes "g \<noteq> h"
  shows "log_uri (base_node_options F (machine_region g) (machine_file_path g) peers) \<noteq>
      log_uri (base_node_options F (machine_region h) (machine_file_path h) peers)"
    "raft_meta_uri (base_node_options F (machine_region g) (machine_file_path g) peers) \<noteq>
      raft_meta_uri (base_node_options F (machine_region h) (machine_file_path h) peers)"
    "snapshot_uri (base_node_options F (machine_region g) (machine_file_path g) peers) \<noteq>
      snapshot_uri (base_node_options F (machine_region h) (machine_file_path h) peers)"
  using assms by (cases g; cases h; simp add: base_node_options_def int_to_string_inj)+

section \<open>The three machines\<close>

text \<open>
  What happens to them: committed entries, leadership, and a snapshot braft hands them. The auto
  increment machine has nothing beside its map but the flags of \<open>BaseStateMachine\<close>.
\<close>

record auto_machine =
  auto_map :: auto_increment_map
  auto_is_leader :: bool
  auto_have_data :: bool

record server_machines =
  meta_machine :: discovery_state_machine
  auto_incr_machine :: auto_machine
  tso_machine :: tso_state

definition new_machines :: server_machines where
  "new_machines = \<lparr>meta_machine = init_state,
     auto_incr_machine = \<lparr>auto_map = Map.empty, auto_is_leader = False, auto_have_data = False\<rparr>,
     tso_machine = tso_init\<rparr>"

text \<open>\<open>on_leader_start\<close> and \<open>on_leader_stop\<close> of \<open>BaseStateMachine\<close>, which this machine does not override.\<close>

definition base_on_leader_start :: "auto_machine \<Rightarrow> auto_machine" where
  "base_on_leader_start s = s\<lparr>auto_is_leader := True\<rparr>"

definition base_on_leader_stop :: "auto_machine \<Rightarrow> auto_machine" where
  "base_on_leader_stop s = s\<lparr>auto_is_leader := False\<rparr>"

text \<open>The JSON library may abort on a snapshot's file; \<open>None\<close> then.\<close>

definition auto_on_snapshot_load ::
  "json_env \<Rightarrow> (string \<times> string) list \<Rightarrow> auto_machine \<Rightarrow> (int \<times> auto_machine) option" where
  "auto_on_snapshot_load J files s =
     (case auto_load_files J files (auto_map s) of
        None \<Rightarrow> None
      | Some (ret, m) \<Rightarrow>
          if ret \<noteq> 0 then Some (-1, s\<lparr>auto_map := m\<rparr>)
          else Some (0, s\<lparr>auto_map := m, auto_have_data := True\<rparr>))"

datatype machine_event =
    MetaApply "raft_entry list" | MetaLeader bool | MetaSnapshot int snapshot_files
  | AutoApply "(string \<times> closure) list" | AutoLeader bool | AutoSnapshot "(string \<times> string) list"
  | TsoApply "(string \<times> tso_closure) list" | TsoAction tso_action | TsoSnapshot "(string \<times> string) list"

record machine_env =
  me_env :: env
  me_storage :: storage
  me_parse :: "string \<Rightarrow> DiscoveryManagerRequest option"
  me_tso_parse :: "string \<Rightarrow> TsoRequest option"
  me_tso_pb :: "TsoRequest pb"
  me_json :: json_env

fun machine_step :: "machine_env \<Rightarrow> machine_event \<Rightarrow> server_machines \<Rightarrow> server_machines" where
  "machine_step M (MetaApply entries) s =
     s\<lparr>meta_machine := snd (on_apply (me_env M) (me_parse M) entries (meta_machine s))\<rparr>"
| "machine_step M (MetaLeader starts) s =
     s\<lparr>meta_machine := (if starts then on_leader_start else on_leader_stop) (meta_machine s)\<rparr>"
| "machine_step M (MetaSnapshot index files) s =
     s\<lparr>meta_machine := snd (on_snapshot_load (me_env M) (me_storage M) index files (meta_machine s))\<rparr>"
| "machine_step M (AutoApply entries) s =
     s\<lparr>auto_incr_machine := (auto_incr_machine s)
        \<lparr>auto_map := snd (auto_on_apply (me_parse M) entries (auto_map (auto_incr_machine s)))\<rparr>\<rparr>"
| "machine_step M (AutoLeader starts) s =
     s\<lparr>auto_incr_machine := (if starts then base_on_leader_start else base_on_leader_stop) (auto_incr_machine s)\<rparr>"
| "machine_step M (AutoSnapshot files) s =
     (case auto_on_snapshot_load (me_json M) files (auto_incr_machine s) of
        None \<Rightarrow> s | Some (ret, a) \<Rightarrow> s\<lparr>auto_incr_machine := a\<rparr>)"
| "machine_step M (TsoApply entries) s =
     s\<lparr>tso_machine := snd (tso_on_apply (me_tso_parse M) entries (tso_machine s))\<rparr>"
| "machine_step M (TsoAction a) s = s\<lparr>tso_machine := tso_do (me_tso_pb M) a (tso_machine s)\<rparr>"
| "machine_step M (TsoSnapshot files) s =
     s\<lparr>tso_machine := snd (tso_on_snapshot_load files (tso_machine s))\<rparr>"

definition machine_data :: "server_machines \<Rightarrow> raft_group \<Rightarrow> bool" where
  "machine_data s g = (case g of MetaGroup \<Rightarrow> have_data (meta_machine s)
     | AutoIncrGroup \<Rightarrow> auto_have_data (auto_incr_machine s) | TsoGroup \<Rightarrow> tso_have_data (tso_machine s))"

section \<open>main\<close>

datatype main_call = RemoveInitFile | AddRaftService | InitRouter string | AddDiscoveryService | AddRouterService
  | StartServer | InitDiscovery "string list" | StartMemoryGc | WriteInitFile
  | ShutdownRaft "raft_group list" | JoinFlush | StopMemoryGc | CloseRocks | StopServer | JoinServer

text \<open>
  What the calls answer: \<open>router_rs\<close> is the status of \<open>RouterServiceImpl::init\<close> (its model is in
  RouterService.thy), \<open>split_by_comma\<close> is \<open>turbo::StrSplit\<close>; the last three are the machines of
  \<open>DiscoveryServer::init\<close>.
\<close>

record main_env =
  log_ok :: bool
  raft_service_ret :: int
  split_by_comma :: "string \<Rightarrow> string list"
  router_rs_ok :: bool
  discovery_service_ret :: int
  router_service_ret :: int
  start_ret :: int
  rocks_init_ret :: int
  allocated :: "raft_group \<Rightarrow> bool"
  node_init :: "raft_group \<Rightarrow> string node_options \<Rightarrow> int"

definition new_server :: server_state where
  "new_server = \<lparr>machines = [], managers_bound = False, flushing = False, initialised = False, shutdown = False\<rparr>"

definition discovery_init :: "main_env \<Rightarrow> discovery_flags \<Rightarrow> string list \<Rightarrow> int \<times> server_state" where
  "discovery_init E F peers =
     (let answer = (\<lambda>g. (allocated E g, machine_init (node_init E g) F g peers))
      in server_init (rocks_init_ret E) (answer MetaGroup) (answer AutoIncrGroup) (answer TsoGroup) new_server)"

text \<open>A loop that sleeps a second until a test holds: the number of sleeps, \<open>None\<close> while it waits.\<close>

fun sleep_until :: "bool list \<Rightarrow> nat option" where
  "sleep_until [] = None"
| "sleep_until (test # tests) = (if test then Some 0 else map_option Suc (sleep_until tests))"

definition shutdown_calls :: "server_state \<Rightarrow> main_call list" where
  "shutdown_calls s =
     (let (groups, s) = server_shutdown_raft s
      in [ShutdownRaft groups, JoinFlush, StopMemoryGc, CloseRocks, StopServer, JoinServer])"

definition main_after_start ::
  "main_env \<Rightarrow> discovery_flags \<Rightarrow> string list \<Rightarrow> bool list \<Rightarrow> bool list \<Rightarrow> main_call list \<Rightarrow> int option \<times> main_call list" where
  "main_after_start E F peers have_data_seen asked_to_quit calls =
     (let (ret, s) = discovery_init E F peers; calls = calls @ [InitDiscovery peers]
      in if ret \<noteq> 0 then (Some (-1), calls)
         else let calls = calls @ [StartMemoryGc]
         in case sleep_until have_data_seen of
              None \<Rightarrow> (None, calls)
            | Some _ \<Rightarrow>
                let calls = calls @ [WriteInitFile]
                in case sleep_until asked_to_quit of
                     None \<Rightarrow> (None, calls)
                   | Some _ \<Rightarrow> (Some 0, calls @ shutdown_calls s))"

definition server_main ::
  "main_env \<Rightarrow> discovery_flags \<Rightarrow> bool list \<Rightarrow> bool list \<Rightarrow> int option \<times> main_call list" where
  "server_main E F have_data_seen asked_to_quit =
     (let calls = [RemoveInitFile]
      in if \<not> log_ok E then (Some (-1), calls)
         else let calls = calls @ [AddRaftService]
         in if raft_service_ret E \<noteq> 0 then (Some (-1), calls)
         else let peers = split_by_comma E (discovery_server_peers F);
                  calls = calls @ [InitRouter (discovery_server_peers F)]
         in if \<not> router_rs_ok E then (Some (-1), calls)
         else let calls = calls @ [AddDiscoveryService]
         in if discovery_service_ret E \<noteq> 0 then (Some (-1), calls)
         else let calls = calls @ [AddRouterService]
         in if router_service_ret E \<noteq> 0 then (Some (-1), calls)
         else let calls = calls @ [StartServer]
         in if start_ret E \<noteq> 0 then (Some (-1), calls)
         else main_after_start E F peers have_data_seen asked_to_quit calls)"

section \<open>Only a snapshot gives a machine data\<close>

lemmas accessors_have_data = delete_zone_id_def delete_servlet_id_def add_servlet_id_def
  namespace_accessors zone_accessors servlet_accessors instance_accessors

lemma namespace_have_data:
  "have_data (snd (create_namespace E rq dn s)) = have_data s"
  "have_data (snd (drop_namespace E rq dn s)) = have_data s"
  "have_data (snd (modify_namespace E rq dn s)) = have_data s"
  by (simp_all add: create_namespace_def drop_namespace_def modify_namespace_def accessors_have_data split_def
      split: option.split)

lemma zone_have_data:
  "have_data (snd (create_zone E rq dn s)) = have_data s"
  "have_data (snd (drop_zone E rq dn s)) = have_data s"
  "have_data (snd (modify_zone E rq dn s)) = have_data s"
  by (simp_all add: create_zone_def drop_zone_def modify_zone_def accessors_have_data split_def
      split: option.split)

lemma servlet_have_data:
  "have_data (snd (create_servlet E rq dn s)) = have_data s"
  "have_data (snd (drop_servlet E rq dn s)) = have_data s"
  "have_data (snd (modify_servlet E rq dn s)) = have_data s"
  by (simp_all add: create_servlet_def drop_servlet_def modify_servlet_def accessors_have_data split_def
      split: option.split)

lemma instance_have_data:
  "have_data (snd (add_instance E rq dn s)) = have_data s"
  "have_data (snd (drop_instance E rq dn s)) = have_data s"
  "have_data (snd (update_instance E rq dn s)) = have_data s"
  by (simp_all add: add_instance_def drop_instance_def update_instance_def accessors_have_data split_def
      split: option.split)

lemma user_have_data:
  "have_data (snd (create_user E rq dn s)) = have_data s"
  "have_data (snd (drop_user E rq dn s)) = have_data s"
  "have_data (snd (add_privilege E rq dn s)) = have_data s"
  "have_data (snd (drop_privilege E rq dn s)) = have_data s"
  by (simp_all add: create_user_def drop_user_def add_privilege_def drop_privilege_def
      change_privilege_def Let_def split_def split: option.split)

lemma config_have_data:
  "have_data (snd (create_config E rq dn s)) = have_data s"
  "have_data (snd (remove_config E rq dn s)) = have_data s"
  by (simp_all add: create_config_def remove_config_def remove_config_all_def config_opened_def Let_def split_def
      split: option.split)

lemmas handlers_have_data = namespace_have_data zone_have_data servlet_have_data instance_have_data
  user_have_data config_have_data

lemma on_apply_have_data: "have_data (snd (on_apply E parse es s)) = have_data s"
proof -
  have "have_data (snd (apply_request E rq dn s)) = have_data s" for E rq dn and s :: discovery_state_machine
    by (cases "rq_op_type rq") (simp_all add: apply_request_def handlers_have_data)
  then have "have_data (snd (apply_entry E parse e s)) = have_data s" for e s
    by (simp add: apply_entry_def split_def Let_def split: option.split)
  then show ?thesis
    by (induction es arbitrary: s) (simp_all add: on_apply_def del: apply_log.simps(2))
qed

end
