(* ===== verification/ProcessProperties.thy ===== *)
theory ProcessProperties
  imports ServerProcess "HOL-Library.Sublist"
begin

text \<open>
  What \<open>main\<close> does on every path: the order of its calls, its exit codes, and the start of a group
  of servers that has no snapshot yet.
\<close>

section \<open>The oracle's flag\<close>

lemma tso_apply_have_data: "tso_have_data (snd (tso_apply_entry parse e s)) = tso_have_data s"
  by (auto simp: tso_apply_entry_def reset_tso_def update_tso_def Let_def
      split: prod.split option.split TsoOp.split)

lemma tso_on_apply_have_data: "tso_have_data (snd (tso_on_apply parse es s)) = tso_have_data s"
  by (induction es arbitrary: s) (simp_all add: tso_on_apply_def tso_apply_have_data del: apply_log.simps(2))

lemma sync_have_data: "tso_have_data (snd (sync_timestamp P outcome current save s)) = tso_have_data s"
  using tso_apply_have_data [of "pb_parse P" _ s]
  by (auto simp: sync_timestamp_def Let_def split_def split: option.split raft_outcome.split)

lemma tso_do_have_data: "tso_have_data (tso_do P a s) = tso_have_data s"
proof (cases a)
  case (Serve rq)
  then show ?thesis by (auto simp: gen_tso_idle gen_attempt_def Let_def split: prod.splits option.splits)
next
  case (Tick now outcome)
  then show ?thesis using sync_have_data [of P outcome _ _ s] by (auto simp: update_timestamp_def split: option.split)
next
  case (LeaderStart now outcome)
  then show ?thesis
    using sync_have_data [of P outcome "fst (leader_proposal now s)" "snd (leader_proposal now s)" s]
    by (simp add: tso_on_leader_start_def Let_def split_def)
qed (simp add: tso_on_leader_stop_def)

section \<open>Without a snapshot\<close>

fun loads_snapshot :: "raft_group \<Rightarrow> machine_event \<Rightarrow> bool" where
  "loads_snapshot MetaGroup (MetaSnapshot _ _) = True"
| "loads_snapshot AutoIncrGroup (AutoSnapshot _) = True"
| "loads_snapshot TsoGroup (TsoSnapshot _) = True"
| "loads_snapshot _ _ = False"

lemma machine_step_data:
  assumes "\<not> loads_snapshot g e"
  shows "machine_data (machine_step M e s) g = machine_data s g"
  using assms
  by (cases g; cases e)
    (auto simp: machine_data_def on_apply_have_data tso_on_apply_have_data tso_do_have_data on_leader_start_def
      on_leader_stop_def base_on_leader_start_def base_on_leader_stop_def auto_on_snapshot_load_def split: option.split)

text \<open>A flag that only some events can change, over a history without them.\<close>

locale guarded_flag =
  fixes step :: "'e \<Rightarrow> 's \<Rightarrow> 's" and touches :: "'e \<Rightarrow> bool" and flag :: "'s \<Rightarrow> bool"
  assumes step_keeps: "\<not> touches e \<Longrightarrow> flag (step e s) = flag s"
begin

lemma history_keeps: "\<not> list_ex touches es \<Longrightarrow> flag (fold step es s) = flag s"
  by (induction es arbitrary: s) (simp_all add: step_keeps)

end

interpretation machine: guarded_flag "machine_step M" "loads_snapshot g" "\<lambda>s. machine_data s g" for M g
  by unfold_locales (rule machine_step_data)

lemma machines_without_data:
  assumes "\<not> list_ex (loads_snapshot g) events"
  shows "\<not> server_have_data (machine_data (fold (machine_step M) events new_machines))"
proof -
  have "\<not> machine_data (fold (machine_step M) events new_machines) g"
    unfolding machine.history_keeps [OF assms]
    by (cases g) (simp_all add: machine_data_def new_machines_def init_state_def tso_init_def)
  then show ?thesis by (cases g) (auto simp: server_have_data_def)
qed

section \<open>The calls of main\<close>

lemma sleep_until_None: "sleep_until tests = None \<longleftrightarrow> True \<notin> set tests"
  by (induction tests) auto

lemma server_init_groups:
  assumes "server_init r meta auto tso new_server = (0, s)"
  shows "shutdown_calls s =
    [ShutdownRaft [MetaGroup, AutoIncrGroup, TsoGroup], JoinFlush, StopMemoryGc, CloseRocks, StopServer, JoinServer]"
proof -
  have "set (machines s) = UNIV"
    using server_init_all_or_nothing [OF assms] by (auto simp: new_server_def)
  then show ?thesis by (simp add: shutdown_calls_def server_shutdown_raft_def Let_def)
qed

definition main_order :: "main_env \<Rightarrow> discovery_flags \<Rightarrow> main_call list" where
  "main_order E F = [RemoveInitFile, AddRaftService, InitRouter (discovery_server_peers F), AddDiscoveryService,
     AddRouterService, StartServer, InitDiscovery (split_by_comma E (discovery_server_peers F)), StartMemoryGc, WriteInitFile,
     ShutdownRaft [MetaGroup, AutoIncrGroup, TsoGroup], JoinFlush, StopMemoryGc, CloseRocks, StopServer, JoinServer]"

definition main_started :: "main_env \<Rightarrow> discovery_flags \<Rightarrow> bool" where
  "main_started E F \<longleftrightarrow> log_ok E \<and> raft_service_ret E = 0 \<and> router_rs_ok E \<and> discovery_service_ret E = 0 \<and>
     router_service_ret E = 0 \<and> start_ret E = 0 \<and> 0 \<le> rocks_init_ret E \<and>
     (\<forall>g. allocated E g \<and> machine_init (node_init E g) F g (split_by_comma E (discovery_server_peers F)) = 0)"

lemma discovery_init_ok:
  "fst (discovery_init E F peers) = 0 \<longleftrightarrow>
     0 \<le> rocks_init_ret E \<and> (\<forall>g. allocated E g \<and> machine_init (node_init E g) F g peers = 0)"
proof -
  have all: "(\<forall>g. P g) \<longleftrightarrow> P MetaGroup \<and> P AutoIncrGroup \<and> P TsoGroup" for P
    by (metis raft_group.exhaust)
  show ?thesis
    unfolding all by (auto simp: discovery_init_def server_init_def new_server_def Let_def split: if_splits)
qed


text \<open>
  C18: a new cluster never reports that it is up: as long as braft hands one of the groups no snapshot to
  load, whatever is applied, whoever leads and however time goes by, \<open>main\<close> waits for data before it
  writes its file, and while it waits it does not ask for a signal to quit, so it never shuts down.
\<close>

theorem new_cluster_never_up:
  assumes "\<not> list_ex (loads_snapshot g) events"
    and "data = map (\<lambda>n. server_have_data (machine_data (fold (machine_step M) (take n events) new_machines))) tests"
  shows "WriteInitFile \<notin> set (snd (server_main E F data quit)) \<and>
    fst (server_main E F data quit) \<in> {None, Some (-1)} \<and>
    (\<forall>groups. ShutdownRaft groups \<notin> set (snd (server_main E F data quit)))"
proof -
  have "\<not> list_ex (loads_snapshot g) (take n events)" for n
    using assms(1) by (auto simp: list_ex_iff dest: in_set_takeD)
  then have "True \<notin> set data" unfolding assms(2) using machines_without_data by auto
  then have d: "sleep_until data = None" by (simp add: sleep_until_None)
  show ?thesis
    by (auto simp: server_main_def main_after_start_def d Let_def split_def)
qed

text \<open>
  All three groups elect this server and apply what they are given, and no snapshot is there: the tests
  of \<open>main\<close> never hold, although a signal to quit is waiting.
\<close>

definition demo_events :: "machine_event list" where
  "demo_events = [TsoAction (LeaderStart 1700000000000 Committed), AutoLeader True, MetaLeader True,
     MetaApply [], TsoAction (Tick 1700000000100 Committed)]"

theorem new_cluster_never_up_witness:
  "\<forall>M E. fst (server_main E default_discovery_flags
       (map (\<lambda>n. server_have_data (machine_data (fold (machine_step M) (take n demo_events) new_machines))) [0, 2, 5])
       [True]) \<in> {None, Some (-1)}"
proof (intro allI)
  fix M E
  have "\<not> list_ex (loads_snapshot MetaGroup) demo_events" by (simp add: demo_events_def)
  from new_cluster_never_up [OF this refl, where M = M and tests = "[0, 2, 5]" and E = E and F = default_discovery_flags and quit = "[True]"]
  show "fst (server_main E default_discovery_flags
       (map (\<lambda>n. server_have_data (machine_data (fold (machine_step M) (take n demo_events) new_machines))) [0, 2, 5])
       [True]) \<in> {None, Some (-1)}" by (rule conjunct1 [OF conjunct2])
qed

text \<open>
  Requests are served before the machines are there, and \<open>raft_control\<close> goes to its machine without
  asking whether \<open>init\<close> has finished, as the other services do.
\<close>

lemma raft_control_before_init:
  "\<exists>started. prefix (started @ [InitDiscovery (split_by_comma E (discovery_server_peers F))]) (main_order E F) \<and>
     StartServer \<in> set started \<and> machines new_server = []"
  "rc_region_id request = 0 \<Longrightarrow> fst (server_raft_control leader C V request response) = Some MetaGroup"
proof -
  show "\<exists>started. prefix (started @ [InitDiscovery (split_by_comma E (discovery_server_peers F))]) (main_order E F) \<and>
      StartServer \<in> set started \<and> machines new_server = []"
    by (intro exI [of _ "take 6 (main_order E F)"]) (simp add: main_order_def new_server_def)
qed (simp add: server_raft_control_def)

text \<open>The store is closed while the server still accepts requests.\<close>

lemma store_closed_before_stop:
  "\<exists>closed. prefix (closed @ [StopServer]) (main_order E F) \<and> CloseRocks \<in> set closed"
  by (intro exI [of _ "take 13 (main_order E F)"]) (simp add: main_order_def)

end
