(* ===== verification/Flags.thy ===== *)
theory Flags
  imports ServerProcess MemoryProfile
begin

text \<open>
  The flags of the program (flags/*.cc) with their types and defaults, and their declarations
  (flags/*.h), which the other files include. gflags keeps them in a store that the command line and
  the flag file change; the records of flags the other theories use are read from that store.
\<close>

datatype flag_type = TInt32 | TInt64 | TUint64 | TBool | TString | TDouble

text \<open>A floating point default is a number and how many of its digits stand behind the point.\<close>

datatype flag_value = FInt32 int | FInt64 int | FUint64 int | FBool bool | FString string | FDouble int nat

fun flag_type_of :: "flag_value \<Rightarrow> flag_type" where
  "flag_type_of (FInt32 i) = TInt32"
| "flag_type_of (FInt64 i) = TInt64"
| "flag_type_of (FUint64 i) = TUint64"
| "flag_type_of (FBool b) = TBool"
| "flag_type_of (FString s) = TString"
| "flag_type_of (FDouble m e) = TDouble"

section \<open>Definitions and declarations\<close>

definition base_flag_defs :: "(string \<times> flag_value) list" where
  "base_flag_defs = [
     (''memory_gc_interval_s'', FInt64 10), (''memory_stats_interval_s'', FInt64 60),
     (''min_memory_use_size'', FInt64 8589934592),
     (''min_memory_free_size_to_release'', FInt64 2147483648),
     (''mem_tracker_gc_interval_s'', FInt64 60), (''process_memory_limit_bytes'', FInt64 (-1)),
     (''query_memory_limit_ratio'', FInt64 90), (''need_health_check'', FBool True),
     (''raft_write_concurrency'', FInt32 40), (''service_write_concurrency'', FInt32 40),
     (''snapshot_load_num'', FInt32 4), (''baikal_heartbeat_concurrency'', FInt32 10),
     (''incremental_info_gc_time'', FInt64 (600 * 1000 * 1000)), (''enable_self_trace'', FBool True),
     (''servitysinglelog'', FBool True), (''open_service_write_concurrency'', FBool True),
     (''schema_ignore_case'', FBool False), (''disambiguate_select_name'', FBool False),
     (''new_sign_read_concurrency'', FInt32 10), (''open_new_sign_read_concurrency'', FBool False),
     (''need_verify_ddl_permission'', FBool False), (''histogram_split_threshold_percent'', FInt32 50),
     (''limit_slow_sql_size'', FInt32 50), (''like_predicate_use_re2'', FBool False),
     (''transfor_hll_raw_to_sparse'', FBool False)]"

definition base_flag_decls :: "(string \<times> flag_type) list" where
  "base_flag_decls = [
     (''memory_gc_interval_s'', TInt64), (''memory_stats_interval_s'', TInt64),
     (''min_memory_use_size'', TInt64), (''min_memory_free_size_to_release'', TInt64),
     (''mem_tracker_gc_interval_s'', TInt64), (''process_memory_limit_bytes'', TInt64),
     (''query_memory_limit_ratio'', TInt64), (''need_health_check'', TBool),
     (''raft_write_concurrency'', TInt32), (''service_write_concurrency'', TInt32),
     (''snapshot_load_num'', TInt32), (''baikal_heartbeat_concurrency'', TInt32),
     (''incremental_info_gc_time'', TInt64), (''enable_self_trace'', TBool),
     (''servitysinglelog'', TBool), (''open_service_write_concurrency'', TBool),
     (''schema_ignore_case'', TBool), (''disambiguate_select_name'', TBool),
     (''new_sign_read_concurrency'', TInt32), (''open_new_sign_read_concurrency'', TBool),
     (''need_verify_ddl_permission'', TBool), (''histogram_split_threshold_percent'', TInt32),
     (''limit_slow_sql_size'', TInt32), (''like_predicate_use_re2'', TBool),
     (''transfor_hll_raw_to_sparse'', TBool)]"

definition client_flag_defs :: "(string \<times> flag_value) list" where
  "client_flag_defs = [
     (''config_cache_dir'', FString ''./config_cache''), (''config_watch_interval_ms'', FInt32 1),
     (''config_watch_interval_round_s'', FInt32 30)]"

definition client_flag_decls :: "(string \<times> flag_type) list" where
  "client_flag_decls = [
     (''config_cache_dir'', TString), (''config_watch_interval_ms'', TInt32),
     (''config_watch_interval_round_s'', TInt32)]"

definition discovery_flag_defs :: "(string \<times> flag_value) list" where
  "discovery_flag_defs = [
     (''discovery_server_peers'', FString ''127.0.0.1:8010''), (''discovery_replica_number'', FInt32 3),
     (''discovery_snapshot_interval_s'', FInt32 600), (''discovery_election_timeout_ms'', FInt32 1000),
     (''discovery_raft_group'', FString ''discovery_raft''),
     (''discovery_log_uri'', FString ''local://./discovery/raft_log/''),
     (''discovery_stable_uri'', FString ''local://./discovery/raft_data/stable''),
     (''discovery_snapshot_uri'', FString ''local://./discovery/raft_data/snapshot''),
     (''discovery_check_migrate_interval_us'', FInt64 (60 * 1000 * 1000)),
     (''discovery_tso_snapshot_interval_s'', FInt32 60),
     (''discovery_db_path'', FString ''./discovery/rocks_db''),
     (''discovery_listen'', FString ''127.0.0.1:8010''), (''discovery_request_timeout'', FInt32 30000),
     (''discovery_connect_timeout'', FInt32 5000), (''backup_discovery_server_peers'', FString ''''),
     (''time_between_discovery_connect_error_ms'', FInt64 0)]"

definition discovery_flag_decls :: "(string \<times> flag_type) list" where
  "discovery_flag_decls = [
     (''discovery_server_peers'', TString), (''discovery_replica_number'', TInt32),
     (''discovery_snapshot_interval_s'', TInt32), (''discovery_election_timeout_ms'', TInt32),
     (''discovery_raft_group'', TString), (''discovery_log_uri'', TString),
     (''discovery_stable_uri'', TString), (''discovery_snapshot_uri'', TString),
     (''discovery_check_migrate_interval_us'', TInt64), (''discovery_tso_snapshot_interval_s'', TInt32),
     (''discovery_db_path'', TString), (''discovery_listen'', TString),
     (''discovery_request_timeout'', TInt32), (''discovery_connect_timeout'', TInt32),
     (''backup_discovery_server_peers'', TString), (''time_between_discovery_connect_error_ms'', TInt64)]"

definition engine_flag_defs :: "(string \<times> flag_value) list" where
  "engine_flag_defs = [
     (''flush_memtable_interval_us'', FInt64 (10 * 60 * 1000 * 1000)),
     (''cstore_scan_fill_cache'', FBool True), (''rocks_transaction_lock_timeout_ms'', FInt32 20000),
     (''rocks_default_lock_timeout_ms'', FInt32 30000),
     (''rocks_use_partitioned_index_filters'', FBool False),
     (''rocks_skip_stats_update_on_db_open'', FBool False), (''rocks_block_size'', FInt32 (64 * 1024)),
     (''rocks_block_cache_size_mb'', FInt64 (8 * 1024)),
     (''rocks_hard_pending_compaction_g'', FUint64 256),
     (''rocks_soft_pending_compaction_g'', FUint64 64),
     (''rocks_compaction_readahead_size'', FUint64 0), (''rocks_data_compaction_pri'', FInt32 3),
     (''rocks_level_multiplier'', FDouble 10 0), (''rocks_high_pri_pool_ratio'', FDouble 5 1),
     (''rocks_max_open_files'', FInt32 1024), (''rocks_max_subcompactions'', FInt32 4),
     (''rocks_max_background_compactions'', FInt32 20),
     (''rocks_optimize_filters_for_hits'', FBool False), (''slowdown_write_sst_cnt'', FInt32 10),
     (''stop_write_sst_cnt'', FInt32 40), (''rocks_use_ribbon_filter'', FBool False),
     (''rocks_use_hyper_clock_cache'', FBool False),
     (''rocks_use_sst_partitioner_fixed_prefix'', FBool False),
     (''rocks_kSkipAnyCorruptedRecords'', FBool False),
     (''rocks_data_dynamic_level_bytes'', FBool True), (''max_background_jobs'', FInt32 24),
     (''max_write_buffer_number'', FInt32 6), (''write_buffer_size'', FInt32 (128 * 1024 * 1024)),
     (''min_write_buffer_number_to_merge'', FInt32 2), (''rocks_binlog_max_files_size_gb'', FInt32 100),
     (''rocks_binlog_ttl_days'', FInt32 7), (''level0_file_num_compaction_trigger'', FInt32 5),
     (''max_bytes_for_level_base'', FInt32 (1024 * 1024 * 1024)),
     (''enable_bottommost_compression'', FBool False),
     (''target_file_size_base'', FInt32 (128 * 1024 * 1024)), (''addpeer_rate_limit_level'', FInt32 1),
     (''delete_files_in_range'', FBool True), (''l0_compaction_use_lz4'', FBool False),
     (''real_delete_old_binlog_cf'', FBool True), (''rocksdb_fifo_allow_compaction'', FBool False),
     (''use_direct_io_for_flush_and_compaction'', FBool False), (''use_direct_reads'', FBool False),
     (''level0_max_sst_num'', FInt32 500), (''rocksdb_cost_sample'', FInt32 100),
     (''qps_statistics_minutes_ago'', FInt64 60), (''max_tokens_per_second'', FInt64 100000),
     (''use_token_bucket'', FInt64 0), (''get_token_weight'', FInt64 5),
     (''min_global_extended_percent'', FInt64 40), (''token_bucket_adjust_interval_s'', FInt64 60),
     (''token_bucket_burst_window_ms'', FInt64 10), (''dml_use_token_bucket'', FInt64 0),
     (''sql_token_bucket_timeout_min'', FInt64 5), (''qos_reject_interval_s'', FInt64 30),
     (''qos_reject_ratio'', FInt64 90), (''qos_reject_timeout_s'', FInt64 (30 * 60)),
     (''qos_reject_max_scan_ratio'', FInt64 50), (''qos_reject_growth_multiple'', FInt64 100),
     (''qos_need_reject'', FInt64 0), (''sign_concurrency'', FInt64 8), (''disable_wal'', FBool False),
     (''exec_1pc_out_fsm_timeout_ms'', FInt64 (5 * 1000)), (''exec_1pc_in_fsm_timeout_ms'', FInt64 100),
     (''retry_interval_us'', FInt64 (500 * 1000)),
     (''transaction_clear_delay_ms'', FInt32 (600 * 1000)),
     (''long_live_txn_interval_ms'', FInt32 (300 * 1000)),
     (''clean_finished_txn_interval_us'', FInt64 (600 * 1000 * 1000)),
     (''one_pc_out_fsm_interval_us'', FInt64 (20 * 1000 * 1000)),
     (''transaction_query_primary_region_interval_ms'', FInt32 (15 * 1000))]"

definition engine_flag_decls :: "(string \<times> flag_type) list" where
  "engine_flag_decls = [
     (''flush_memtable_interval_us'', TInt64), (''cstore_scan_fill_cache'', TBool),
     (''rocks_transaction_lock_timeout_ms'', TInt32), (''rocks_default_lock_timeout_ms'', TInt32),
     (''rocks_use_partitioned_index_filters'', TBool), (''rocks_skip_stats_update_on_db_open'', TBool),
     (''rocks_block_size'', TInt32), (''rocks_block_cache_size_mb'', TInt64),
     (''rocks_hard_pending_compaction_g'', TUint64), (''rocks_soft_pending_compaction_g'', TUint64),
     (''rocks_compaction_readahead_size'', TUint64), (''rocks_data_compaction_pri'', TInt32),
     (''rocks_level_multiplier'', TDouble), (''rocks_high_pri_pool_ratio'', TDouble),
     (''rocks_max_open_files'', TInt32), (''rocks_max_subcompactions'', TInt32),
     (''rocks_max_background_compactions'', TInt32), (''rocks_optimize_filters_for_hits'', TBool),
     (''slowdown_write_sst_cnt'', TInt32), (''stop_write_sst_cnt'', TInt32),
     (''rocks_use_ribbon_filter'', TBool), (''rocks_use_hyper_clock_cache'', TBool),
     (''rocks_use_sst_partitioner_fixed_prefix'', TBool), (''rocks_kSkipAnyCorruptedRecords'', TBool),
     (''rocks_data_dynamic_level_bytes'', TBool), (''max_background_jobs'', TInt32),
     (''max_write_buffer_number'', TInt32), (''write_buffer_size'', TInt32),
     (''min_write_buffer_number_to_merge'', TInt32), (''rocks_binlog_max_files_size_gb'', TInt32),
     (''rocks_binlog_ttl_days'', TInt32), (''level0_file_num_compaction_trigger'', TInt32),
     (''max_bytes_for_level_base'', TInt32), (''enable_bottommost_compression'', TBool),
     (''target_file_size_base'', TInt32), (''addpeer_rate_limit_level'', TInt32),
     (''delete_files_in_range'', TBool), (''l0_compaction_use_lz4'', TBool),
     (''real_delete_old_binlog_cf'', TBool), (''rocksdb_fifo_allow_compaction'', TBool),
     (''use_direct_io_for_flush_and_compaction'', TBool), (''use_direct_reads'', TBool),
     (''level0_max_sst_num'', TInt32), (''rocksdb_cost_sample'', TInt32),
     (''qps_statistics_minutes_ago'', TInt64), (''max_tokens_per_second'', TInt64),
     (''use_token_bucket'', TInt64), (''get_token_weight'', TInt64),
     (''min_global_extended_percent'', TInt64), (''token_bucket_adjust_interval_s'', TInt64),
     (''token_bucket_burst_window_ms'', TInt64), (''dml_use_token_bucket'', TInt64),
     (''sql_token_bucket_timeout_min'', TInt64), (''qos_reject_interval_s'', TInt64),
     (''qos_reject_ratio'', TInt64), (''qos_reject_timeout_s'', TInt64),
     (''qos_reject_max_scan_ratio'', TInt64), (''qos_reject_growth_multiple'', TInt64),
     (''qos_need_reject'', TInt64), (''sign_concurrency'', TInt64), (''disable_wal'', TBool),
     (''exec_1pc_out_fsm_timeout_ms'', TInt64), (''exec_1pc_in_fsm_timeout_ms'', TInt64),
     (''retry_interval_us'', TInt64), (''transaction_clear_delay_ms'', TInt32),
     (''long_live_txn_interval_ms'', TInt32), (''clean_finished_txn_interval_us'', TInt64),
     (''one_pc_out_fsm_interval_us'', TInt64),
     (''transaction_query_primary_region_interval_ms'', TInt32)]"

definition log_flag_defs :: "(string \<times> flag_value) list" where
  "log_flag_defs = [
     (''enable_console_log'', FBool True), (''log_root'', FString ''./logs''),
     (''log_rotation_hour'', FInt32 2), (''log_rotation_minute'', FInt32 30),
     (''log_base_name'', FString ''ea_log.txt''), (''log_save_days'', FInt32 7)]"

definition log_flag_decls :: "(string \<times> flag_type) list" where
  "log_flag_decls = [
     (''enable_console_log'', TBool), (''log_root'', TString), (''log_rotation_hour'', TInt32),
     (''log_rotation_minute'', TInt32), (''log_base_name'', TString), (''log_save_days'', TInt32)]"

definition raft_flag_defs :: "(string \<times> flag_value) list" where
  "raft_flag_defs = [
     (''snapshot_timeout_min'', FInt64 10)]"

definition raft_flag_decls :: "(string \<times> flag_type) list" where
  "raft_flag_decls = [
     (''snapshot_timeout_min'', TInt64)]"

definition servlet_flag_defs :: "(string \<times> flag_value) list" where
  "servlet_flag_defs = [
     (''servlet_listen'', FString ''0.0.0.0:8898''), (''servlet_namespace'', FString ''default''),
     (''servlet_zone'', FString ''default''), (''servlet_name'', FString ''default''),
     (''servlet_physical'', FString ''default''), (''servlet_resource_tag'', FString ''default''),
     (''servlet_env'', FString ''default'')]"

definition servlet_flag_decls :: "(string \<times> flag_type) list" where
  "servlet_flag_decls = [
     (''servlet_listen'', TString), (''servlet_namespace'', TString), (''servlet_zone'', TString),
     (''servlet_name'', TString), (''servlet_physical'', TString), (''servlet_resource_tag'', TString),
     (''servlet_env'', TString)]"

text \<open>Flags of bthread and braft that base.h declares for use.\<close>

definition library_flag_decls :: "(string \<times> flag_type) list" where
  "library_flag_decls = [
     (''bthread_concurrency'', TInt32),
     (''raft_election_heartbeat_factor'', TInt32), (''raft_enable_leader_lease'', TBool)]"

definition flag_defs :: "(string \<times> flag_value) list" where
  "flag_defs = base_flag_defs @ client_flag_defs @ discovery_flag_defs @ engine_flag_defs @ log_flag_defs @
     raft_flag_defs @ servlet_flag_defs"

section \<open>The store of flags\<close>

type_synonym flag_store = "string \<Rightarrow> flag_value option"

definition default_flags :: flag_store where
  "default_flags = map_of flag_defs"

fun int_of_flag :: "flag_value option \<Rightarrow> int" where
  "int_of_flag (Some (FInt32 i)) = i"
| "int_of_flag (Some (FInt64 i)) = i"
| "int_of_flag (Some (FUint64 i)) = i"
| "int_of_flag _ = 0"

fun string_of_flag :: "flag_value option \<Rightarrow> string" where
  "string_of_flag (Some (FString s)) = s"
| "string_of_flag _ = []"

fun bool_of_flag :: "flag_value option \<Rightarrow> bool" where
  "bool_of_flag (Some (FBool b)) = b"
| "bool_of_flag _ = False"

text \<open>The records the memory threads and the server process read.\<close>

definition base_flags_of :: "flag_store \<Rightarrow> base_flags" where
  "base_flags_of G = \<lparr>memory_gc_interval_s = int_of_flag (G ''memory_gc_interval_s''),
     memory_stats_interval_s = int_of_flag (G ''memory_stats_interval_s''),
     min_memory_use_size = int_of_flag (G ''min_memory_use_size''),
     min_memory_free_size_to_release = int_of_flag (G ''min_memory_free_size_to_release''),
     mem_tracker_gc_interval_s = int_of_flag (G ''mem_tracker_gc_interval_s''),
     process_memory_limit_bytes = int_of_flag (G ''process_memory_limit_bytes''),
     query_memory_limit_ratio = int_of_flag (G ''query_memory_limit_ratio'')\<rparr>"

definition discovery_flags_of :: "flag_store \<Rightarrow> discovery_flags" where
  "discovery_flags_of G = \<lparr>discovery_server_peers = string_of_flag (G ''discovery_server_peers''),
     discovery_snapshot_interval_s = int_of_flag (G ''discovery_snapshot_interval_s''),
     discovery_election_timeout_ms = int_of_flag (G ''discovery_election_timeout_ms''),
     discovery_raft_group = string_of_flag (G ''discovery_raft_group''),
     discovery_log_uri = string_of_flag (G ''discovery_log_uri''),
     discovery_stable_uri = string_of_flag (G ''discovery_stable_uri''),
     discovery_snapshot_uri = string_of_flag (G ''discovery_snapshot_uri''),
     discovery_tso_snapshot_interval_s = int_of_flag (G ''discovery_tso_snapshot_interval_s''),
     discovery_db_path = string_of_flag (G ''discovery_db_path''),
     discovery_listen = string_of_flag (G ''discovery_listen'')\<rparr>"

section \<open>The log\<close>

text \<open>
  \<open>init_tlog\<close> (base/tlog.h): whether the directory is there or could be made, and then the sinks of
  the logger that becomes the default, the file by its directory and name.
\<close>

datatype log_level = LogTrace | LogDebug

datatype log_sink = DailyFile "string \<times> string" int int bool int "log_level option" | StdoutColor

record tlog_logger =
  logger_name :: string
  logger_sinks :: "log_sink list"
  logger_level :: log_level

definition init_tlog :: "bool \<Rightarrow> bool \<Rightarrow> flag_store \<Rightarrow> tlog_logger option" where
  "init_tlog root_exists root_made G =
     (if \<not> root_exists \<and> \<not> root_made then None
      else let file_sink = DailyFile (string_of_flag (G ''log_root''), string_of_flag (G ''log_base_name''))
                 (int_of_flag (G ''log_rotation_hour'')) (int_of_flag (G ''log_rotation_minute''))
                 False (int_of_flag (G ''log_save_days'')) (Some LogTrace)
           in if \<not> bool_of_flag (G ''enable_console_log'')
              then Some \<lparr>logger_name = ''ea-logger'', logger_sinks = [file_sink], logger_level = LogDebug\<rparr>
              else Some \<lparr>logger_name = ''ea-logger'', logger_sinks = [file_sink, StdoutColor], logger_level = LogDebug\<rparr>)"

section \<open>What holds of the flags\<close>

lemmas flag_def_lists = base_flag_defs_def client_flag_defs_def discovery_flag_defs_def engine_flag_defs_def
  log_flag_defs_def raft_flag_defs_def servlet_flag_defs_def

lemmas flag_decl_lists = base_flag_decls_def client_flag_decls_def discovery_flag_decls_def engine_flag_decls_def
  log_flag_decls_def raft_flag_decls_def servlet_flag_decls_def

text \<open>Every header declares exactly the flags its source file defines, in their order and with their types.\<close>

lemma flags_declared:
  "base_flag_decls = map (map_prod (\<lambda>k. k) flag_type_of) base_flag_defs"
  "client_flag_decls = map (map_prod (\<lambda>k. k) flag_type_of) client_flag_defs"
  "discovery_flag_decls = map (map_prod (\<lambda>k. k) flag_type_of) discovery_flag_defs"
  "engine_flag_decls = map (map_prod (\<lambda>k. k) flag_type_of) engine_flag_defs"
  "log_flag_decls = map (map_prod (\<lambda>k. k) flag_type_of) log_flag_defs"
  "raft_flag_decls = map (map_prod (\<lambda>k. k) flag_type_of) raft_flag_defs"
  "servlet_flag_decls = map (map_prod (\<lambda>k. k) flag_type_of) servlet_flag_defs"
  by (simp_all add: flag_decl_lists flag_def_lists)

text \<open>No default is out of the range of its type.\<close>

fun flag_in_range :: "flag_value \<Rightarrow> bool" where
  "flag_in_range (FInt32 i) \<longleftrightarrow> - (2 ^ 31) \<le> i \<and> i < 2 ^ 31"
| "flag_in_range (FInt64 i) \<longleftrightarrow> - (2 ^ 63) \<le> i \<and> i < 2 ^ 63"
| "flag_in_range (FUint64 i) \<longleftrightarrow> 0 \<le> i \<and> i < 2 ^ 64"
| "flag_in_range _ \<longleftrightarrow> True"

lemma flags_in_range: "list_all (\<lambda>(k, v). flag_in_range v) flag_defs"
  by (simp add: flag_defs_def flag_def_lists)

text \<open>The defaults of the records.\<close>

lemma base_flags_default: "base_flags_of default_flags = default_base_flags"
  by (simp add: base_flags_of_def default_flags_def flag_defs_def base_flag_defs_def default_base_flags_def)

lemma discovery_flags_default: "discovery_flags_of default_flags = default_discovery_flags"
  by code_simp

end
