(* ===== verification/RocksStorage.thy ===== *)
theory RocksStorage
  imports EaPrelude
begin

text \<open>
  \<open>EA::RocksStorage\<close> (storage/rocks_storage.cc, storage/rocks_storage.h) and the mutex it gives to
  RocksDB (storage/transaction_db_bthread_mutex.cc). RocksDB is a parameter: what each of its calls
  returns. Modelled are the start-up, the registry of column families, the range counters, the
  batches, the stall checks and the locks; the options \<open>init\<close> sets are in RocksOptions.thy.
\<close>

definition RAFT_LOG_CF :: string where "RAFT_LOG_CF = ''raft_log''"
definition DATA_CF :: string where "DATA_CF = ''data''"
definition META_INFO_CF :: string where "META_INFO_CF = ''meta_info''"

record 'h rocks_api =
  dir_exists :: "bool \<times> bool"
  dir_made :: bool
  list_families :: "string list option"
  open_families :: "string list \<Rightarrow> (string \<times> 'h) list option"
  open_new :: bool
  create_family :: "string \<Rightarrow> 'h option"
  drop_family :: "'h \<Rightarrow> bool"
  destroy_handle :: "'h \<Rightarrow> bool"
  handle_id :: "'h \<Rightarrow> int"

record 'h storage =
  st_init :: bool
  st_open :: bool
  st_path :: string
  st_families :: "string \<Rightarrow> 'h option"
  st_raft_ranges :: int
  st_data_ranges :: int
  st_meta_ranges :: int
  st_flush_file_number :: int
  st_options :: "string \<Rightarrow> string option"

definition new_storage :: "'h storage" where
  "new_storage = \<lparr>st_init = False, st_open = False, st_path = [], st_families = Map.empty,
     st_raft_ranges = 0, st_data_ranges = 0, st_meta_ranges = 0, st_flush_file_number = 0,
     st_options = Map.empty\<rparr>"

section \<open>Start-up\<close>

text \<open>The directory of the path: it is there, or it can be made. \<open>dir_exists\<close> holds the error flag second.\<close>

definition path_ready :: "'h rocks_api \<Rightarrow> bool" where
  "path_ready A = (if \<not> fst (dir_exists A) then (if snd (dir_exists A) then False else dir_made A) else True)"

definition open_db :: "'h rocks_api \<Rightarrow> 'h storage \<Rightarrow> 'h storage option" where
  "open_db A s = (case list_families A of
      Some column_family_names \<Rightarrow>
        (case open_families A column_family_names of
           Some handles \<Rightarrow> Some (s\<lparr>st_open := True,
             st_families := fold (\<lambda>(name, h) m. m(name \<mapsto> h)) handles (st_families s)\<rparr>)
         | None \<Rightarrow> None)
    | None \<Rightarrow> if open_new A then Some (s\<lparr>st_open := True\<rparr>) else None)"

definition ensure_family :: "'h rocks_api \<Rightarrow> string \<Rightarrow> 'h storage \<Rightarrow> bool \<times> 'h storage" where
  "ensure_family A name s =
     (if st_families s name = None then
        (case create_family A name of
           Some h \<Rightarrow> (True, s\<lparr>st_families := (st_families s)(name \<mapsto> h)\<rparr>)
         | None \<Rightarrow> (False, s))
      else (True, s))"

definition collect_rocks_options :: "'h storage \<Rightarrow> 'h storage" where
  "collect_rocks_options s = s\<lparr>st_options := (st_options s)
     (''level0_file_num_compaction_trigger'' \<mapsto> ''level0_file_num_compaction_trigger'',
      ''slowdown_write_sst_cnt'' \<mapsto> ''level0_slowdown_writes_trigger'',
      ''stop_write_sst_cnt'' \<mapsto> ''level0_stop_writes_trigger'',
      ''rocks_hard_pending_compaction_g'' \<mapsto> ''hard_pending_compaction_bytes_limit'',
      ''rocks_soft_pending_compaction_g'' \<mapsto> ''soft_pending_compaction_bytes_limit'',
      ''target_file_size_base'' \<mapsto> ''target_file_size_base'',
      ''rocks_level_multiplier'' \<mapsto> ''max_bytes_for_level_multiplier'',
      ''max_write_buffer_number'' \<mapsto> ''max_write_buffer_number'',
      ''write_buffer_size'' \<mapsto> ''write_buffer_size'',
      ''max_bytes_for_level_base'' \<mapsto> ''max_bytes_for_level_base'',
      ''rocks_max_background_compactions'' \<mapsto> ''max_background_compactions'',
      ''rocks_max_subcompactions'' \<mapsto> ''max_subcompactions'',
      ''max_background_jobs'' \<mapsto> ''max_background_jobs'')\<rparr>"

definition storage_init :: "'h rocks_api \<Rightarrow> string \<Rightarrow> 'h storage \<Rightarrow> int \<times> 'h storage" where
  "storage_init A path s =
     (if st_init s then (0, s)
      else if \<not> path_ready A then (-1, s)
      else let s = s\<lparr>st_path := path\<rparr>
      in case open_db A s of
           None \<Rightarrow> (-1, s)
         | Some s \<Rightarrow>
             let (ok, s) = ensure_family A RAFT_LOG_CF s in if \<not> ok then (-1, s)
             else let (ok, s) = ensure_family A DATA_CF s in if \<not> ok then (-1, s)
             else let (ok, s) = ensure_family A META_INFO_CF s in if \<not> ok then (-1, s)
             else (0, collect_rocks_options (s\<lparr>st_init := True\<rparr>)))"

section \<open>Column families\<close>

definition get_family_handle :: "string \<Rightarrow> 'h storage \<Rightarrow> 'h option" where
  "get_family_handle name s =
     (if \<not> st_init s then None else if st_families s name = None then None else st_families s name)"

definition get_raft_log_handle :: "'h storage \<Rightarrow> 'h option" where
  "get_raft_log_handle s = get_family_handle RAFT_LOG_CF s"

definition get_data_handle :: "'h storage \<Rightarrow> 'h option" where
  "get_data_handle s = get_family_handle DATA_CF s"

definition get_meta_info_handle :: "'h storage \<Rightarrow> 'h option" where
  "get_meta_info_handle s = get_family_handle META_INFO_CF s"

text \<open>The family is dropped in the database before its handle is given back.\<close>

definition delete_column_family :: "'h rocks_api \<Rightarrow> string \<Rightarrow> 'h storage \<Rightarrow> int \<times> 'h storage" where
  "delete_column_family A cf_name s = (case st_families s cf_name of
      None \<Rightarrow> (-1, s)
    | Some h \<Rightarrow> if \<not> drop_family A h then (-1, s)
        else if \<not> destroy_handle A h then (-1, s)
        else (0, s\<lparr>st_families := (st_families s)(cf_name := None)\<rparr>))"

definition create_column_family :: "'h rocks_api \<Rightarrow> string \<Rightarrow> 'h storage \<Rightarrow> int \<times> 'h storage" where
  "create_column_family A cf_name s =
     (if st_families s cf_name \<noteq> None then (-1, s)
      else case create_family A cf_name of
             Some h \<Rightarrow> (0, s\<lparr>st_families := (st_families s)(cf_name \<mapsto> h)\<rparr>)
           | None \<Rightarrow> (-1, s))"

definition family_iterator :: "('h \<Rightarrow> 'it) \<Rightarrow> string \<Rightarrow> 'h storage \<Rightarrow> 'it option" where
  "family_iterator new_iterator cf s = map_option new_iterator (st_families s cf)"

definition set_flush_file_number :: "string \<Rightarrow> int \<Rightarrow> 'h storage \<Rightarrow> 'h storage" where
  "set_flush_file_number cf_name file_number s =
     (if cf_name = DATA_CF then s\<lparr>st_flush_file_number := file_number\<rparr> else s)"

text \<open>\<open>SimpleListener::OnFlushCompleted\<close>.\<close>

definition on_flush_completed :: "string \<Rightarrow> int \<Rightarrow> 'h storage \<Rightarrow> 'h storage" where
  "on_flush_completed cf_name file_number s = set_flush_file_number cf_name file_number s"

text \<open>\<open>DiscoveryRocksdb::init\<close>: the handle the directory writes to, if there is one.\<close>

definition discovery_rocksdb_init :: "'h rocks_api \<Rightarrow> string \<Rightarrow> 'h storage \<Rightarrow> int \<times> 'h option \<times> 'h storage" where
  "discovery_rocksdb_init A discovery_db_path s =
     (let (ret, s) = storage_init A discovery_db_path s
      in if ret \<noteq> 0 then (-1, None, s) else (0, get_meta_info_handle s, s))"

section \<open>Batches\<close>

datatype 'h batch_op = BatchPut 'h string string | BatchDeleteRange 'h string string

text \<open>The vector form reads \<open>values[i]\<close> for every key: \<open>None\<close> when there are too few values.\<close>

fun batch_puts :: "'h \<Rightarrow> string list \<Rightarrow> string list \<Rightarrow> 'h batch_op list option" where
  "batch_puts cf [] values = Some []"
| "batch_puts cf (k # keys) [] = None"
| "batch_puts cf (k # keys) (v # values) = map_option ((#) (BatchPut cf k v)) (batch_puts cf keys values)"

text \<open>
  \<open>remove_range\<close>: the counter of the family goes up, the files may be deleted first, and one batch
  deletes the range; \<open>files_ok\<close> and \<open>write_ok\<close> are what RocksDB returns.
\<close>

definition count_range :: "'h rocks_api \<Rightarrow> 'h \<Rightarrow> 'h storage \<Rightarrow> 'h storage" where
  "count_range A cf s =
     (let is = (\<lambda>h. case h of Some f \<Rightarrow> handle_id A cf = handle_id A f | None \<Rightarrow> False)
      in if is (get_raft_log_handle s) then s\<lparr>st_raft_ranges := st_raft_ranges s + 1\<rparr>
         else if is (get_data_handle s) then s\<lparr>st_data_ranges := st_data_ranges s + 1\<rparr>
         else if is (get_meta_info_handle s) then s\<lparr>st_meta_ranges := st_meta_ranges s + 1\<rparr>
         else s)"

definition remove_range ::
  "'h rocks_api \<Rightarrow> bool \<Rightarrow> ('h \<Rightarrow> bool) \<Rightarrow> ('h batch_op list \<Rightarrow> bool) \<Rightarrow> 'h \<Rightarrow> string \<Rightarrow> string \<Rightarrow> bool \<Rightarrow>
     'h storage \<Rightarrow> bool \<times> 'h batch_op list \<times> 'h storage" where
  "remove_range A flag_delete_files files_ok write_ok cf from until delete_files_in_range s =
     (let s = count_range A cf s
      in if delete_files_in_range \<and> flag_delete_files \<and> \<not> files_ok cf then (False, [], s)
         else (write_ok [BatchDeleteRange cf from until], [BatchDeleteRange cf from until], s))"

section \<open>Stalls\<close>

text \<open>The numbers RocksDB reports; \<open>level0_files\<close> is \<open>None\<close> when it reports no level.\<close>

record rocks_stats =
  running_compactions :: int
  level0_files :: "int option"
  pending_bytes :: int
  delayed_write_rate :: int
  write_stopped :: int

text \<open>Without levels the two results keep the zero they were given.\<close>

definition get_rocks_statistic :: "rocks_stats \<Rightarrow> int \<times> int \<times> int" where
  "get_rocks_statistic t = (case level0_files t of None \<Rightarrow> (-1, 0, 0) | Some n \<Rightarrow> (0, n, pending_bytes t))"

text \<open>\<open>level0_sst > level0_slowdown_writes_trigger * 0.6\<close> with both sides times ten.\<close>

definition is_any_stall :: "int \<Rightarrow> int \<Rightarrow> int \<Rightarrow> int \<Rightarrow> rocks_stats \<Rightarrow> bool" where
  "is_any_stall addpeer_rate_limit_level max_background_compactions slowdown_trigger soft_limit t =
     (let (_, level0_sst, pending_compaction_size) = get_rocks_statistic t
      in (2 \<le> addpeer_rate_limit_level \<and>
            (max_background_compactions \<le> running_compactions t \<or> slowdown_trigger * 6 < level0_sst * 10 \<or>
             soft_limit div 2 < pending_compaction_size)) \<or>
         (1 \<le> addpeer_rate_limit_level \<and> (0 < delayed_write_rate t \<or> 0 < write_stopped t)))"

definition is_ingest_stall :: "int \<Rightarrow> rocks_stats \<Rightarrow> bool" where
  "is_ingest_stall level0_max_sst_num t = (let (_, level0_sst, _) = get_rocks_statistic t in level0_max_sst_num < level0_sst)"

section \<open>The mutex given to RocksDB\<close>

text \<open>
  What a call does to the thread: \<open>LockWaits\<close> blocks until the mutex is free. The mutex is held on
  return except after \<open>LockTimedOut\<close>.
\<close>

datatype lock_result = LockOk | LockWaits | LockTimedOut

definition Lock :: "bool \<Rightarrow> lock_result" where
  "Lock free = (if free then LockOk else LockWaits)"

definition TryLockFor :: "int \<Rightarrow> bool \<Rightarrow> lock_result" where
  "TryLockFor timeout_time free =
     (if timeout_time = 0 then (if free then LockOk else LockTimedOut) else Lock free)"

datatype cond_result = CondOk | CondTimedOut

definition CondWait :: cond_result where
  "CondWait = CondOk"

definition CondWaitFor :: "int \<Rightarrow> bool \<Rightarrow> cond_result" where
  "CondWaitFor timeout_time deadline_passed =
     (if timeout_time < 0 then CondWait else if deadline_passed then CondTimedOut else CondOk)"

section \<open>What start-up and the registry guarantee\<close>

text \<open>The families a listing names are the names of the handles \<open>Open\<close> returns, as RocksDB documents.\<close>

definition api_ok :: "'h rocks_api \<Rightarrow> bool" where
  "api_ok A \<longleftrightarrow> (\<forall>names hs. open_families A names = Some hs \<longrightarrow> map fst hs = names)"

lemma fold_upd_dom: "dom (fold (\<lambda>(name, h) m. m(name \<mapsto> h)) hs m) = fst ` set hs \<union> dom m"
  by (induction hs arbitrary: m) auto

lemma ensure_family_ok:
  "ensure_family A name s = (True, s') \<Longrightarrow>
     dom (st_families s') = insert name (dom (st_families s)) \<and> st_open s' = st_open s \<and> st_path s' = st_path s \<and>
     (\<forall>n h. st_families s n = Some h \<longrightarrow> st_families s' n = Some h)"
  by (auto simp: ensure_family_def split: if_splits option.splits)

lemma open_db_ok:
  assumes "api_ok A" "open_db A s = Some s'"
  shows "dom (st_families s') = dom (st_families s) \<union> set (case list_families A of Some ns \<Rightarrow> ns | None \<Rightarrow> []) \<and>
    st_open s' \<and> st_path s' = st_path s"
proof (cases "list_families A")
  case None
  with assms show ?thesis by (auto simp: open_db_def split: if_splits)
next
  case (Some names)
  with assms(2) obtain hs where hs: "open_families A names = Some hs"
    "s' = s\<lparr>st_open := True, st_families := fold (\<lambda>(name, h) m. m(name \<mapsto> h)) hs (st_families s)\<rparr>"
    by (auto simp: open_db_def split: option.splits)
  then have "map fst hs = names" using assms(1) by (simp add: api_ok_def)
  then have "fst ` set hs = set names" by (metis set_map)
  with Some hs show ?thesis by (simp add: fold_upd_dom Un_commute)
qed

lemma open_db_init: "open_db A s = Some s' \<Longrightarrow> st_init s' = st_init s"
  by (auto simp: open_db_def split: option.splits if_splits)

lemma ensure_family_init: "ensure_family A name s = (b, s') \<Longrightarrow> st_init s' = st_init s"
  by (auto simp: ensure_family_def split: option.splits if_splits)

lemma storage_init_ok:
  assumes "api_ok A" "storage_init A path new_storage = (0, s)"
  shows "st_init s \<and> st_open s \<and> st_path s = path \<and>
    dom (st_families s) = {RAFT_LOG_CF, DATA_CF, META_INFO_CF} \<union> set (case list_families A of Some ns \<Rightarrow> ns | None \<Rightarrow> [])"
proof -
  obtain s0 where o: "open_db A (new_storage\<lparr>st_path := path\<rparr>) = Some s0"
    using assms(2) by (auto simp: storage_init_def new_storage_def Let_def split: if_splits option.splits)
  obtain b1 s1 where e1: "ensure_family A RAFT_LOG_CF s0 = (b1, s1)" by fastforce
  obtain b2 s2 where e2: "ensure_family A DATA_CF s1 = (b2, s2)" by fastforce
  obtain b3 s3 where e3: "ensure_family A META_INFO_CF s2 = (b3, s3)" by fastforce
  have b: "b1" "b2" "b3" and s: "s = collect_rocks_options (s3\<lparr>st_init := True\<rparr>)"
    using assms(2) o e1 e2 e3
    by (auto simp: storage_init_def new_storage_def Let_def split: if_splits)
  note f = ensure_family_ok [OF e1 [unfolded eqTrueI [OF b(1)]]]
    ensure_family_ok [OF e2 [unfolded eqTrueI [OF b(2)]]] ensure_family_ok [OF e3 [unfolded eqTrueI [OF b(3)]]]
  note db = open_db_ok [OF assms(1) o]
  have "dom (st_families s) = insert META_INFO_CF (insert DATA_CF (insert RAFT_LOG_CF (dom (st_families s0))))"
    using f by (simp add: s collect_rocks_options_def)
  moreover have "st_init s" "st_open s" "st_path s = path"
    using f db by (simp_all add: s collect_rocks_options_def)
  ultimately show ?thesis using db by (simp add: new_storage_def insert_commute)
qed

text \<open>After start-up no handle is missing, and a failed start leaves every handle missing.\<close>

lemma started_handles:
  assumes "api_ok A" "storage_init A path new_storage = (r, s)"
  shows "(r = 0 \<longrightarrow> get_raft_log_handle s \<noteq> None \<and> get_data_handle s \<noteq> None \<and> get_meta_info_handle s \<noteq> None) \<and>
    (r \<noteq> 0 \<longrightarrow> r = -1 \<and> \<not> st_init s \<and> get_raft_log_handle s = None \<and> get_data_handle s = None \<and> get_meta_info_handle s = None)"
proof (cases "r = 0")
  case True
  with storage_init_ok [OF assms(1)] assms(2) have "st_init s" "{RAFT_LOG_CF, DATA_CF, META_INFO_CF} \<subseteq> dom (st_families s)"
    by auto
  with True show ?thesis
    by (auto simp: get_raft_log_handle_def get_data_handle_def get_meta_info_handle_def get_family_handle_def)
next
  case False
  with assms(2) have "r = -1 \<and> \<not> st_init s"
    by (auto simp: storage_init_def new_storage_def Let_def
        split: if_splits option.splits prod.splits dest!: open_db_init ensure_family_init)
  with False show ?thesis
    by (simp add: get_raft_log_handle_def get_data_handle_def get_meta_info_handle_def get_family_handle_def)
qed

lemma discovery_rocksdb_init_handle:
  assumes "api_ok A" "discovery_rocksdb_init A path new_storage = (0, handle, s)"
  shows "handle \<noteq> None \<and> handle = st_families s META_INFO_CF"
proof -
  have "storage_init A path new_storage = (0, s)" "handle = get_meta_info_handle s"
    using assms(2) by (auto simp: discovery_rocksdb_init_def split: prod.splits if_splits)
  with started_handles [OF assms(1), of path 0 s] storage_init_ok [OF assms(1), of path s] show ?thesis
    by (auto simp: get_meta_info_handle_def get_family_handle_def)
qed

text \<open>
  The registry of names: creation adds a new name, deletion removes a known one, and anything else
  reports an error and changes nothing.
\<close>

lemma create_column_family_spec:
  assumes "create_column_family A n s = (r, s')"
  shows "if n \<notin> dom (st_families s) \<and> create_family A n \<noteq> None
    then r = 0 \<and> s' = s\<lparr>st_families := (st_families s)(n := create_family A n)\<rparr> else r = -1 \<and> s' = s"
  using assms by (auto simp: create_column_family_def split: if_splits option.splits)

lemma delete_column_family_spec:
  assumes "delete_column_family A n s = (r, s')"
  shows "if \<exists>h. st_families s n = Some h \<and> drop_family A h \<and> destroy_handle A h
    then r = 0 \<and> s' = s\<lparr>st_families := (st_families s)(n := None)\<rparr> else r = -1 \<and> s' = s"
  using assms by (auto simp: delete_column_family_def split: if_splits option.splits)

text \<open>A family dropped whose handle cannot be given back stays registered.\<close>

lemma dropped_family_stays:
  assumes "st_families s n = Some h" "drop_family A h" "\<not> destroy_handle A h"
  shows "snd (delete_column_family A n s) = s"
  using assms by (simp add: delete_column_family_def)

lemma batch_puts_eq:
  "batch_puts cf keys vs =
     (if length keys \<le> length vs then Some (map2 (BatchPut cf) keys vs) else None)"
  by (induction cf keys vs rule: batch_puts.induct) auto

text \<open>A wait on a positive time limit can last for ever.\<close>

lemma try_lock_ignores_limit: "0 < t \<Longrightarrow> TryLockFor t False = LockWaits"
  by (simp add: TryLockFor_def Lock_def)

end
