(* ===== verification/RocksOptions.thy ===== *)
theory RocksOptions
  imports Flags RocksStorage
begin

text \<open>
  The tuning options \<open>RocksStorage::init\<close> sets (storage/rocks_storage.cc), from the store of flags. A set
  of options is a map from names to the values assigned; a name that is not there has RocksDB's own
  default. \<open>IncreaseParallelism\<close> and \<open>OptimizeLevelStyleCompaction\<close> of RocksDB assign several options at
  once and are arguments, as are its defaults, where the code reads one, and its major version.
\<close>

datatype opt_value = OInt int | OBool bool | ODouble int nat | OSym string | OCall string "opt_value list"

type_synonym rocks_settings = "string \<Rightarrow> opt_value option"

record rocks_lib =
  rocksdb_major :: int
  option_default :: "string \<Rightarrow> opt_value"
  increase_parallelism :: "int \<Rightarrow> rocks_settings \<Rightarrow> rocks_settings"
  optimize_level_style :: "rocks_settings \<Rightarrow> rocks_settings"

definition assign :: "(string \<times> opt_value) list \<Rightarrow> rocks_settings \<Rightarrow> rocks_settings" where
  "assign kvs m = fold (\<lambda>(k, v) m. m(k \<mapsto> v)) kvs m"

definition read_option :: "rocks_lib \<Rightarrow> rocks_settings \<Rightarrow> string \<Rightarrow> opt_value" where
  "read_option R m k = (case m k of Some v \<Rightarrow> v | None \<Rightarrow> option_default R k)"

definition int_opt :: "flag_store \<Rightarrow> string \<Rightarrow> opt_value" where
  "int_opt G k = OInt (int_of_flag (G k))"

definition bool_opt :: "flag_store \<Rightarrow> string \<Rightarrow> opt_value" where
  "bool_opt G k = OBool (bool_of_flag (G k))"

fun double_opt :: "flag_value option \<Rightarrow> opt_value" where
  "double_opt (Some (FDouble m e)) = ODouble m e"
| "double_opt _ = ODouble 0 0"

text \<open>\<open>FLAGS_... * 1073741824ull\<close> of an unsigned flag.\<close>

definition gigabytes :: "flag_store \<Rightarrow> string \<Rightarrow> opt_value" where
  "gigabytes G k = OInt (int_of_flag (G k) * 1073741824 mod 2 ^ 64)"

section \<open>Tables and the database\<close>

definition cache_bytes :: "flag_store \<Rightarrow> opt_value" where
  "cache_bytes G = OInt (int_of_flag (G ''rocks_block_cache_size_mb'') * 1024 * 1024)"

text \<open>With partitioned filters the flag of the open files is changed as well.\<close>

definition table_options :: "rocks_lib \<Rightarrow> flag_store \<Rightarrow> rocks_settings \<times> flag_store" where
  "table_options R G =
     (let (m, G) =
        (if bool_of_flag (G ''rocks_use_partitioned_index_filters'')
         then (assign [(''index_type'', OSym ''kTwoLevelIndexSearch''), (''partition_filters'', OBool True),
                 (''metadata_block_size'', OInt 4096), (''cache_index_and_filter_blocks'', OBool True),
                 (''pin_top_level_index_and_filter'', OBool True),
                 (''cache_index_and_filter_blocks_with_high_priority'', OBool True),
                 (''pin_l0_filter_and_index_blocks_in_cache'', OBool True),
                 (''block_cache'', OCall ''NewLRUCache'' [cache_bytes G, OInt 8, OBool False,
                    double_opt (G ''rocks_high_pri_pool_ratio'')])] Map.empty,
               G(''rocks_max_open_files'' \<mapsto> FInt32 (-1)))
         else let m = assign [(''data_block_index_type'', OSym ''kDataBlockBinaryAndHash'')] Map.empty
              in (if bool_of_flag (G ''rocks_use_hyper_clock_cache'')
                  then if rocksdb_major R = 7
                       then assign [(''block_cache'', OCall ''HyperClockCache'' [cache_bytes G, int_opt G ''rocks_block_size'',
                              OInt 8, OSym ''kDontChargeCacheMetadata''])] m
                       else m
                  else assign [(''block_cache'', OCall ''NewLRUCache'' [cache_bytes G, OInt 8])] m, G))
      in (assign [(''format_version'', OInt 4), (''block_size'', int_opt G ''rocks_block_size''),
            (''filter_policy'', if bool_of_flag (G ''rocks_use_ribbon_filter'')
               then OCall ''NewRibbonFilterPolicy'' [ODouble 99 1] else OCall ''NewBloomFilterPolicy'' [OInt 10])] m, G))"

definition db_options :: "rocks_lib \<Rightarrow> flag_store \<Rightarrow> rocks_settings" where
  "db_options R G =
     (let m = increase_parallelism R (int_of_flag (G ''max_background_jobs'')) Map.empty;
          m = assign [(''create_if_missing'', OBool True), (''use_direct_reads'', bool_opt G ''use_direct_reads''),
            (''use_direct_io_for_flush_and_compaction'', bool_opt G ''use_direct_io_for_flush_and_compaction''),
            (''max_open_files'', int_opt G ''rocks_max_open_files''),
            (''skip_stats_update_on_db_open'', bool_opt G ''rocks_skip_stats_update_on_db_open''),
            (''compaction_readahead_size'', int_opt G ''rocks_compaction_readahead_size''),
            (''WAL_ttl_seconds'', OInt (10 * 60)), (''WAL_size_limit_MB'', OInt 0),
            (''max_background_compactions'', int_opt G ''rocks_max_background_compactions'')] m;
          m = (if bool_of_flag (G ''rocks_kSkipAnyCorruptedRecords'')
               then assign [(''wal_recovery_mode'', OSym ''kSkipAnyCorruptedRecords'')] m else m)
      in assign [(''statistics'', OCall ''CreateDBStatistics'' []),
           (''max_subcompactions'', int_opt G ''rocks_max_subcompactions''), (''max_background_flushes'', OInt 2),
           (''listeners'', OCall ''SimpleListener'' [])] m)"

definition txn_db_options :: "flag_store \<Rightarrow> rocks_settings" where
  "txn_db_options G = assign [(''transaction_lock_timeout'', int_opt G ''rocks_transaction_lock_timeout_ms''),
     (''default_lock_timeout'', int_opt G ''rocks_default_lock_timeout_ms''),
     (''custom_mutex_factory'', OCall ''TransactionDBBthreadFactory'' [])] Map.empty"

section \<open>The column families\<close>

text \<open>The size of the prefixes: one byte and an id in the log, two ids in the data, one byte in the directory.\<close>

definition fixed_prefix :: "int \<Rightarrow> opt_value" where
  "fixed_prefix n = OCall ''NewFixedPrefixTransform'' [OInt n]"

definition table_factory :: "rocks_settings \<Rightarrow> string \<times> opt_value" where
  "table_factory table = (''table_factory'', OCall ''NewBlockBasedTableFactory''
     [case table ''block_cache'' of None \<Rightarrow> OSym ''no block_cache'' | Some c \<Rightarrow> c])"

definition write_buffers :: "flag_store \<Rightarrow> rocks_settings \<Rightarrow> rocks_settings" where
  "write_buffers G m = assign [(''max_write_buffer_number'', int_opt G ''max_write_buffer_number''),
     (''max_write_buffer_number_to_maintain'', int_opt G ''max_write_buffer_number''),
     (''write_buffer_size'', int_opt G ''write_buffer_size''),
     (''min_write_buffer_number_to_merge'', int_opt G ''min_write_buffer_number_to_merge'')] m"

definition log_cf_option :: "rocks_lib \<Rightarrow> flag_store \<Rightarrow> rocks_settings \<Rightarrow> rocks_settings" where
  "log_cf_option R G table =
     (let m = optimize_level_style R (assign [(''prefix_extractor'', fixed_prefix (8 + 1))] Map.empty)
      in write_buffers G (assign [(''compaction_pri'', OSym ''kOldestLargestSeqFirst''), table_factory table,
           (''compaction_style'', OSym ''kCompactionStyleLevel''), (''level0_file_num_compaction_trigger'', OInt 5),
           (''level0_slowdown_writes_trigger'', int_opt G ''slowdown_write_sst_cnt''),
           (''level0_stop_writes_trigger'', int_opt G ''stop_write_sst_cnt''),
           (''target_file_size_base'', int_opt G ''target_file_size_base''),
           (''max_bytes_for_level_base'', OInt (1024 * 1024 * 1024)),
           (''level_compaction_dynamic_level_bytes'', bool_opt G ''rocks_data_dynamic_level_bytes'')] m))"

definition data_cf_option :: "rocks_lib \<Rightarrow> flag_store \<Rightarrow> rocks_settings \<Rightarrow> rocks_settings" where
  "data_cf_option R G table =
     (let m = optimize_level_style R (assign [(''prefix_extractor'', fixed_prefix (8 * 2)),
            (''memtable_prefix_bloom_size_ratio'', ODouble 1 1), (''memtable_whole_key_filtering'', OBool True)] Map.empty);
          m = assign [(''compaction_pri'', int_opt G ''rocks_data_compaction_pri'')] m;
          m = (if bool_of_flag (G ''rocks_use_sst_partitioner_fixed_prefix'')
               then assign [(''sst_partitioner_factory'', OCall ''NewSstPartitionerFixedPrefixFactory'' [OInt 8])] m else m);
          m = assign [table_factory table, (''compaction_style'', OSym ''kCompactionStyleLevel''),
            (''optimize_filters_for_hits'', bool_opt G ''rocks_optimize_filters_for_hits''),
            (''level0_file_num_compaction_trigger'', int_opt G ''level0_file_num_compaction_trigger''),
            (''level0_slowdown_writes_trigger'', int_opt G ''slowdown_write_sst_cnt''),
            (''level0_stop_writes_trigger'', int_opt G ''stop_write_sst_cnt''),
            (''hard_pending_compaction_bytes_limit'', gigabytes G ''rocks_hard_pending_compaction_g''),
            (''soft_pending_compaction_bytes_limit'', gigabytes G ''rocks_soft_pending_compaction_g''),
            (''target_file_size_base'', int_opt G ''target_file_size_base''),
            (''max_bytes_for_level_multiplier'', double_opt (G ''rocks_level_multiplier'')),
            (''level_compaction_dynamic_level_bytes'', bool_opt G ''rocks_data_dynamic_level_bytes'')] m;
          m = assign [(''max_bytes_for_level_base'', int_opt G ''max_bytes_for_level_base'')] (write_buffers G m);
          m = (if bool_of_flag (G ''l0_compaction_use_lz4'')
               then assign [(''compression_per_level'', OCall ''compression''
                      (OSym ''kNoCompression'' # replicate 6 (OSym ''kLZ4Compression'')))] m else m)
      in if bool_of_flag (G ''enable_bottommost_compression'')
         then assign [(''bottommost_compression_opts.enabled'', OBool True), (''bottommost_compression'', OSym ''kZSTD''),
                (''bottommost_compression_opts.max_dict_bytes'', OInt (2 ^ 14)),
                (''bottommost_compression_opts.zstd_max_train_bytes'', OInt (2 ^ 18))] m
         else m)"

definition meta_info_option :: "rocks_lib \<Rightarrow> flag_store \<Rightarrow> rocks_settings" where
  "meta_info_option R G =
     (let m = optimize_level_style R (assign [(''prefix_extractor'', fixed_prefix 1)] Map.empty);
          m = assign [(''compaction_pri'', OSym ''kOldestSmallestSeqFirst''),
            (''level_compaction_dynamic_level_bytes'', bool_opt G ''rocks_data_dynamic_level_bytes'')] m
      in assign [(''max_write_buffer_number_to_maintain'', read_option R m ''max_write_buffer_number'')] m)"

record rocks_config =
  cfg_table :: rocks_settings
  cfg_db :: rocks_settings
  cfg_txn :: rocks_settings
  cfg_log :: rocks_settings
  cfg_data :: rocks_settings
  cfg_meta :: rocks_settings

text \<open>All of it, with the flags as they are left.\<close>

definition init_options :: "rocks_lib \<Rightarrow> flag_store \<Rightarrow> rocks_config \<times> flag_store" where
  "init_options R G =
     (let (table, G) = table_options R G
      in (\<lparr>cfg_table = table, cfg_db = db_options R G, cfg_txn = txn_db_options G,
           cfg_log = log_cf_option R G table, cfg_data = data_cf_option R G table, cfg_meta = meta_info_option R G\<rparr>, G))"

text \<open>\<open>SstFileWriter\<close> (storage/sst_file_writer.h) changes the options it is given before it uses them.\<close>

definition sst_writer_options :: "rocks_settings \<Rightarrow> rocks_settings" where
  "sst_writer_options m = (m(''bottommost_compression'' \<mapsto> OSym ''kLZ4Compression''))
     (''bottommost_compression_opts.enabled'' := None, ''bottommost_compression_opts.max_dict_bytes'' := None,
      ''bottommost_compression_opts.zstd_max_train_bytes'' := None)"

section \<open>What the options follow\<close>

lemma assign_simps [simp]:
  "assign [] m = m" "assign ((k, v) # kvs) m = assign kvs (m(k \<mapsto> v))"
  by (simp_all add: assign_def)

lemmas option_defs = init_options_def table_options_def db_options_def txn_db_options_def log_cf_option_def
  data_cf_option_def meta_info_option_def write_buffers_def table_factory_def Let_def

lemma table_options_flags:
  "snd (table_options R G) k = (if k = ''rocks_max_open_files'' \<and> bool_of_flag (G ''rocks_use_partitioned_index_filters'')
     then Some (FInt32 (-1)) else G k)"
  by (simp add: table_options_def Let_def)

text \<open>
  \<open>collect_rocks_options\<close> names for a flag the option it stands for: each of those that belong to
  a column family is the flag's value in the data family, whatever RocksDB's own calls assign, and
  the others are in the options of the database.
\<close>

lemma cf_option_values:
  "data_cf_option R G table ''level0_file_num_compaction_trigger'' = Some (int_opt G ''level0_file_num_compaction_trigger'')"
  "data_cf_option R G table ''level0_slowdown_writes_trigger'' = Some (int_opt G ''slowdown_write_sst_cnt'')"
  "data_cf_option R G table ''level0_stop_writes_trigger'' = Some (int_opt G ''stop_write_sst_cnt'')"
  "data_cf_option R G table ''hard_pending_compaction_bytes_limit'' = Some (gigabytes G ''rocks_hard_pending_compaction_g'')"
  "data_cf_option R G table ''soft_pending_compaction_bytes_limit'' = Some (gigabytes G ''rocks_soft_pending_compaction_g'')"
  "data_cf_option R G table ''target_file_size_base'' = Some (int_opt G ''target_file_size_base'')"
  "data_cf_option R G table ''max_bytes_for_level_multiplier'' = Some (double_opt (G ''rocks_level_multiplier''))"
  "data_cf_option R G table ''max_write_buffer_number'' = Some (int_opt G ''max_write_buffer_number'')"
  "data_cf_option R G table ''write_buffer_size'' = Some (int_opt G ''write_buffer_size'')"
  "data_cf_option R G table ''max_bytes_for_level_base'' = Some (int_opt G ''max_bytes_for_level_base'')"
  "db_options R G ''max_background_compactions'' = Some (int_opt G ''rocks_max_background_compactions'')"
  "db_options R G ''max_subcompactions'' = Some (int_opt G ''rocks_max_subcompactions'')"
  by (simp_all add: data_cf_option_def db_options_def write_buffers_def table_factory_def Let_def)

definition flag_value_of_option :: "flag_store \<Rightarrow> string \<Rightarrow> opt_value" where
  "flag_value_of_option G flag =
     (if flag \<in> {''rocks_hard_pending_compaction_g'', ''rocks_soft_pending_compaction_g''} then gigabytes G flag
      else if flag = ''rocks_level_multiplier'' then double_opt (G flag) else int_opt G flag)"

definition named_options :: "(string \<times> string) list" where
  "named_options = [(''max_background_jobs'', ''max_background_jobs''), (''rocks_max_subcompactions'', ''max_subcompactions''),
     (''rocks_max_background_compactions'', ''max_background_compactions''),
     (''max_bytes_for_level_base'', ''max_bytes_for_level_base''), (''write_buffer_size'', ''write_buffer_size''),
     (''max_write_buffer_number'', ''max_write_buffer_number''),
     (''rocks_level_multiplier'', ''max_bytes_for_level_multiplier''), (''target_file_size_base'', ''target_file_size_base''),
     (''rocks_soft_pending_compaction_g'', ''soft_pending_compaction_bytes_limit''),
     (''rocks_hard_pending_compaction_g'', ''hard_pending_compaction_bytes_limit''),
     (''stop_write_sst_cnt'', ''level0_stop_writes_trigger''), (''slowdown_write_sst_cnt'', ''level0_slowdown_writes_trigger''),
     (''level0_file_num_compaction_trigger'', ''level0_file_num_compaction_trigger'')]"

lemma collected_options: "st_options (collect_rocks_options new_storage) = map_of named_options"
  by (simp add: collect_rocks_options_def new_storage_def named_options_def)

lemma named_options_set: "\<forall>(flag, option) \<in> set named_options. flag \<noteq> ''max_background_jobs'' \<longrightarrow>
    data_cf_option R G table option = Some (flag_value_of_option G flag) \<or>
    db_options R G option = Some (flag_value_of_option G flag)"
  by (simp add: named_options_def cf_option_values flag_value_of_option_def)

lemma named_options_follow_flags:
  assumes "init_options R G = (C, G')" "st_options (collect_rocks_options new_storage) flag = Some option"
    "flag \<noteq> ''max_background_jobs''"
  shows "cfg_data C option = Some (flag_value_of_option G' flag) \<or> cfg_db C option = Some (flag_value_of_option G' flag)"
proof -
  obtain table where "cfg_data C = data_cf_option R G' table" "cfg_db C = db_options R G'"
    using assms(1) by (auto simp: init_options_def split: prod.splits)
  moreover have "(flag, option) \<in> set named_options"
    using assms(2) by (simp add: collected_options map_of_SomeD)
  ultimately show ?thesis using named_options_set [of R G' table] assms(3) by fastforce
qed

text \<open>
  With the defaults writes slow down before they stop, and the soft limit comes before the hard one.
\<close>

lemma default_limits:
  "int_of_flag (default_flags ''slowdown_write_sst_cnt'') < int_of_flag (default_flags ''stop_write_sst_cnt'')"
  "gigabytes default_flags ''rocks_soft_pending_compaction_g'' = OInt 68719476736"
  "gigabytes default_flags ''rocks_hard_pending_compaction_g'' = OInt 274877906944"
  by (simp_all add: gigabytes_def default_flags_def flag_defs_def flag_def_lists)

text \<open>
  With the flag for the hyper clock cache and a RocksDB whose major version is not seven no cache is
  set, so the member that points to it is null.
\<close>

lemma no_cache_set:
  assumes "\<not> bool_of_flag (G ''rocks_use_partitioned_index_filters'')" "bool_of_flag (G ''rocks_use_hyper_clock_cache'')"
    "rocksdb_major R \<noteq> 7"
  shows "fst (table_options R G) ''block_cache'' = None"
  using assms by (simp add: table_options_def Let_def)

end
