(* ===== verification/CliShow.thy ===== *)
theory CliShow
  imports SchemaClient ClientSender RaftControl "HOL-Library.Multiset"
begin

text \<open>
  What the commands of the command line client (src/ea/cli) share: the options
  (option_context.h), the sender to the router (router_interact.h), the names of operations
  (proto_help.cc) and the tables a command prints (show_help.h, show_help.cc). A table is its rows
  of cells without the colours of its font; a command is the rows it leaves in its
  \<open>ScopeShower\<close>, which prints them when the command returns, and what its request does to the
  state of the senders. The greeting lines are left out.
\<close>

section \<open>Options and the router\<close>

record OptionContext =
  oc_router_server :: string
  oc_discovery_server :: string
  oc_discovery_leader :: string
  oc_load_balancer :: string
  oc_timeout_ms :: int
  oc_connect_timeout_ms :: int
  oc_max_retry :: int
  oc_interval_ms :: int
  oc_verbose :: bool
  oc_router :: bool

definition default_options :: OptionContext where
  "default_options = \<lparr>oc_router_server = [], oc_discovery_server = [], oc_discovery_leader = [],
     oc_load_balancer = [], oc_timeout_ms = 2000, oc_connect_timeout_ms = 100, oc_max_retry = 3,
     oc_interval_ms = 1000, oc_verbose = False, oc_router = False\<rparr>"

text \<open>
  \<open>RouterInteract::send_request\<close> repeats the loop of \<open>RouterSender\<close> with the options in the place
  of its fields.
\<close>

definition interact_state :: "OptionContext \<Rightarrow> router_state" where
  "interact_state opt = \<lparr>router_server = oc_router_server opt, router_timeout_ms = oc_timeout_ms opt,
     router_connect_timeout_ms = oc_connect_timeout_ms opt, router_interval_ms = oc_interval_ms opt,
     router_retry_times = oc_max_retry opt, router_verbose = oc_verbose opt\<rparr>"

definition interact_send ::
  "turbo_env \<Rightarrow> (nat \<Rightarrow> string \<Rightarrow> 'r call_outcome) \<Rightarrow> OptionContext \<Rightarrow> 'r result \<times> string send_event list" where
  "interact_send T call opt =
     router_loop T call (oc_max_retry opt) (nat (oc_max_retry opt) - 1) 0 (interact_state opt)"

section \<open>Names\<close>

text \<open>
  The numbers and names protobuf gives to the values of its enumerations, the texts of a time and of a status,
  and \<open>StrSplit\<close> at dots without empty parts.
\<close>

record cli_env =
  cli_client :: client_env
  shown_op :: "OpType \<Rightarrow> int \<times> string"
  shown_query :: "QueryOpType \<Rightarrow> int \<times> string"
  shown_raft :: "RaftControlOp \<Rightarrow> int \<times> string"
  err_number :: "ErrCode \<Rightarrow> int"
  status_number :: "StatusCode \<Rightarrow> int"
  rw_name :: "int \<Rightarrow> string"
  rw_default :: int
  rw_read :: int
  rw_write :: int
  status_name :: "int \<Rightarrow> string"
  format_time :: "int \<Rightarrow> string"
  status_text :: "unit result \<Rightarrow> string"
  split_parts :: "string \<Rightarrow> string list"

definition cli_fmt :: "cli_env \<Rightarrow> string \<Rightarrow> string list \<Rightarrow> string" where
  "cli_fmt C = turbo_fmt (turbo (cli_client C))"

text \<open>validator.cc and the conversions of types in proto_help.cc are the client library's a second time.\<close>

definition cli_check_name :: "cli_env \<Rightarrow> string \<Rightarrow> unit result" where
  "cli_check_name C ns = check_valid_name_type (turbo (cli_client C)) ns"

definition cli_config_type_name :: "ConfigType \<Rightarrow> string" where
  "cli_config_type_name t = config_type_to_string t"

definition cli_config_type :: "cli_env \<Rightarrow> string \<Rightarrow> ConfigType result" where
  "cli_config_type C str = string_to_config_type (turbo (cli_client C)) str"

definition cli_version_error :: "cli_env \<Rightarrow> string \<Rightarrow> status" where
  "cli_version_error C str = (InvalidArgument, cli_fmt C ''version {} error, should be like 1.2.3'' [str])"

definition cli_string_to_version :: "cli_env \<Rightarrow> string \<Rightarrow> Version \<Rightarrow> unit result \<times> Version" where
  "cli_string_to_version C str v =
     (let vs = split_dots (turbo (cli_client C)) str
      in if length vs \<noteq> 3 then (Inl (cli_version_error C str), v)
         else case simple_atoi (turbo (cli_client C)) (vs ! 0) of
             None \<Rightarrow> (Inl (cli_version_error C str), v)
           | Some m \<Rightarrow> let v = v\<lparr>v_major := m\<rparr> in
         (case simple_atoi (turbo (cli_client C)) (vs ! 1) of
             None \<Rightarrow> (Inl (cli_version_error C str), v)
           | Some m \<Rightarrow> let v = v\<lparr>v_minor := m\<rparr> in
         (case simple_atoi (turbo (cli_client C)) (vs ! 2) of
             None \<Rightarrow> (Inl (cli_version_error C str), v)
           | Some m \<Rightarrow> (Inr (), v\<lparr>v_patch := m\<rparr>))))"

definition cli_version_to_string :: "Version \<Rightarrow> string" where
  "cli_version_to_string v = int_to_string (v_major v) @ ''.'' @ int_to_string (v_minor v) @ ''.'' @ int_to_string (v_patch v)"

text \<open>The two readers of versions accept the same texts with the same result.\<close>

lemma cli_version_agrees:
  "snd (cli_string_to_version C str v) = snd (string_to_version (turbo (cli_client C)) str v) \<and>
   (fst (cli_string_to_version C str v) = Inr () \<longleftrightarrow> fst (string_to_version (turbo (cli_client C)) str v) = Inr ())"
  by (auto simp: cli_string_to_version_def string_to_version_def Let_def split: option.split)

section \<open>Tables\<close>

text \<open>\<open>OutOfRange\<close>: the cell would read an element that a list does not have.\<close>

datatype cell = Text string | Sub "cell list list" | OutOfRange

type_synonym table = "cell list list"

abbreviation text_row :: "string list \<Rightarrow> cell list" where
  "text_row ts \<equiv> map Text ts"

text \<open>
  The two \<open>show_response_impl\<close>: the first is given a server and does not use it; it reads
  \<open>discovery_leader\<close>, the second asks the discovery sender for its leader.
\<close>

definition response_rows :: "cli_env \<Rightarrow> string \<Rightarrow> string \<Rightarrow> ErrCode \<Rightarrow> int \<times> string \<Rightarrow> string \<Rightarrow> table" where
  "response_rows C server_role server_addr code op message =
     [text_row [''status'', server_role, ''op code'', ''op string'', ''error code'', ''error message''],
      text_row [if code \<noteq> SUCCESS then ''fail'' else ''success'', server_addr, int_to_string (fst op), snd op,
        int_to_string (err_number C code), message]]"

definition show_response_server ::
  "cli_env \<Rightarrow> OptionContext \<Rightarrow> string \<Rightarrow> ErrCode \<Rightarrow> int \<times> string \<Rightarrow> string \<Rightarrow> table" where
  "show_response_server C opt server code op message =
     (if oc_router opt then response_rows C ''router'' (oc_router_server opt) code op message
      else response_rows C ''discovery leader'' (oc_discovery_leader opt) code op message)"

definition show_response ::
  "cli_env \<Rightarrow> OptionContext \<Rightarrow> string \<Rightarrow> ErrCode \<Rightarrow> int \<times> string \<Rightarrow> string \<Rightarrow> table" where
  "show_response C opt leader code op message =
     (if oc_router opt then response_rows C ''router'' (oc_router_server opt) code op message
      else response_rows C ''discovery leader'' leader code op message)"

definition rpc_error_status :: "cli_env \<Rightarrow> unit result \<Rightarrow> int \<times> string \<Rightarrow> table" where
  "rpc_error_status C s op =
     [text_row [''status'', ''op code'', ''op string'', ''error code'', ''error message''],
      (case s of
         Inr _ \<Rightarrow> text_row [''success'', int_to_string (fst op), snd op, int_to_string 0, []]
       | Inl (code, message) \<Rightarrow>
           text_row [''fail'', int_to_string (fst op), snd op, int_to_string (status_number C code), message])]"

text \<open>The same for the three kinds of requests; \<open>None\<close> is a request without an operation.\<close>

definition pre_send_error :: "unit result \<Rightarrow> (int \<times> string) option \<Rightarrow> table" where
  "pre_send_error s op =
     [text_row [''status'', ''op code'', ''op string'', ''error message''],
      (case op of
         None \<Rightarrow> text_row [''fail'', ''nil'', ''nil'', ''op_type field is required but not set not set'']
       | Some (n, name) \<Rightarrow>
           (case s of
              Inl (_, message) \<Rightarrow> text_row [''fail'', int_to_string n, name, message]
            | Inr _ \<Rightarrow> text_row [''success'', int_to_string n, name, []]))]"

subsection \<open>ScopeShower\<close>

text \<open>A row: the phase, what it shows, and whether it went well.\<close>

type_synonym shown_row = "string \<times> cell \<times> bool"

definition shower_table :: "string option \<Rightarrow> shown_row list \<Rightarrow> table" where
  "shower_table operation rows =
     (case operation of None \<Rightarrow> [] | Some op \<Rightarrow> [text_row [''operation'', op]]) @
     [text_row [''phase'', ''status'']] @ map (\<lambda>(stage, c, ok). [Text stage, c]) rows"

text \<open>
  \<open>prepare\<close> says ok for every status, and formats the third row of a table that has it only when
  the shower was given an operation: \<open>None\<close> otherwise.
\<close>

definition shower_prepare :: "string option \<Rightarrow> unit result \<Rightarrow> shown_row list \<Rightarrow> shown_row list option" where
  "shower_prepare operation s rows =
     (let rows = rows @ [(''prepare'', Sub [text_row [''ok'']], case s of Inr _ \<Rightarrow> True | Inl _ \<Rightarrow> False)]
      in if 2 < length (shower_table operation rows) then Some rows else None)"

text \<open>
  A request that is built: an error comes with the operation set by then. The macros
  \<open>PREPARE_ERROR_RETURN_OR_OK\<close> and \<open>RPC_ERROR_RETURN_OR_OK\<close> around the call, and what follows it.
\<close>

type_synonym ('op, 'rq) built = "('op option \<times> status) + 'rq"

definition rpc_phase ::
  "cli_env \<Rightarrow> ('rq \<Rightarrow> int \<times> string) \<Rightarrow> ('rq \<Rightarrow> 's \<Rightarrow> 'r result \<times> 's) \<Rightarrow> ('r \<Rightarrow> 's \<Rightarrow> shown_row list) \<Rightarrow>
     'rq \<Rightarrow> 's \<Rightarrow> shown_row list \<times> 's" where
  "rpc_phase C op send finish request s =
     (let (rs, s) = send request s
      in case rs of
           Inl e \<Rightarrow> ([(''rpc'', Sub (rpc_error_status C (Inl e) (op request)), False)], s)
         | Inr response \<Rightarrow> ((''rpc'', Text ''ok'', True) # finish response s, s))"

definition prepare_phase ::
  "('op \<Rightarrow> int \<times> string) \<Rightarrow> ('rq \<Rightarrow> 's \<Rightarrow> shown_row list \<times> 's) \<Rightarrow> ('op, 'rq) built \<Rightarrow> 's \<Rightarrow>
     shown_row list \<times> 's" where
  "prepare_phase shown continue b s =
     (case b of
        Inl (op, e) \<Rightarrow> ([(''prepare'', Sub (pre_send_error (Inl e) (map_option shown op)), False)], s)
      | Inr request \<Rightarrow> let (rows, s) = continue request s in ((''prepare'', Text ''ok'', True) # rows, s))"

text \<open>A request is sent at most once, and only if it was built.\<close>

lemma prepare_phase_sends:
  "prepare_phase shown (rpc_phase C op send finish) b s =
    (case b of Inl (o1, e) \<Rightarrow> ([(''prepare'', Sub (pre_send_error (Inl e) (map_option shown o1)), False)], s)
     | Inr rq \<Rightarrow> (case send rq s of (Inl e, s') \<Rightarrow>
          ([(''prepare'', Text ''ok'', True), (''rpc'', Sub (rpc_error_status C (Inl e) (op rq)), False)], s')
        | (Inr r, s') \<Rightarrow> ((''prepare'', Text ''ok'', True) # (''rpc'', Text ''ok'', True) # finish r s', s')))"
  by (auto simp: prepare_phase_def rpc_phase_def split: sum.split prod.split)

text \<open>\<open>std::sort\<close> by a key: some sorted arrangement, ties in any order.\<close>

definition sorts_by :: "('a \<Rightarrow> 'k::linorder) \<Rightarrow> ('a list \<Rightarrow> 'a list) \<Rightarrow> bool" where
  "sorts_by key f \<longleftrightarrow> (\<forall>xs. mset (f xs) = mset xs \<and> sorted (map key (f xs)))"

lemma sorts_by_sort_key: "sorts_by key (sort_key key)"
  by (simp add: sorts_by_def)

section \<open>JSON for the eye\<close>

definition get_level_str :: "int \<Rightarrow> string" where
  "get_level_str level = replicate (nat level) (CHR 0x09)"

text \<open>\<open>newline_last\<close>: the text ends with a line break, which is tested for each character.\<close>

fun json_format_from :: "bool \<Rightarrow> int \<Rightarrow> string \<Rightarrow> string" where
  "json_format_from newline_last level [] = []"
| "json_format_from newline_last level (c # cs) =
     (if 0 < level \<and> newline_last then get_level_str level else []) @
     (if c \<in> {CHR ''{'', CHR ''[''} then
        [c, CHR 0x0A] @ get_level_str (level + 1) @ json_format_from newline_last (level + 1) cs
      else if c = CHR '','' then [c, CHR 0x0A] @ get_level_str level @ json_format_from newline_last level cs
      else if c \<in> {CHR ''}'', CHR '']''} then
        [CHR 0x0A] @ get_level_str (level - 1) @ [c] @ json_format_from newline_last (level - 1) cs
      else c # json_format_from newline_last level cs)"

definition json_format :: "string \<Rightarrow> string" where
  "json_format json_str = json_format_from (json_str \<noteq> [] \<and> last json_str = CHR 0x0A) 0 json_str"

definition unspaced :: "string \<Rightarrow> string" where
  "unspaced s = filter (\<lambda>c. c \<noteq> CHR 0x0A \<and> c \<noteq> CHR 0x09) s"

lemma unspaced_simps [simp]:
  "unspaced [] = []" "unspaced (xs @ ys) = unspaced xs @ unspaced ys" "unspaced (get_level_str n) = []"
  "unspaced (c # cs) = (if c \<noteq> CHR 0x0A \<and> c \<noteq> CHR 0x09 then c # unspaced cs else unspaced cs)"
  by (simp_all add: unspaced_def get_level_str_def)

text \<open>Only line breaks and tabs are added.\<close>

lemma json_format_unspaced: "unspaced (json_format s) = unspaced s"
proof -
  have "unspaced (json_format_from b l s) = unspaced s" for b l
    by (induction b l s rule: json_format_from.induct) auto
  then show ?thesis by (simp add: json_format_def)
qed

text \<open>The level at a position is the number of brackets open there.\<close>

fun json_depth :: "string \<Rightarrow> int" where
  "json_depth [] = 0"
| "json_depth (c # cs) = (if c \<in> {CHR ''{'', CHR ''[''} then 1 else if c \<in> {CHR ''}'', CHR '']''} then - 1 else 0) + json_depth cs"

lemma json_format_from_append:
  "json_format_from b l (xs @ ys) = json_format_from b l xs @ json_format_from b (l + json_depth xs) ys"
  by (induction b l xs rule: json_format_from.induct) (auto simp: algebra_simps)

end
