(* ===== verification/CliSchema.thy ===== *)
theory CliSchema
  imports CliShow
begin

text \<open>
  The commands on namespaces, zones and servlets (cli/namespace_cmd.cc, cli/zone_cmd.cc,
  cli/servlet_cmd.cc). They go to the router, whatever the option says; \<open>R\<close> is what a request to
  it meets. A builder fills a request from the options of its command.
\<close>

definition interact_message_sender ::
  "turbo_env \<Rightarrow> OptionContext \<Rightarrow> (DiscoveryManagerRequest \<Rightarrow> nat \<Rightarrow> string \<Rightarrow> DiscoveryManagerResponse call_outcome) \<Rightarrow>
     (DiscoveryQueryRequest \<Rightarrow> nat \<Rightarrow> string \<Rightarrow> DiscoveryQueryResponse call_outcome) \<Rightarrow> 's message_sender" where
  "interact_message_sender T opt mcall qcall =
     \<lparr>send_manager = (\<lambda>retry rq s. (fst (interact_send T (mcall rq) opt), s)),
      send_query = (\<lambda>retry rq s. (fst (interact_send T (qcall rq) opt), s))\<rparr>"

text \<open>A builder's error keeps what the request's operation was set to.\<close>

definition with_op :: "'op option \<Rightarrow> 'a result \<Rightarrow> ('op option \<times> status) + 'a" where
  "with_op op r = (case r of Inl e \<Rightarrow> Inl (op, e) | Inr x \<Rightarrow> Inr x)"

lemma with_op_Inr [simp]: "with_op op r = Inr x \<longleftrightarrow> r = Inr x"
  by (cases r) (auto simp: with_op_def)

text \<open>\<open>check_valid_name_type\<close> on one name after the other.\<close>

fun check_names :: "cli_env \<Rightarrow> string list \<Rightarrow> unit result" where
  "check_names C [] = Inr ()"
| "check_names C (n # ns) = and_then (cli_check_name C n) (\<lambda>_. check_names C ns)"

lemma check_names_ok: "check_names C ns = Inr () \<longleftrightarrow> (\<forall>n \<in> set ns. set n \<subseteq> set AllowChar)"
  by (induction ns) (auto simp: and_then_Inr cli_check_name_def check_valid_name_type_ok)

text \<open>The ends the commands share: the result, and for a query that succeeds the summary.\<close>

definition manager_rows ::
  "cli_env \<Rightarrow> OptionContext \<Rightarrow> int \<times> string \<Rightarrow> DiscoveryManagerResponse \<Rightarrow> shown_row list" where
  "manager_rows C opt op response =
     [(''result'', Sub (show_response_server C opt (oc_router_server opt) (rs_errcode response) op (rs_errmsg response)), True)]"

definition query_rows ::
  "cli_env \<Rightarrow> OptionContext \<Rightarrow> int \<times> string \<Rightarrow> (DiscoveryQueryResponse \<Rightarrow> table) \<Rightarrow> DiscoveryQueryResponse \<Rightarrow>
     shown_row list" where
  "query_rows C opt op summary response =
     (''result'', Sub (show_response_server C opt (oc_router_server opt) (dr_errcode response) op (dr_errmsg response)), True) #
     (if dr_errcode response \<noteq> SUCCESS then [] else [(''summary'', Sub (summary response), True)])"

definition run_manager ::
  "cli_env \<Rightarrow> OptionContext \<Rightarrow> 's message_sender \<Rightarrow> (OpType, DiscoveryManagerRequest) built \<Rightarrow> 's \<Rightarrow> shown_row list \<times> 's" where
  "run_manager C opt R b s =
     prepare_phase (shown_op C) (\<lambda>request. rpc_phase C (\<lambda>rq. shown_op C (rq_op_type rq)) (send_manager R None)
       (\<lambda>r s. manager_rows C opt (shown_op C (rq_op_type request)) r) request) b s"

definition run_query ::
  "cli_env \<Rightarrow> OptionContext \<Rightarrow> 's message_sender \<Rightarrow> (DiscoveryQueryResponse \<Rightarrow> table) \<Rightarrow>
     (QueryOpType, DiscoveryQueryRequest) built \<Rightarrow> 's \<Rightarrow> shown_row list \<times> 's" where
  "run_query C opt R summary b s =
     prepare_phase (shown_query C) (\<lambda>request. rpc_phase C (\<lambda>rq. shown_query C (dq_op_type rq)) (send_query R None)
       (\<lambda>r s. query_rows C opt (shown_query C (dq_op_type request)) summary r) request) b s"

section \<open>Namespaces\<close>

record NameSpaceOptions =
  no_namespace_name :: string
  no_namespace_quota :: int

text \<open>The operation is set last: a bad name leaves a request without one.\<close>

definition make_namespace_create :: "cli_env \<Rightarrow> NameSpaceOptions \<Rightarrow> (OpType, DiscoveryManagerRequest) built" where
  "make_namespace_create C o1 =
     and_then (with_op None (cli_check_name C (no_namespace_name o1))) (\<lambda>_.
       Inr ((empty_request OP_CREATE_NAMESPACE)\<lparr>rq_namespace_info :=
         Some (empty_NameSpaceInfo\<lparr>ns_name := no_namespace_name o1, ns_quota := Some (no_namespace_quota o1)\<rparr>)\<rparr>))"

definition make_namespace_remove :: "cli_env \<Rightarrow> NameSpaceOptions \<Rightarrow> (OpType, DiscoveryManagerRequest) built" where
  "make_namespace_remove C o1 =
     and_then (with_op None (cli_check_name C (no_namespace_name o1))) (\<lambda>_.
       Inr ((empty_request OP_DROP_NAMESPACE)\<lparr>rq_namespace_info :=
         Some (empty_NameSpaceInfo\<lparr>ns_name := no_namespace_name o1\<rparr>)\<rparr>))"

definition make_namespace_modify :: "cli_env \<Rightarrow> NameSpaceOptions \<Rightarrow> (OpType, DiscoveryManagerRequest) built" where
  "make_namespace_modify C o1 =
     and_then (with_op None (cli_check_name C (no_namespace_name o1))) (\<lambda>_.
       Inr ((empty_request OP_MODIFY_NAMESPACE)\<lparr>rq_namespace_info :=
         Some (empty_NameSpaceInfo\<lparr>ns_name := no_namespace_name o1, ns_quota := Some (no_namespace_quota o1)\<rparr>)\<rparr>))"

definition make_namespace_query :: "cli_env \<Rightarrow> NameSpaceOptions \<Rightarrow> (QueryOpType, DiscoveryQueryRequest) built" where
  "make_namespace_query C o1 =
     (if no_namespace_name o1 \<noteq> []
      then and_then (with_op (Some QUERY_NAMESPACE) (cli_check_name C (no_namespace_name o1))) (\<lambda>_.
        Inr ((empty_query QUERY_NAMESPACE)\<lparr>dq_namespace_name := Some (no_namespace_name o1)\<rparr>))
      else Inr (empty_query QUERY_NAMESPACE))"

definition show_discovery_query_ns_response :: "DiscoveryQueryResponse \<Rightarrow> table" where
  "show_discovery_query_ns_response res =
     text_row [''namespace'', ''id'', ''version'', ''quota'', ''replica number'', ''resource tag'', ''region split lines''] #
     map (\<lambda>ns. text_row [ns_name ns, int_to_string (ns_id ns), int_to_string (ns_version ns),
       int_to_string (msg 0 (ns_quota ns)), int_to_string (msg 0 (ns_replica_num ns)), str_field (ns_resource_tag ns),
       int_to_string (msg 0 (ns_region_split_lines ns))]) (dr_namespace_infos res)"

text \<open>These three show the operation the response names, the others the one of the request.\<close>

definition run_ns_manager ::
  "cli_env \<Rightarrow> OptionContext \<Rightarrow> 's message_sender \<Rightarrow> (OpType, DiscoveryManagerRequest) built \<Rightarrow> 's \<Rightarrow> shown_row list \<times> 's" where
  "run_ns_manager C opt R b s =
     prepare_phase (shown_op C) (rpc_phase C (\<lambda>rq. shown_op C (rq_op_type rq)) (send_manager R None)
       (\<lambda>r s. manager_rows C opt (shown_op C (msg (op_unset (cli_client C)) (rs_op_type r))) r)) b s"

definition run_ns_create_cmd where
  "run_ns_create_cmd C opt R o1 s = run_ns_manager C opt R (make_namespace_create C o1) s"

definition run_ns_remove_cmd where
  "run_ns_remove_cmd C opt R o1 s = run_ns_manager C opt R (make_namespace_remove C o1) s"

definition run_ns_modify_cmd where
  "run_ns_modify_cmd C opt R o1 s = run_ns_manager C opt R (make_namespace_modify C o1) s"

definition run_ns_list_cmd where
  "run_ns_list_cmd C opt R o1 s = run_query C opt R show_discovery_query_ns_response (make_namespace_query C o1) s"

definition run_ns_info_cmd where
  "run_ns_info_cmd C opt R o1 s = run_query C opt R show_discovery_query_ns_response (make_namespace_query C o1) s"

section \<open>Zones\<close>

text \<open>The quota is an option that no builder reads.\<close>

record ZoneOptions =
  zo_namespace_name :: string
  zo_namespace_quota :: int
  zo_zone_name :: string

definition make_zone :: "OpType \<Rightarrow> cli_env \<Rightarrow> ZoneOptions \<Rightarrow> (OpType, DiscoveryManagerRequest) built" where
  "make_zone op C o1 =
     and_then (with_op (Some op) (check_names C [zo_namespace_name o1, zo_zone_name o1])) (\<lambda>_.
       Inr ((empty_request op)\<lparr>rq_zone_info :=
         Some (empty_ZoneInfo\<lparr>z_namespace_name := zo_namespace_name o1, z_zone := zo_zone_name o1\<rparr>)\<rparr>))"

definition make_zone_create where "make_zone_create C o1 = make_zone OP_CREATE_ZONE C o1"
definition make_zone_remove where "make_zone_remove C o1 = make_zone OP_DROP_ZONE C o1"
definition make_zone_modify where "make_zone_modify C o1 = make_zone OP_MODIFY_ZONE C o1"

definition make_zone_list :: "(QueryOpType, DiscoveryQueryRequest) built" where
  "make_zone_list = Inr (empty_query QUERY_ZONE)"

definition make_zone_info :: "cli_env \<Rightarrow> ZoneOptions \<Rightarrow> (QueryOpType, DiscoveryQueryRequest) built" where
  "make_zone_info C o1 =
     and_then (with_op (Some QUERY_ZONE) (check_names C [zo_namespace_name o1, zo_zone_name o1])) (\<lambda>_.
       Inr ((empty_query QUERY_ZONE)\<lparr>dq_namespace_name := Some (zo_namespace_name o1), dq_zone := Some (zo_zone_name o1)\<rparr>))"

definition show_discovery_query_zone_response :: "DiscoveryQueryResponse \<Rightarrow> table" where
  "show_discovery_query_zone_response res =
     text_row [''namespace'', ''zone'', ''id'', ''version'', ''quota'', ''replica number'', ''resource tag'', ''region split lines''] #
     map (\<lambda>z. text_row [z_namespace_name z, z_zone z, int_to_string (z_zone_id z), int_to_string (z_version z),
       int_to_string (msg 0 (z_quota z)), int_to_string (msg 0 (z_replica_num z)), str_field (z_resource_tag z),
       int_to_string (msg 0 (z_region_split_lines z))]) (dr_zone_infos res)"

definition run_zone_create_cmd where
  "run_zone_create_cmd C opt R o1 s = run_manager C opt R (make_zone_create C o1) s"

definition run_zone_remove_cmd where
  "run_zone_remove_cmd C opt R o1 s = run_manager C opt R (make_zone_remove C o1) s"

definition run_zone_modify_cmd where
  "run_zone_modify_cmd C opt R o1 s = run_manager C opt R (make_zone_modify C o1) s"

definition run_zone_list_cmd where
  "run_zone_list_cmd C opt R s = run_query C opt R show_discovery_query_zone_response make_zone_list s"

definition run_zone_info_cmd where
  "run_zone_info_cmd C opt R o1 s = run_query C opt R show_discovery_query_zone_response (make_zone_info C o1) s"

section \<open>Servlets\<close>

record ServletOptions =
  so_namespace_name :: string
  so_namespace_quota :: int
  so_zone_name :: string
  so_servlet_name :: string

definition make_servlet :: "OpType \<Rightarrow> cli_env \<Rightarrow> ServletOptions \<Rightarrow> (OpType, DiscoveryManagerRequest) built" where
  "make_servlet op C o1 =
     and_then (with_op (Some op) (check_names C [so_namespace_name o1, so_zone_name o1, so_servlet_name o1])) (\<lambda>_.
       Inr ((empty_request op)\<lparr>rq_servlet_info :=
         Some (empty_ServletInfo\<lparr>sv_namespace_name := so_namespace_name o1, sv_zone := so_zone_name o1,
           sv_servlet_name := so_servlet_name o1\<rparr>)\<rparr>))"

definition make_servlet_create where "make_servlet_create C o1 = make_servlet OP_CREATE_SERVLET C o1"
definition make_servlet_remove where "make_servlet_remove C o1 = make_servlet OP_DROP_SERVLET C o1"
definition make_servlet_modify where "make_servlet_modify C o1 = make_servlet OP_MODIFY_SERVLET C o1"

definition make_servlet_list :: "(QueryOpType, DiscoveryQueryRequest) built" where
  "make_servlet_list = Inr (empty_query QUERY_SERVLET)"

definition make_servlet_info :: "cli_env \<Rightarrow> ServletOptions \<Rightarrow> (QueryOpType, DiscoveryQueryRequest) built" where
  "make_servlet_info C o1 =
     and_then (with_op (Some QUERY_SERVLET) (check_names C [so_namespace_name o1, so_zone_name o1, so_servlet_name o1])) (\<lambda>_.
       Inr ((empty_query QUERY_SERVLET)\<lparr>dq_namespace_name := Some (so_namespace_name o1), dq_zone := Some (so_zone_name o1),
         dq_servlet := Some (so_servlet_name o1)\<rparr>))"

definition show_discovery_query_servlet_response :: "DiscoveryQueryResponse \<Rightarrow> table" where
  "show_discovery_query_servlet_response res =
     text_row [''namespace'', ''zone'', ''servlet'', ''id'', ''version'', ''replica number'', ''resource tag''] #
     map (\<lambda>v. text_row [sv_namespace_name v, sv_zone v, sv_servlet_name v, int_to_string (sv_servlet_id v),
       int_to_string (sv_version v), int_to_string (msg 0 (sv_replica_num v)), str_field (sv_resource_tag v)]) (dr_servlet_infos res)"

definition run_servlet_create_cmd where
  "run_servlet_create_cmd C opt R o1 s = run_manager C opt R (make_servlet_create C o1) s"

definition run_servlet_remove_cmd where
  "run_servlet_remove_cmd C opt R o1 s = run_manager C opt R (make_servlet_remove C o1) s"

definition run_servlet_modify_cmd where
  "run_servlet_modify_cmd C opt R o1 s = run_manager C opt R (make_servlet_modify C o1) s"

definition run_servlet_list_cmd where
  "run_servlet_list_cmd C opt R s = run_query C opt R show_discovery_query_servlet_response make_servlet_list s"

definition run_servlet_info_cmd where
  "run_servlet_info_cmd C opt R o1 s = run_query C opt R show_discovery_query_servlet_response (make_servlet_info C o1) s"

section \<open>What the builders let through\<close>

lemmas cli_schema_builders = make_namespace_create_def make_namespace_remove_def make_namespace_modify_def
  make_zone_create_def make_zone_remove_def make_zone_modify_def make_zone_def
  make_servlet_create_def make_servlet_remove_def make_servlet_modify_def make_servlet_def

end
