(* ===== verification/CliUser.thy ===== *)
theory CliUser
  imports CliSchema "HOL-Library.List_Lexorder" "HOL-Library.Char_ord"
begin

text \<open>
  The commands on users and their privileges (cli/user_cmd.cc). \<open>std::set<std::string>\<close> is an ordered
  list without duplicates.
\<close>

section \<open>Ordered sets\<close>

fun set_insert :: "'a::linorder \<Rightarrow> 'a list \<Rightarrow> 'a list" where
  "set_insert x [] = [x]"
| "set_insert x (y # ys) = (if x < y then x # y # ys else if x = y then y # ys else y # set_insert x ys)"

definition set_erase :: "'a \<Rightarrow> 'a list \<Rightarrow> 'a list" where
  "set_erase x xs = filter (\<lambda>y. y \<noteq> x) xs"

lemma set_set_insert [simp]: "set (set_insert x xs) = insert x (set xs)"
  by (induction x xs rule: set_insert.induct) auto

lemma set_insert_sorted: "sorted_wrt (<) xs \<Longrightarrow> sorted_wrt (<) (set_insert x xs)"
  by (induction x xs rule: set_insert.induct) auto

lemma set_set_erase [simp]: "set (set_erase x xs) = set xs - {x}"
  by (auto simp: set_erase_def)

lemma set_insert_all: "set (fold set_insert xs ys) = set xs \<union> set ys"
  by (induction xs arbitrary: ys) auto

lemma set_insert_all_sorted: "sorted_wrt (<) ys \<Longrightarrow> sorted_wrt (<) (fold set_insert xs ys)"
  by (induction xs arbitrary: ys) (simp_all add: set_insert_sorted)

section \<open>Builders\<close>

record UserOptions =
  uo_namespace_name :: string
  uo_user_name :: string
  uo_user_passwd :: string
  uo_user_ips :: "string list"
  uo_user_rs :: "string list"
  uo_user_ws :: "string list"
  uo_user_rz :: "string list"
  uo_user_wz :: "string list"
  uo_force :: bool
  uo_show_pwd :: bool

definition make_user_account :: "OpType \<Rightarrow> cli_env \<Rightarrow> UserOptions \<Rightarrow> (OpType, DiscoveryManagerRequest) built" where
  "make_user_account op C o1 =
     and_then (with_op (Some op) (check_names C [uo_namespace_name o1, uo_user_name o1])) (\<lambda>_.
       Inr ((empty_request op)\<lparr>rq_user_privilege := Some (empty_UserPrivilege\<lparr>up_namespace_name := uo_namespace_name o1,
         up_username := uo_user_name o1, up_password := Some (uo_user_passwd o1)\<rparr>)\<rparr>))"

definition make_user_create where "make_user_create C o1 = make_user_account OP_CREATE_USER C o1"
definition make_user_remove where "make_user_remove C o1 = make_user_account OP_DROP_USER C o1"

text \<open>The loops over the zones: what is written is not read, and what is left of the reads follows.\<close>

definition zone_right :: "UserOptions \<Rightarrow> int \<Rightarrow> string \<Rightarrow> PrivilegeZone" where
  "zone_right o1 rw z = \<lparr>pz_zone = z, pz_zone_id = 0, pz_zone_rw = Some rw, pz_force = uo_force o1\<rparr>"

fun add_write_zones ::
  "cli_env \<Rightarrow> UserOptions \<Rightarrow> string list \<Rightarrow> string list \<Rightarrow> PrivilegeZone list \<Rightarrow> string list \<times> PrivilegeZone list" where
  "add_write_zones C o1 [] read_set out = (read_set, out)"
| "add_write_zones C o1 (write_zone # rest) read_set out =
     add_write_zones C o1 rest (set_erase write_zone read_set) (out @ [zone_right o1 (rw_write C) write_zone])"

definition built_zones :: "cli_env \<Rightarrow> UserOptions \<Rightarrow> PrivilegeZone list" where
  "built_zones C o1 =
     (let read_set = fold set_insert (uo_user_rz o1) [];
          (read_set, out) = add_write_zones C o1 (uo_user_wz o1) read_set []
      in out @ map (zone_right o1 (rw_read C)) read_set)"

text \<open>The same for servlets, named \<open>zone.servlet\<close>.\<close>

definition servlet_right :: "cli_env \<Rightarrow> UserOptions \<Rightarrow> int \<Rightarrow> string \<Rightarrow> PrivilegeServlet result" where
  "servlet_right C o1 rw name =
     (let names = split_parts C name
      in if length names \<noteq> 2
         then Inl (InvalidArgument, cli_fmt C ''bad format of {} should be zone.servlet'' [name])
         else Inr \<lparr>ps_zone = names ! 0, ps_servlet_name = names ! 1, ps_zone_id = 0, ps_servlet_id = 0,
           ps_servlet_rw = Some rw, ps_force = uo_force o1\<rparr>)"

fun add_servlets ::
  "cli_env \<Rightarrow> UserOptions \<Rightarrow> int \<Rightarrow> string list \<Rightarrow> PrivilegeServlet list \<Rightarrow> PrivilegeServlet list result" where
  "add_servlets C o1 rw [] out = Inr out"
| "add_servlets C o1 rw (name # rest) out =
     and_then (servlet_right C o1 rw name) (\<lambda>p. add_servlets C o1 rw rest (out @ [p]))"

definition built_servlets :: "cli_env \<Rightarrow> UserOptions \<Rightarrow> PrivilegeServlet list result" where
  "built_servlets C o1 =
     (let read_set = fold set_erase (uo_user_ws o1) (fold set_insert (uo_user_rs o1) [])
      in and_then (add_servlets C o1 (rw_write C) (uo_user_ws o1) []) (add_servlets C o1 (rw_read C) read_set))"

definition make_user_privilege :: "OpType \<Rightarrow> cli_env \<Rightarrow> UserOptions \<Rightarrow> (OpType, DiscoveryManagerRequest) built" where
  "make_user_privilege op C o1 =
     and_then (with_op (Some op) (check_names C [uo_namespace_name o1, uo_user_name o1])) (\<lambda>_.
     and_then (with_op (Some op) (built_servlets C o1)) (\<lambda>servlets.
       Inr ((empty_request op)\<lparr>rq_user_privilege := Some (empty_UserPrivilege\<lparr>up_namespace_name := uo_namespace_name o1,
         up_username := uo_user_name o1, up_ip := uo_user_ips o1, up_privilege_zone := built_zones C o1,
         up_privilege_servlet := servlets\<rparr>)\<rparr>)))"

definition make_user_add_privilege where "make_user_add_privilege C o1 = make_user_privilege OP_ADD_PRIVILEGE C o1"
definition make_user_remove_privilege where "make_user_remove_privilege C o1 = make_user_privilege OP_DROP_PRIVILEGE C o1"

definition make_user_list :: "(QueryOpType, DiscoveryQueryRequest) built" where
  "make_user_list = Inr (empty_query QUERY_USER_PRIVILEGE)"

definition make_user_flat :: "(QueryOpType, DiscoveryQueryRequest) built" where
  "make_user_flat = Inr (empty_query QUERY_PRIVILEGE_FLATTEN)"

definition make_user_info :: "cli_env \<Rightarrow> UserOptions \<Rightarrow> (QueryOpType, DiscoveryQueryRequest) built" where
  "make_user_info C o1 =
     and_then (with_op (Some QUERY_USER_PRIVILEGE) (check_names C [uo_namespace_name o1, uo_user_name o1])) (\<lambda>_.
       Inr ((empty_query QUERY_USER_PRIVILEGE)\<lparr>dq_namespace_name := Some (uo_namespace_name o1),
         dq_user_name := Some (uo_user_name o1)\<rparr>))"

section \<open>Tables and commands\<close>

definition bool_text :: "bool \<Rightarrow> string" where
  "bool_text b = (if b then ''true'' else ''false'')"

definition zone_right_text :: "cli_env \<Rightarrow> PrivilegeZone \<Rightarrow> string" where
  "zone_right_text C p = cli_fmt C ''{}:{} {}'' [pz_zone p, rw_name C (msg (rw_default C) (pz_zone_rw p)), bool_text (pz_force p)]"

definition servlet_right_text :: "cli_env \<Rightarrow> PrivilegeServlet \<Rightarrow> string" where
  "servlet_right_text C p = cli_fmt C ''{}.{}:{} {}''
     [ps_zone p, ps_servlet_name p, rw_name C (msg (rw_default C) (ps_servlet_rw p)), bool_text (ps_force p)]"

text \<open>The password is shown only when the option asks for it.\<close>

definition show_discovery_query_user_response :: "cli_env \<Rightarrow> UserOptions \<Rightarrow> DiscoveryQueryResponse \<Rightarrow> table" where
  "show_discovery_query_user_response C o1 res =
     text_row [''namespace'', ''user'', ''version'', ''passwd'', ''allow access ip'', ''zone'', ''servlet''] #
     map (\<lambda>u. [Text (up_namespace_name u), Text (up_username u), Text (int_to_string (up_version u)),
       Text (if uo_show_pwd o1 then str_field (up_password u) else ''******''),
       Sub (map (\<lambda>ip. [Text ip]) (up_ip u)),
       Sub (map (\<lambda>p. [Text (zone_right_text C p)]) (up_privilege_zone u)),
       Sub (map (\<lambda>p. [Text (servlet_right_text C p)]) (up_privilege_servlet u))]) (dr_user_privilege res)"

definition show_discovery_query_user_flat_response :: "cli_env \<Rightarrow> DiscoveryQueryResponse \<Rightarrow> table" where
  "show_discovery_query_user_flat_response C res =
     text_row [''namespace'', ''user'', ''privilege'', ''servlet_rw'', ''password''] #
     map (\<lambda>u. text_row [qp_namespace_name u, qp_username u, qp_privilege u, rw_name C (qp_servlet_rw u), ''******''])
       (dr_flatten_privileges res)"

definition run_user_create_cmd where
  "run_user_create_cmd C opt R o1 s = run_manager C opt R (make_user_create C o1) s"

definition run_user_remove_cmd where
  "run_user_remove_cmd C opt R o1 s = run_manager C opt R (make_user_remove C o1) s"

definition run_user_add_privilege_cmd where
  "run_user_add_privilege_cmd C opt R o1 s = run_manager C opt R (make_user_add_privilege C o1) s"

definition run_user_remove_privilege_cmd where
  "run_user_remove_privilege_cmd C opt R o1 s = run_manager C opt R (make_user_remove_privilege C o1) s"

definition run_user_list_cmd where
  "run_user_list_cmd C opt R o1 s = run_query C opt R (show_discovery_query_user_response C o1) make_user_list s"

definition run_user_flat_cmd where
  "run_user_flat_cmd C opt R s = run_query C opt R (show_discovery_query_user_flat_response C) make_user_flat s"

definition run_user_info_cmd where
  "run_user_info_cmd C opt R o1 s = run_query C opt R (show_discovery_query_user_response C o1) (make_user_info C o1) s"

section \<open>The rights a request asks for\<close>

lemma add_write_zones_eq:
  "add_write_zones C o1 ws read_set out = (fold set_erase ws read_set, out @ map (zone_right o1 (rw_write C)) ws)"
  by (induction ws arbitrary: read_set out) auto

lemma set_erase_all: "set (fold set_erase ws xs) = set xs - set ws"
  by (induction ws arbitrary: xs) auto

text \<open>Writing where it is asked for, reading where only that is.\<close>

lemma built_zones_set:
  "set (built_zones C o1) = zone_right o1 (rw_write C) ` set (uo_user_wz o1) \<union>
     zone_right o1 (rw_read C) ` (set (uo_user_rz o1) - set (uo_user_wz o1))"
  by (auto simp: built_zones_def add_write_zones_eq set_erase_all set_insert_all)

lemma add_servlets_Inr:
  "add_servlets C o1 rw names out = Inr ps \<longleftrightarrow> (\<exists>qs. ps = out @ qs \<and> list_all2 (\<lambda>n q. servlet_right C o1 rw n = Inr q) names qs)"
proof (induction names arbitrary: out)
  case (Cons n names)
  show ?case
    by (cases "servlet_right C o1 rw n") (auto simp: Cons.IH list_all2_Cons1)
qed auto

text \<open>A servlet that is not written as \<open>zone.servlet\<close> refuses the whole request.\<close>

lemma built_servlets_Inr:
  "built_servlets C o1 = Inr ps \<Longrightarrow> n \<in> set (uo_user_ws o1) \<union> set (uo_user_rs o1) \<Longrightarrow> length (split_parts C n) = 2"
proof -
  assume "built_servlets C o1 = Inr ps" and n: "n \<in> set (uo_user_ws o1) \<union> set (uo_user_rs o1)"
  then obtain ws where ws: "add_servlets C o1 (rw_write C) (uo_user_ws o1) [] = Inr ws"
    and rs: "add_servlets C o1 (rw_read C) (fold set_erase (uo_user_ws o1) (fold set_insert (uo_user_rs o1) [])) ws = Inr ps"
    by (auto simp: built_servlets_def Let_def and_then_Inr)
  have two: "length (split_parts C m) = 2" if "servlet_right C o1 rw m = Inr q" for m rw q
    using that by (auto simp: servlet_right_def Let_def split: if_splits)
  have "length (split_parts C m) = 2" if "add_servlets C o1 rw ms out = Inr qs" "m \<in> set ms" for ms out qs rw m
    using that by (auto simp: add_servlets_Inr list_all2_conv_all_nth in_set_conv_nth intro: two)
  from this [OF ws] this [OF rs] n show ?thesis by (auto simp: set_erase_all set_insert_all)
qed

end
