(* ===== verification/CliInstance.thy ===== *)
theory CliInstance
  imports CliUser
begin

text \<open>
  The commands on instances (cli/discovery.cc) and how the process picks its sender
  (cli/eacli.cc). Adding, removing and updating go to the router; listing and reading go through
  \<open>DiscoveryClient\<close>, whose sender \<open>M\<close> is the one picked. \<open>leader_of\<close> reads the leader a discovery sender
  has found, \<open>now\<close> is the time in seconds.
\<close>

record InstanceOptions =
  io_namespace_name :: string
  io_servlet_name :: string
  io_zone_name :: string
  io_env :: string
  io_color :: string
  io_status :: string
  io_address :: string
  io_dump_file :: string
  io_json_file :: string
  io_quiet :: bool
  io_weight :: int

definition string_to_status :: "cli_env \<Rightarrow> string \<Rightarrow> int result" where
  "string_to_status C status =
     (case status_parse (turbo (cli_client C)) status of
        Some ret \<Rightarrow> Inr ret | None \<Rightarrow> Inl (InvalidArgument, ''unknown status''))"

text \<open>A JSON file is taken as it is: none of the checks of the other way in apply to it.\<close>

definition instance_from_file ::
  "ServletInstance json2pb \<Rightarrow> cli_env \<Rightarrow> files \<Rightarrow> OpType \<Rightarrow> InstanceOptions \<Rightarrow> (OpType, DiscoveryManagerRequest) built" where
  "instance_from_file J C fs op o1 =
     and_then (with_op (Some op) (load_proto_from_file J (local_disk (cli_client C)) fs (io_json_file o1)))
       (\<lambda>i. Inr ((empty_request op)\<lparr>rq_instance_info := Some i\<rparr>))"

definition make_instance_full ::
  "OpType \<Rightarrow> ServletInstance json2pb \<Rightarrow> cli_env \<Rightarrow> files \<Rightarrow> int \<Rightarrow> InstanceOptions \<Rightarrow> (OpType, DiscoveryManagerRequest) built" where
  "make_instance_full op J C fs now o1 =
     (if io_json_file o1 \<noteq> [] then instance_from_file J C fs op o1
      else and_then (with_op (Some op) (check_names C [io_namespace_name o1, io_zone_name o1, io_servlet_name o1])) (\<lambda>_.
        and_then (with_op (Some op) (string_to_status C (io_status o1))) (\<lambda>status.
          let i = empty_ServletInstance\<lparr>si_namespace_name := Some (io_namespace_name o1),
                    si_zone_name := Some (io_zone_name o1), si_servlet_name := Some (io_servlet_name o1),
                    si_color := Some (io_color o1), si_env := Some (io_env o1), si_status := Some status,
                    si_address := Some (io_address o1)\<rparr>;
              i = (if io_weight o1 \<noteq> -1 then i\<lparr>si_weight := Some (io_weight o1)\<rparr> else i)
          in Inr ((empty_request op)\<lparr>rq_instance_info := Some (i\<lparr>si_timestamp := Some now\<rparr>)\<rparr>))))"

definition make_discovery_add_instance where
  "make_discovery_add_instance J C fs now o1 = make_instance_full OP_ADD_INSTANCE J C fs now o1"

definition make_discovery_update_instance where
  "make_discovery_update_instance J C fs now o1 = make_instance_full OP_UPDATE_INSTANCE J C fs now o1"

definition make_discovery_remove_instance ::
  "ServletInstance json2pb \<Rightarrow> cli_env \<Rightarrow> files \<Rightarrow> InstanceOptions \<Rightarrow> (OpType, DiscoveryManagerRequest) built" where
  "make_discovery_remove_instance J C fs o1 =
     (if io_json_file o1 \<noteq> [] then instance_from_file J C fs OP_DROP_INSTANCE o1
      else and_then (with_op (Some OP_DROP_INSTANCE) (check_names C [io_namespace_name o1, io_zone_name o1, io_servlet_name o1])) (\<lambda>_.
        Inr ((empty_request OP_DROP_INSTANCE)\<lparr>rq_instance_info := Some (empty_ServletInstance\<lparr>
          si_namespace_name := Some (io_namespace_name o1), si_zone_name := Some (io_zone_name o1),
          si_servlet_name := Some (io_servlet_name o1), si_address := Some (io_address o1)\<rparr>)\<rparr>)))"

text \<open>A level that is not named ends the list; the address is not used.\<close>

definition make_discovery_list_instance :: "InstanceOptions \<Rightarrow> (QueryOpType, DiscoveryQueryRequest) built" where
  "make_discovery_list_instance o1 =
     (let rq = empty_query QUERY_INSTANCE_FLATTEN
      in if io_namespace_name o1 = [] then Inr rq
         else let rq = rq\<lparr>dq_namespace_name := Some (io_namespace_name o1)\<rparr>
         in if io_zone_name o1 = [] then Inr rq
            else let rq = rq\<lparr>dq_zone := Some (io_zone_name o1)\<rparr>
            in if io_servlet_name o1 = [] then Inr rq
               else Inr (rq\<lparr>dq_servlet := Some (io_servlet_name o1)\<rparr>))"

definition make_discovery_info_instance :: "InstanceOptions \<Rightarrow> (QueryOpType, DiscoveryQueryRequest) built" where
  "make_discovery_info_instance o1 =
     Inr ((empty_query QUERY_INSTANCE)\<lparr>dq_namespace_name := Some (io_namespace_name o1), dq_zone := Some (io_zone_name o1),
       dq_servlet := Some (io_servlet_name o1), dq_instance_address := Some (io_address o1)\<rparr>)"

section \<open>Tables\<close>

fun numbered_rows :: "nat \<Rightarrow> string list \<Rightarrow> table" where
  "numbered_rows i [] = []"
| "numbered_rows i (t # ts) = text_row [int_to_string (int i), t] # numbered_rows (Suc i) ts"

definition show_query_instance_list_response ::
  "cli_env \<Rightarrow> (QueryInstance list \<Rightarrow> QueryInstance list) \<Rightarrow> DiscoveryQueryResponse \<Rightarrow> table" where
  "show_query_instance_list_response C by_address res =
     text_row [''instance num'', int_to_string (int (length (dr_flatten_instances res)))] #
     text_row [''number'', ''instance''] #
     numbered_rows 0 (map (\<lambda>q. cli_fmt C ''{}.{}.{}#{}''
       [qi_namespace_name q, qi_zone_name q, qi_servlet_name q, qi_address q]) (by_address (dr_flatten_instances res)))"

text \<open>\<open>instance(0)\<close> of an answer without instances is out of range: \<open>None\<close>.\<close>

definition show_query_instance_info_response :: "cli_env \<Rightarrow> DiscoveryQueryResponse \<Rightarrow> table option" where
  "show_query_instance_info_response C res =
     (case dr_instance res of
        [] \<Rightarrow> None
      | i # _ \<Rightarrow> Some
          [text_row [''uri'', ''address'', ''env'', ''color'', ''create time'', ''version'', ''status''],
           text_row [cli_fmt C ''{}.{}.{}'' [str_field (si_namespace_name i), str_field (si_zone_name i), str_field (si_servlet_name i)],
             str_field (si_address i), str_field (si_env i), str_field (si_color i), int_to_string (msg 0 (si_timestamp i)),
             int_to_string (si_version i), status_name C (msg (status_normal (turbo (cli_client C))) (si_status i))]])"

section \<open>Commands\<close>

text \<open>A query through \<open>DiscoveryClient\<close>; \<open>summary\<close> is \<open>None\<close> where it reads past the end of a list.\<close>

definition run_client_query ::
  "cli_env \<Rightarrow> OptionContext \<Rightarrow> ('s \<Rightarrow> string) \<Rightarrow> 's message_sender \<Rightarrow> (DiscoveryQueryResponse \<Rightarrow> table option) \<Rightarrow>
     (QueryOpType, DiscoveryQueryRequest) built \<Rightarrow> 's \<Rightarrow> shown_row list \<times> 's" where
  "run_client_query C opt leader_of M summary b s =
     prepare_phase (shown_query C) (\<lambda>request. rpc_phase C (\<lambda>rq. shown_query C (dq_op_type rq)) (client_query M None)
       (\<lambda>r s. (''result'', Sub (show_response C opt (leader_of s) (dr_errcode r) (shown_query C (dq_op_type request)) (dr_errmsg r)),
                dr_errcode r = SUCCESS) #
          (if dr_errcode r = SUCCESS
           then [(''summary'', case summary r of Some t \<Rightarrow> Sub t | None \<Rightarrow> OutOfRange, True)] else [])) request) b s"

definition run_discovery_add_instance_cmd where
  "run_discovery_add_instance_cmd C opt R J fs now o1 s =
     run_manager C opt R (make_discovery_add_instance J C fs now o1) s"

definition run_discovery_remove_instance_cmd where
  "run_discovery_remove_instance_cmd C opt R J fs o1 s =
     run_manager C opt R (make_discovery_remove_instance J C fs o1) s"

definition run_discovery_update_instance_cmd where
  "run_discovery_update_instance_cmd C opt R J fs now o1 s =
     run_manager C opt R (make_discovery_update_instance J C fs now o1) s"

definition run_discovery_list_instance_cmd where
  "run_discovery_list_instance_cmd C opt leader_of M by_address o1 s =
     run_client_query C opt leader_of M (\<lambda>r. Some (show_query_instance_list_response C by_address r))
       (make_discovery_list_instance o1) s"

definition run_discovery_info_instance_cmd where
  "run_discovery_info_instance_cmd C opt leader_of M o1 s =
     run_client_query C opt leader_of M (show_query_instance_info_response C) (make_discovery_info_instance o1) s"

text \<open>The example instance: what is printed and the files left.\<close>

definition example_instance :: "cli_env \<Rightarrow> int \<Rightarrow> ServletInstance" where
  "example_instance C now =
     (let T = turbo (cli_client C)
      in builder_set_address ''127.0.0.1:12345'' (builder_set_time now (builder_set_weight 10
           (builder_set_status_name T ''NORMAL'' (builder_set_color ''green'' (builder_set_env ''ex_env''
           (builder_set_servlet ''ex_servlet'' (builder_set_zone ''ex_zone'' (builder_set_namespace ''ex_namespace''
           (ServletInstanceBuilder_set empty_ServletInstance))))))))))"

definition run_discovery_dump_cmd ::
  "ServletInstance json2pb \<Rightarrow> cli_env \<Rightarrow> int \<Rightarrow> InstanceOptions \<Rightarrow> files \<Rightarrow> string list \<times> files" where
  "run_discovery_dump_cmd J C now o1 fs =
     (let i = example_instance C now;
          failed = (\<lambda>e. cli_fmt C ''dump example discovery instance error:{}'' [snd e]);
          (rs, fs) = dump_proto_to_file J (local_disk (cli_client C)) (io_dump_file o1) i fs
      in case rs of
           Inl e \<Rightarrow> ([failed e], fs)
         | Inr _ \<Rightarrow> if io_quiet o1 then ([], fs)
             else (case dump_proto J i of Inl e \<Rightarrow> ([failed e], fs) | Inr json_str \<Rightarrow> ([json_format json_str], fs)))"

section \<open>Picking the sender\<close>

datatype 'ep chosen_sender = Exits string | ViaRouter router_state | ToDiscovery "'ep sender_state"

definition choose_sender ::
  "'ep net \<Rightarrow> turbo_env \<Rightarrow> OptionContext \<Rightarrow> router_state \<Rightarrow> 'ep sender_state \<Rightarrow> 'ep chosen_sender" where
  "choose_sender N T opt r d =
     (if oc_router opt
      then (case router_init (oc_router_server opt) r of
              (Inl e, r) \<Rightarrow> Exits (snd e)
            | (Inr _, r) \<Rightarrow> ViaRouter (router_set_verbose (oc_verbose opt) (router_set_retry_time (oc_max_retry opt)
                (router_set_interval_time (oc_interval_ms opt) (router_set_connect_time_out (oc_connect_timeout_ms opt) r)))))
      else let d = set_verbose (oc_verbose opt) (set_retry_time (oc_max_retry opt)
                (set_interval_time (oc_interval_ms opt) (set_connect_time_out (oc_connect_timeout_ms opt) d)))
           in (case sender_init N T (oc_discovery_server opt) d of
                 (Inl e, d) \<Rightarrow> Exits (snd e)
               | (Inr _, d) \<Rightarrow> ToDiscovery d))"

text \<open>
  The picked sender has the options' connection timeout, interval, retries and verbosity, and
  keeps its own request timeout: the option for that is not passed on.
\<close>

lemma init_peers_keeps:
  "init_peers N T ps d = (r, d') \<Longrightarrow> request_timeout d' = request_timeout d \<and> connect_timeout d' = connect_timeout d \<and>
     between_meta_connect_error_ms d' = between_meta_connect_error_ms d \<and> retry_times_default d' = retry_times_default d \<and>
     sender_verbose d' = sender_verbose d"
proof (induction ps arbitrary: d)
  case (Cons p ps)
  show ?case
  proof (cases "str2endpoint N p")
    case (Some ep)
    with Cons.prems have "init_peers N T ps (d\<lparr>servlet_nodes := servlet_nodes d @ [ep]\<rparr>) = (r, d')" by simp
    from Cons.IH [OF this] show ?thesis by simp
  qed (use Cons.prems in auto)
qed simp

lemma choose_sender_options:
  "choose_sender N T opt r d = ToDiscovery d' \<Longrightarrow> \<not> oc_router opt \<and> request_timeout d' = request_timeout d \<and>
     connect_timeout d' = oc_connect_timeout_ms opt \<and> between_meta_connect_error_ms d' = oc_interval_ms opt \<and>
     retry_times_default d' = oc_max_retry opt \<and> sender_verbose d' = oc_verbose opt"
  "choose_sender N T opt r d = ViaRouter r' \<Longrightarrow> oc_router opt \<and> router_server r' = oc_router_server opt \<and>
     router_timeout_ms r' = router_timeout_ms r \<and> router_connect_timeout_ms r' = oc_connect_timeout_ms opt \<and>
     router_interval_ms r' = oc_interval_ms opt \<and> router_retry_times r' = oc_max_retry opt \<and>
     router_verbose r' = oc_verbose opt"
  by (auto simp: choose_sender_def router_init_def router_set_verbose_def router_set_retry_time_def
      router_set_interval_time_def router_set_connect_time_out_def sender_init_def set_verbose_def set_retry_time_def
      set_interval_time_def set_connect_time_out_def split: if_splits sum.splits prod.splits dest!: init_peers_keeps)

end
