(* ===== verification/CliRaft.thy ===== *)
theory CliRaft
  imports CliInstance
begin

text \<open>
  The commands on raft groups (cli/raft_cmd.h, cli/raft_cmd.cc) and on the auto increment ids
  (cli/atomic_cmd.h, cli/atomic_cmd.cc). The raft commands have a \<open>DiscoverySender\<close> of their own, \<open>d\<close>, and
  show the leader \<open>leader\<close> of the one the other commands use. The atomic commands go through \<open>DiscoveryClient\<close>.
\<close>

section \<open>Raft groups\<close>

record RaftOptions =
  ro_raft_group :: string
  ro_opt_peer :: string
  ro_cluster :: string
  ro_new_leader :: string
  ro_vote_time_ms :: int
  ro_old_peers :: "string list"
  ro_new_peers :: "string list"
  ro_discovery_server :: string
  ro_force :: bool

definition to_region_id :: "RaftOptions \<Rightarrow> int result" where
  "to_region_id o1 =
     (if ro_cluster o1 = ''discovery'' then Inr 0
      else if ro_cluster o1 = ''tso'' then Inr 2
      else if ro_cluster o1 = ''atomic'' then Inr 1
      else Inl (InvalidArgument, ''unknown''))"

definition empty_raft_request :: "RaftControlOp \<Rightarrow> RaftControlRequest" where
  "empty_raft_request op = \<lparr>rc_op_type = op, rc_region_id = 0, rc_force = None, rc_old_peers = [], rc_new_peers = [],
     rc_new_leader = [], rc_election_time = 0\<rparr>"

definition show_raft_result :: "RaftControlResponse \<Rightarrow> table" where
  "show_raft_result res =
     [text_row [''leader'', ''peers''], [Sub [text_row [rr_leader res]], Sub (map (\<lambda>p. text_row [p]) (rr_peers res))]]"

text \<open>
  What a command prints, its rows, and its sender afterwards. An unknown cluster ends it before
  anything is sent; otherwise the request is sent with one try.
\<close>

definition run_raft ::
  "cli_env \<Rightarrow> OptionContext \<Rightarrow> string \<Rightarrow> (RaftControlRequest \<Rightarrow> 's \<Rightarrow> RaftControlResponse result \<times> 's) \<Rightarrow> bool \<Rightarrow>
     RaftOptions \<Rightarrow> RaftControlRequest \<Rightarrow> 's \<Rightarrow> string list \<times> shown_row list \<times> 's" where
  "run_raft C opt leader send summary o1 request s =
     (case to_region_id o1 of
        Inl e \<Rightarrow> ([''unknown cluster''], [], s)
      | Inr region \<Rightarrow> ([], prepare_phase (shown_raft C) (rpc_phase C (\<lambda>rq. shown_raft C (rc_op_type rq)) send
          (\<lambda>r s. (''result'', Sub (show_response C opt leader (rr_errcode r) (shown_raft C (rc_op_type request)) (rr_errmsg r)),
                    rr_errcode r = SUCCESS) #
             (if summary \<and> rr_errcode r = SUCCESS then [(''summary'', Sub (show_raft_result r), True)] else [])))
          (Inr (request\<lparr>rc_region_id := region\<rparr>)) s))"

definition raft_send ::
  "'ep net \<Rightarrow> turbo_env \<Rightarrow> (nat \<Rightarrow> nat) \<Rightarrow> (RaftControlRequest \<Rightarrow> nat \<Rightarrow> 'ep \<Rightarrow> RaftControlResponse call_outcome) \<Rightarrow>
     RaftControlRequest \<Rightarrow> 'ep sender_state \<Rightarrow> RaftControlResponse result \<times> 'ep sender_state" where
  "raft_send N T pick call request d = sender_call N T rr_errcode rr_leader pick call (Some 1) request d"

definition run_status_cmd where
  "run_status_cmd C opt leader send o1 s = run_raft C opt leader send True o1 (empty_raft_request ListPeer) s"

definition run_snapshot_cmd where
  "run_snapshot_cmd C opt leader send o1 s = run_raft C opt leader send False o1 (empty_raft_request SnapShot) s"

text \<open>The time of the options does not reach the request.\<close>

definition run_vote_cmd where
  "run_vote_cmd C opt leader send o1 s = run_raft C opt leader send False o1 (empty_raft_request ResetVoteTime) s"

definition run_shutdown_cmd where
  "run_shutdown_cmd C opt leader send o1 s = run_raft C opt leader send False o1 (empty_raft_request ShutDown) s"

text \<open>Both loops add to the old peers.\<close>

definition set_request :: "RaftOptions \<Rightarrow> RaftControlRequest" where
  "set_request o1 =
     (let request = empty_raft_request SetPeer;
          request = fold (\<lambda>old rq. rq\<lparr>rc_old_peers := rc_old_peers rq @ [old]\<rparr>) (ro_old_peers o1) request;
          request = fold (\<lambda>peer rq. rq\<lparr>rc_old_peers := rc_old_peers rq @ [peer]\<rparr>) (ro_new_peers o1) request
      in if ro_force o1 then request\<lparr>rc_force := Some True\<rparr> else request)"

definition run_set_cmd where
  "run_set_cmd C opt leader send o1 s = run_raft C opt leader send True o1 (set_request o1) s"

definition run_trans_cmd where
  "run_trans_cmd C opt leader send o1 s =
     run_raft C opt leader send True o1 ((empty_raft_request TransLeader)\<lparr>rc_new_leader := ro_new_leader o1\<rparr>) s"

lemma set_request_eq:
  "set_request o1 = (empty_raft_request SetPeer)\<lparr>rc_old_peers := ro_old_peers o1 @ ro_new_peers o1,
     rc_force := if ro_force o1 then Some True else None\<rparr>"
proof -
  have "fold (\<lambda>p rq. rq\<lparr>rc_old_peers := rc_old_peers rq @ [p]\<rparr>) ps rq = rq\<lparr>rc_old_peers := rc_old_peers rq @ ps\<rparr>"
    for ps and rq :: RaftControlRequest
    by (induction ps arbitrary: rq) simp_all
  then show ?thesis by (simp add: set_request_def empty_raft_request_def)
qed

text \<open>
  What a command does, written out: an unknown cluster sends nothing, otherwise the request goes out once with
  the number of the group.
\<close>

lemma run_raft_cases:
  "run_raft C opt leader send summary o1 request s =
    (case to_region_id o1 of
       Inl _ \<Rightarrow> ([''unknown cluster''], [], s)
     | Inr region \<Rightarrow> ([], fst (snd (run_raft C opt leader send summary o1 request s)), snd (send (request\<lparr>rc_region_id := region\<rparr>) s)))"
  by (auto simp: run_raft_def prepare_phase_sends split: sum.split prod.split)

section \<open>Auto increment ids\<close>

record AtomicOptions =
  ao_servlet_id :: int
  ao_start_id :: int
  ao_count :: int
  ao_increment :: int
  ao_force :: int

definition atomic_request :: "OpType \<Rightarrow> AutoIncrementInfo \<Rightarrow> DiscoveryManagerRequest" where
  "atomic_request op info = (empty_request op)\<lparr>rq_auto_increment := Some info\<rparr>"

definition atomic_create_request :: "AtomicOptions \<Rightarrow> DiscoveryManagerRequest" where
  "atomic_create_request o1 = atomic_request OP_ADD_ID_FOR_AUTO_INCREMENT
     (empty_AutoIncrementInfo\<lparr>ai_servlet_id := ao_servlet_id o1, ai_start_id := Some (word_of_int (ao_start_id o1))\<rparr>)"

definition atomic_remove_request :: "AtomicOptions \<Rightarrow> DiscoveryManagerRequest" where
  "atomic_remove_request o1 = atomic_request OP_DROP_ID_FOR_AUTO_INCREMENT
     (empty_AutoIncrementInfo\<lparr>ai_servlet_id := ao_servlet_id o1\<rparr>)"

definition atomic_gen_request :: "AtomicOptions \<Rightarrow> DiscoveryManagerRequest" where
  "atomic_gen_request o1 =
     (let info = empty_AutoIncrementInfo\<lparr>ai_servlet_id := ao_servlet_id o1\<rparr>;
          info = (if ao_start_id o1 \<noteq> 0 then info\<lparr>ai_start_id := Some (word_of_int (ao_start_id o1))\<rparr> else info)
      in atomic_request OP_GEN_ID_FOR_AUTO_INCREMENT (info\<lparr>ai_count := word_of_int (ao_count o1)\<rparr>))"

definition atomic_update_request :: "AtomicOptions \<Rightarrow> DiscoveryManagerRequest" where
  "atomic_update_request o1 =
     (let info = empty_AutoIncrementInfo\<lparr>ai_servlet_id := ao_servlet_id o1\<rparr>;
          info = (if ao_start_id o1 \<noteq> 0 then info\<lparr>ai_start_id := Some (word_of_int (ao_start_id o1))\<rparr> else info);
          info = (if ao_increment o1 \<noteq> 0 then info\<lparr>ai_increment_id := Some (word_of_int (ao_increment o1))\<rparr> else info);
          info = (if ao_force o1 \<noteq> 0 then info\<lparr>ai_force := Some True\<rparr> else info)
      in atomic_request OP_UPDATE_FOR_AUTO_INCREMENT info)"

text \<open>The result names the operation of the response. No request of these is checked before it is sent.\<close>

definition run_atomic ::
  "cli_env \<Rightarrow> OptionContext \<Rightarrow> ('s \<Rightarrow> string) \<Rightarrow> 's message_sender \<Rightarrow> (DiscoveryManagerResponse \<Rightarrow> table option) \<Rightarrow>
     DiscoveryManagerRequest \<Rightarrow> 's \<Rightarrow> shown_row list \<times> 's" where
  "run_atomic C opt leader_of M summary request s =
     rpc_phase C (\<lambda>rq. shown_op C (rq_op_type rq)) (client_manager M None)
       (\<lambda>r s. (''result'', Sub (show_response C opt (leader_of s) (rs_errcode r)
                  (shown_op C (msg (op_unset (cli_client C)) (rs_op_type r))) (rs_errmsg r)), rs_errcode r = SUCCESS) #
          (if rs_errcode r = SUCCESS
           then (case summary r of Some t \<Rightarrow> [(''summary'', Sub t, True)] | None \<Rightarrow> []) else [])) request s"

definition id_range_table :: "AtomicOptions \<Rightarrow> DiscoveryManagerResponse \<Rightarrow> table" where
  "id_range_table o1 r =
     [text_row [''servlet id'', ''start id'', ''end id''],
      text_row [int_to_string (ao_servlet_id o1), int_to_string (uint (rs_start_id r)), int_to_string (uint (rs_end_id r))]]"

definition run_atomic_create_cmd where
  "run_atomic_create_cmd C opt leader_of M o1 s =
     run_atomic C opt leader_of M (\<lambda>r. Some (id_range_table o1 r)) (atomic_create_request o1) s"

definition run_atomic_remove_cmd where
  "run_atomic_remove_cmd C opt leader_of M o1 s = run_atomic C opt leader_of M (\<lambda>r. None) (atomic_remove_request o1) s"

text \<open>The count is printed before anything else.\<close>

definition run_atomic_gen_cmd where
  "run_atomic_gen_cmd C opt leader_of M o1 s =
     ([int_to_string (ao_count o1)],
      run_atomic C opt leader_of M (\<lambda>r. Some (id_range_table o1 r)) (atomic_gen_request o1) s)"

definition run_atomic_update_cmd where
  "run_atomic_update_cmd C opt leader_of M o1 s =
     run_atomic C opt leader_of M (\<lambda>r. Some
       [text_row [''servlet id'', ''start id''],
        text_row [int_to_string (ao_servlet_id o1), int_to_string (uint (rs_start_id r))]]) (atomic_update_request o1) s"

end
