(* ===== verification/CliConfig.thy ===== *)
theory CliConfig
  imports CliInstance ConfigClient
begin

text \<open>
  The commands on configurations (cli/config_cmd.h, cli/config_cmd.cc). They go through
  \<open>DiscoveryClient\<close>, whose sender is \<open>M\<close>; \<open>fs\<close> are the files. A command leaves its rows in a shower
  without an operation, only \<open>config get\<close> names one.
\<close>

record ConfigOptions =
  co_config_name :: string
  co_config_data :: string
  co_config_file :: string
  co_config_version :: string
  co_config_type :: string
  co_config_json :: string
  co_config_example :: string
  co_config_watch_list :: "string list"
  co_config_watch_dir :: string
  co_clean_local :: bool

section \<open>Requests\<close>

definition built_config :: "cli_env \<Rightarrow> files \<Rightarrow> ConfigOptions \<Rightarrow> unit result \<times> ConfigInfo" where
  "built_config C fs o1 =
     (let T = turbo (cli_client C); D = local_disk (cli_client C); info = ConfigInfoBuilder_set_info empty_ConfigInfo
      in if co_config_json o1 \<noteq> []
         then config_build_from_json_file (config_json (cli_client C)) D fs (co_config_json o1) info
         else if co_config_file o1 \<noteq> []
         then build_from_file_ss T D fs (co_config_name o1) (co_config_file o1) (co_config_version o1) (co_config_type o1) info
         else build_from_content_ss T (co_config_name o1) (co_config_data o1) (co_config_version o1) (co_config_type o1) info)"

definition make_config_create :: "cli_env \<Rightarrow> files \<Rightarrow> ConfigOptions \<Rightarrow> (OpType, DiscoveryManagerRequest) built" where
  "make_config_create C fs o1 =
     (let (rs, info) = built_config C fs o1
      in case rs of Inl e \<Rightarrow> Inl (Some OP_CREATE_CONFIG, e)
                  | Inr _ \<Rightarrow> Inr ((empty_request OP_CREATE_CONFIG)\<lparr>rq_config_info := Some info\<rparr>))"

definition make_config_list :: "(QueryOpType, DiscoveryQueryRequest) built" where
  "make_config_list = Inr (empty_query QUERY_LIST_CONFIG)"

definition make_config_list_version :: "ConfigOptions \<Rightarrow> (QueryOpType, DiscoveryQueryRequest) built" where
  "make_config_list_version o1 =
     Inr ((empty_query QUERY_LIST_CONFIG_VERSION)\<lparr>dq_config_name := Some (co_config_name o1)\<rparr>)"

definition make_config_get :: "cli_env \<Rightarrow> ConfigOptions \<Rightarrow> (QueryOpType, DiscoveryQueryRequest) built" where
  "make_config_get C o1 =
     (let request = (empty_query QUERY_GET_CONFIG)\<lparr>dq_config_name := Some (co_config_name o1)\<rparr>
      in if co_config_version o1 \<noteq> []
         then (case cli_string_to_version C (co_config_version o1) zero_Version of
                 (Inl e, v) \<Rightarrow> Inl (Some QUERY_GET_CONFIG, e)
               | (Inr _, v) \<Rightarrow> Inr (request\<lparr>dq_config_version := Some v\<rparr>))
         else Inr request)"

definition make_config_remove :: "cli_env \<Rightarrow> ConfigOptions \<Rightarrow> (OpType, DiscoveryManagerRequest) built" where
  "make_config_remove C o1 =
     (let rc = empty_ConfigInfo\<lparr>c_name := Some (co_config_name o1)\<rparr>;
          request = (\<lambda>rc. (empty_request OP_REMOVE_CONFIG)\<lparr>rq_config_info := Some rc\<rparr>)
      in if co_config_version o1 \<noteq> []
         then (case cli_string_to_version C (co_config_version o1) zero_Version of
                 (Inl e, v) \<Rightarrow> Inl (Some OP_REMOVE_CONFIG, e)
               | (Inr _, v) \<Rightarrow> Inr (request (rc\<lparr>c_version := Some v\<rparr>)))
         else Inr (request rc))"

section \<open>Tables\<close>

definition version_text :: "cli_env \<Rightarrow> Version \<Rightarrow> string" where
  "version_text C v = cli_fmt C ''{}.{}.{}'' [int_to_string (v_major v), int_to_string (v_minor v), int_to_string (v_patch v)]"

definition show_query_ops_config_list_response ::
  "(ConfigInfo list \<Rightarrow> ConfigInfo list) \<Rightarrow> DiscoveryQueryResponse \<Rightarrow> table" where
  "show_query_ops_config_list_response by_name res =
     text_row [''config size'', int_to_string (int (length (dr_config_infos res)))] #
     text_row [''number'', ''config''] #
     numbered_rows 0 (map (\<lambda>c. str_field (c_name c)) (by_name (dr_config_infos res)))"

definition show_query_ops_config_list_version_response :: "cli_env \<Rightarrow> DiscoveryQueryResponse \<Rightarrow> table" where
  "show_query_ops_config_list_version_response C res =
     text_row [''version num'', int_to_string (int (length (dr_config_infos res)))] #
     text_row [''number'', ''version''] #
     numbered_rows 0 (map (\<lambda>c. version_text C (version_field c)) (dr_config_infos res))"

text \<open>\<open>config_infos(0)\<close> of an answer without one is out of range: \<open>None\<close>.\<close>

definition show_query_ops_config_get_response ::
  "cli_env \<Rightarrow> ConfigOptions \<Rightarrow> DiscoveryQueryResponse \<Rightarrow> unit result \<Rightarrow> table option" where
  "show_query_ops_config_get_response C o1 res save_status =
     (case dr_config_infos res of
        [] \<Rightarrow> None
      | config # _ \<Rightarrow> Some (
          [text_row [''version'', version_text C (version_field config)],
           text_row [''type'', cli_config_type_name (c_type config)],
           text_row [''size'', int_to_string (int (length (str_field (c_content config))))],
           text_row [''time'', format_time C (c_time config)]] @
          (if co_config_file o1 \<noteq> []
           then [text_row [''file'', co_config_file o1],
                 text_row [''status'', case save_status of Inr _ \<Rightarrow> ''ok'' | Inl (_, message) \<Rightarrow> message]]
           else [])))"

section \<open>Commands through the client\<close>

definition run_client_manager ::
  "cli_env \<Rightarrow> OptionContext \<Rightarrow> ('s \<Rightarrow> string) \<Rightarrow> 's message_sender \<Rightarrow> (DiscoveryManagerResponse \<Rightarrow> bool) \<Rightarrow>
     (OpType, DiscoveryManagerRequest) built \<Rightarrow> 's \<Rightarrow> shown_row list \<times> 's" where
  "run_client_manager C opt leader_of M ok b s =
     prepare_phase (shown_op C) (rpc_phase C (\<lambda>rq. shown_op C (rq_op_type rq)) (client_manager M None)
       (\<lambda>r s. [(''result'', Sub (show_response C opt (leader_of s) (rs_errcode r)
                  (shown_op C (msg (op_unset (cli_client C)) (rs_op_type r))) (rs_errmsg r)), ok r)])) b s"

definition run_config_create_cmd where
  "run_config_create_cmd C opt leader_of M fs o1 s =
     run_client_manager C opt leader_of M (\<lambda>r. rs_errcode r = SUCCESS) (make_config_create C fs o1) s"

definition run_config_remove_cmd where
  "run_config_remove_cmd C opt leader_of M o1 s =
     run_client_manager C opt leader_of M (\<lambda>r. True) (make_config_remove C o1) s"

definition run_config_version_list_cmd where
  "run_config_version_list_cmd C opt leader_of M o1 s =
     run_client_query C opt leader_of M (\<lambda>r. Some (show_query_ops_config_list_version_response C r))
       (make_config_list_version o1) s"

definition run_config_list_cmd where
  "run_config_list_cmd C opt leader_of M by_name o1 s =
     (if co_config_name o1 \<noteq> [] then run_config_version_list_cmd C opt leader_of M o1 s
      else run_client_query C opt leader_of M (\<lambda>r. Some (show_query_ops_config_list_response by_name r)) make_config_list s)"

definition save_config_response :: "cli_env \<Rightarrow> string \<Rightarrow> DiscoveryQueryResponse \<Rightarrow> files \<Rightarrow> (unit result \<times> files) option" where
  "save_config_response C path res fs =
     (case write_file (local_disk (cli_client C)) path [] fs of
        (Inl e, fs) \<Rightarrow> Some (Inl e, fs)
      | (Inr _, fs) \<Rightarrow>
          (case dr_config_infos res of
             [] \<Rightarrow> None
           | config # _ \<Rightarrow> Some (write_pieces (local_disk (cli_client C)) path [str_field (c_content config)] fs)))"

text \<open>After the answer: the file is written and the summary says how that went.\<close>

definition got_config ::
  "cli_env \<Rightarrow> ConfigOptions \<Rightarrow> DiscoveryQueryResponse \<Rightarrow> files \<Rightarrow> cell \<times> files" where
  "got_config C o1 r fs =
     (case (if co_config_file o1 \<noteq> [] then save_config_response C (co_config_file o1) r fs else Some (Inr (), fs)) of
        None \<Rightarrow> (OutOfRange, fs)
      | Some (save_status, fs) \<Rightarrow>
          (case show_query_ops_config_get_response C o1 r save_status of
             None \<Rightarrow> (OutOfRange, fs) | Some t \<Rightarrow> (Sub t, fs)))"

definition run_config_get_cmd ::
  "cli_env \<Rightarrow> OptionContext \<Rightarrow> ('s \<Rightarrow> string) \<Rightarrow> 's message_sender \<Rightarrow> ConfigOptions \<Rightarrow> files \<Rightarrow> 's \<Rightarrow>
     shown_row list \<times> files \<times> 's" where
  "run_config_get_cmd C opt leader_of M o1 fs s =
     (case make_config_get C o1 of
        Inl (op, e) \<Rightarrow> ([(''prepare'', Sub (pre_send_error (Inl e) (map_option (shown_query C) op)), False)], fs, s)
      | Inr request \<Rightarrow>
          let (rs, s) = client_query M None request s; op = shown_query C (dq_op_type request)
          in case rs of
               Inl e \<Rightarrow> ([(''prepare'', Text ''ok'', True), (''rpc'', Sub (rpc_error_status C (Inl e) op), False)], fs, s)
             | Inr r \<Rightarrow>
                 let rows = [(''prepare'', Text ''ok'', True), (''rpc'', Text ''ok'', True),
                       (''result'', Sub (show_response C opt (leader_of s) (dr_errcode r) op (dr_errmsg r)), True)]
                 in if dr_errcode r \<noteq> SUCCESS then (rows, fs, s)
                    else let (c, fs) = got_config C o1 r fs in (rows @ [(''summary'', c, True)], fs, s))"

section \<open>Local commands\<close>

text \<open>The values of nlohmann's JSON the example is made of; \<open>json_text\<close> is its printer.\<close>

datatype json_value = JString string | JArray "json_value list" | JObject "(string \<times> json_value) list"

definition example_content :: json_value where
  "example_content = JObject [(''servlet'', JString ''sug''),
     (''zone'', JObject [(''name'', JString ''ea_search''), (''user'', JString ''jeff''),
       (''instance'', JArray [JString ''192.168.1.2'', JString ''192.168.1.3'', JString ''192.168.1.3''])])]"

definition make_example_config_dump :: "(json_value \<Rightarrow> string) \<Rightarrow> int \<Rightarrow> ConfigInfo \<Rightarrow> unit result \<times> ConfigInfo" where
  "make_example_config_dump json_text now req =
     (Inr (), req\<lparr>c_name := Some ''example'', c_time := sint (word_of_int now :: 32 word), c_type := CF_JSON,
        c_version := Some \<lparr>v_major = 1, v_minor = 2, v_patch = 3\<rparr>, c_content := Some (json_text example_content)\<rparr>)"

definition run_config_dump_cmd ::
  "cli_env \<Rightarrow> (json_value \<Rightarrow> string) \<Rightarrow> int \<Rightarrow> ConfigOptions \<Rightarrow> files \<Rightarrow> shown_row list \<times> files" where
  "run_config_dump_cmd C json_text now o1 fs =
     (let D = local_disk (cli_client C);
          bad = (\<lambda>stage e. (stage, Text (status_text C (Inl e)), False));
          ok = (\<lambda>stage. (stage, Text ''ok'', True));
          (file_path, rs, request) =
            (if co_config_example o1 \<noteq> [] then (co_config_example o1, make_example_config_dump json_text now empty_ConfigInfo)
             else (co_config_file o1, build_from_content_ss (turbo (cli_client C)) (co_config_name o1) (co_config_data o1)
               (co_config_version o1) (co_config_type o1) (ConfigInfoBuilder_set_info empty_ConfigInfo)))
      in case rs of Inl e \<Rightarrow> ([bad ''prepare'' e], fs) | Inr _ \<Rightarrow>
         (case write_file D file_path [] fs of
            (Inl e, fs) \<Rightarrow> ([ok ''prepare'', bad ''prepare file'' e], fs)
          | (Inr _, fs) \<Rightarrow>
         (case dump_proto (config_json (cli_client C)) request of
            Inl e \<Rightarrow> ([ok ''prepare'', ok ''prepare file'', bad ''convert'' e], fs)
          | Inr json \<Rightarrow>
         (case write_pieces D file_path [json] fs of
            (Inl e, fs) \<Rightarrow> ([ok ''prepare'', ok ''prepare file'', ok ''convert'', bad ''write'' e], fs)
          | (Inr _, fs) \<Rightarrow>
              ([ok ''prepare'', ok ''prepare file'', ok ''convert'', ok ''write'',
                (''summary'', Text (cli_fmt C ''success write to  file: {}'' [file_path]), True)], fs)))))"

text \<open>A read that fails is shown with the status of opening the file, which was well.\<close>

definition run_config_test_cmd :: "cli_env \<Rightarrow> ConfigOptions \<Rightarrow> files \<Rightarrow> string list \<times> shown_row list" where
  "run_config_test_cmd C o1 fs =
     (let D = local_disk (cli_client C); path = co_config_file o1; ok = (\<lambda>stage. (stage, Text ''ok'', True));
          bad = (\<lambda>stage rs. (stage, Text (status_text C rs), False));
          opened = (case fs path of None \<Rightarrow> Some (missing D) | Some _ \<Rightarrow> open_read_error D path)
      in if path = [] then ([], [(''prepare'', Text ''no input file'', False)])
         else case opened of Some e \<Rightarrow> ([], [bad ''open file'' (Inl e)]) | None \<Rightarrow>
         (case read_error D path of Some e \<Rightarrow> ([], [ok ''open file'', bad ''read file'' (Inr ())]) | None \<Rightarrow>
         (case config_build_from_json (config_json (cli_client C)) (msg [] (fs path)) (ConfigInfoBuilder_set_info empty_ConfigInfo) of
            (Inl e, request) \<Rightarrow> ([], [ok ''open file'', ok ''read file'', bad ''convert'' (Inl e)])
          | (Inr _, request) \<Rightarrow>
              ([cli_fmt C ''name size:{}'' [int_to_string (int (length (str_field (c_name request))))]],
               [ok ''open file'', ok ''read file'', ok ''convert'',
                (''result'', Sub
                  [text_row [''name'', str_field (c_name request)],
                   text_row [''version'', version_text C (version_field request)],
                   text_row [''type'', cli_config_type_name (c_type request)],
                   text_row [''size'', int_to_string (int (length (str_field (c_content request))))],
                   text_row [''time'', format_time C (c_time request)],
                   text_row [''content'', str_field (c_content request)]], True)]))))"

section \<open>Watching\<close>

text \<open>
  The watched configurations are saved below a directory, one file for each version, by callbacks of
  the background thread. The files are those of the process, \<open>cache_files\<close>.
\<close>

definition watch_file_name :: "cli_env \<Rightarrow> string \<Rightarrow> ConfigCallbackData \<Rightarrow> string" where
  "watch_file_name C basedir data =
     cli_fmt C ''{}/{}-{}.{}.{}.{}'' [basedir, cb_config_name data, int_to_string (mv_major (cb_new_version data)),
       int_to_string (mv_minor (cb_new_version data)), int_to_string (mv_patch (cb_new_version data)), cb_type data]"

definition save_config_to_file :: "cli_env \<Rightarrow> string \<Rightarrow> ConfigCallbackData \<Rightarrow> files \<Rightarrow> unit result \<times> files" where
  "save_config_to_file C basedir data fs =
     (let file_name = watch_file_name C basedir data
      in if fs file_name \<noteq> None
         then (Inl (AlreadyExists, cli_fmt C ''write file [{}] already exists'' [file_name]), fs)
         else write_file (local_disk (cli_client C)) file_name [cb_new_content data] fs)"

text \<open>One callback: the lines it prints and the client it leaves; \<open>what\<close> is its word for the news.\<close>

definition on_news :: "cli_env \<Rightarrow> string \<Rightarrow> string \<Rightarrow> ConfigCallbackData \<Rightarrow> config_client \<Rightarrow> string list \<times> config_client" where
  "on_news C what dir data s =
     (let line = (\<lambda>rs word. case rs of
            Inr _ \<Rightarrow> cli_fmt C (word @ '' '' @ what @ '':{} version:{}.{}.{} type:{}'')
              [cb_config_name data, int_to_string (mv_major (cb_new_version data)), int_to_string (mv_minor (cb_new_version data)),
               int_to_string (mv_patch (cb_new_version data)), cb_type data]
          | Inl e \<Rightarrow> status_text C (Inl e));
          (rs1, fs) = save_config_to_file C dir data (cache_files s);
          (rs2, s) = apply_config (cb_config_name data) (cb_new_version data) (s\<lparr>cache_files := fs\<rparr>)
      in ([line rs1 ''on'', line rs2 ''apply''], s))"

definition watch_callback :: "cli_env \<Rightarrow> string \<Rightarrow> notice \<Rightarrow> config_client \<Rightarrow> string list \<times> config_client" where
  "watch_callback C dir n s =
     (case n of NewConfig data \<Rightarrow> on_news C ''new config'' dir data s
              | NewVersion data \<Rightarrow> on_news C ''new config version'' dir data s)"

definition remove_all :: "string \<Rightarrow> files \<Rightarrow> files" where
  "remove_all dir fs = (\<lambda>p. if p = dir \<or> take (length dir + 1) p = dir @ ''/'' then None else fs p)"

fun watch_all :: "cli_env \<Rightarrow> string list \<Rightarrow> config_client \<Rightarrow> string list \<times> config_client" where
  "watch_all C [] s = ([], s)"
| "watch_all C (name # rest) s =
     (let (rs, s) = watch_config name \<lparr>on_new_config = True, on_new_version = True\<rparr> s;
          (lines, s) = watch_all C rest s
      in ((case rs of Inl e \<Rightarrow> [status_text C (Inl e)] | Inr _ \<Rightarrow> []) @ lines, s))"

text \<open>
  What the command does before it sleeps for good: \<open>there\<close> is whether the directory is there, \<open>cache\<close>
  what the client finds in its cache directory. An error of the client is printed and the command goes on.
\<close>

definition run_config_watch_cmd ::
  "cli_env \<Rightarrow> string \<Rightarrow> dir_view \<Rightarrow> bool \<Rightarrow> ConfigOptions \<Rightarrow> config_client \<Rightarrow> string list \<times> config_client" where
  "run_config_watch_cmd C flags_cache_dir cache there o1 s =
     (let dir = co_config_watch_dir o1;
          (rs, s) = config_client_init (cli_client C) flags_cache_dir cache s;
          cleaned = (if co_clean_local o1 then [cli_fmt C ''remove local config cache dir:{}'' [dir]] else []);
          s = (if co_clean_local o1 then s\<lparr>cache_files := remove_all dir (cache_files s)\<rparr> else s);
          s = (if co_clean_local o1 \<or> \<not> there then s\<lparr>made_dirs := made_dirs s @ [dir]\<rparr> else s);
          failed = (case rs of Inl e \<Rightarrow> [cli_fmt C ''watch error:{}'' [status_text C (Inl e)]] | Inr _ \<Rightarrow> []);
          (lines, s) = watch_all C (co_config_watch_list o1) s
      in (cleaned @ failed @ lines, s))"

end
