(* ===== verification/CliProperties.thy ===== *)
theory CliProperties
  imports CliRaft CliConfig ClientProperties
begin

text \<open>
  What the command line promises, with the server behind it: the requests it builds are the ones the
  server submits, an assigned right is held, a removed instance stays, a raft group does not grow, a
  watched configuration is saved and applied.
\<close>

section \<open>The requests of the commands\<close>

text \<open>
  The requests a command can send, with the group each is for. Removing an instance has a case of its own
  below.
\<close>

inductive cli_request :: "cli_env \<Rightarrow> raft_group \<Rightarrow> DiscoveryManagerRequest \<Rightarrow> bool" for C where
  ns_create: "make_namespace_create C o1 = Inr rq \<Longrightarrow> cli_request C MetaGroup rq"
| ns_remove: "make_namespace_remove C o1 = Inr rq \<Longrightarrow> cli_request C MetaGroup rq"
| ns_modify: "make_namespace_modify C o1 = Inr rq \<Longrightarrow> cli_request C MetaGroup rq"
| zone_create: "make_zone_create C o2 = Inr rq \<Longrightarrow> cli_request C MetaGroup rq"
| zone_remove: "make_zone_remove C o2 = Inr rq \<Longrightarrow> cli_request C MetaGroup rq"
| zone_modify: "make_zone_modify C o2 = Inr rq \<Longrightarrow> cli_request C MetaGroup rq"
| servlet_create: "make_servlet_create C o3 = Inr rq \<Longrightarrow> cli_request C MetaGroup rq"
| servlet_remove: "make_servlet_remove C o3 = Inr rq \<Longrightarrow> cli_request C MetaGroup rq"
| servlet_modify: "make_servlet_modify C o3 = Inr rq \<Longrightarrow> cli_request C MetaGroup rq"
| instance_add: "make_discovery_add_instance J C fs now o4 = Inr rq \<Longrightarrow> io_json_file o4 = [] \<Longrightarrow> cli_request C MetaGroup rq"
| instance_update: "make_discovery_update_instance J C fs now o4 = Inr rq \<Longrightarrow> io_json_file o4 = [] \<Longrightarrow> cli_request C MetaGroup rq"
| user_create: "make_user_create C o5 = Inr rq \<Longrightarrow> cli_request C MetaGroup rq"
| user_remove: "make_user_remove C o5 = Inr rq \<Longrightarrow> cli_request C MetaGroup rq"
| user_assign: "make_user_add_privilege C o5 = Inr rq \<Longrightarrow> cli_request C MetaGroup rq"
| user_revoke: "make_user_remove_privilege C o5 = Inr rq \<Longrightarrow> cli_request C MetaGroup rq"
| cfg_create: "make_config_create C fs o6 = Inr rq \<Longrightarrow> cli_request C MetaGroup rq"
| cfg_remove: "make_config_remove C o6 = Inr rq \<Longrightarrow> cli_request C MetaGroup rq"
| id_create: "cli_request C AutoIncrGroup (atomic_create_request o7)"
| id_remove: "cli_request C AutoIncrGroup (atomic_remove_request o7)"
| id_gen: "cli_request C AutoIncrGroup (atomic_gen_request o7)"
| id_update: "cli_request C AutoIncrGroup (atomic_update_request o7)"

lemma allowed_clean: "set n \<subseteq> set AllowChar \<Longrightarrow> clean_name n"
  by (auto simp: clean_name_def AllowChar_def)

lemma clean_empty_name [simp]: "clean_name []"
  by (simp add: clean_name_def)

text \<open>What the dispatch asks of a request, the password of a new user included.\<close>

definition dispatched :: "raft_group \<Rightarrow> DiscoveryManagerRequest \<Rightarrow> bool" where
  "dispatched g rq \<longleftrightarrow> well_formed g rq \<and>
     (rq_op_type rq = OP_CREATE_USER \<longrightarrow> (\<exists>u. rq_user_privilege rq = Some u \<and> up_password u \<noteq> None))"

lemma dispatched_submitted:
  assumes "dispatched g rq" "init_success V" "leads V g" "snd (serialize V rq)"
  shows "discovery_manager V rq r = Submitted g (fst (serialize V rq)) r"
  using assms
  by (cases "rq_op_type rq")
    (auto simp: dispatched_def well_formed_def dispatch_defs base_process_def Let_def split_def split: if_splits)

lemma request_parts [simp]:
  "rq_op_type (empty_request op) = op" "rq_namespace_info (empty_request op) = None"
  by (simp_all add: empty_request_def)

lemma dispatched_simps [simp]:
  "op \<in> {OP_CREATE_NAMESPACE, OP_MODIFY_NAMESPACE, OP_DROP_NAMESPACE} \<Longrightarrow>
     dispatched MetaGroup ((empty_request op)\<lparr>rq_namespace_info := Some n\<rparr>)"
  "op \<in> {OP_CREATE_ZONE, OP_MODIFY_ZONE, OP_DROP_ZONE} \<Longrightarrow> dispatched MetaGroup ((empty_request op)\<lparr>rq_zone_info := Some z\<rparr>)"
  "op \<in> {OP_CREATE_SERVLET, OP_MODIFY_SERVLET, OP_DROP_SERVLET} \<Longrightarrow>
     dispatched MetaGroup ((empty_request op)\<lparr>rq_servlet_info := Some v\<rparr>)"
  "op \<in> {OP_ADD_INSTANCE, OP_UPDATE_INSTANCE} \<Longrightarrow> instance_named i \<Longrightarrow>
     dispatched MetaGroup ((empty_request op)\<lparr>rq_instance_info := Some i\<rparr>)"
  "op \<in> {OP_CREATE_USER, OP_DROP_USER} \<Longrightarrow> up_password u \<noteq> None \<Longrightarrow>
     dispatched MetaGroup ((empty_request op)\<lparr>rq_user_privilege := Some u\<rparr>)"
  "op \<in> {OP_ADD_PRIVILEGE, OP_DROP_PRIVILEGE} \<Longrightarrow> dispatched MetaGroup ((empty_request op)\<lparr>rq_user_privilege := Some u\<rparr>)"
  "op \<in> {OP_CREATE_CONFIG, OP_REMOVE_CONFIG} \<Longrightarrow> dispatched MetaGroup ((empty_request op)\<lparr>rq_config_info := Some c\<rparr>)"
  "op \<in> {OP_GEN_ID_FOR_AUTO_INCREMENT, OP_UPDATE_FOR_AUTO_INCREMENT, OP_ADD_ID_FOR_AUTO_INCREMENT, OP_DROP_ID_FOR_AUTO_INCREMENT} \<Longrightarrow>
     dispatched AutoIncrGroup ((empty_request op)\<lparr>rq_auto_increment := Some a\<rparr>)"
  by (auto simp: dispatched_def well_formed_def)

text \<open>What each family of builders makes.\<close>

lemma built_namespace:
  "make_namespace_create C o1 = Inr rq \<Longrightarrow> dispatched MetaGroup rq \<and> clean_request rq"
  "make_namespace_remove C o1 = Inr rq \<Longrightarrow> dispatched MetaGroup rq \<and> clean_request rq"
  "make_namespace_modify C o1 = Inr rq \<Longrightarrow> dispatched MetaGroup rq \<and> clean_request rq"
  by (auto simp: cli_schema_builders and_then_Inr cli_check_name_def check_valid_name_type_ok clean_request_def
      empty_NameSpaceInfo_def allowed_clean)

lemma clean_other [simp]: "rq_namespace_info rq = None \<Longrightarrow> clean_request rq"
  by (simp add: clean_request_def empty_NameSpaceInfo_def)

lemma built_zone_request:
  "make_zone op C o2 = Inr rq \<Longrightarrow> op \<in> {OP_CREATE_ZONE, OP_MODIFY_ZONE, OP_DROP_ZONE} \<Longrightarrow> dispatched MetaGroup rq \<and> clean_request rq"
  by (auto simp: make_zone_def and_then_Inr)

lemma built_servlet_request:
  "make_servlet op C o3 = Inr rq \<Longrightarrow> op \<in> {OP_CREATE_SERVLET, OP_MODIFY_SERVLET, OP_DROP_SERVLET} \<Longrightarrow>
     dispatched MetaGroup rq \<and> clean_request rq"
  by (auto simp: make_servlet_def and_then_Inr)

lemma built_instance_request:
  "make_instance_full op J C fs now o4 = Inr rq \<Longrightarrow> io_json_file o4 = [] \<Longrightarrow> op \<in> {OP_ADD_INSTANCE, OP_UPDATE_INSTANCE} \<Longrightarrow>
     dispatched MetaGroup rq \<and> clean_request rq"
  by (auto simp: make_instance_full_def and_then_Inr instance_named_def Let_def)

lemma built_account_request:
  "make_user_account op C o5 = Inr rq \<Longrightarrow> op \<in> {OP_CREATE_USER, OP_DROP_USER} \<Longrightarrow> dispatched MetaGroup rq \<and> clean_request rq"
  by (auto simp: make_user_account_def and_then_Inr)

lemma built_privilege_request:
  "make_user_privilege op C o5 = Inr rq \<Longrightarrow> op \<in> {OP_ADD_PRIVILEGE, OP_DROP_PRIVILEGE} \<Longrightarrow>
     dispatched MetaGroup rq \<and> clean_request rq"
  by (auto simp: make_user_privilege_def and_then_Inr)

lemma built_config_request:
  "make_config_create C fs o6 = Inr rq \<Longrightarrow> dispatched MetaGroup rq \<and> clean_request rq"
  "make_config_remove C o6 = Inr rq \<Longrightarrow> dispatched MetaGroup rq \<and> clean_request rq"
  by (auto simp: make_config_create_def make_config_remove_def Let_def split: prod.splits sum.splits if_splits)

lemma built_atomic_request:
  "dispatched AutoIncrGroup (atomic_create_request o7) \<and> clean_request (atomic_create_request o7)"
  "dispatched AutoIncrGroup (atomic_remove_request o7) \<and> clean_request (atomic_remove_request o7)"
  "dispatched AutoIncrGroup (atomic_gen_request o7) \<and> clean_request (atomic_gen_request o7)"
  "dispatched AutoIncrGroup (atomic_update_request o7) \<and> clean_request (atomic_update_request o7)"
  by (simp_all add: atomic_create_request_def atomic_remove_request_def atomic_gen_request_def atomic_update_request_def
      atomic_request_def Let_def)

lemma cli_request_dispatched: "cli_request C g rq \<Longrightarrow> dispatched g rq \<and> clean_request rq"
  by (induction rule: cli_request.induct)
    (simp_all add: make_zone_create_def make_zone_remove_def make_zone_modify_def make_servlet_create_def make_servlet_remove_def
      make_servlet_modify_def make_discovery_add_instance_def make_discovery_update_instance_def make_user_create_def
      make_user_remove_def make_user_add_privilege_def make_user_remove_privilege_def built_namespace built_zone_request
      built_servlet_request built_instance_request built_account_request built_privilege_request built_config_request
      built_atomic_request)


text \<open>The example: a namespace by name.\<close>

definition demo_cli :: cli_env where
  "demo_cli = \<lparr>cli_client = demo_client, shown_op = (\<lambda>_. (0, [])), shown_query = (\<lambda>_. (0, [])), shown_raft = (\<lambda>_. (0, [])),
     err_number = (\<lambda>_. 0), status_number = (\<lambda>_. 0), rw_name = (\<lambda>_. []), rw_default = 0, rw_read = 1, rw_write = 2,
     status_name = (\<lambda>_. []), format_time = int_to_string, status_text = (\<lambda>_. []), split_parts = split_dot []\<rparr>"

lemma demo_cli_name [simp]: "cli_check_name demo_cli n = Inr () \<longleftrightarrow> set n \<subseteq> set AllowChar"
  by (simp add: cli_check_name_def check_valid_name_type_ok)

lemma demo_letters: "{CHR ''n'', CHR ''z'', CHR ''s'', CHR ''u''} \<subseteq> set AllowChar"
  by (simp add: AllowChar_def)

definition demo_ns_options :: NameSpaceOptions where
  "demo_ns_options = \<lparr>no_namespace_name = ''n'', no_namespace_quota = 7\<rparr>"


section \<open>What is shown is an answer\<close>

context sender_contract
begin

lemma manager_result_shown:
  assumes "run_manager C opt M b s = (rows, s')" "(''result'', c, ok) \<in> set rows"
  shows "\<exists>rq r. b = Inr rq \<and> managed rq r \<and>
    c = Sub (show_response_server C opt (oc_router_server opt) (rs_errcode r) (shown_op C (rq_op_type rq)) (rs_errmsg r))"
proof (cases b)
  case (Inl e)
  with assms show ?thesis by (cases e) (auto simp: run_manager_def prepare_phase_def)
next
  case (Inr rq)
  obtain x s1 where x: "send_manager M None rq s = (x, s1)" by fastforce
  with assms Inr show ?thesis
    by (cases x) (auto simp: run_manager_def prepare_phase_def rpc_phase_def manager_rows_def dest: manager_answer)
qed

lemma query_result_shown:
  assumes "run_query C opt M summary b s = (rows, s')" "(''summary'', c, ok) \<in> set rows"
  shows "\<exists>q qr. b = Inr q \<and> queried q qr \<and> dr_errcode qr = SUCCESS \<and> c = Sub (summary qr)"
proof (cases b)
  case (Inl e)
  with assms show ?thesis by (cases e) (auto simp: run_query_def prepare_phase_def)
next
  case (Inr q)
  obtain x s1 where x: "send_query M None q s = (x, s1)" by fastforce
  with assms Inr show ?thesis
    by (cases x) (auto simp: run_query_def prepare_phase_def rpc_phase_def query_rows_def dest: query_answered split: if_splits)
qed

end

lemma interact_answered:
  assumes "fst (interact_send T (call rq) opt) = Inr r"
  shows "answered_by call rq r"
proof -
  obtain x evs where run: "interact_send T (call rq) opt = (x, evs)" by fastforce
  with assms have "x = Inr r" by simp
  with router_loop_result [OF run [unfolded interact_send_def]] show ?thesis by (auto simp: answered_by_def)
qed

interpretation interact: sender_contract "interact_message_sender T opt mcall qcall" "answered_by mcall" "answered_by qcall"
  for T opt mcall qcall
  by unfold_locales (auto simp: interact_message_sender_def intro: interact_answered)

section \<open>Removing an instance\<close>

text \<open>
  The command that removes an instance by its options never removes one: it leaves out the
  environment, which the server requires, so the server keeps its state, and a leader that is asked
  answers that a name is missing, though all names are there.
\<close>

lemma cli_remove_instance_refused:
  assumes "R = direct_sender E parse V Q W" "io_json_file o4 = []" "init_success V" "leads V MetaGroup"
    "\<forall>n \<in> {io_namespace_name o4, io_zone_name o4, io_servlet_name o4}. set n \<subseteq> set AllowChar"
  shows "run_discovery_remove_instance_cmd C opt R J fs o4 s =
    ([(''prepare'', Text ''ok'', True), (''rpc'', Text ''ok'', True),
      (''result'', Sub (show_response_server C opt (oc_router_server opt) INPUT_PARAM_ERROR (shown_op C OP_DROP_INSTANCE)
         ''no required namespace zone or servlet info''), True)], s)"
proof -
  let ?i = "empty_ServletInstance\<lparr>si_namespace_name := Some (io_namespace_name o4), si_zone_name := Some (io_zone_name o4),
    si_servlet_name := Some (io_servlet_name o4), si_address := Some (io_address o4)\<rparr>"
  let ?rq = "(empty_request OP_DROP_INSTANCE)\<lparr>rq_instance_info := Some ?i\<rparr>"
  have i: "si_env ?i = None" by (simp add: empty_ServletInstance_def)
  have "check_names C [io_namespace_name o4, io_zone_name o4, io_servlet_name o4] = Inr ()"
    using assms(5) unfolding check_names_ok by simp
  then have built: "make_discovery_remove_instance J C fs o4 = Inr ?rq"
    using assms(2) by (simp only: make_discovery_remove_instance_def) (simp add: and_then_def with_op_def)
  have "serve_manager E parse V ?rq s =
      (Answered (error_set_response empty_response INPUT_PARAM_ERROR ''no required namespace zone or servlet info'' OP_DROP_INSTANCE), s)"
    using assms(3,4) i by (simp add: serve_manager_def dispatch_defs instance_named_def Let_def)
  then have "send_manager R None ?rq s =
      (Inr (error_set_response empty_response INPUT_PARAM_ERROR ''no required namespace zone or servlet info'' OP_DROP_INSTANCE), s)"
    by (simp add: assms(1) direct_sender_def answer_ok_def error_set_response_def)
  then show ?thesis
    by (simp add: run_discovery_remove_instance_cmd_def run_manager_def built prepare_phase_def rpc_phase_def manager_rows_def
        error_set_response_def)
qed

definition demo_instance_options :: InstanceOptions where
  "demo_instance_options = \<lparr>io_namespace_name = ''n'', io_servlet_name = ''s'', io_zone_name = ''z'', io_env = ''e'', io_color = [],
     io_status = [], io_address = ''a'', io_dump_file = [], io_json_file = [], io_quiet = True, io_weight = -1\<rparr>"

lemma cli_remove_instance_refused_witness:
  "snd (run_discovery_remove_instance_cmd demo_cli default_options (demo_direct (\<lambda>d. None) demo_E) (table_json []) Map.empty
      demo_instance_options demo_state4) = demo_state4"
  using demo_letters
    cli_remove_instance_refused [OF demo_direct_def, of demo_instance_options demo_cli default_options "\<lambda>d. None" demo_E "table_json []"
      Map.empty demo_state4]
  by (simp add: demo_instance_options_def demo_view_def)

section \<open>Raft groups\<close>

lemma parse_peers_length: "parse_peers f ss = Some ps \<Longrightarrow> length ps = length ss"
  by (induction ss arbitrary: ps) (auto split: option.splits)

text \<open>
  C32: \<open>raft set\<close> cannot do what it is for: it files the new peers under the old ones, so the server is
  asked for a group without peers. Not forced, the request is refused (at least two old peers, no new
  one), and the node is asked for nothing; forced, a node is asked to continue with an empty
  configuration.
\<close>

lemma raft_set_never_adds:
  assumes "ro_old_peers o1 \<noteq> []" "ro_new_peers o1 \<noteq> []"
    "server_raft_control leader Cf V ((set_request o1)\<lparr>rc_region_id := region\<rparr>) empty_raft_response = (g, out)"
  shows "case out of
      Now r asked \<Rightarrow>
        if ro_force o1
        then asked = (case g of None \<Rightarrow> [] | Some grp \<Rightarrow>
               if parse_peers (nv_parse (V grp)) (ro_old_peers o1 @ ro_new_peers o1) = None then [] else [ResetPeers []])
        else rr_errcode r \<noteq> SUCCESS \<and> asked = []
    | Later r call \<Rightarrow> False"
proof -
  let ?rq = "(set_request o1)\<lparr>rc_region_id := region\<rparr>"
  let ?r = "empty_raft_response\<lparr>rr_region_id := region\<rparr>"
  have rq: "rc_op_type ?rq = SetPeer" "rc_new_peers ?rq = []" "rc_old_peers ?rq = ro_old_peers o1 @ ro_new_peers o1"
    "rc_force ?rq = (if ro_force o1 then Some True else None)" "rc_region_id ?rq = region"
    by (simp_all add: set_request_eq empty_raft_request_def)
  have len: "2 \<le> length (rc_old_peers ?rq)" using assms(1,2) unfolding rq(3) by (cases "ro_old_peers o1"; cases "ro_new_peers o1") auto
  have set: "case set_peer Cf N ?rq ?r of
      Now r asked \<Rightarrow>
        if ro_force o1 then asked = (if parse_peers (nv_parse N) (rc_old_peers ?rq) = None then [] else [ResetPeers []])
        else rr_errcode r \<noteq> SUCCESS \<and> asked = []
    | Later r call \<Rightarrow> False" for N
  proof (cases "parse_peers (nv_parse N) (rc_old_peers ?rq)")
    case None
    then show ?thesis by (simp add: set_peer_def raft_answer_def)
  next
    case (Some old)
    with len have "2 \<le> length old" by (simp add: parse_peers_length)
    then have n: "length old \<noteq> 1" "0 \<noteq> length old + 1" by auto
    show ?thesis
      using Some n by (auto simp: set_peer_def rq(2,4) raft_answer_def Let_def split: prod.splits)
  qed
  show ?thesis
  proof (cases g)
    case None
    with assms(3) show ?thesis by (auto simp: server_raft_control_def raft_answer_def Let_def split: if_splits)
  next
    case (Some grp)
    with assms(3) have "out = base_raft_control (leader grp) Cf (V grp) ?rq empty_raft_response"
      by (auto simp: server_raft_control_def split: if_splits)
    then have "out = set_peer Cf (V grp) ?rq ?r \<or> \<not> ro_force o1 \<and> (\<exists>r. out = Now r [] \<and> rr_errcode r \<noteq> SUCCESS)"
      by (auto simp: base_raft_control_def common_raft_control_def rq(1,4,5) raft_answer_def)
    then show ?thesis
    proof
      assume eq: "out = set_peer Cf (V grp) ?rq ?r"
      show ?thesis using set [of "V grp"] Some unfolding eq [symmetric] rq(3) by (cases out) auto
    qed auto
  qed
qed

definition demo_raft_options :: "bool \<Rightarrow> RaftOptions" where
  "demo_raft_options force = \<lparr>ro_raft_group = [], ro_opt_peer = [], ro_cluster = ''discovery'', ro_new_leader = [],
     ro_vote_time_ms = 0, ro_old_peers = [''a''], ro_new_peers = [''a'', ''b''], ro_discovery_server = [],
     ro_force = force\<rparr>"

text \<open>Forced, the node of the example is asked to go on without peers.\<close>

lemma raft_set_never_adds_witness:
  "\<exists>r. server_raft_control (\<lambda>_. True) list_conf (\<lambda>_. demo_node) ((set_request (demo_raft_options True))\<lparr>rc_region_id := 0\<rparr>)
     empty_raft_response = (Some MetaGroup, Now r [ResetPeers []])"
proof -
  let ?run = "server_raft_control (\<lambda>_. True) list_conf (\<lambda>_. demo_node) ((set_request (demo_raft_options True))\<lparr>rc_region_id := 0\<rparr>)
     empty_raft_response"
  obtain out where out: "?run = (Some MetaGroup, out)" by (simp add: server_raft_control_def)
  from raft_set_never_adds [OF _ _ this] show ?thesis
    unfolding out by (cases out) (simp_all add: demo_raft_options_def demo_node_def)
qed

section \<open>Assigning rights\<close>

definition granted_as :: "bool \<Rightarrow> int \<Rightarrow> int option \<Rightarrow> int" where
  "granted_as force w old = (case old of None \<Rightarrow> w | Some r \<Rightarrow> if force then w else max w r)"

lemma granted_as_again [simp]: "granted_as f w (Some (granted_as f w x)) = granted_as f w x"
  by (simp add: granted_as_def split: option.split)

text \<open>Grants of one right to one target do what the first does.\<close>

lemma fold_grant_same:
  assumes "\<forall>p \<in> set ps. target p = i \<longrightarrow> rw p = w \<and> force p = f"
  shows "fold (grant target rw force) ps g i =
    (if \<exists>p \<in> set ps. target p = i then Some (granted_as f w (g i)) else g i)"
  using assms
proof (induction ps arbitrary: g)
  case (Cons p ps)
  then show ?case
    by (cases "target p = i") (auto simp: grant_def granted_as_def split: option.splits if_splits)
qed simp

lemma check_zones_names:
  assumes "check_and_get_for_privilege u s = (0, u')"
  shows "map (\<lambda>p. p\<lparr>pz_zone_id := 0\<rparr>) (up_privilege_zone u') = map (\<lambda>p. p\<lparr>pz_zone_id := 0\<rparr>) (up_privilege_zone u)"
  using assms check_privilege_zones_ok [of s "up_namespace_name u" "up_privilege_zone u"]
  by (auto simp: check_and_get_for_privilege_def Let_def split: if_splits prod.splits)

text \<open>The zones of a request that was checked: one id for each name, and the right the options give it.\<close>

lemma checked_zones:
  assumes "zone_registry_ok s" "check_and_get_for_privilege u s = (0, u')" "up_privilege_zone u = built_zones C o1"
    "ns = up_namespace_name u"
  shows "z \<in> set (uo_user_wz o1) \<union> set (uo_user_rz o1) \<Longrightarrow>
      \<exists>i. zone_id_map s (make_zone_key ns z) = Some i \<and> (\<exists>p \<in> set (up_privilege_zone u'). pz_zone_id p = i)"
    "p \<in> set (up_privilege_zone u') \<Longrightarrow> zone_id_map s (make_zone_key ns z) = Some (pz_zone_id p) \<Longrightarrow>
      z \<in> set (uo_user_wz o1) \<union> set (uo_user_rz o1) \<and> pz_force p = uo_force o1 \<and>
      pz_zone_rw p = Some (if z \<in> set (uo_user_wz o1) then rw_write C else rw_read C)"
    "p \<in> set (up_privilege_zone u') \<Longrightarrow>
      \<exists>z \<in> set (uo_user_wz o1) \<union> set (uo_user_rz o1). zone_id_map s (make_zone_key ns z) = Some (pz_zone_id p)"
proof -
  let ?clear = "\<lambda>p. p\<lparr>pz_zone_id := 0\<rparr>"
  have resolved: "\<forall>p \<in> set (up_privilege_zone u'). zone_id_map s (make_zone_key ns (pz_zone p)) = Some (pz_zone_id p)"
    using check_and_get_for_privilege_ok(2) [OF assms(2)] assms(4) by (auto simp: list_all_iff zone_resolved_def)
  have "?clear ` set (up_privilege_zone u') = ?clear ` set (built_zones C o1)"
    using arg_cong [OF check_zones_names [OF assms(2)], of set] assms(3) by simp
  moreover have "?clear ` set (built_zones C o1) = set (built_zones C o1)"
  proof -
    have "\<forall>q \<in> set (built_zones C o1). ?clear q = q" unfolding built_zones_set by (auto simp: zone_right_def)
    then show ?thesis by (simp add: image_def)
  qed
  ultimately have same_set: "?clear ` set (up_privilege_zone u') = set (built_zones C o1)" by simp
  have built: "?clear p \<in> set (built_zones C o1)" if "p \<in> set (up_privilege_zone u')" for p
    using that same_set by blast
  have parts: "pz_zone p \<in> set (uo_user_wz o1) \<union> set (uo_user_rz o1) \<and> pz_force p = uo_force o1 \<and>
      pz_zone_rw p = Some (if pz_zone p \<in> set (uo_user_wz o1) then rw_write C else rw_read C)"
    if "p \<in> set (up_privilege_zone u')" for p
    using built [OF that] unfolding built_zones_set by (cases p) (auto simp: zone_right_def)
  have key: "z = pz_zone p"
    if "p \<in> set (up_privilege_zone u')" "zone_id_map s (make_zone_key ns z) = Some (pz_zone_id p)" for p z
    using registry_ok_inj [OF assms(1) [unfolded zone_registry_ok_def] that(2)] resolved that(1)
    by (auto simp: make_zone_key_def)
  show "\<exists>i. zone_id_map s (make_zone_key ns z) = Some i \<and> (\<exists>p \<in> set (up_privilege_zone u'). pz_zone_id p = i)"
    if "z \<in> set (uo_user_wz o1) \<union> set (uo_user_rz o1)" for z
  proof -
    have "\<exists>q \<in> set (built_zones C o1). pz_zone q = z"
      using that unfolding built_zones_set bex_Un by (simp add: zone_right_def) blast
    then obtain p where "p \<in> set (up_privilege_zone u')" "pz_zone p = z"
      unfolding same_set [symmetric] by auto
    with resolved show ?thesis by blast
  qed
  show "z \<in> set (uo_user_wz o1) \<union> set (uo_user_rz o1) \<and> pz_force p = uo_force o1 \<and>
      pz_zone_rw p = Some (if z \<in> set (uo_user_wz o1) then rw_write C else rw_read C)"
    if "p \<in> set (up_privilege_zone u')" "zone_id_map s (make_zone_key ns z) = Some (pz_zone_id p)" for p z
    using parts [OF that(1)] key [OF that] by simp
  show "\<exists>z \<in> set (uo_user_wz o1) \<union> set (uo_user_rz o1). zone_id_map s (make_zone_key ns z) = Some (pz_zone_id p)"
    if "p \<in> set (up_privilege_zone u')" for p
    using parts [OF that] resolved that by blast
qed

lemma checked_zone_grants:
  assumes "zone_registry_ok s" "check_and_get_for_privilege u s = (0, u')" "up_privilege_zone u = built_zones C o1"
  shows "zone_grants E (merged_privilege E u' m) i =
    (if \<exists>z \<in> set (uo_user_wz o1). zone_id_map s (make_zone_key (up_namespace_name u) z) = Some i
     then Some (granted_as (uo_force o1) (rw_write C) (zone_grants E m i))
     else if \<exists>z \<in> set (uo_user_rz o1). zone_id_map s (make_zone_key (up_namespace_name u) z) = Some i
     then Some (granted_as (uo_force o1) (rw_read C) (zone_grants E m i))
     else zone_grants E m i)"
proof -
  note c = checked_zones [OF assms refl]
  let ?id = "\<lambda>z. zone_id_map s (make_zone_key (up_namespace_name u) z)"
  have all: "zone_grants E (merged_privilege E u' m) i =
      (if \<exists>p \<in> set (up_privilege_zone u'). pz_zone_id p = i then Some (granted_as (uo_force o1) w (zone_grants E m i))
       else zone_grants E m i)"
    if "\<forall>p \<in> set (up_privilege_zone u'). pz_zone_id p = i \<longrightarrow> zone_rw E p = w \<and> pz_force p = uo_force o1" for w
    unfolding merged_grants(1) by (rule fold_grant_same [OF that])
  have listed: "\<exists>p \<in> set (up_privilege_zone u'). pz_zone_id p = i"
    if "z \<in> set (uo_user_wz o1) \<union> set (uo_user_rz o1)" "?id z = Some i" for z
    using c(1) [OF that(1)] that(2) by auto
  have right: "\<forall>p \<in> set (up_privilege_zone u'). pz_zone_id p = i \<longrightarrow>
      zone_rw E p = (if z \<in> set (uo_user_wz o1) then rw_write C else rw_read C) \<and> pz_force p = uo_force o1"
    if "?id z = Some i" for z
    using c(2) that by (auto simp: zone_rw_def)
  consider (w) z where "z \<in> set (uo_user_wz o1)" "?id z = Some i"
    | (r) z where "z \<in> set (uo_user_rz o1)" "?id z = Some i" "\<not> (\<exists>z \<in> set (uo_user_wz o1). ?id z = Some i)"
    | (none) "\<not> (\<exists>z \<in> set (uo_user_wz o1) \<union> set (uo_user_rz o1). ?id z = Some i)" by blast
  then show ?thesis
  proof cases
    case w
    with all [OF right [OF w(2)]] listed [of z] show ?thesis by auto
  next
    case r
    then have "z \<notin> set (uo_user_wz o1)" by blast
    with r all [OF right [OF r(2)]] listed [of z] show ?thesis by auto
  next
    case none
    with c(3) have "\<not> (\<exists>p \<in> set (up_privilege_zone u'). pz_zone_id p = i)" by blast
    with none all [of 0] show ?thesis by auto
  qed
qed

text \<open>A change of privileges that the server reports as done, seen from the sender.\<close>

lemma direct_add_privilege:
  assumes "env_ok E" "send_manager (direct_sender E parse V Q W) None rq s = (Inr r, s')" "rs_errcode r = SUCCESS"
    "rq = (empty_request OP_ADD_PRIVILEGE)\<lparr>rq_user_privilege := Some u\<rparr>" "parse (fst (serialize V rq)) = Some rq"
  shows "\<exists>u' m. check_and_get_for_privilege u s = (0, u') \<and> user_privilege s (up_username u) = Some m \<and>
    user_privilege s' (up_username u) = Some (merged_privilege E u' m)"
proof -
  from direct_sender_success [OF assms(2,3)]
  have run: "commit_entry E parse (fst (serialize V rq)) (Some empty_response) s = (Some r, s')" by blast
  obtain dn s1 where step: "add_privilege E rq (Some (empty_response\<lparr>rs_op_type := Some OP_ADD_PRIVILEGE\<rparr>)) s = (dn, s1)" by fastforce
  have "rq_op_type rq = OP_ADD_PRIVILEGE" by (simp add: assms(4))
  with run step have dn: "dn = Some r" "s' = s1\<lparr>applied_index := applied_index s + 1\<rparr>"
    by (simp_all add: commit_entry_def apply_entry_def assms(5) apply_request_def)
  have u: "msg empty_UserPrivilege (rq_user_privilege rq) = u" by (simp add: assms(4))
  show ?thesis
  proof (rule change_privilege_cases [OF assms(1), of "Some (empty_response\<lparr>rs_op_type := Some OP_ADD_PRIVILEGE\<rparr>)" s
        "merged_privilege E" rq], goal_cases)
    case 1
    with step dn assms(3) show ?case by (auto simp: add_privilege_def rejected_def)
  next
    case (2 q v m w)
    with step dn u show ?case by (auto simp: add_privilege_def user_set_def)
  qed
qed


text \<open>The example: a read right on the zone, and the command assigns writing.\<close>

definition demo_assign_options :: UserOptions where
  "demo_assign_options = \<lparr>uo_namespace_name = ''n'', uo_user_name = ''u'', uo_user_passwd = [], uo_user_ips = [],
     uo_user_rs = [], uo_user_ws = [], uo_user_rz = [''z''], uo_user_wz = [''z''], uo_force = False, uo_show_pwd = False\<rparr>"

definition demo_assign :: DiscoveryManagerRequest where
  "demo_assign = (empty_request OP_ADD_PRIVILEGE)\<lparr>rq_user_privilege := Some (empty_UserPrivilege\<lparr>up_namespace_name := ''n'',
     up_username := ''u'', up_privilege_zone := [\<lparr>pz_zone = ''z'', pz_zone_id = 0, pz_zone_rw = Some 2, pz_force = False\<rparr>]\<rparr>)\<rparr>"

lemma demo_assign_built: "make_user_add_privilege demo_cli demo_assign_options = Inr demo_assign"
proof -
  have "check_names demo_cli [''n'', ''u''] = Inr ()"
    using demo_letters unfolding check_names_ok by simp
  moreover have "built_zones demo_cli demo_assign_options = [\<lparr>pz_zone = ''z'', pz_zone_id = 0, pz_zone_rw = Some 2, pz_force = False\<rparr>]"
    by (simp add: built_zones_def demo_assign_options_def zone_right_def set_erase_def demo_cli_def)
  moreover have "built_servlets demo_cli demo_assign_options = Inr []"
    by (simp add: built_servlets_def demo_assign_options_def)
  ultimately show ?thesis
    by (simp add: make_user_add_privilege_def make_user_privilege_def with_op_def demo_assign_options_def demo_assign_def
        empty_UserPrivilege_def del: check_names.simps)
qed

lemma demo_assign_run:
  "\<exists>r s'. send_manager (demo_direct (\<lambda>d. Some demo_assign) demo_user_env) None demo_assign (demo_user_state 1 5) = (Inr r, s') \<and>
     rs_errcode r = SUCCESS"
proof -
  let ?s = "demo_user_state 1 5" and ?r0 = "empty_response\<lparr>rs_op_type := Some OP_ADD_PRIVILEGE\<rparr>"
  let ?u = "msg empty_UserPrivilege (rq_user_privilege demo_assign)"
  have check: "check_and_get_for_privilege ?u ?s = (0, ?u\<lparr>up_namespace_id := 1, up_privilege_zone := [demo_right 2]\<rparr>)"
    by (simp add: check_and_get_for_privilege_def demo_assign_def demo_user_state_def demo_right_def get_namespace_id_def
        get_zone_id_def empty_UserPrivilege_def)
  have merged: "merged_privilege demo_user_env (?u\<lparr>up_namespace_id := 1, up_privilege_zone := [demo_right 2]\<rparr>) (demo_user_with 1 5) =
      demo_user_with 2 6"
    by (simp add: merged_privilege_def demo_user_with_def demo_user_def demo_right_def zone_rw_def keep_or_def
        empty_UserPrivilege_def demo_assign_def)
  have m: "user_privilege ?s ''u'' = Some (demo_user_with 1 5)" "up_username ?u = ''u''"
    by (simp_all add: demo_user_state_def demo_assign_def)
  have "fst (add_privilege demo_user_env demo_assign (Some ?r0) ?s) = if_done_set_response (Some ?r0) SUCCESS ''success''"
    unfolding add_privilege_def change_privilege_def by (simp add: m check merged at_or_def Let_def)
  then have "fst (commit_entry demo_user_env (\<lambda>d. Some demo_assign) ''n'' (Some empty_response) ?s) =
      Some (set_resp SUCCESS ''success'' ?r0)"
    by (simp add: commit_entry_def apply_entry_def apply_request_def demo_assign_def split_def)
  moreover have "discovery_manager demo_view demo_assign empty_response = Submitted MetaGroup ''n'' empty_response"
    by (simp add: dispatch_defs base_process_def demo_view_def demo_assign_def)
  ultimately show ?thesis
    by (auto simp: demo_direct_def direct_sender_def serve_manager_def answer_ok_def split_def)
qed


section \<open>Watching\<close>

text \<open>The callbacks of a list of notices, one after the other: what is printed and the client that is left.\<close>

fun run_notices :: "cli_env \<Rightarrow> string \<Rightarrow> notice list \<Rightarrow> config_client \<Rightarrow> string list \<times> config_client" where
  "run_notices C dir [] s = ([], s)"
| "run_notices C dir (n # ns) s =
     (let (lines, s) = watch_callback C dir n s; (lines', s) = run_notices C dir ns s in (lines @ lines', s))"

definition disk_ok :: "disk \<Rightarrow> bool" where
  "disk_ok D \<longleftrightarrow> (\<forall>p. open_write_error D p = None \<and> write_error D p = None)"

lemma watch_callback_run:
  assumes "disk_ok (local_disk (cli_client C))" "data = notice_data n" "p = watch_file_name C dir data"
  shows "snd (watch_callback C dir n s) =
    s\<lparr>cache_files := (if cache_files s p \<noteq> None then cache_files s else (cache_files s)(p \<mapsto> cb_new_content data)),
      apply_version := (apply_version s)(cb_config_name data \<mapsto> cb_new_version data)\<rparr>"
proof -
  have "snd (save_config_to_file C dir data fs) =
      (if fs p \<noteq> None then fs else fs(p \<mapsto> cb_new_content data))" for fs
    using assms(1) by (simp add: save_config_to_file_def assms(3) disk_ok_def write_file_ok)
  moreover have "snd (watch_callback C dir n s) = snd (on_news C what dir data s)"
    if "what = (case n of NewConfig _ \<Rightarrow> ''new config'' | NewVersion _ \<Rightarrow> ''new config version'')" for what
    using assms(2) that by (cases n) (simp_all add: watch_callback_def notice_data_def)
  ultimately show ?thesis
    by (simp add: on_news_def apply_config_def do_apply_def split_def Let_def)
qed

lemma run_notices_result:
  assumes "disk_ok (local_disk (cli_client C))"
  shows "apply_version (snd (run_notices C dir ns s)) name =
      (case about name ns of [] \<Rightarrow> apply_version s name | xs \<Rightarrow> Some (cb_new_version (notice_data (last xs)))) \<and>
    cache_files (snd (run_notices C dir ns s)) p =
      (case filter (\<lambda>n. watch_file_name C dir (notice_data n) = p) ns of
         [] \<Rightarrow> cache_files s p
       | n # _ \<Rightarrow> (case cache_files s p of None \<Rightarrow> Some (cb_new_content (notice_data n)) | Some c \<Rightarrow> Some c)) \<and>
    watches (snd (run_notices C dir ns s)) = watches s"
proof (induction ns arbitrary: s)
  case (Cons n ns)
  note run = watch_callback_run [OF assms refl refl, of dir n s]
  have "snd (run_notices C dir (n # ns) s) = snd (run_notices C dir ns (snd (watch_callback C dir n s)))"
    by (simp add: split_def Let_def)
  with Cons.IH [of "snd (watch_callback C dir n s)"] show ?case
    unfolding run by (auto simp: about_def split: list.split option.split)
qed (simp add: about_def)

lemma watch_all_watched:
  "watches (snd (watch_all C names s)) n \<noteq> None \<longleftrightarrow> n \<in> set names \<or> watches s n \<noteq> None"
proof (induction names arbitrary: s)
  case (Cons m names)
  have "watches (snd (watch_config m l s)) n \<noteq> None \<longleftrightarrow> n = m \<or> watches s n \<noteq> None" for l
    by (auto simp: watch_config_def split: option.split)
  with Cons.IH show ?case by (auto simp: split_def Let_def)
qed simp

text \<open>
  C23: what \<open>config watch\<close> does: it watches every name it is given, and with a disk that takes writes, after
  any news of the background thread the version applied of a configuration is the one last told, each
  version told is saved in a file with the content told first, and no file that was there is written
  over.
\<close>

theorem watch_command_saves:
  assumes "disk_ok (local_disk (cli_client C))" "dir = co_config_watch_dir o1"
    "s1 = snd (run_config_watch_cmd C flags_dir cache there o1 s)" "s2 = snd (run_notices C dir ns s1)"
  shows "(\<forall>name \<in> set (co_config_watch_list o1). watches s2 name \<noteq> None) \<and>
    (\<forall>name. about name ns \<noteq> [] \<longrightarrow> apply_version s2 name = Some (cb_new_version (notice_data (last (about name ns))))) \<and>
    (\<forall>p c. cache_files s1 p = Some c \<longrightarrow> cache_files s2 p = Some c) \<and>
    (\<forall>n \<in> set ns. cache_files s2 (watch_file_name C dir (notice_data n)) \<noteq> None) \<and>
    (\<forall>p n rest. cache_files s1 p = None \<longrightarrow> filter (\<lambda>n. watch_file_name C dir (notice_data n) = p) ns = n # rest \<longrightarrow>
      cache_files s2 p = Some (cb_new_content (notice_data n)))"
proof -
  note r = run_notices_result [OF assms(1), of dir ns s1, folded assms(4)]
  have "\<exists>s0. s1 = snd (watch_all C (co_config_watch_list o1) s0)"
    unfolding assms(3) run_config_watch_cmd_def Let_def split_def snd_conv by blast
  then have "watches s1 name \<noteq> None" if "name \<in> set (co_config_watch_list o1)" for name
    using that watch_all_watched by blast
  moreover have "cache_files s2 (watch_file_name C dir (notice_data n)) \<noteq> None" if "n \<in> set ns" for n
  proof -
    have "filter (\<lambda>m. watch_file_name C dir (notice_data m) = watch_file_name C dir (notice_data n)) ns \<noteq> []"
      using that by (auto simp: filter_empty_conv)
    with r [of _ "watch_file_name C dir (notice_data n)"] show ?thesis by (auto split: list.splits option.splits)
  qed
  ultimately show ?thesis using r by (auto split: list.splits option.splits)
qed

text \<open>The example: one configuration is watched, and its first version is told.\<close>

definition demo_config_options :: ConfigOptions where
  "demo_config_options = \<lparr>co_config_name = [], co_config_data = [], co_config_file = [], co_config_version = [], co_config_type = [],
     co_config_json = [], co_config_example = [], co_config_watch_list = [''app''], co_config_watch_dir = ''w'', co_clean_local = True\<rparr>"

definition demo_idle :: config_client where
  "demo_idle = \<lparr>cache_map = Map.empty, cache_dir = [], cache_init = True, cache_files = Map.empty, made_dirs = [],
     apply_version = Map.empty, watches = Map.empty, client_shutdown = False, client_inited = True, thread_runs = True\<rparr>"

definition demo_told :: notice where
  "demo_told = NewConfig \<lparr>cb_config_name = ''app'', cb_current_version = kZero, cb_new_version = ModuleVersion 1 0 0,
     cb_new_content = ''text'', cb_type = ''json''\<rparr>"

theorem watch_command_saves_witness:
  "\<exists>s :: config_client. watches s ''app'' \<noteq> None \<and> apply_version s ''app'' = Some (ModuleVersion 1 0 0) \<and>
     cache_files s (watch_file_name demo_cli ''w'' (notice_data demo_told)) \<noteq> None"
proof -
  have D: "disk_ok (local_disk (cli_client demo_cli))"
    by (simp add: disk_ok_def demo_cli_def demo_client_def demo_disk_def)
  have about: "about ''app'' [demo_told] = [demo_told]" by (simp add: about_def demo_told_def notice_data_def)
  have dir: "''w'' = co_config_watch_dir demo_config_options" by (simp add: demo_config_options_def)
  obtain s2 where s2: "s2 = snd (run_notices demo_cli ''w'' [demo_told]
      (snd (run_config_watch_cmd demo_cli ''c'' DirMissing True demo_config_options demo_idle)))" by blast
  note w = watch_command_saves [OF D dir refl s2]
  have "watches s2 ''app'' \<noteq> None" using conjunct1 [OF w] by (simp add: demo_config_options_def)
  moreover have "apply_version s2 ''app'' = Some (ModuleVersion 1 0 0)"
    using spec [OF conjunct1 [OF conjunct2 [OF w]], of "''app''"] unfolding about by (simp add: demo_told_def notice_data_def)
  moreover have "cache_files s2 (watch_file_name demo_cli ''w'' (notice_data demo_told)) \<noteq> None"
    using conjunct1 [OF conjunct2 [OF conjunct2 [OF conjunct2 [OF w]]]] by simp
  ultimately show ?thesis by blast
qed

end
