(* ===== verification/CliOptions.thy ===== *)
theory CliOptions
  imports CliRaft CliConfig
begin

text \<open>
  The command line itself: the options and subcommands that eacli.cc and the \<open>setup_*_cmd\<close> functions
  of src/ea/cli declare, the structures the options write to, and what they hold once a line has
  been read. The parser is \<open>turbo::App\<close>, which is not part of the repository: a line it has read is a
  \<open>line\<close>, and \<open>conforms\<close> says what it promises of the lines it does not refuse. Descriptions of
  options are left out, they only show in the help.
\<close>

section \<open>Declarations\<close>

text \<open>
  An option writes to a variable of its type; for an integer the number of bits counts. A flag takes no
  value. A group of options, and so a command, can ask that a number of its options are given, where
  a group it contains counts as an option; 0 asks for nothing.
\<close>

datatype opt_value = OString string | OInt int | OBool bool | OStrings "string list"

datatype 'c binding =
    BString "string \<Rightarrow> 'c \<Rightarrow> 'c"
  | BInt nat "int \<Rightarrow> 'c \<Rightarrow> 'c"
  | BBool "bool \<Rightarrow> 'c \<Rightarrow> 'c"
  | BStrings "string list \<Rightarrow> 'c \<Rightarrow> 'c"

fun fits :: "'c binding \<Rightarrow> opt_value \<Rightarrow> bool" where
  "fits (BString f) (OString v) \<longleftrightarrow> True"
| "fits (BInt w f) (OInt v) \<longleftrightarrow> - (2 ^ (w - 1)) \<le> v \<and> v < 2 ^ (w - 1)"
| "fits (BBool f) (OBool v) \<longleftrightarrow> True"
| "fits (BStrings f) (OStrings vs) \<longleftrightarrow> vs \<noteq> []"
| "fits _ _ \<longleftrightarrow> False"

fun assign :: "'c binding \<Rightarrow> opt_value \<Rightarrow> 'c \<Rightarrow> 'c" where
  "assign (BString f) (OString v) c = f v c"
| "assign (BInt w f) (OInt v) c = f v c"
| "assign (BBool f) (OBool v) c = f v c"
| "assign (BStrings f) (OStrings vs) c = f vs c"
| "assign _ _ c = c"

record 'c opt_decl =
  od_names :: "string list"
  od_binding :: "'c binding"
  od_flag :: bool
  od_required :: bool
  od_default :: "opt_value option"

definition add_option :: "string list \<Rightarrow> 'c binding \<Rightarrow> 'c opt_decl" where
  "add_option names b = \<lparr>od_names = names, od_binding = b, od_flag = False, od_required = False, od_default = None\<rparr>"

definition add_flag :: "string list \<Rightarrow> 'c binding \<Rightarrow> 'c opt_decl" where
  "add_flag names b = (add_option names b)\<lparr>od_flag := True\<rparr>"

definition required :: "'c opt_decl \<Rightarrow> 'c opt_decl" where
  "required d = d\<lparr>od_required := True\<rparr>"

definition default_val :: "opt_value \<Rightarrow> 'c opt_decl \<Rightarrow> 'c opt_decl" where
  "default_val v d = d\<lparr>od_default := Some v\<rparr>"

text \<open>A group: its options, the groups in it, whether one of them must be given and how many exactly.\<close>

datatype 'c group = Group "'c opt_decl list" "'c group list" bool nat

text \<open>
  What a command does is named by the function it calls back; \<open>Help\<close> is the callback of the
  commands that only hold others: it prints the help when no other command was given.
\<close>

datatype action = Help
  | Raft_status | Raft_snapshot | Raft_vote | Raft_shutdown | Raft_set | Raft_trans
  | Ns_create | Ns_remove | Ns_modify | Ns_list | Ns_info
  | Zone_create | Zone_remove | Zone_modify | Zone_list | Zone_info
  | Config_create | Config_list | Config_get | Config_remove | Config_dump | Config_test | Config_watch
  | Servlet_create | Servlet_remove | Servlet_modify | Servlet_list | Servlet_info
  | User_create | User_remove | User_add_privilege | User_remove_privilege | User_list | User_flat | User_info
  | Atomic_create | Atomic_remove | Atomic_gen | Atomic_update
  | Instance_add | Instance_remove | Instance_update | Instance_list | Instance_info | Instance_dump

datatype 'c command = Command string "'c group" "'c command list" action

abbreviation leaf :: "string \<Rightarrow> 'c opt_decl list \<Rightarrow> action \<Rightarrow> 'c command" where
  "leaf name os a \<equiv> Command name (Group os [] False 0) [] a"

section \<open>The variables\<close>

record cli_context =
  cx_global :: OptionContext
  cx_raft :: RaftOptions
  cx_namespace :: NameSpaceOptions
  cx_zone :: ZoneOptions
  cx_config :: ConfigOptions
  cx_servlet :: ServletOptions
  cx_user :: UserOptions
  cx_atomic :: AtomicOptions
  cx_instance :: InstanceOptions

text \<open>The structures are static: what has no initial value of its own starts with zeros.\<close>

definition static_raft_options :: RaftOptions where
  "static_raft_options = \<lparr>ro_raft_group = [], ro_opt_peer = [], ro_cluster = [], ro_new_leader = [], ro_vote_time_ms = 0,
     ro_old_peers = [], ro_new_peers = [], ro_discovery_server = [], ro_force = False\<rparr>"

definition static_namespace_options :: NameSpaceOptions where
  "static_namespace_options = \<lparr>no_namespace_name = [], no_namespace_quota = 0\<rparr>"

definition static_zone_options :: ZoneOptions where
  "static_zone_options = \<lparr>zo_namespace_name = [], zo_namespace_quota = 0, zo_zone_name = []\<rparr>"

definition static_config_options :: ConfigOptions where
  "static_config_options = \<lparr>co_config_name = [], co_config_data = [], co_config_file = [], co_config_version = [],
     co_config_type = [], co_config_json = [], co_config_example = [], co_config_watch_list = [],
     co_config_watch_dir = [], co_clean_local = False\<rparr>"

definition static_servlet_options :: ServletOptions where
  "static_servlet_options =
     \<lparr>so_namespace_name = [], so_namespace_quota = 0, so_zone_name = [], so_servlet_name = []\<rparr>"

definition static_user_options :: UserOptions where
  "static_user_options = \<lparr>uo_namespace_name = [], uo_user_name = [], uo_user_passwd = [], uo_user_ips = [],
     uo_user_rs = [], uo_user_ws = [], uo_user_rz = [], uo_user_wz = [], uo_force = False, uo_show_pwd = False\<rparr>"

definition static_atomic_options :: AtomicOptions where
  "static_atomic_options =
     \<lparr>ao_servlet_id = 0, ao_start_id = 0, ao_count = 0, ao_increment = 0, ao_force = 0\<rparr>"

definition static_instance_options :: InstanceOptions where
  "static_instance_options = \<lparr>io_namespace_name = [], io_servlet_name = [], io_zone_name = [], io_env = [], io_color = [],
     io_status = [], io_address = [], io_dump_file = [], io_json_file = [], io_quiet = False, io_weight = - 1\<rparr>"

definition static_context :: cli_context where
  "static_context = \<lparr>cx_global = default_options, cx_raft = static_raft_options,
     cx_namespace = static_namespace_options, cx_zone = static_zone_options, cx_config = static_config_options,
     cx_servlet = static_servlet_options, cx_user = static_user_options, cx_atomic = static_atomic_options,
     cx_instance = static_instance_options\<rparr>"

text \<open>The variable an option is bound to: a structure of the context and a field of it.\<close>

definition vs :: "(('o \<Rightarrow> 'o) \<Rightarrow> 'c \<Rightarrow> 'c) \<Rightarrow> ((string \<Rightarrow> string) \<Rightarrow> 'o \<Rightarrow> 'o) \<Rightarrow> 'c binding" where
  "vs cx field = BString (\<lambda>v. cx (field (\<lambda>_. v)))"

definition vi :: "nat \<Rightarrow> (('o \<Rightarrow> 'o) \<Rightarrow> 'c \<Rightarrow> 'c) \<Rightarrow> ((int \<Rightarrow> int) \<Rightarrow> 'o \<Rightarrow> 'o) \<Rightarrow> 'c binding" where
  "vi w cx field = BInt w (\<lambda>v. cx (field (\<lambda>_. v)))"

definition vb :: "(('o \<Rightarrow> 'o) \<Rightarrow> 'c \<Rightarrow> 'c) \<Rightarrow> ((bool \<Rightarrow> bool) \<Rightarrow> 'o \<Rightarrow> 'o) \<Rightarrow> 'c binding" where
  "vb cx field = BBool (\<lambda>v. cx (field (\<lambda>_. v)))"

definition vl :: "(('o \<Rightarrow> 'o) \<Rightarrow> 'c \<Rightarrow> 'c) \<Rightarrow> ((string list \<Rightarrow> string list) \<Rightarrow> 'o \<Rightarrow> 'o) \<Rightarrow> 'c binding" where
  "vl cx field = BStrings (\<lambda>v. cx (field (\<lambda>_. v)))"


section \<open>Commands\<close>

definition setup_namespace_cmd :: "cli_context command" where
  "setup_namespace_cmd =
     (let name = required (add_option [''-n'', ''--name''] (vs cx_namespace_update no_namespace_name_update));
          quota = add_option [''-q'', ''--quota''] (vi 64 cx_namespace_update no_namespace_quota_update)
      in Command ''namespace'' (Group [] [] False 0)
        [leaf ''create'' [name, quota] Ns_create, leaf ''remove'' [name, quota] Ns_remove,
         leaf ''modify'' [name, quota] Ns_modify, leaf ''list'' [] Ns_list, leaf ''info'' [name] Ns_info] Help)"

definition setup_zone_cmd :: "cli_context command" where
  "setup_zone_cmd =
     (let ns = required (add_option [''-n'', ''--namespace''] (vs cx_zone_update zo_namespace_name_update));
          zone = required (add_option [''-z'', ''--zone''] (vs cx_zone_update zo_zone_name_update));
          quota = add_option [''-q'', ''--quota''] (vi 64 cx_zone_update zo_namespace_quota_update)
      in Command ''zone'' (Group [] [] False 0)
        [leaf ''create'' [ns, zone, quota] Zone_create, leaf ''remove'' [ns, zone] Zone_remove,
         leaf ''modify'' [ns, zone, quota] Zone_modify, leaf ''list'' [] Zone_list,
         leaf ''info'' [ns, zone] Zone_info] Help)"

definition setup_servlet_cmd :: "cli_context command" where
  "setup_servlet_cmd =
     (let ns = required (add_option [''-n'', ''--namespace''] (vs cx_servlet_update so_namespace_name_update));
          zone = required (add_option [''-z'', ''--zone''] (vs cx_servlet_update so_zone_name_update));
          servlet = required (add_option [''-s'', ''--servlet''] (vs cx_servlet_update so_servlet_name_update));
          quota = add_option [''-q'', ''--quota''] (vi 64 cx_servlet_update so_namespace_quota_update)
      in Command ''servlet'' (Group [] [] False 0)
        [leaf ''create'' [ns, zone, servlet, quota] Servlet_create, leaf ''remove'' [ns, zone, servlet] Servlet_remove,
         leaf ''modify'' [ns, zone, servlet, quota] Servlet_modify, leaf ''list'' [] Servlet_list,
         leaf ''info'' [ns, zone, servlet] Servlet_info] Help)"

definition config_create_command :: "cli_context command" where
  "config_create_command = Command ''create''
     (Group []
       [Group [required (add_option [''-n'', ''--name''] (vs cx_config_update co_config_name_update)),
               add_option [''-v'', ''--version''] (vs cx_config_update co_config_version_update),
               default_val (OString ''json'') (add_option [''-t'', ''--type''] (vs cx_config_update co_config_type_update))]
          [Group [add_option [''-d'', ''--data''] (vs cx_config_update co_config_data_update),
                  add_option [''-f'', ''--file''] (vs cx_config_update co_config_file_update)] [] False 1] False 0,
        Group [add_option [''-j'', ''--json''] (vs cx_config_update co_config_json_update)] [] False 0] False 1)
     [] Config_create"

definition config_get_command :: "cli_context command" where
  "config_get_command = leaf ''get''
     [required (add_option [''-n'', ''--name''] (vs cx_config_update co_config_name_update)),
      add_option [''-v'', ''--version''] (vs cx_config_update co_config_version_update),
      add_option [''-o'', ''--output''] (vs cx_config_update co_config_file_update)] Config_get"

definition setup_config_cmd :: "cli_context command" where
  "setup_config_cmd =
     (let name = add_option [''-n'', ''--name''] (vs cx_config_update co_config_name_update);
          version = add_option [''-v'', ''--version''] (vs cx_config_update co_config_version_update);
          out_file = add_option [''-o'', ''--output''] (vs cx_config_update co_config_file_update)
      in Command ''config'' (Group [] [] False 0)
        [config_create_command,
         leaf ''list'' [name] Config_list,
         config_get_command,
         leaf ''remove'' [required name, version] Config_remove,
         Command ''dump''
           (Group []
             [Group [required name, required version,
                     required (add_option [''-c'', ''--content''] (vs cx_config_update co_config_data_update)),
                     default_val (OString ''json'')
                       (add_option [''-t'', ''--type''] (vs cx_config_update co_config_type_update)),
                     out_file] [] False 0,
              Group [add_option [''-e'', ''--example''] (vs cx_config_update co_config_example_update)] [] False 0]
             False 1) [] Config_dump,
         leaf ''test'' [required (add_option [''-f'', ''--file''] (vs cx_config_update co_config_file_update))] Config_test,
         leaf ''watch''
           [required (add_option [''-n'', ''--name''] (vl cx_config_update co_config_watch_list_update)),
            default_val (OString ''watch_config'')
              (add_option [''-d'', ''--dir''] (vs cx_config_update co_config_watch_dir_update)),
            default_val (OBool False) (add_flag [''-c'', ''--clean''] (vb cx_config_update co_clean_local_update))]
           Config_watch] Help)"

text \<open>The five kinds of rights of \<open>user assign\<close> and \<open>user deassign\<close>, of which a line gives one.\<close>

definition rights_group :: "cli_context group" where
  "rights_group = Group
     [add_option [''-i'', ''--ip''] (vl cx_user_update uo_user_ips_update),
      add_option [''-s'', ''--read_servlet''] (vl cx_user_update uo_user_rs_update),
      add_option [''-S'', ''--write_servlet''] (vl cx_user_update uo_user_ws_update),
      add_option [''-z'', ''--read_zone''] (vl cx_user_update uo_user_rz_update),
      add_option [''-Z'', ''--write_zone''] (vl cx_user_update uo_user_wz_update)] [] False 1"

definition setup_user_cmd :: "cli_context command" where
  "setup_user_cmd =
     (let ns = required (add_option [''-n'', ''--namespace''] (vs cx_user_update uo_namespace_name_update));
          user = required (add_option [''-u'', ''--user''] (vs cx_user_update uo_user_name_update));
          passwd = add_option [''-p'', ''--passwd''] (vs cx_user_update uo_user_passwd_update);
          force = default_val (OBool False) (add_option [''-f'', ''--force''] (vb cx_user_update uo_force_update))
      in Command ''user'' (Group [] [] False 0)
        [leaf ''create'' [ns, user, required passwd] User_create, leaf ''remove'' [ns, user, required passwd] User_remove,
         Command ''assign'' (Group [ns, user, passwd, force] [rights_group] False 0) [] User_add_privilege,
         Command ''deassign'' (Group [ns, user, passwd, force] [rights_group] False 0) [] User_remove_privilege,
         leaf ''list'' [] User_list, leaf ''flat'' [] User_flat,
         leaf ''info'' [ns, user, passwd, add_flag [''-s'', ''--show''] (vb cx_user_update uo_show_pwd_update)] User_info]
        Help)"

text \<open>
  \<open>force\<close> of the ids is an integer that holds a flag: \<open>False\<close> is stored as 0, a given flag as 1.
\<close>

definition atomic_gen_command :: "cli_context command" where
  "atomic_gen_command = Command ''gen''
     (Group [required (add_option [''-a'', ''--app''] (vi 64 cx_atomic_update ao_servlet_id_update))]
       [Group [add_option [''-i'', ''--id''] (vi 64 cx_atomic_update ao_start_id_update),
               add_option [''-c'', ''--count''] (vi 64 cx_atomic_update ao_count_update)] [] True 1] False 0) [] Atomic_gen"

definition atomic_update_command :: "cli_context command" where
  "atomic_update_command = Command ''update''
     (Group [required (add_option [''-a'', ''--app''] (vi 64 cx_atomic_update ao_servlet_id_update)),
             default_val (OBool False)
               (add_flag [''-f'', ''--force''] (BBool (\<lambda>v. cx_atomic_update (ao_force_update (\<lambda>_. if v then 1 else 0)))))]
       [Group [add_option [''-i'', ''--id''] (vi 64 cx_atomic_update ao_start_id_update),
               add_option [''-c'', ''--count''] (vi 64 cx_atomic_update ao_increment_update)] [] False 1] False 0) [] Atomic_update"

definition setup_atomic_cmd :: "cli_context command" where
  "setup_atomic_cmd =
     (let app = required (add_option [''-a'', ''--app''] (vi 64 cx_atomic_update ao_servlet_id_update))
      in Command ''atomic'' (Group [] [] False 0)
        [leaf ''create'' [app, add_option [''-i'', ''--id''] (vi 64 cx_atomic_update ao_start_id_update)] Atomic_create,
         leaf ''remove''
           [required (add_option [''-a'', ''--servlet''] (vi 64 cx_atomic_update ao_servlet_id_update))] Atomic_remove,
         atomic_gen_command, atomic_update_command] Help)"

text \<open>The instance commands; the JSON file is required of its own group only.\<close>

definition setup_discovery_cmd :: "cli_context command" where
  "setup_discovery_cmd =
     (let ns = add_option [''-n'', ''--namespace''] (vs cx_instance_update io_namespace_name_update);
          zone = add_option [''-z'', ''--zone''] (vs cx_instance_update io_zone_name_update);
          servlet = add_option [''-s'', ''--servlet''] (vs cx_instance_update io_servlet_name_update);
          address = add_option [''-a'', ''--address''] (vs cx_instance_update io_address_update);
          env = add_option [''-e'', ''--env''] (vs cx_instance_update io_env_update);
          named = map required [ns, zone, servlet, address];
          json = Group [required (add_option [''-j'', ''--json''] (vs cx_instance_update io_json_file_update))] [] False 0;
          full = Group (named @ [required env,
            default_val (OString ''default'') (add_option [''-c'', ''--color''] (vs cx_instance_update io_color_update)),
            default_val (OString ''NORMAL'') (add_option [''-t'', ''--status''] (vs cx_instance_update io_status_update)),
            add_option [''-w'', ''--weight''] (vi 64 cx_instance_update io_weight_update)]) [] False 0
      in Command ''discovery'' (Group [] [] False 0)
        [setup_namespace_cmd, setup_zone_cmd, setup_config_cmd, setup_servlet_cmd, setup_user_cmd, setup_atomic_cmd,
         Command ''add_instance'' (Group [] [full, json] False 1) [] Instance_add,
         Command ''remove_instance'' (Group [] [Group (named @ [env]) [] False 0, json] False 1) [] Instance_remove,
         Command ''update_instance'' (Group [] [full, json] False 1) [] Instance_update,
         leaf ''list'' [ns, zone, servlet, address] Instance_list,
         leaf ''info'' named Instance_info,
         leaf ''dump''
           [default_val (OString ''example_discovery.json'')
              (add_option [''-o'', ''--output''] (vs cx_instance_update io_dump_file_update)),
            default_val (OBool False) (add_flag [''-q'', ''--quiet''] (vb cx_instance_update io_quiet_update))]
           Instance_dump] Help)"

definition setup_raft_cmd :: "cli_context command" where
  "setup_raft_cmd =
     (let cluster = required (add_option [''-c'', ''--cluster''] (vs cx_raft_update ro_cluster_update))
      in Command ''raft''
        (Group [default_val (OString ''127.0.0.1:8010'')
           (add_option [''-m'', ''--discovery_server''] (vs cx_raft_update ro_discovery_server_update))] [] False 0)
        [leaf ''status'' [cluster] Raft_status, leaf ''snapshot'' [cluster] Raft_snapshot,
         leaf ''vote''
           [cluster, required (add_option [''-t'', ''--time''] (vi 64 cx_raft_update ro_vote_time_ms_update))] Raft_vote,
         leaf ''shutdown'' [cluster] Raft_shutdown,
         leaf ''set''
           [cluster, required (add_option [''-o'', ''--old''] (vl cx_raft_update ro_old_peers_update)),
            required (add_option [''-n'', ''--new''] (vl cx_raft_update ro_new_peers_update)),
            default_val (OBool False) (add_option [''-f'', ''--force''] (vb cx_raft_update ro_force_update))] Raft_set,
         leaf ''trans''
           [cluster, required (add_option [''-n'', ''--new-leader''] (vs cx_raft_update ro_new_leader_update))]
           Raft_trans] Help)"

definition eacli :: "cli_context command" where
  "eacli = Command ''eacli''
     (Group
       [default_val (OBool False) (add_flag [''-V'', ''--verbose''] (vb cx_global_update oc_verbose_update)),
        default_val (OString ''127.0.0.1:8010'') (add_option [''-s'', ''--server''] (vs cx_global_update oc_router_server_update)),
        default_val (OString ''127.0.0.1:8010'')
          (add_option [''-d'', ''--discovery_server''] (vs cx_global_update oc_discovery_server_update)),
        default_val (OBool False) (add_flag [''-r'', ''--router''] (vb cx_global_update oc_router_update)),
        add_option [''-T'', ''--timeout''] (vi 32 cx_global_update oc_timeout_ms_update),
        add_option [''-C'', ''--connect''] (vi 32 cx_global_update oc_connect_timeout_ms_update),
        add_option [''-R'', ''--retry''] (vi 32 cx_global_update oc_max_retry_update),
        add_option [''-I'', ''--interval''] (vi 32 cx_global_update oc_interval_ms_update)] [] False 0)
     [setup_raft_cmd, setup_discovery_cmd] Help"


section \<open>Lines\<close>

text \<open>
  A line that has been read: for each command the values of the options given to it, under their first
  names, and the subcommands given.
\<close>

datatype line = Line string "(string \<times> opt_value) list" "line list"

fun line_name :: "line \<Rightarrow> string" where
  "line_name (Line n gv ls) = n"

fun command_name :: "'c command \<Rightarrow> string" where
  "command_name (Command n g cs a) = n"

definition od_key :: "'c opt_decl \<Rightarrow> string" where
  "od_key d = hd (od_names d)"

fun group_options :: "'c group \<Rightarrow> 'c opt_decl list" where
  "group_options (Group os gs req k) = os @ concat (map group_options gs)"

fun group_required :: "'c group \<Rightarrow> bool" where
  "group_required (Group os gs req k) = req"

definition given :: "(string \<times> opt_value) list \<Rightarrow> 'c opt_decl \<Rightarrow> bool" where
  "given gv d \<longleftrightarrow> od_key d \<in> set (map fst gv)"

definition group_used :: "(string \<times> opt_value) list \<Rightarrow> 'c group \<Rightarrow> bool" where
  "group_used gv g \<longleftrightarrow> list_ex (given gv) (group_options g)"

text \<open>
  What the parser checks of a group: the required options are given, the asked number of options is
  given, a required group is used, and the groups inside are as they should be; one of these that is
  neither used nor required is left alone once the number asked of the options around it is reached.
\<close>

definition group_count :: "(string \<times> opt_value) list \<Rightarrow> 'c opt_decl list \<Rightarrow> 'c group list \<Rightarrow> nat" where
  "group_count gv os gs = length (filter (given gv) os) + length (filter (group_used gv) gs)"

fun group_met :: "(string \<times> opt_value) list \<Rightarrow> 'c group \<Rightarrow> bool" where
  "group_met gv (Group os gs req k) \<longleftrightarrow>
     list_all (\<lambda>d. od_required d \<longrightarrow> given gv d) os \<and> (k = 0 \<or> group_count gv os gs = k) \<and>
     (req \<longrightarrow> group_used gv (Group os gs req k)) \<and>
     list_all (\<lambda>g. 0 < k \<and> k \<le> group_count gv os gs \<and> \<not> group_required g \<and> \<not> group_used gv g \<or> group_met gv g) gs"

definition declared :: "'c group \<Rightarrow> string \<times> opt_value \<Rightarrow> bool" where
  "declared g v \<longleftrightarrow> list_ex (\<lambda>d. od_key d = fst v \<and> fits (od_binding d) (snd v)) (group_options g)"

fun conforms :: "'c command \<Rightarrow> line \<Rightarrow> bool" where
  "conforms (Command n g cs a) (Line m gv ls) \<longleftrightarrow>
     m = n \<and> distinct (map fst gv) \<and> list_all (declared g) gv \<and> group_met gv g \<and>
     list_all (\<lambda>l. list_ex (\<lambda>c. conforms c l) cs) ls"

text \<open>The defaults are written when an option is declared, the values of the line in its order.\<close>

definition assign_default :: "'c opt_decl \<Rightarrow> 'c \<Rightarrow> 'c" where
  "assign_default d c = (case od_default d of None \<Rightarrow> c | Some v \<Rightarrow> assign (od_binding d) v c)"

fun assign_defaults :: "'c command \<Rightarrow> 'c \<Rightarrow> 'c" where
  "assign_defaults (Command n g cs a) c = fold assign_defaults cs (fold assign_default (group_options g) c)"

definition assign_given :: "'c group \<Rightarrow> string \<times> opt_value \<Rightarrow> 'c \<Rightarrow> 'c" where
  "assign_given g v c =
     (case find (\<lambda>d. od_key d = fst v) (group_options g) of None \<Rightarrow> c | Some d \<Rightarrow> assign (od_binding d) (snd v) c)"

fun assign_line :: "'c command \<Rightarrow> line \<Rightarrow> 'c \<Rightarrow> 'c" where
  "assign_line (Command n g cs a) (Line m gv ls) c =
     fold (\<lambda>l c. fold (\<lambda>k c. if command_name k = line_name l then assign_line k l c else c) cs c) ls
       (fold (assign_given g) gv c)"

definition line_context :: "line \<Rightarrow> cli_context" where
  "line_context l = assign_line eacli l (assign_defaults eacli static_context)"

text \<open>The functions that are called back, in the order of the line.\<close>

fun line_actions :: "'c command \<Rightarrow> line \<Rightarrow> action list" where
  "line_actions (Command n g cs a) (Line m gv ls) =
     concat (map (\<lambda>l. concat (map (\<lambda>k. if command_name k = line_name l then line_actions k l else []) cs)) ls) @
     (if a = Help \<and> ls \<noteq> [] then [] else [a])"

text \<open>
  No two options of a command, its groups included, share a name, and no two subcommands:
  otherwise the parser refuses the declaration and the client does not start.
\<close>

fun well_declared :: "'c command \<Rightarrow> bool" where
  "well_declared (Command n g cs a) \<longleftrightarrow>
     distinct (concat (map od_names (group_options g))) \<and> list_all (\<lambda>d. od_names d \<noteq> []) (group_options g) \<and>
     distinct (map command_name cs) \<and> list_all well_declared cs"

text \<open>Once the raft commands have been read they connect a sender of their own.\<close>

definition raft_parse_complete ::
  "'ep net \<Rightarrow> turbo_env \<Rightarrow> RaftOptions \<Rightarrow> 'ep sender_state \<Rightarrow> string + 'ep sender_state" where
  "raft_parse_complete N T o1 d =
     (case sender_init N T (ro_discovery_server o1) d of
        (Inl e, _) \<Rightarrow> Inl (''init error:'' @ ro_discovery_server o1)
      | (Inr _, d) \<Rightarrow> Inr d)"

end
