(* ===== verification/CliLines.thy ===== *)
theory CliLines
  imports CliOptions CounterProperties
begin

text \<open>
  What follows for a command from the line that started it: the declarations are accepted, the
  defaults, the values the structures hold when it runs, and for the id commands what the
  auto increment machine does with the request.
\<close>

section \<open>Lines and declarations\<close>

lemma setup_names [simp]:
  "command_name setup_namespace_cmd = ''namespace''" "command_name setup_zone_cmd = ''zone''"
  "command_name setup_config_cmd = ''config''" "command_name setup_servlet_cmd = ''servlet''"
  "command_name setup_user_cmd = ''user''" "command_name setup_atomic_cmd = ''atomic''"
  "command_name setup_raft_cmd = ''raft''" "command_name setup_discovery_cmd = ''discovery''"
  "command_name config_create_command = ''create''" "command_name config_get_command = ''get''" "command_name atomic_gen_command = ''gen''"
  "command_name atomic_update_command = ''update''"
  by (simp_all add: setup_namespace_cmd_def setup_zone_cmd_def setup_config_cmd_def setup_servlet_cmd_def
      setup_user_cmd_def setup_atomic_cmd_def setup_raft_cmd_def setup_discovery_cmd_def config_create_command_def
      config_get_command_def atomic_gen_command_def atomic_update_command_def Let_def)

lemma conforms_name: "conforms c l \<Longrightarrow> command_name c = line_name l"
  by (cases c; cases l) simp

lemma conforms_child:
  "conforms (Command n g cs a) (Line m gv (l # ls)) \<Longrightarrow> \<exists>c \<in> set cs. command_name c = line_name l \<and> conforms c l"
  by (auto simp: list_ex_iff dest: conforms_name)

text \<open>A line goes to the one subcommand that has its name.\<close>

lemma fold_named:
  "distinct (map command_name cs) \<Longrightarrow> k \<in> set cs \<Longrightarrow> command_name k = line_name l \<Longrightarrow>
     fold (\<lambda>k c. if command_name k = line_name l then assign_line k l c else c) cs c = assign_line k l c"
proof (induction cs arbitrary: c)
  case (Cons k' cs)
  show ?case
  proof (cases "k' = k")
    case True
    have "fold (\<lambda>k c. if command_name k = line_name l then assign_line k l c else c) cs x = x" for x
      using Cons.prems True by (intro fold_invariant [where Q = "\<lambda>k. k \<in> set cs" and P = "\<lambda>y. y = x"]) force+
    with True Cons.prems show ?thesis by simp
  next
    case False
    with Cons.prems have "k \<in> set cs" "command_name k' \<noteq> command_name k" by force+
    with Cons show ?thesis by simp
  qed
qed simp

text \<open>An option that does not write to a variable.\<close>

definition keeps :: "('c \<Rightarrow> 'a) \<Rightarrow> 'c binding \<Rightarrow> bool" where
  "keeps F b \<longleftrightarrow> (\<forall>v c. F (assign b v c) = F c)"

lemma keeps_simps [simp]:
  "keeps F (BString f) \<longleftrightarrow> (\<forall>v c. F (f v c) = F c)" "keeps F (BInt w fi) \<longleftrightarrow> (\<forall>i c. F (fi i c) = F c)"
  "keeps F (BBool fb) \<longleftrightarrow> (\<forall>b c. F (fb b c) = F c)" "keeps F (BStrings fl) \<longleftrightarrow> (\<forall>l c. F (fl l c) = F c)"
  unfolding keeps_def by (metis assign.simps opt_value.exhaust)+

lemma assign_cases:
  "assign (BString f) v c = (case v of OString s \<Rightarrow> f s c | _ \<Rightarrow> c)"
  "assign (BInt w fi) v c = (case v of OInt i \<Rightarrow> fi i c | _ \<Rightarrow> c)"
  "assign (BBool fb) v c = (case v of OBool b \<Rightarrow> fb b c | _ \<Rightarrow> c)"
  "assign (BStrings fl) v c = (case v of OStrings l \<Rightarrow> fl l c | _ \<Rightarrow> c)"
  by (cases v; simp)+

text \<open>
  What the line leaves in a variable: the value of the one option that writes to it, if it was given.
\<close>

lemma fold_line_field:
  assumes other: "\<And>d v c. d \<in> set (group_options g) \<Longrightarrow> od_key d \<noteq> k \<Longrightarrow> F (assign (od_binding d) v c) = F c"
    and own: "\<And>d v c. d \<in> set (group_options g) \<Longrightarrow> od_key d = k \<Longrightarrow> fits (od_binding d) v \<Longrightarrow>
      F (assign (od_binding d) v c) = h v"
  shows "distinct (map fst gv) \<Longrightarrow> list_all (declared g) gv \<Longrightarrow> distinct (map od_key (group_options g)) \<Longrightarrow>
    F (fold (assign_given g) gv c) = (case map_of gv k of None \<Rightarrow> F c | Some v \<Rightarrow> h v)"
proof (induction gv arbitrary: c)
  case (Cons p gv)
  from Cons.prems obtain d where d: "d \<in> set (group_options g)" "od_key d = fst p" "fits (od_binding d) (snd p)"
    by (auto simp: declared_def list_ex_iff)
  have f: "find (\<lambda>d. od_key d = fst p) (group_options g) = Some d"
    using d Cons.prems(3) by (auto simp: find_Some_iff distinct_conv_nth in_set_conv_nth)
      (metis (no_types, lifting) length_map less_trans nat_neq_iff nth_map)
  then have step: "assign_given g p c = assign (od_binding d) (snd p) c" by (simp add: assign_given_def)
  show ?case
  proof (cases "fst p = k")
    case True
    with Cons.prems have "map_of gv k = None" by (force simp: map_of_eq_None_iff)
    with Cons True own [OF d(1)] d step show ?thesis by (cases p) simp
  next
    case False
    with Cons other [OF d(1)] d step show ?thesis by (cases p) (simp split: option.split)
  qed
qed simp

lemma fold_line_keeps:
  assumes "list_all (\<lambda>d. keeps F (od_binding d)) (group_options g)"
  shows "F (fold (assign_given g) gv c) = F c"
  using assms by (induction gv arbitrary: c)
    (auto simp: assign_given_def find_Some_iff list_all_iff keeps_def split: option.split)

text \<open>The same for a variable that starts with zero and is written by one option of integers.\<close>

definition opt_int :: "(string \<times> opt_value) list \<Rightarrow> string \<Rightarrow> int" where
  "opt_int gv k = (case map_of gv k of Some (OInt v) \<Rightarrow> v | _ \<Rightarrow> 0)"

definition sets_int :: "('c \<Rightarrow> int) \<Rightarrow> 'c binding \<Rightarrow> bool" where
  "sets_int F b \<longleftrightarrow> (\<exists>w f. b = BInt w f \<and> (\<forall>i c. F (f i c) = i))"

lemma sets_int_BInt [simp]: "sets_int F (BInt w f) \<longleftrightarrow> (\<forall>i c. F (f i c) = i)"
  by (simp add: sets_int_def)

lemma fold_line_int:
  assumes "list_all (\<lambda>d. if od_key d = k then sets_int F (od_binding d) else keeps F (od_binding d)) (group_options g)"
    and "distinct (map fst gv)" "list_all (declared g) gv" "distinct (map od_key (group_options g))" "F c = 0"
  shows "F (fold (assign_given g) gv c) = opt_int gv k"
proof -
  have "F (fold (assign_given g) gv c) = (case map_of gv k of None \<Rightarrow> F c | Some v \<Rightarrow> (case v of OInt i \<Rightarrow> i | _ \<Rightarrow> 0))"
  proof (rule fold_line_field [OF _ _ assms(2-4)])
    fix d v c assume d: "d \<in> set (group_options g)"
    show "od_key d \<noteq> k \<Longrightarrow> F (assign (od_binding d) v c) = F c"
      using assms(1) d by (auto simp: list_all_iff keeps_def)
    assume "od_key d = k" "fits (od_binding d) v"
    moreover with assms(1) d have "sets_int F (od_binding d)" by (force simp: list_all_iff)
    ultimately show "F (assign (od_binding d) v c) = (case v of OInt i \<Rightarrow> i | _ \<Rightarrow> 0)"
      by (cases v) (auto simp: sets_int_def)
  qed
  with assms(5) show ?thesis by (simp add: opt_int_def split: option.split)
qed

text \<open>And for one that is written by one option of text; it may have a default.\<close>

definition opt_str :: "string \<Rightarrow> (string \<times> opt_value) list \<Rightarrow> string \<Rightarrow> string" where
  "opt_str dflt gv k = (case map_of gv k of Some (OString v) \<Rightarrow> v | _ \<Rightarrow> dflt)"

lemma fold_line_str:
  assumes "list_all (\<lambda>d. if od_key d = k then (\<exists>f. od_binding d = BString f \<and> (\<forall>v c. F (f v c) = v))
      else keeps F (od_binding d)) (group_options g)"
    and "distinct (map fst gv)" "list_all (declared g) gv" "distinct (map od_key (group_options g))"
  shows "F (fold (assign_given g) gv c) = opt_str (F c) gv k"
proof -
  have "F (fold (assign_given g) gv c) = (case map_of gv k of None \<Rightarrow> F c | Some v \<Rightarrow> (case v of OString s \<Rightarrow> s | _ \<Rightarrow> F c))"
  proof (rule fold_line_field [OF _ _ assms(2-4)])
    fix d v c' assume d: "d \<in> set (group_options g)"
    show "od_key d \<noteq> k \<Longrightarrow> F (assign (od_binding d) v c') = F c'"
      using assms(1) d by (auto simp: list_all_iff keeps_def)
    assume "od_key d = k" "fits (od_binding d) v"
    moreover with assms(1) d have "\<exists>f. od_binding d = BString f \<and> (\<forall>v c. F (f v c) = v)" by (force simp: list_all_iff)
    ultimately show "F (assign (od_binding d) v c') = (case v of OString s \<Rightarrow> s | _ \<Rightarrow> F c)"
      by (cases v) auto
  qed
  then show ?thesis by (auto simp: opt_str_def split: option.splits)
qed

lemma given_iff: "given gv d \<longleftrightarrow> map_of gv (od_key d) \<noteq> None"
  by (auto simp: given_def map_of_eq_None_iff)

fun is_int :: "'c binding \<Rightarrow> bool" where
  "is_int (BInt w f) \<longleftrightarrow> True"
| "is_int _ \<longleftrightarrow> False"

lemma given_int:
  assumes "list_all (declared g) gv" "list_all (\<lambda>d. od_key d = k \<longrightarrow> is_int (od_binding d)) (group_options g)"
    "map_of gv k \<noteq> None"
  shows "map_of gv k = Some (OInt (opt_int gv k))"
proof -
  from assms(3) obtain v where v: "map_of gv k = Some v" by auto
  with assms(1) obtain d where "d \<in> set (group_options g)" "od_key d = k" "fits (od_binding d) v"
    by (fastforce simp: declared_def list_ex_iff list_all_iff dest!: map_of_SomeD)
  with assms(2) have "\<exists>i. v = OInt i"
    by (cases v; cases "od_binding d") (auto simp: list_all_iff)
  with v show ?thesis by (auto simp: opt_int_def)
qed


lemmas option_defs = add_option_def add_flag_def required_def default_val_def vs_def vi_def vb_def vl_def od_key_def

lemmas setup_defs = eacli_def setup_raft_cmd_def setup_discovery_cmd_def setup_namespace_cmd_def setup_zone_cmd_def
  setup_servlet_cmd_def setup_config_cmd_def setup_user_cmd_def setup_atomic_cmd_def config_create_command_def config_get_command_def
  rights_group_def atomic_gen_command_def atomic_update_command_def

text \<open>No declaration is refused.\<close>

lemma parts_well_declared [simp]:
  "well_declared setup_namespace_cmd" "well_declared setup_zone_cmd" "well_declared setup_servlet_cmd"
  "well_declared setup_config_cmd" "well_declared setup_user_cmd" "well_declared setup_atomic_cmd"
  "well_declared setup_raft_cmd"
  by (simp_all add: setup_defs option_defs Let_def)

lemma eacli_well_declared: "well_declared eacli"
  by (simp add: eacli_def setup_discovery_cmd_def option_defs Let_def)

text \<open>What the commands find when the line gives no option.\<close>

lemma start_context:
  "assign_defaults eacli static_context = static_context
     \<lparr>cx_global := default_options\<lparr>oc_router_server := ''127.0.0.1:8010'', oc_discovery_server := ''127.0.0.1:8010''\<rparr>,
      cx_raft := static_raft_options\<lparr>ro_discovery_server := ''127.0.0.1:8010''\<rparr>,
      cx_config := static_config_options\<lparr>co_config_type := ''json'', co_config_watch_dir := ''watch_config''\<rparr>,
      cx_instance := static_instance_options\<lparr>io_color := ''default'', io_status := ''NORMAL'',
        io_dump_file := ''example_discovery.json''\<rparr>\<rparr>"
  by (simp add: setup_defs option_defs Let_def assign_default_def static_context_def static_raft_options_def
      static_config_options_def static_instance_options_def static_user_options_def static_atomic_options_def
      default_options_def)


section \<open>Rights and configurations\<close>

lemma group_count_keys: "group_count gv os [] = length (filter (\<lambda>k. map_of gv k \<noteq> None) (map od_key os))"
  by (induction os) (auto simp: group_count_def given_iff)

text \<open>
  An accepted \<open>user assign\<close> or \<open>user deassign\<close> names the namespace and the user and gives exactly one of the five
  lists of rights: the loops over the others have nothing to do.
\<close>

lemma rights_line_one_kind:
  assumes "conforms setup_user_cmd (Line ''user'' [] [Line n gv []])" "n = ''assign'' \<or> n = ''deassign''"
  shows "map_of gv ''-n'' \<noteq> None \<and> map_of gv ''-u'' \<noteq> None \<and>
    length (filter (\<lambda>k. map_of gv k \<noteq> None) [''-i'', ''-s'', ''-S'', ''-z'', ''-Z'']) = 1"
  using assms(2,1) unfolding setup_user_cmd_def rights_group_def Let_def
  by (elim disjE; hypsubst) (simp_all add: option_defs given_iff group_count_keys del: filter.simps One_nat_def)

text \<open>
  An accepted \<open>config create\<close> gives either a JSON file and none of the other options, or a name with
  exactly one of a text and a file.
\<close>

lemma config_create_line_source:
  assumes "conforms config_create_command (Line ''create'' gv [])"
  shows "map_of gv ''-j'' \<noteq> None \<and> (\<forall>k \<in> {''-n'', ''-v'', ''-t'', ''-d'', ''-f''}. map_of gv k = None) \<or>
    map_of gv ''-j'' = None \<and> map_of gv ''-n'' \<noteq> None \<and> (map_of gv ''-d'' \<noteq> None) \<noteq> (map_of gv ''-f'' \<noteq> None)"
proof -
  define P where "P = (\<lambda>k. map_of gv k \<noteq> None)"
  have P: "given gv d \<longleftrightarrow> P (od_key d)" for d by (simp add: P_def given_iff)
  from assms have "if P ''-j'' then \<not> P ''-n'' \<and> \<not> P ''-v'' \<and> \<not> P ''-t'' \<and> \<not> P ''-d'' \<and> \<not> P ''-f''
      else P ''-n'' \<and> (P ''-d'' \<noteq> P ''-f'')"
    by (simp add: config_create_command_def option_defs P group_count_def group_used_def split: if_splits)
  then show ?thesis by (auto simp: P_def split: if_splits)
qed

text \<open>
  The sender of the raft commands takes the address of their option and nothing else from the line: its
  timeouts, interval and retries stay its own.
\<close>

lemma raft_sender_defaults:
  "raft_parse_complete N T o1 d = Inr d' \<Longrightarrow> request_timeout d' = request_timeout d \<and>
     connect_timeout d' = connect_timeout d \<and> between_meta_connect_error_ms d' = between_meta_connect_error_ms d \<and>
     retry_times_default d' = retry_times_default d \<and> sender_verbose d' = sender_verbose d"
  by (auto simp: raft_parse_complete_def sender_init_def split: if_splits sum.splits prod.splits dest!: init_peers_keeps)

text \<open>The global options write to their own structure.\<close>

lemma global_options_keep:
  assumes "eacli = Command n g cs a" "\<And>f c. F (cx_global_update f c) = F c"
  shows "F (fold (assign_given g) gv c) = F c"
  by (rule fold_line_keeps) (use assms in \<open>auto simp: eacli_def option_defs\<close>)

text \<open>The structure of \<open>config create\<close> and \<open>config get\<close> when they run.\<close>

abbreviation config_line :: "(string \<times> opt_value) list \<Rightarrow> line \<Rightarrow> line" where
  "config_line gv0 l \<equiv> Line ''eacli'' gv0 [Line ''discovery'' [] [Line ''config'' [] [l]]]"

lemma config_line_conforms:
  assumes "conforms eacli (config_line gv0 l)" "line_name l = command_name k"
    "k \<in> {config_create_command, config_get_command}"
  shows "conforms k l"
proof -
  from assms(1) have "conforms setup_discovery_cmd (Line ''discovery'' [] [Line ''config'' [] [l]])"
    unfolding eacli_def by (auto dest!: conforms_child simp del: conforms.simps)
  then have "conforms setup_config_cmd (Line ''config'' [] [l])"
    unfolding setup_discovery_cmd_def Let_def by (auto dest!: conforms_child simp del: conforms.simps)
  with assms(2,3) show ?thesis
    unfolding setup_config_cmd_def Let_def by (auto dest!: conforms_child simp del: conforms.simps)
qed

lemma config_line_context:
  assumes k: "k \<in> {config_create_command, config_get_command}" "command_name k = line_name l"
  obtains c0 where
    "cx_config c0 = static_config_options\<lparr>co_config_type := ''json'', co_config_watch_dir := ''watch_config''\<rparr>"
    "line_context (config_line gv0 l) = assign_line k l c0"
proof -
  obtain n g cs a where eacli: "eacli = Command n g cs a" by (cases eacli)
  then have cs: "cs = [setup_raft_cmd, setup_discovery_cmd]" by (simp add: eacli_def)
  from k have n: "k = config_create_command \<and> line_name l = ''create'' \<or> k = config_get_command \<and> line_name l = ''get''"
    by auto
  define c0 where "c0 = fold (assign_given g) gv0 (assign_defaults eacli static_context)"
  have "cx_config c0 = cx_config (assign_defaults eacli static_context)"
    unfolding c0_def by (rule global_options_keep [OF eacli]) simp
  then have at: "cx_config c0 = static_config_options\<lparr>co_config_type := ''json'', co_config_watch_dir := ''watch_config''\<rparr>"
    unfolding start_context by (simp add: static_context_def)
  have "line_context (config_line gv0 l) = assign_line setup_discovery_cmd (Line ''discovery'' [] [Line ''config'' [] [l]]) c0"
    unfolding line_context_def c0_def by (subst eacli) (simp add: cs)
  also have "\<dots> = assign_line setup_config_cmd (Line ''config'' [] [l]) c0"
    by (subst setup_discovery_cmd_def) (simp add: Let_def)
  also have "\<dots> = assign_line k l c0"
    by (rule disjE [OF n]; subst setup_config_cmd_def) (simp_all add: Let_def)
  finally show ?thesis using that at by blast
qed

text \<open>What its options then are folded over.\<close>

lemma config_line_run:
  assumes "conforms eacli (config_line gv0 (Line n gv []))" "k \<in> {config_create_command, config_get_command}"
    "k = Command n g [] a"
  obtains c0 where
    "cx_config c0 = static_config_options\<lparr>co_config_type := ''json'', co_config_watch_dir := ''watch_config''\<rparr>"
    "line_context (config_line gv0 (Line n gv [])) = fold (assign_given g) gv c0" "distinct (map fst gv)" "list_all (declared g) gv"
proof -
  obtain c0 where "cx_config c0 = static_config_options\<lparr>co_config_type := ''json'', co_config_watch_dir := ''watch_config''\<rparr>"
    "line_context (config_line gv0 (Line n gv [])) = assign_line k (Line n gv []) c0"
    by (rule config_line_context [OF assms(2), of "Line n gv []" gv0]) (simp add: assms(3))
  moreover have "conforms k (Line n gv [])"
    by (rule config_line_conforms [OF assms(1) _ assms(2)]) (simp add: assms(3))
  ultimately show ?thesis using that unfolding assms(3) by simp
qed

section \<open>The id commands\<close>

abbreviation atomic_line :: "(string \<times> opt_value) list \<Rightarrow> line \<Rightarrow> line" where
  "atomic_line gv0 l \<equiv> Line ''eacli'' gv0 [Line ''discovery'' [] [Line ''atomic'' [] [l]]]"

lemma atomic_line_conforms:
  assumes "conforms eacli (atomic_line gv0 l)"
  shows "conforms setup_atomic_cmd (Line ''atomic'' [] [l])"
proof -
  from assms have "conforms setup_discovery_cmd (Line ''discovery'' [] [Line ''atomic'' [] [l]])"
    unfolding eacli_def by (auto dest!: conforms_child simp del: conforms.simps)
  then show ?thesis
    unfolding setup_discovery_cmd_def Let_def by (auto dest!: conforms_child simp del: conforms.simps)
qed

lemma update_line_conforms:
  "conforms eacli (atomic_line gv0 (Line ''update'' gv [])) \<Longrightarrow> conforms atomic_update_command (Line ''update'' gv [])"
  by (drule atomic_line_conforms) (auto simp: setup_atomic_cmd_def Let_def dest!: conforms_child simp del: conforms.simps)

lemma gen_line_conforms:
  "conforms eacli (atomic_line gv0 (Line ''gen'' gv [])) \<Longrightarrow> conforms atomic_gen_command (Line ''gen'' gv [])"
  by (drule atomic_line_conforms) (auto simp: setup_atomic_cmd_def Let_def dest!: conforms_child simp del: conforms.simps)

text \<open>An id command starts with its structure as it was: the options before it write elsewhere.\<close>

lemma atomic_line_context:
  assumes k: "k \<in> {atomic_gen_command, atomic_update_command}" "command_name k = line_name l"
  obtains c0 where "cx_atomic c0 = static_atomic_options" "line_context (atomic_line gv0 l) = assign_line k l c0"
proof -
  obtain n g cs a where eacli: "eacli = Command n g cs a" by (cases eacli)
  then have cs: "cs = [setup_raft_cmd, setup_discovery_cmd]" by (simp add: eacli_def)
  from k have n: "k = atomic_gen_command \<and> line_name l = ''gen'' \<or> k = atomic_update_command \<and> line_name l = ''update''"
    by auto
  define c0 where "c0 = fold (assign_given g) gv0 (assign_defaults eacli static_context)"
  have "cx_atomic c0 = cx_atomic (assign_defaults eacli static_context)"
    unfolding c0_def by (rule global_options_keep [OF eacli]) simp
  then have at: "cx_atomic c0 = static_atomic_options" unfolding start_context by (simp add: static_context_def)
  have "line_context (atomic_line gv0 l) = assign_line setup_discovery_cmd (Line ''discovery'' [] [Line ''atomic'' [] [l]]) c0"
    unfolding line_context_def c0_def by (subst eacli) (simp add: cs)
  also have "\<dots> = assign_line setup_atomic_cmd (Line ''atomic'' [] [l]) c0"
    by (subst setup_discovery_cmd_def) (simp add: Let_def)
  also have "\<dots> = assign_line k l c0"
    by (rule disjE [OF n]; subst setup_atomic_cmd_def) (simp_all add: Let_def)
  finally show ?thesis using that at by blast
qed

lemma atomic_line_run:
  assumes "conforms k (Line n gv [])" "k \<in> {atomic_gen_command, atomic_update_command}" "k = Command n g [] a"
  obtains c0 where "cx_atomic c0 = static_atomic_options"
    "line_context (atomic_line gv0 (Line n gv [])) = fold (assign_given g) gv c0" "distinct (map fst gv)" "list_all (declared g) gv"
proof -
  obtain c0 where "cx_atomic c0 = static_atomic_options"
    "line_context (atomic_line gv0 (Line n gv [])) = assign_line k (Line n gv []) c0"
    by (rule atomic_line_context [OF assms(2), of "Line n gv []" gv0]) (simp add: assms(3))
  with assms(1) show ?thesis using that unfolding assms(3) by simp
qed

text \<open>
  What \<open>update\<close> and \<open>gen\<close> are given: the servlet, and exactly one of the id and the count. What was not
  given keeps its zero.
\<close>

lemma id_line_given:
  assumes k: "k \<in> {atomic_gen_command, atomic_update_command}" and conf: "conforms k (Line (command_name k) gv [])"
  shows "map_of gv ''-a'' = Some (OInt (opt_int gv ''-a''))"
    "map_of gv ''-i'' = Some (OInt (opt_int gv ''-i'')) \<and> map_of gv ''-c'' = None \<or>
     map_of gv ''-i'' = None \<and> map_of gv ''-c'' = Some (OInt (opt_int gv ''-c''))"
proof -
  obtain n g cs a where g: "k = Command n g cs a" by (cases k)
  from conf have c: "list_all (declared g) gv" "group_met gv g" unfolding g by simp_all
  have int: "map_of gv x \<noteq> None \<Longrightarrow> map_of gv x = Some (OInt (opt_int gv x))" if "x \<in> {''-a'', ''-i'', ''-c''}" for x
    by (rule given_int [OF c(1)])
      (use k g that in \<open>auto simp: atomic_update_command_def atomic_gen_command_def option_defs\<close>)
  have met: "map_of gv ''-a'' \<noteq> None" "(map_of gv ''-i'' \<noteq> None) \<noteq> (map_of gv ''-c'' \<noteq> None)"
    using c(2) k g by (auto simp: atomic_update_command_def atomic_gen_command_def option_defs given_iff group_count_def
        group_used_def split: if_splits)
  show "map_of gv ''-a'' = Some (OInt (opt_int gv ''-a''))" using met(1) int by blast
  show "map_of gv ''-i'' = Some (OInt (opt_int gv ''-i'')) \<and> map_of gv ''-c'' = None \<or>
     map_of gv ''-i'' = None \<and> map_of gv ''-c'' = Some (OInt (opt_int gv ''-c''))"
    using met(2) int by blast
qed

lemma update_line_context:
  assumes "conforms eacli (atomic_line gv0 (Line ''update'' gv []))"
  shows "cx_atomic (line_context (atomic_line gv0 (Line ''update'' gv []))) =
    \<lparr>ao_servlet_id = opt_int gv ''-a'', ao_start_id = opt_int gv ''-i'', ao_count = 0, ao_increment = opt_int gv ''-c'',
     ao_force = (if map_of gv ''-f'' = Some (OBool True) then 1 else 0)\<rparr>" (is "?o = _")
proof -
  obtain g where k: "atomic_update_command = Command ''update'' g [] Atomic_update" by (simp add: atomic_update_command_def)
  have dis: "distinct (map od_key (group_options g))" using k by (auto simp: atomic_update_command_def option_defs)
  obtain c0 where c0: "cx_atomic c0 = static_atomic_options"
      "line_context (atomic_line gv0 (Line ''update'' gv [])) = fold (assign_given g) gv c0"
    and c: "distinct (map fst gv)" "list_all (declared g) gv"
    by (rule atomic_line_run [OF update_line_conforms [OF assms] _ k]) simp
  note C = arg_cong [OF c0(2), of cx_atomic]
  have o_def: "group_options g = group_options (case atomic_update_command of Command n g cs a \<Rightarrow> g)" by (simp add: k)
  note ints = fold_line_int [OF _ c dis, where c = c0] and opts = o_def atomic_update_command_def option_defs
  have "ao_servlet_id ?o = opt_int gv ''-a''" unfolding C
    by (rule ints [where F = "\<lambda>c. ao_servlet_id (cx_atomic c)"]) (simp_all add: opts c0 static_atomic_options_def)
  moreover have "ao_start_id ?o = opt_int gv ''-i''" unfolding C
    by (rule ints [where F = "\<lambda>c. ao_start_id (cx_atomic c)"]) (simp_all add: opts c0 static_atomic_options_def)
  moreover have "ao_increment ?o = opt_int gv ''-c''" unfolding C
    by (rule ints [where F = "\<lambda>c. ao_increment (cx_atomic c)"]) (simp_all add: opts c0 static_atomic_options_def)
  moreover have "ao_count ?o = ao_count (cx_atomic c0)" unfolding C
    by (rule fold_line_keeps [where F = "\<lambda>c. ao_count (cx_atomic c)"]) (simp add: opts)
  moreover have "ao_force ?o = (case map_of gv ''-f'' of None \<Rightarrow> ao_force (cx_atomic c0)
      | Some v \<Rightarrow> if v = OBool True then 1 else 0)" unfolding C
    by (rule fold_line_field [OF _ _ c dis, where F = "\<lambda>c. ao_force (cx_atomic c)"])
      (auto simp: opts assign_cases split: opt_value.splits if_splits)
  ultimately show ?thesis using c0(1) by (auto simp: static_atomic_options_def split: option.splits)
qed

lemma gen_line_context:
  assumes "conforms eacli (atomic_line gv0 (Line ''gen'' gv []))"
  shows "cx_atomic (line_context (atomic_line gv0 (Line ''gen'' gv []))) =
    \<lparr>ao_servlet_id = opt_int gv ''-a'', ao_start_id = opt_int gv ''-i'', ao_count = opt_int gv ''-c'', ao_increment = 0,
     ao_force = 0\<rparr>" (is "?o = _")
proof -
  obtain g where k: "atomic_gen_command = Command ''gen'' g [] Atomic_gen" by (simp add: atomic_gen_command_def)
  have dis: "distinct (map od_key (group_options g))" using k by (auto simp: atomic_gen_command_def option_defs)
  obtain c0 where c0: "cx_atomic c0 = static_atomic_options"
      "line_context (atomic_line gv0 (Line ''gen'' gv [])) = fold (assign_given g) gv c0"
    and c: "distinct (map fst gv)" "list_all (declared g) gv"
    by (rule atomic_line_run [OF gen_line_conforms [OF assms] _ k]) simp
  note C = arg_cong [OF c0(2), of cx_atomic]
  have o_def: "group_options g = group_options (case atomic_gen_command of Command n g cs a \<Rightarrow> g)" by (simp add: k)
  note ints = fold_line_int [OF _ c dis, where c = c0] and opts = o_def atomic_gen_command_def option_defs
  have "ao_servlet_id ?o = opt_int gv ''-a''" unfolding C
    by (rule ints [where F = "\<lambda>c. ao_servlet_id (cx_atomic c)"]) (simp_all add: opts c0 static_atomic_options_def)
  moreover have "ao_start_id ?o = opt_int gv ''-i''" unfolding C
    by (rule ints [where F = "\<lambda>c. ao_start_id (cx_atomic c)"]) (simp_all add: opts c0 static_atomic_options_def)
  moreover have "ao_count ?o = opt_int gv ''-c''" unfolding C
    by (rule ints [where F = "\<lambda>c. ao_count (cx_atomic c)"]) (simp_all add: opts c0 static_atomic_options_def)
  moreover have "(ao_increment ?o, ao_force ?o) = (ao_increment (cx_atomic c0), ao_force (cx_atomic c0))" unfolding C
    by (rule fold_line_keeps [where F = "\<lambda>c. (ao_increment (cx_atomic c), ao_force (cx_atomic c))"]) (simp add: opts)
  ultimately show ?thesis using c0(1) by (auto simp: static_atomic_options_def)
qed

text \<open>
  A line \<open>atomic gen\<close> with an id is answered an empty range: the request then carries no count. The
  counter is raised above the id.
\<close>

lemma gen_by_id_is_empty:
  assumes "conforms eacli (atomic_line gv0 (Line ''gen'' gv []))" "map_of gv ''-i'' = Some v"
    "o1 = cx_atomic (line_context (atomic_line gv0 (Line ''gen'' gv [])))"
    "auto_apply (atomic_gen_request o1) (Some r0) m = (Some r1, m')" "rs_errcode r1 = SUCCESS"
  shows "rs_start_id r1 = rs_end_id r1 \<and> m' (ao_servlet_id o1) = Some (rs_end_id r1)"
proof -
  have "map_of gv ''-c'' = None"
    using id_line_given(2) [of atomic_gen_command gv] gen_line_conforms [OF assms(1)] assms(2) by auto
  then have "ao_count o1 = 0" unfolding assms(3) gen_line_context [OF assms(1)] by (simp add: opt_int_def)
  with assms(4,5) show ?thesis
    by (auto simp: atomic_gen_request_def atomic_request_def auto_apply_def gen_id_def auto_increment_of_def
        empty_request_def Let_def answer_success_def split: option.splits if_splits)
qed

text \<open>
  C21: an accepted line \<open>eacli discovery atomic update\<close> names one servlet and exactly one of an id and a
  count, and for a servlet that has a counter the replicated machine does what the line says: an id puts
  the counter one above it, unless that would lower the counter and the line does not force it; a count
  is added to it; zero is refused, since the command takes it for an option that was not given. A
  refusal changes nothing, and no other servlet's counter changes. The requests with both or neither of the two
  that the machine refuses never come from an accepted line with a number other than zero.
\<close>

theorem atomic_update_line:
  assumes "conforms eacli l" "l = atomic_line gv0 (Line ''update'' gv [])"
    "o1 = cx_atomic (line_context l)" "m (ao_servlet_id o1) = Some old"
    "auto_apply (atomic_update_request o1) (Some r0) m = (Some r1, m')"
  shows "\<exists>sid v. map_of gv ''-a'' = Some (OInt sid) \<and>
    (map_of gv ''-i'' = Some (OInt v) \<and> map_of gv ''-c'' = None \<and>
       (if v = 0 \<or> word_of_int v + 1 < old \<and> map_of gv ''-f'' \<noteq> Some (OBool True)
        then rs_errcode r1 = INPUT_PARAM_ERROR \<and> m' = m
        else rs_errcode r1 = SUCCESS \<and> m' = m(sid \<mapsto> word_of_int v + 1)) \<or>
     map_of gv ''-c'' = Some (OInt v) \<and> map_of gv ''-i'' = None \<and>
       (if v = 0 then rs_errcode r1 = INPUT_PARAM_ERROR \<and> m' = m
        else rs_errcode r1 = SUCCESS \<and> m' = m(sid \<mapsto> old + word_of_int v)))"
proof -
  note conf = assms(1) [unfolded assms(2)]
  have con: "conforms atomic_update_command (Line (command_name atomic_update_command) gv [])"
    using update_line_conforms [OF conf] by simp
  note giv = id_line_given [OF _ con, simplified]
  have o1: "o1 = \<lparr>ao_servlet_id = opt_int gv ''-a'', ao_start_id = opt_int gv ''-i'', ao_count = 0,
      ao_increment = opt_int gv ''-c'', ao_force = (if map_of gv ''-f'' = Some (OBool True) then 1 else 0)\<rparr>"
    unfolding assms(3,2) by (rule update_line_context [OF conf])
  have absent: "map_of gv x = None \<Longrightarrow> opt_int gv x = 0" for x by (simp add: opt_int_def)
  note run = assms(5) [unfolded atomic_update_request_def atomic_request_def auto_apply_def auto_update_def auto_increment_of_def]
  from giv(2) show ?thesis
  proof (elim disjE conjE)
    assume "map_of gv ''-i'' = Some (OInt (opt_int gv ''-i''))" "map_of gv ''-c'' = None"
    with giv(1) absent [of "''-c''"] run assms(4) o1 show ?thesis
      by (auto simp: Let_def empty_request_def start_id_def answer_success_def empty_AutoIncrementInfo_def split: if_splits)
  next
    assume "map_of gv ''-i'' = None" "map_of gv ''-c'' = Some (OInt (opt_int gv ''-c''))"
    with giv(1) absent [of "''-i''"] run assms(4) o1 show ?thesis
      by (auto simp: Let_def empty_request_def increment_id_def answer_success_def empty_AutoIncrementInfo_def split: if_splits)
  qed
qed

definition demo_update_line :: line where
  "demo_update_line = atomic_line [(''-R'', OInt 5)] (Line ''update'' [(''-a'', OInt 7), (''-i'', OInt 9)] [])"

lemma demo_update_line_conforms: "conforms eacli demo_update_line"
proof -
  let ?u = "Line ''update'' [(''-a'', OInt 7), (''-i'', OInt 9)] []"
  have u: "conforms atomic_update_command ?u"
    by (simp add: atomic_update_command_def option_defs declared_def given_def group_count_def group_used_def)
  have "conforms setup_atomic_cmd (Line ''atomic'' [] [?u])"
    unfolding setup_atomic_cmd_def Let_def using u by (simp add: option_defs del: One_nat_def)
  then have "conforms setup_discovery_cmd (Line ''discovery'' [] [Line ''atomic'' [] [?u]])"
    unfolding setup_discovery_cmd_def Let_def by simp
  then show ?thesis
    unfolding demo_update_line_def eacli_def by (simp add: option_defs declared_def)
qed

lemma atomic_update_line_witness:
  "\<exists>r1. auto_apply (atomic_update_request (cx_atomic (line_context demo_update_line))) (Some empty_response) [7 \<mapsto> 5] =
     (Some r1, [7 \<mapsto> 10]) \<and> rs_errcode r1 = SUCCESS"
proof -
  let ?o = "cx_atomic (line_context demo_update_line)"
  have o: "?o = \<lparr>ao_servlet_id = 7, ao_start_id = 9, ao_count = 0, ao_increment = 0, ao_force = 0\<rparr>"
    using update_line_context [OF demo_update_line_conforms [unfolded demo_update_line_def]]
    by (simp add: demo_update_line_def opt_int_def)
  obtain r1 m' where a: "auto_apply (atomic_update_request ?o) (Some empty_response) [7 \<mapsto> 5] = (Some r1, m')"
    by (simp add: o atomic_update_request_def atomic_request_def auto_apply_def auto_update_def auto_increment_of_def
        empty_request_def empty_AutoIncrementInfo_def start_id_def Let_def answer_success_def)
  from atomic_update_line [OF demo_update_line_conforms demo_update_line_def refl _ a] a show ?thesis
    by (auto simp: o)
qed

end
