(* ===== verification/CliPublish.thy ===== *)
theory CliPublish
  imports CliLines CliProperties
begin

text \<open>
  Two lines of the command line after each other, through the client, the dispatch, the state machine,
  the queries and the disk: what \<open>config create\<close> publishes, \<open>config get\<close> writes to a file.
\<close>

lemma create_line_context:
  assumes "conforms eacli (config_line gv0 (Line ''create'' gv []))"
  shows "cx_config (line_context (config_line gv0 (Line ''create'' gv []))) =
    static_config_options\<lparr>co_config_name := opt_str [] gv ''-n'', co_config_data := opt_str [] gv ''-d'',
      co_config_file := opt_str [] gv ''-f'', co_config_version := opt_str [] gv ''-v'',
      co_config_type := opt_str ''json'' gv ''-t'', co_config_json := opt_str [] gv ''-j'',
      co_config_watch_dir := ''watch_config''\<rparr>" (is "?o = _")
proof -
  obtain g where k: "config_create_command = Command ''create'' g [] Config_create" by (simp add: config_create_command_def)
  have dis: "distinct (map od_key (group_options g))" using k by (auto simp: config_create_command_def option_defs)
  obtain c0 where c0: "cx_config c0 = static_config_options\<lparr>co_config_type := ''json'', co_config_watch_dir := ''watch_config''\<rparr>"
      "line_context (config_line gv0 (Line ''create'' gv [])) = fold (assign_given g) gv c0"
    and c: "distinct (map fst gv)" "list_all (declared g) gv"
    by (rule config_line_run [OF assms _ k]) simp
  note C = arg_cong [OF c0(2), of cx_config]
  have o_def: "group_options g = group_options (case config_create_command of Command n g cs a \<Rightarrow> g)" by (simp add: k)
  note strs = fold_line_str [OF _ c dis, where c = c0] and opts = o_def config_create_command_def option_defs
  have "co_config_name ?o = opt_str (co_config_name (cx_config c0)) gv ''-n''" unfolding C
    by (rule strs [where F = "\<lambda>c. co_config_name (cx_config c)"]) (simp add: opts)
  moreover have "co_config_data ?o = opt_str (co_config_data (cx_config c0)) gv ''-d''" unfolding C
    by (rule strs [where F = "\<lambda>c. co_config_data (cx_config c)"]) (simp add: opts)
  moreover have "co_config_file ?o = opt_str (co_config_file (cx_config c0)) gv ''-f''" unfolding C
    by (rule strs [where F = "\<lambda>c. co_config_file (cx_config c)"]) (simp add: opts)
  moreover have "co_config_version ?o = opt_str (co_config_version (cx_config c0)) gv ''-v''" unfolding C
    by (rule strs [where F = "\<lambda>c. co_config_version (cx_config c)"]) (simp add: opts)
  moreover have "co_config_type ?o = opt_str (co_config_type (cx_config c0)) gv ''-t''" unfolding C
    by (rule strs [where F = "\<lambda>c. co_config_type (cx_config c)"]) (simp add: opts)
  moreover have "co_config_json ?o = opt_str (co_config_json (cx_config c0)) gv ''-j''" unfolding C
    by (rule strs [where F = "\<lambda>c. co_config_json (cx_config c)"]) (simp add: opts)
  moreover have "(\<lambda>o1. (co_config_example o1, co_config_watch_list o1, co_config_watch_dir o1, co_clean_local o1)) ?o =
      (\<lambda>o1. (co_config_example o1, co_config_watch_list o1, co_config_watch_dir o1, co_clean_local o1)) (cx_config c0)" unfolding C
    by (rule fold_line_keeps) (simp add: opts)
  ultimately show ?thesis unfolding c0(1) by (simp add: static_config_options_def)
qed

lemma get_line_context:
  assumes "conforms eacli (config_line gv0 (Line ''get'' gv []))"
  shows "cx_config (line_context (config_line gv0 (Line ''get'' gv []))) =
    static_config_options\<lparr>co_config_name := opt_str [] gv ''-n'', co_config_version := opt_str [] gv ''-v'',
      co_config_file := opt_str [] gv ''-o'', co_config_type := ''json'', co_config_watch_dir := ''watch_config''\<rparr>"
    (is "?o = _")
proof -
  obtain g where k: "config_get_command = Command ''get'' g [] Config_get" by (simp add: config_get_command_def)
  have dis: "distinct (map od_key (group_options g))" using k by (auto simp: config_get_command_def option_defs)
  obtain c0 where c0: "cx_config c0 = static_config_options\<lparr>co_config_type := ''json'', co_config_watch_dir := ''watch_config''\<rparr>"
      "line_context (config_line gv0 (Line ''get'' gv [])) = fold (assign_given g) gv c0"
    and c: "distinct (map fst gv)" "list_all (declared g) gv"
    by (rule config_line_run [OF assms _ k]) simp
  note C = arg_cong [OF c0(2), of cx_config]
  have o_def: "group_options g = group_options (case config_get_command of Command n g cs a \<Rightarrow> g)" by (simp add: k)
  note strs = fold_line_str [OF _ c dis, where c = c0] and opts = o_def config_get_command_def option_defs
  have "co_config_name ?o = opt_str (co_config_name (cx_config c0)) gv ''-n''" unfolding C
    by (rule strs [where F = "\<lambda>c. co_config_name (cx_config c)"]) (simp add: opts)
  moreover have "co_config_version ?o = opt_str (co_config_version (cx_config c0)) gv ''-v''" unfolding C
    by (rule strs [where F = "\<lambda>c. co_config_version (cx_config c)"]) (simp add: opts)
  moreover have "co_config_file ?o = opt_str (co_config_file (cx_config c0)) gv ''-o''" unfolding C
    by (rule strs [where F = "\<lambda>c. co_config_file (cx_config c)"]) (simp add: opts)
  moreover have "(\<lambda>o1. (co_config_data o1, co_config_type o1, co_config_json o1, co_config_example o1,
        co_config_watch_list o1, co_config_watch_dir o1, co_clean_local o1)) ?o =
      (\<lambda>o1. (co_config_data o1, co_config_type o1, co_config_json o1, co_config_example o1,
        co_config_watch_list o1, co_config_watch_dir o1, co_clean_local o1)) (cx_config c0)" unfolding C
    by (rule fold_line_keeps) (simp add: opts)
  ultimately show ?thesis unfolding c0(1) by (simp add: static_config_options_def)
qed

lemma ask_query: "ask M retry q s = (Inr r, s') \<Longrightarrow> send_query M retry q s = (Inr r, s') \<and> dr_errcode r = SUCCESS"
  by (cases "send_query M retry q s") (auto simp: ask_def then_do_def split: prod.splits sum.splits if_splits)

text \<open>What the rows of a command say of its request.\<close>

lemma create_shown_ok:
  assumes "run_config_create_cmd C opt leader_of M fs o1 s = (rows, s')" "(''result'', c, True) \<in> set rows"
    "make_config_create C fs o1 = Inr rq"
  shows "\<exists>r. send_manager M None rq s = (Inr r, s') \<and> rs_errcode r = SUCCESS"
  using assms by (auto simp: run_config_create_cmd_def run_client_manager_def prepare_phase_sends
      split: prod.splits sum.splits)

text \<open>
  C7: a configuration published by one line of the command line is fetched by another: when an accepted
  \<open>eacli discovery config create\<close> with a name, a text and a version (and a type, which is json if none
  is given) shows a result that went well, then the version is above all the name had, and an accepted \<open>config get\<close> of
  the name, of this version or of the latest, writes exactly the text to the file it is given, leaves
  every other file and the server as they were, and shows version, type and size of what was
  published.
\<close>

theorem config_created_then_got:
  assumes "env_ok E" "config_inv s" "M = direct_sender E parse V Q W" "turbo_ok (turbo (cli_client C))"
    "disk_ok (local_disk (cli_client C))" "int64_range (v_major v)" "int64_range (v_minor v)" "int64_range (v_patch v)"
    "info = empty_ConfigInfo\<lparr>c_name := Some name, c_content := Some content, c_version := Some v, c_type := t\<rparr>"
    "rq = (empty_request OP_CREATE_CONFIG)\<lparr>rq_config_info := Some info\<rparr>" "parse (fst (serialize V rq)) = Some rq"
    and create: "conforms eacli l1" "l1 = config_line gv0 (Line ''create'' gv1 [])" "map_of gv1 ''-n'' = Some (OString name)"
      "map_of gv1 ''-d'' = Some (OString content)" "map_of gv1 ''-v'' = Some (OString (version_to_string v))"
      "opt_str ''json'' gv1 ''-t'' = config_type_to_string t"
      "run_config_create_cmd C opt1 leader_of M fs (cx_config (line_context l1)) s = (rows, s')"
      "(''result'', c, True) \<in> set rows"
    and get: "conforms eacli l2" "l2 = config_line gv2 (Line ''get'' gv3 [])" "map_of gv3 ''-n'' = Some (OString name)"
      "map_of gv3 ''-v'' \<in> {None, Some (OString (version_to_string v))}" "map_of gv3 ''-o'' = Some (OString path)" "path \<noteq> []"
      "run_config_get_cmd C opt2 leader_of M (cx_config (line_context l2)) fs s' = (rows', fs', s'')"
  shows "(\<forall>p \<in> set (versions_of s name). fst p < to_module_version v) \<and> fs' = fs(path \<mapsto> content) \<and> s'' = s' \<and>
    (''summary'', Sub [text_row [''version'', version_text C v], text_row [''type'', cli_config_type_name t],
      text_row [''size'', int_to_string (int (length content))], text_row [''time'', format_time C 0],
      text_row [''file'', path], text_row [''status'', ''ok'']], True) \<in> set rows'"
proof -
  have src: "map_of gv1 ''-j'' = None" "map_of gv1 ''-f'' = None"
    using config_create_line_source [of gv1] config_line_conforms [OF create(1) [unfolded create(2)], of config_create_command] create(4)
    by auto
  have o1: "cx_config (line_context l1) = static_config_options\<lparr>co_config_name := name, co_config_data := content,
      co_config_file := [], co_config_version := version_to_string v, co_config_type := config_type_to_string t,
      co_config_json := [], co_config_watch_dir := ''watch_config''\<rparr>"
    unfolding create(2) create_line_context [OF create(1) [unfolded create(2)]] create(6)
    using create(3-5) src by (simp add: opt_str_def)
  have "make_config_create C fs (cx_config (line_context l1)) = Inr rq"
    unfolding o1 by (simp add: make_config_create_def built_config_def build_from_content_text [OF assms(4,6-8)]
        build_from_content_vt_def ConfigInfoBuilder_set_info_def assms(9,10) Let_def)
  from create_shown_ok [OF create(7,8) this] have made: "create_config_info M info None s = (Inr (), s')"
    by (auto simp: create_config_info_def submit_checked_ok assms(10))
  have fields: "c_name info = Some name" "c_version info = Some v" "c_content info = Some content" "c_type info = t" "c_time info = 0"
    "version_field info = v"
    by (simp_all add: assms(9) empty_ConfigInfo_def version_field_def)
  note read = created_config_read [OF assms(1-3,10,11) fields(1,2) made, of None]
  have o2: "cx_config (line_context l2) = static_config_options\<lparr>co_config_name := name,
      co_config_version := opt_str [] gv3 ''-v'', co_config_file := path, co_config_type := ''json'',
      co_config_watch_dir := ''watch_config''\<rparr>"
    unfolding get(2) get_line_context [OF get(1) [unfolded get(2)]] using get(3,5) by (simp add: opt_str_def)
  let ?r = "query_answer SUCCESS ''success'' (empty_query_response\<lparr>dr_config_infos := [info]\<rparr>)"
  have ver: "cli_string_to_version C (version_to_string v) zero_Version = (Inr (), v)"
    using cli_version_agrees [of C "version_to_string v" zero_Version]
      dotted_round_trip(1) [OF assms(4,6-8), of "version_to_string v" zero_Version]
    by (simp add: version_to_string_def zero_Version_def prod_eq_iff)
  obtain q where q: "make_config_get C (cx_config (line_context l2)) = Inr q" "send_query M None q s' = (Inr ?r, s')"
  proof (cases "opt_str [] gv3 ''-v'' = []")
    case True
    with read that show thesis
      by (force simp: make_config_get_def o2 dest!: ask_query)
  next
    case False
    with get(4) have "opt_str [] gv3 ''-v'' = version_to_string v" by (auto simp: opt_str_def)
    with False read that show thesis
      by (force simp: make_config_get_def o2 ver dest!: ask_query)
  qed
  have "got_config C (cx_config (line_context l2)) ?r fs = (Sub [text_row [''version'', version_text C v],
      text_row [''type'', cli_config_type_name t], text_row [''size'', int_to_string (int (length content))],
      text_row [''time'', format_time C 0], text_row [''file'', path], text_row [''status'', ''ok'']], fs(path \<mapsto> content))"
    using assms(5) get(6) by (simp add: got_config_def save_config_response_def show_query_ops_config_get_response_def o2 fields
        disk_ok_def write_file_ok)
  with q get(7) read show ?thesis by (auto simp: run_config_get_cmd_def Let_def)
qed

definition demo_create_line :: line where
  "demo_create_line = config_line [] (Line ''create''
     [(''-n'', OString ''app''), (''-d'', OString ''text''), (''-v'', OString (version_to_string (demo_v 1 0 0)))] [])"

definition demo_get_line :: line where
  "demo_get_line = config_line [] (Line ''get'' [(''-n'', OString ''app''), (''-o'', OString ''f'')] [])"

lemma config_line_conformsI:
  assumes "conforms k l" "k \<in> {config_create_command, config_get_command}"
  shows "conforms eacli (config_line [] l)"
proof -
  have "conforms setup_config_cmd (Line ''config'' [] [l])"
    unfolding setup_config_cmd_def Let_def using assms by auto
  then have "conforms setup_discovery_cmd (Line ''discovery'' [] [Line ''config'' [] [l]])"
    unfolding setup_discovery_cmd_def Let_def by simp
  then show ?thesis unfolding eacli_def by (simp add: option_defs)
qed

lemma demo_lines_conform: "conforms eacli demo_create_line" "conforms eacli demo_get_line"
proof -
  have "conforms config_create_command (Line ''create''
     [(''-n'', OString ''app''), (''-d'', OString ''text''), (''-v'', OString (version_to_string (demo_v 1 0 0)))] [])"
    by (simp add: config_create_command_def option_defs declared_def given_def group_count_def group_used_def)
  then show "conforms eacli demo_create_line" unfolding demo_create_line_def by (rule config_line_conformsI) simp
  have "conforms config_get_command (Line ''get'' [(''-n'', OString ''app''), (''-o'', OString ''f'')] [])"
    by (simp add: config_get_command_def option_defs declared_def given_def group_count_def group_used_def)
  then show "conforms eacli demo_get_line" unfolding demo_get_line_def by (rule config_line_conformsI) simp
qed

theorem config_created_then_got_witness:
  "\<exists>s' rows. run_config_get_cmd demo_cli default_options (\<lambda>_. []) (demo_direct (\<lambda>d. Some demo_publish) demo_publish_env)
     (cx_config (line_context demo_get_line)) Map.empty s' = (rows, [''f'' \<mapsto> ''text''], s')"
proof -
  let ?M = "demo_direct (\<lambda>d. Some demo_publish) demo_publish_env" and ?v = "demo_v 1 0 0"
  have o1: "cx_config (line_context demo_create_line) = static_config_options\<lparr>co_config_name := ''app'', co_config_data := ''text'',
      co_config_version := version_to_string ?v, co_config_type := ''json'', co_config_watch_dir := ''watch_config''\<rparr>"
    using create_line_context [OF demo_lines_conform(1) [unfolded demo_create_line_def]]
    by (simp add: demo_create_line_def opt_str_def static_config_options_def)
  have K: "turbo_ok (turbo (cli_client demo_cli))" by (simp add: demo_cli_def demo_client_def demo_turbo_ok)
  have int: "int64_range (v_major ?v)" "int64_range (v_minor ?v)" "int64_range (v_patch ?v)" by (simp_all add: int64_range_def)
  have json: "config_type_to_string CF_JSON = ''json''" by (simp add: config_type_to_string_def)
  have "make_config_create demo_cli Map.empty (cx_config (line_context demo_create_line)) = Inr demo_publish"
    using build_from_content_text [OF K int, of "''app''" "''text''" CF_JSON] demo_publish_info
    by (simp add: make_config_create_def built_config_def o1 static_config_options_def json build_from_content_vt_def
        ConfigInfoBuilder_set_info_def demo_publish_def Let_def)
  then obtain s' rows c where run: "run_config_create_cmd demo_cli default_options (\<lambda>_. []) ?M Map.empty
      (cx_config (line_context demo_create_line)) init_state = (rows, s')" "(''result'', c, True) \<in> set rows"
    using demo_publish_sent
    by (fastforce simp: run_config_create_cmd_def run_client_manager_def prepare_phase_sends)
  obtain rows' fs' s'' where got: "run_config_get_cmd demo_cli default_options (\<lambda>_. []) ?M (cx_config (line_context demo_get_line))
      Map.empty s' = (rows', fs', s'')" by (metis prod_cases3)
  have ok: "env_ok demo_publish_env"
    by (simp add: env_ok_def demo_publish_env_def demo_env_def rocks_write_ok_demo table_pb_ok)
  have inv: "config_inv init_state" using dsm_inv_init dsm_invD(8) by blast
  have disk: "disk_ok (local_disk (cli_client demo_cli))" by (simp add: demo_cli_def demo_client_def demo_disk_def disk_ok_def)
  from config_created_then_got [OF ok inv demo_direct_def K disk int demo_publish_info [symmetric] demo_publish_def refl
      demo_lines_conform(1) demo_create_line_def _ _ _ _ run demo_lines_conform(2) demo_get_line_def _ _ _ _ got]
  have "fs' = [''f'' \<mapsto> ''text''] \<and> s'' = s'" by (simp add: opt_str_def json)
  with got show ?thesis by blast
qed

end
