(* ===== verification/Spec2Isabelle.thy ===== *)
theory Spec2Isabelle
  imports SchemaProperties ServletProperties SnapshotRoundTrip AccessProperties CounterProperties ServiceProperties
    CacheProperties WatchProperties ClientProperties RouterService
    BaseProperties MemoryProperties ProcessProperties RocksOptions CliProperties CliPublish
begin

text \<open>
  A verification development of EA (src/ea): a discovery service whose servers replicate a
  directory of namespaces, zones, servlets, instances, users and configurations by raft, the
  client library and the command line that talk to them, the router between them, and the base
  library under all.

  The parts and how they interact. A client builds a request (client/discovery.cc) and gives it to
  a sender (client/discovery_sender.h looks for the leader, client/router_sender.h calls a
  router, which forwards by a discovery sender, discovery/router_service.cc). The server
  (discovery/discovery_server.cc) sends it to a manager's check, and what passes goes to
  raft (\<open>BaseStateMachine::process\<close>). Each replica applies committed entries in \<open>on_apply\<close>
  (discovery/discovery_state_machine.cc), which dispatches to the managers; they keep maps in
  memory and write the meta column family of RocksDB (discovery/discovery_rocksdb.cc over
  storage/rocks_storage.cc). Two more groups count: ids of servlets
  (auto_incr_state_machine.cc) and timestamps (tso_state_machine.cc). Queries read the managers'
  maps. \<open>ConfigClient\<close> reads configurations through the router, keeps them in \<open>ConfigCache\<close> with files
  on disk, and tells watchers of new versions. The command line (cli/eacli.cc) picks a sender; each
  command builds a request from its options, sends it and shows the answer as tables.

  How the code is modelled. A class is a record, its methods functions from the state to the
  result and the state. The managers are one record, extended manager by manager (store,
  \<open>namespace_manager\<close>, \<open>zone_manager\<close>, \<open>servlet_manager\<close>, \<open>instance_manager\<close>, \<open>privilege_manager\<close>,
  \<open>config_manager\<close>, \<open>discovery_state_machine\<close>), so that a handler says by its type what it can touch.
  A handler takes the request, the closure (\<open>None\<close> on a follower) and the state. Errors are values:
  codes in responses, \<open>Inl\<close> of a \<open>turbo::Status\<close> in the client, \<open>-1\<close> where the code returns it. Log
  output is left out. Maps are HOL maps; \<open>std::map\<close> is a sorted association list (\<open>omap_put\<close>),
  \<open>operator[]\<close> the pair \<open>at_or\<close> and \<open>touch\<close>, for it inserts what it does not find. Ids are
  unbounded integers except where the width matters: keys in the store are eight bytes
  (\<open>int64_bytes\<close>), auto increment counters are \<open>64 word\<close>. Code that is not in the repository is an
  argument: protobuf (\<open>env\<close>), RocksDB, braft's node, brpc calls, the JSON library, turbo, the disk and
  the clock; what is relied on is named (\<open>env_ok\<close>, \<open>pb_ok\<close>, \<open>rocks_write_ok\<close>, \<open>json_ok\<close>, \<open>turbo_ok\<close>, \<open>api_ok\<close>)
  and witnessed on concrete values in \<open>DemoWorld\<close> and \<open>ClientDemo\<close>.

  The theories:
  \<^item> \<open>EaPrelude\<close>: containers, byte strings, lemma collections. \<open>Decimal\<close>: numbers as text.
  \<^item> \<open>DiscoveryProto\<close>, \<open>DiscoveryStore\<close>: the messages; keys (discovery_constants.cc) and the store.
  \<^item> \<open>IdRegistry\<close>: the contract of a registry of names and ids, of its mirror in the store and of
    version counters, as locales; the managers interpret them.
  \<^item> \<open>NamespaceManager\<close>, \<open>ZoneManager\<close>, \<open>ServletManager\<close>, \<open>InstanceManager\<close> (with \<open>TimeCost\<close>),
    \<open>PrivilegeManager\<close>, \<open>ConfigManager\<close>, \<open>SchemaChecks\<close>: one manager each, with the invariant of its maps
    and that every handler keeps it.
  \<^item> \<open>RaftMachine\<close>, \<open>DiscoveryStateMachine\<close>: what a replicated machine is (a locale), \<open>on_apply\<close>, the
    invariant \<open>dsm_inv\<close> of all managers together.
  \<^item> \<open>Snapshot\<close>, \<open>SnapshotRoundTrip\<close>: saving, loading, paths, leadership, and that loading rebuilds.
  \<^item> \<open>AutoIncr\<close>, \<open>Tso\<close>: the counting machines; the oracle's asynchronous proposals are events whose
    outcome (committed, lost, failed) is an argument.
  \<^item> \<open>Queries\<close>, \<open>RaftControl\<close>, \<open>ServerDispatch\<close>: the read side, membership and snapshots by hand, dispatch,
    start-up and shutdown.
  \<^item> \<open>ClientUtility\<close>, \<open>ClientBuilders\<close>, \<open>ClientSender\<close>, \<open>DiscoveryClient\<close>, \<open>SchemaClient\<close>: client library.
    \<open>ConfigCache\<close>, \<open>ConfigClient\<close>: cache and watches. \<open>ClientServer\<close>: client and server put together.
    \<open>RouterService\<close>: the router.
  \<^item> \<open>CliShow\<close>, \<open>CliSchema\<close>, \<open>CliUser\<close>, \<open>CliInstance\<close>, \<open>CliRaft\<close>, \<open>CliConfig\<close>: the command line: what its commands
    share (option_context.h, router_interact.h, show_help.h, show_help.cc), then one theory for the
    commands of a few files each: a record of options, the builders \<open>make_...\<close>, the tables \<open>show_...\<close> and the
    commands \<open>run_..._cmd\<close>. A command yields its rows and the state its sender leaves. \<open>CliOptions\<close>: the
    commands and options that eacli.cc and the \<open>setup_*_cmd\<close> functions declare, what an accepted line is
    (\<open>conforms\<close>, the contract of the parser) and what it leaves in the records; \<open>CliLines\<close>: from the line to
    the replicated counter; \<open>CliPublish\<close>: from one line through the servers to the file of another.
  \<^item> \<open>ThreadSafeMap\<close>, \<open>DoubleBuffer\<close>, \<open>Bthread\<close>: ea/base; every step is a critical section, and what
    other threads do in between is an argument or another step. \<open>MemoryProfile\<close>: the memory trackers on a
    heap of counted pointers, their pool and its clean-up thread, as steps of all threads together
    (\<open>mem_act\<close>, \<open>mem_reach\<close>); byte counts are \<open>64 word\<close>. \<open>RocksStorage\<close>: column families, start-up of the
    store, locks. \<open>Flags\<close>, \<open>RocksOptions\<close>: the flags with types and defaults, the log's sinks and the
    options of RocksDB that are set from flags.
  \<^item> \<open>ServerProcess\<close>: \<open>main\<close> (discovery/server.cc) as the calls it makes, the options of the raft nodes, and
    the three machines side by side with all braft does to them (\<open>machine_step\<close>).
  \<^item> The theories named \<open>...Properties\<close> state what the parts promise, each with a witness.

  What the lemmas show. Invariants: every reachable directory is consistent and mirrored in RocksDB;
  physical timestamps stay below the stored save point; queries change nothing. Replication: replicas
  that apply the same entries agree, in any batches (with the exception the clock makes in
  \<open>add_instance\<close>), and a snapshot rebuilds the state. Safety: ids, id ranges and timestamps are never
  given twice, under named conditions on the clock. Refinement: privileges, configurations, the cache
  and the sharded map refine finite maps. Client: the leader is found, a success is a server's, what
  is published is read back, a watch is told each version once, a request ends within its tries. Command
  line: an accepted line of the id and configuration commands leaves in the option records what it
  says; what a command builds the server takes, an assigned right is held, a watched version is saved, what one line publishes another writes
  to its file, and an id update does what the line says; two commands can never do what they are for. Some theorems pin down where the code
  does not do what it means to: servlets filed under the wrong id, sibling instances dropped from the
  indexes, configuration keys that collide, timestamps that repeat when the clock falls back.

  Base library and process: memory is accounted for in every interleaving and a clean-up round takes
  exactly what is idle; \<open>main\<close> keeps its order on every path, and never gets up without a snapshot.

  Bounds and fuel. Every loop is structural or has a measure. \<open>gen_tso\<close>'s retries and the senders' tries
  are counted down as in the code; the number of passes is the code's own bound, so no fuel is
  invented. Waiting loops take the list of wake-ups, or of the values they read, and return \<open>None\<close> while
  the thread still waits.

  Not modelled, and why: log output, the formatters that print enums in it (base/proto_helper.h), bvar
  counters and tcmalloc's statistics (effects of third-party libraries); splitting the command line
  into options (turbo::App) and reading the flag file (gflags); plain forwards to RocksDB; mutexes of
  the managers, whose handlers run on raft's one thread. Of the command line: help texts, greeting
  lines and the colours of tables.
\<close>

section \<open>Properties\<close>



end
